(* ===== verification/Prelude.thy ===== *)
theory Prelude
  imports Complex_Main "HOL-Library.Multiset"
begin

text \<open>
  Shared ground of the development: the result type of fallible code and its sequencing
  operator, the value types every component uses (identifiers, instants, amounts), the
  exceptions the program raises or lets through, and the generic list lemmas the table and
  money proofs rest on.
\<close>

section \<open>Proof collections\<close>

named_theorems model_simps \<open>unfolding equations of the small definitions of the model\<close>
named_theorems money_simps \<open>exactness and sign facts of the decimal operations\<close>
named_theorems frame_simps \<open>fields and tables that an operation leaves alone\<close>

section \<open>Value types\<close>

text \<open>
  A UUID is the 128-bit number behind it. An instant is a count of microseconds from a fixed
  origin in UTC, the resolution of a Python \<open>datetime\<close>. A finite \<open>Decimal\<close> is represented by
  its value (theory PyDecimal says why that is enough).
\<close>

type_synonym uuid = int
type_synonym instant = int
type_synonym duration = int
type_synonym dec = rat

abbreviation seconds :: "int \<Rightarrow> duration" where
  "seconds n \<equiv> n * 1000000"

abbreviation minutes :: "int \<Rightarrow> duration" where
  "minutes n \<equiv> seconds (n * 60)"

abbreviation hours :: "int \<Rightarrow> duration" where
  "hours n \<equiv> minutes (n * 60)"

section \<open>Results of code that may raise\<close>

text \<open>
  A call that may raise returns \<open>Inl\<close> of the exception or \<open>Inr\<close> of its value.
  \<open>and_then\<close> runs the rest of the block only when the call returned.
\<close>

definition and_then :: "'e + 'a \<Rightarrow> ('a \<Rightarrow> 'e + 'b) \<Rightarrow> 'e + 'b" where
  "and_then m f = (case m of Inl e \<Rightarrow> Inl e | Inr x \<Rightarrow> f x)"

lemma and_then_Inl [simp]: "and_then (Inl e) f = Inl e"
  by (simp add: and_then_def)

lemma and_then_Inr [simp]: "and_then (Inr x) f = f x"
  by (simp add: and_then_def)

lemma and_then_eq_Inr [simp]:
  "and_then m f = Inr y \<longleftrightarrow> (\<exists>x. m = Inr x \<and> f x = Inr y)"
  by (cases m) simp_all

lemma and_then_eq_Inl:
  "and_then m f = Inl e \<longleftrightarrow> m = Inl e \<or> (\<exists>x. m = Inr x \<and> f x = Inl e)"
  by (cases m) auto

lemma and_then_assoc: "and_then (and_then m f) g = and_then m (\<lambda>x. and_then (f x) g)"
  by (cases m) simp_all

text \<open>\<open>if c: raise e\<close> in front of the rest of a block.\<close>

definition raise_if :: "bool \<Rightarrow> 'e \<Rightarrow> 'e + unit" where
  "raise_if c e = (if c then Inl e else Inr ())"

lemma raise_if_eq [simp]:
  "raise_if c e = Inr u \<longleftrightarrow> \<not> c"
  "raise_if c e = Inl e' \<longleftrightarrow> c \<and> e' = e"
  by (auto simp: raise_if_def)

lemma raise_if_cases [simp]:
  "raise_if True e = Inl e" "raise_if False e = Inr ()"
  by (simp_all add: raise_if_def)

section \<open>Lists as tables\<close>

lemma filter_map_keep:
  "(\<And>x. x \<in> set xs \<Longrightarrow> P (f x) = P x) \<Longrightarrow> filter P (map f xs) = map f (filter P xs)"
  by (induction xs) auto

lemma sum_list_map_cong:
  "(\<And>x. x \<in> set xs \<Longrightarrow> f x = g x) \<Longrightarrow> sum_list (map f xs) = sum_list (map g xs)"
  by (induction xs) auto

lemma find_Some_iff_mem:
  "find P xs = Some x \<Longrightarrow> x \<in> set xs \<and> P x"
  by (induction xs) (auto split: if_splits)

lemma find_None_all:
  "find P xs = None \<longleftrightarrow> (\<forall>x\<in>set xs. \<not> P x)"
  by (induction xs) auto

lemma find_cong_set:
  "(\<And>x. x \<in> set xs \<Longrightarrow> P x = Q x) \<Longrightarrow> find P xs = find Q xs"
  by (induction xs) auto

lemma find_stronger:
  "find Q xs = Some x \<Longrightarrow> P x \<Longrightarrow> (\<And>y. P y \<Longrightarrow> Q y) \<Longrightarrow> find P xs = Some x"
  by (induction xs) (auto split: if_splits)

lemma filter_none: "(\<And>x. x \<in> set xs \<Longrightarrow> \<not> P x) \<Longrightarrow> filter P xs = []"
  by (simp add: filter_False)

text \<open>
  Changing one element of a keyed list moves a sum by the change of that element: the step
  behind every statement about money summed over a table.
\<close>

lemma sum_list_update_one:
  fixes g :: "'r \<Rightarrow> 'm::ab_group_add"
  assumes "distinct (map key xs)" and "r \<in> set xs"
  shows "(\<Sum>x\<leftarrow>xs. g (if key x = key r then f x else x)) = (\<Sum>x\<leftarrow>xs. g x) - g r + g (f r)"
  using assms
proof (induction xs)
  case Nil
  then show ?case by simp
next
  case (Cons y ys)
  show ?case
  proof (cases "y = r")
    case True
    have "\<forall>x\<in>set ys. key x \<noteq> key r"
      using Cons.prems(1) True by (auto simp: image_iff)
    then have "(\<Sum>x\<leftarrow>ys. g (if key x = key r then f x else x)) = (\<Sum>x\<leftarrow>ys. g x)"
      by (intro sum_list_map_cong) simp
    with True show ?thesis by simp
  next
    case False
    with Cons.prems have "r \<in> set ys" by simp
    moreover from this Cons.prems(1) have "key y \<noteq> key r" by (auto simp: image_iff)
    ultimately show ?thesis using Cons.IH Cons.prems(1) by simp
  qed
qed

lemma sum_list_nonneg_elem:
  fixes f :: "'r \<Rightarrow> 'm::ordered_comm_monoid_add"
  assumes "\<And>x. x \<in> set xs \<Longrightarrow> 0 \<le> f x" and "r \<in> set xs"
  shows "f r \<le> (\<Sum>x\<leftarrow>xs. f x)"
  using assms
proof (induction xs)
  case Nil
  then show ?case by simp
next
  case (Cons y ys)
  have nn: "0 \<le> (\<Sum>x\<leftarrow>ys. f x)"
    using Cons.prems(1) by (intro sum_list_nonneg) auto
  show ?case
  proof (cases "y = r")
    case True
    with nn show ?thesis by (simp add: add_increasing2)
  next
    case False
    with Cons.prems(2) have "r \<in> set ys" by simp
    with Cons have "f r \<le> (\<Sum>x\<leftarrow>ys. f x)" by simp
    with Cons.prems(1)[of y] show ?thesis by (simp add: add_increasing)
  qed
qed

end
