(* ===== verification/PyDecimal.thy ===== *)
theory PyDecimal
  imports Prelude
begin

text \<open>
  Python's \<open>decimal\<close> as the program uses it. A finite \<open>Decimal\<close> is modelled by its value, a
  rational: the program compares, adds, multiplies, divides and quantises decimals, and each of
  these depends on the value alone (the coefficient/exponent pair shows only in \<open>str\<close>).
  The default context has 28 significant digits, rounding half to even, with InvalidOperation,
  DivisionByZero and Overflow trapped. Every amount is quantised or read from a
  \<open>Numeric\<close> column of at most 20 digits before arithmetic, so the exponent limits of the
  context (a million digits) are out of reach and are left out.
\<close>

section \<open>Exceptions of the decimal module\<close>

datatype arith_error = InvalidOperation | DivisionByZero

section \<open>Rounding to an integer\<close>

definition round_half_up :: "rat \<Rightarrow> int" where
  "round_half_up x = (if x < 0 then - \<lfloor>1 / 2 - x\<rfloor> else \<lfloor>x + 1 / 2\<rfloor>)"

definition round_half_even :: "rat \<Rightarrow> int" where
  "round_half_even x =
     (let n = \<lfloor>x\<rfloor>; r = x - of_int n
      in if r < 1 / 2 then n else if 1 / 2 < r then n + 1 else if even n then n else n + 1)"

section \<open>The context's precision\<close>

function ndigits :: "int \<Rightarrow> nat" where
  "ndigits n = (if n < 10 then 1 else Suc (ndigits (n div 10)))"
  by pat_completeness auto
termination
  by (relation "measure nat") auto

declare ndigits.simps [simp del]

text \<open>The exponent of the leading digit of a positive rational \<open>p / q\<close>.\<close>

definition lead_exp :: "rat \<Rightarrow> int" where
  "lead_exp x =
     (case quotient_of x of (p, q) \<Rightarrow>
        if q \<le> p then int (ndigits (p div q)) - 1
        else - int (ndigits ((q - 1) div p)))"

text \<open>The result of a context operation: the exact value, rounded to 28 digits.\<close>

definition ctx :: "rat \<Rightarrow> dec" where
  "ctx x = (if x = 0 then 0
            else let u = 10 powi (lead_exp \<bar>x\<bar> - 27)
                 in of_int (round_half_even (x / u)) * u)"

definition dec_add :: "dec \<Rightarrow> dec \<Rightarrow> dec" where
  "dec_add a b = ctx (a + b)"

definition dec_sub :: "dec \<Rightarrow> dec \<Rightarrow> dec" where
  "dec_sub a b = ctx (a - b)"

definition dec_mul :: "dec \<Rightarrow> dec \<Rightarrow> dec" where
  "dec_mul a b = ctx (a * b)"

definition dec_div :: "dec \<Rightarrow> dec \<Rightarrow> arith_error + dec" where
  "dec_div a b = (if b = 0 then Inl (if a = 0 then InvalidOperation else DivisionByZero)
                  else Inr (ctx (a / b)))"

section \<open>Quantising\<close>

text \<open>
  \<open>x.quantize(Decimal('1e-k'), rounding=ROUND_HALF_UP)\<close>: InvalidOperation when the rounded
  coefficient has more than 28 digits.
\<close>

definition to_grid :: "nat \<Rightarrow> rat \<Rightarrow> dec" where
  "to_grid k x = of_int (round_half_up (x * 10 ^ k)) / 10 ^ k"

definition quantize :: "nat \<Rightarrow> dec \<Rightarrow> arith_error + dec" where
  "quantize k x =
     (if \<bar>round_half_up (x * 10 ^ k)\<bar> < 10 ^ 28 then Inr (to_grid k x)
      else Inl InvalidOperation)"

text \<open>
  A \<open>Decimal\<close> read from text may also be infinite (the flag is the sign) or not a number (the
  flag says signalling). An ordering comparison with a NaN signals InvalidOperation, as does
  quantising any of these; \<open>==\<close> is false on a quiet NaN and signals on a signalling one.
\<close>

datatype decimal = Fin dec | Infinite bool | NaN bool

fun quantize_any :: "nat \<Rightarrow> decimal \<Rightarrow> arith_error + dec" where
  "quantize_any k (Fin x) = quantize k x"
| "quantize_any k _ = Inl InvalidOperation"

fun gt_zero :: "decimal \<Rightarrow> arith_error + bool" where
  "gt_zero (Fin x) = Inr (0 < x)"
| "gt_zero (Infinite neg) = Inr (\<not> neg)"
| "gt_zero (NaN _) = Inl InvalidOperation"

fun lt_zero :: "decimal \<Rightarrow> arith_error + bool" where
  "lt_zero (Fin x) = Inr (x < 0)"
| "lt_zero (Infinite neg) = Inr neg"
| "lt_zero (NaN _) = Inl InvalidOperation"

fun equals_dec :: "dec \<Rightarrow> decimal \<Rightarrow> arith_error + bool" where
  "equals_dec x (Fin y) = Inr (x = y)"
| "equals_dec x (Infinite _) = Inr False"
| "equals_dec x (NaN signalling) = (if signalling then Inl InvalidOperation else Inr False)"

fun is_finite :: "decimal \<Rightarrow> bool" where
  "is_finite (Fin _) = True"
| "is_finite _ = False"

section \<open>Decimal columns of the database\<close>

text \<open>
  A \<open>Numeric(p, s)\<close> column holds multiples of \<open>10 powi -s\<close> below \<open>10 ^ (p - s)\<close>. On a write the
  server rounds to scale \<open>s\<close>, half away from zero, and refuses a value that overflows.
\<close>

definition on_grid :: "nat \<Rightarrow> dec \<Rightarrow> bool" where
  "on_grid k x \<longleftrightarrow> of_int \<lfloor>x * 10 ^ k\<rfloor> = x * 10 ^ k"

definition column_value :: "nat \<Rightarrow> nat \<Rightarrow> dec \<Rightarrow> bool" where
  "column_value p s x \<longleftrightarrow> on_grid s x \<and> \<bar>x\<bar> < 10 ^ (p - s)"

definition store_numeric :: "nat \<Rightarrow> nat \<Rightarrow> dec \<Rightarrow> dec option" where
  "store_numeric p s x =
     (if \<bar>to_grid s x\<bar> < 10 ^ (p - s) then Some (to_grid s x) else None)"

section \<open>Rounding to an integer: laws\<close>

lemma round_half_up_of_int [simp]: "round_half_up (of_int n) = n"
  unfolding round_half_up_def by (auto simp: floor_eq_iff)

lemma round_half_up_minus: "round_half_up (- x) = - round_half_up x"
  using floor_unique [of 0 "1 / 2 :: rat"]
  unfolding round_half_up_def by (auto simp: add.commute)

lemma round_half_up_error: "\<bar>of_int (round_half_up x) - x\<bar> \<le> 1 / 2"
proof (cases "x < 0")
  case True
  with floor_correct [of "1 / 2 - x"] show ?thesis
    unfolding round_half_up_def abs_le_iff by (simp only: if_True of_int_minus) linarith
next
  case False
  with floor_correct [of "x + 1 / 2"] show ?thesis
    unfolding round_half_up_def abs_le_iff by (simp only: if_False) linarith
qed

lemma round_half_up_mono: "x \<le> y \<Longrightarrow> round_half_up x \<le> round_half_up y"
  unfolding round_half_up_def by (auto simp: floor_mono) linarith+

lemma round_half_even_of_int [simp]: "round_half_even (of_int n) = n"
  by (simp add: round_half_even_def)

lemma round_half_even_bounds:
  "of_int (round_half_even x) \<le> x + 1 / 2" "x - 1 / 2 \<le> of_int (round_half_even x)"
  unfolding round_half_even_def Let_def by (auto split: if_splits) linarith+

lemma round_half_even_mono:
  assumes "x \<le> y"
  shows "round_half_even x \<le> round_half_even y"
proof (cases "\<lfloor>x\<rfloor> = \<lfloor>y\<rfloor>")
  case True
  with assms show ?thesis unfolding round_half_even_def Let_def by auto
next
  case False
  with assms have "\<lfloor>x\<rfloor> + 1 \<le> \<lfloor>y\<rfloor>" by (simp add: floor_mono order_less_le add1_zle_eq)
  then show ?thesis unfolding round_half_even_def Let_def by auto
qed

lemma round_half_even_minus: "round_half_even (- y) = - round_half_even y"
proof (cases "of_int \<lfloor>y\<rfloor> = y")
  case True
  then show ?thesis by (metis of_int_minus round_half_even_of_int)
next
  case False
  then have "\<lfloor>- y\<rfloor> = - \<lfloor>y\<rfloor> - 1" and "of_int \<lfloor>y\<rfloor> < y" and "y < of_int \<lfloor>y\<rfloor> + 1"
    using floor_correct [of y] by (simp_all add: floor_eq_iff order_less_le)
  then show ?thesis unfolding round_half_even_def Let_def by auto
qed

section \<open>Number of digits\<close>

lemma ndigits_pos: "0 < ndigits n"
  by (subst ndigits.simps) simp

lemma ndigits_upper: "n < 10 ^ ndigits n"
proof (induction n rule: ndigits.induct)
  case (1 n)
  show ?case
  proof (cases "n < 10")
    case True
    then show ?thesis by (subst ndigits.simps) simp
  next
    case False
    with 1 have "n div 10 < 10 ^ ndigits (n div 10)" by simp
    then have "n < 10 * 10 ^ ndigits (n div 10)" by simp
    with False show ?thesis by (subst ndigits.simps) simp
  qed
qed

lemma ndigits_lower: "0 < n \<Longrightarrow> 10 ^ (ndigits n - 1) \<le> n"
proof (induction n rule: ndigits.induct)
  case (1 n)
  show ?case
  proof (cases "n < 10")
    case True
    with 1 show ?thesis by (subst ndigits.simps) simp
  next
    case False
    with 1 have "10 ^ (ndigits (n div 10) - 1) \<le> n div 10" by simp
    then have "10 ^ Suc (ndigits (n div 10) - 1) \<le> n" by simp
    with False ndigits_pos [of "n div 10"] show ?thesis by (subst ndigits.simps) simp
  qed
qed

section \<open>The leading digit\<close>

lemma lead_exp_ge_one:
  assumes "quotient_of x = (p, q)" and "q \<le> p" and "0 < x"
  shows "10 powi lead_exp x \<le> x \<and> x < 10 powi (lead_exp x + 1)"
proof -
  let ?n = "p div q"
  have q: "0 < q" and x: "x = of_int p / of_int q"
    using assms(1) quotient_of_denom_pos quotient_of_div by blast+
  have fl: "\<lfloor>x\<rfloor> = ?n" by (simp add: x floor_divide_of_int_eq)
  have n1: "1 \<le> ?n" using assms(2) q by (simp add: int_one_le_iff_zero_less pos_imp_zdiv_pos_iff)
  have lo: "of_int ?n \<le> x" and hi: "x < of_int ?n + 1"
    using floor_correct [of x] unfolding fl by simp_all
  have "10 ^ (ndigits ?n - 1) \<le> ?n" and "?n + 1 \<le> 10 ^ ndigits ?n"
    using ndigits_lower [of ?n] ndigits_upper [of ?n] n1 by simp_all
  then have "(of_int (10 ^ (ndigits ?n - 1)) :: rat) \<le> of_int ?n"
    and "(of_int (?n + 1) :: rat) \<le> of_int (10 ^ ndigits ?n)"
    by (simp_all only: of_int_le_iff)
  then have "(10::rat) ^ (ndigits ?n - 1) \<le> of_int ?n" and "of_int ?n + 1 \<le> (10::rat) ^ ndigits ?n"
    by (simp_all only: of_int_power of_int_numeral of_int_add of_int_1)
  with lo hi have "10 ^ (ndigits ?n - 1) \<le> x" and "x < 10 ^ ndigits ?n" by linarith+
  moreover have "lead_exp x = int (ndigits ?n - 1)" and "lead_exp x + 1 = int (ndigits ?n)"
    using assms ndigits_pos [of ?n] by (simp_all add: lead_exp_def of_nat_diff)
  ultimately show ?thesis by (simp only: power_int_of_nat)
qed

lemma lead_exp_below_one:
  assumes "quotient_of x = (p, q)" and "p < q" and "0 < x"
  shows "10 powi lead_exp x \<le> x \<and> x < 10 powi (lead_exp x + 1)"
proof -
  let ?m = "(q - 1) div p" and ?k = "ndigits ((q - 1) div p)"
  have q: "0 < q" and x: "x = of_int p / of_int q"
    using assms(1) quotient_of_denom_pos quotient_of_div by blast+
  with assms(3) have p: "0 < p" by (simp add: zero_less_divide_iff)
  have m1: "1 \<le> ?m" using assms(2) p by (simp add: int_one_le_iff_zero_less pos_imp_zdiv_pos_iff)
  have low: "(10::int) ^ (?k - 1) \<le> ?m" and high: "?m + 1 \<le> 10 ^ ?k"
    using ndigits_lower [of ?m] ndigits_upper [of ?m] m1 by simp_all
  have "10 ^ (?k - 1) * p \<le> ?m * p" and "(?m + 1) * p \<le> 10 ^ ?k * p"
    using low high p by (simp_all add: mult_right_mono)
  moreover have "?m * p \<le> q - 1" and "q - 1 < (?m + 1) * p"
    using p pos_mod_bound [of p "q - 1"] pos_mod_sign [of p "q - 1"] div_mult_mod_eq [of "q - 1" p]
    by (simp only: distrib_right; linarith)+
  ultimately have "10 ^ (?k - 1) * p < q" and "q \<le> 10 ^ ?k * p" by linarith+
  then have "(of_int (10 ^ (?k - 1) * p) :: rat) < of_int q" and "(of_int q :: rat) \<le> of_int (10 ^ ?k * p)"
    by (simp_all only: of_int_less_iff of_int_le_iff)
  then have "x < inverse (10 ^ (?k - 1))" and "inverse (10 ^ ?k) \<le> x"
    using q by (simp_all add: x field_simps)
  moreover have "lead_exp x = - int ?k" and "lead_exp x + 1 = - int (?k - 1)"
    using assms ndigits_pos [of ?m] by (simp_all add: lead_exp_def of_nat_diff)
  ultimately show ?thesis by (simp only: power_int_minus power_int_of_nat)
qed

lemma lead_exp_bounds:
  assumes "0 < x"
  shows "10 powi lead_exp x \<le> x" "x < 10 powi (lead_exp x + 1)"
proof -
  obtain p q where pq: "quotient_of x = (p, q)" by fastforce
  then show "10 powi lead_exp x \<le> x" "x < 10 powi (lead_exp x + 1)"
    using assms lead_exp_ge_one [OF pq] lead_exp_below_one [OF pq] by (cases "q \<le> p"; simp)+
qed

section \<open>Rounding as an interface\<close>

text \<open>
  What the money code relies on from any of its rounding steps: it preserves order and zero.
  Sign facts, and the fact that a floor imposed by \<open>max\<close> survives rounding, follow once.
\<close>

locale rounding =
  fixes rnd :: "rat \<Rightarrow> rat"
  assumes rnd_mono: "x \<le> y \<Longrightarrow> rnd x \<le> rnd y"
    and rnd_zero: "rnd 0 = 0"
begin

lemma rnd_nonneg: "0 \<le> x \<Longrightarrow> 0 \<le> rnd x"
  using rnd_mono [of 0 x] by (simp add: rnd_zero)

lemma rnd_nonpos: "x \<le> 0 \<Longrightarrow> rnd x \<le> 0"
  using rnd_mono [of x 0] by (simp add: rnd_zero)

lemma rnd_pos_arg: "0 < rnd x \<Longrightarrow> 0 < x"
  using rnd_nonpos [of x] by linarith

lemma rnd_max: "rnd (max x y) = max (rnd x) (rnd y)"
  using rnd_mono [of x y] rnd_mono [of y x] by (auto simp: max_def)

end

section \<open>Rounding to significant digits\<close>

text \<open>
  What the decimal context and binary floating point share: a non-zero value is rounded half to even
  to \<open>n + 1\<close> digits of base \<open>b\<close>, counted from its leading digit. Values with that many digits are kept,
  order and sign are preserved, and the error is at most half a unit in the last digit.
\<close>

locale digit_rounding =
  fixes b :: int and n :: nat and lead :: "rat \<Rightarrow> int" and rnd :: "rat \<Rightarrow> rat"
  assumes base: "1 < b"
    and lead_lower: "0 < x \<Longrightarrow> of_int b powi lead x \<le> x"
    and lead_upper: "0 < x \<Longrightarrow> x < of_int b powi (lead x + 1)"
    and rnd_eq: "rnd x = (if x = 0 then 0
                 else of_int (round_half_even (x / of_int b powi (lead \<bar>x\<bar> - int n))) * of_int b powi (lead \<bar>x\<bar> - int n))"
begin

abbreviation unit_at :: "rat \<Rightarrow> rat" where
  "unit_at x \<equiv> of_int b powi (lead x - int n)"

lemma base_rat: "1 < (of_int b :: rat)" "0 < (of_int b :: rat)" "(of_int b :: rat) \<noteq> 0"
  using base by simp_all

lemma unit_pos: "0 < unit_at x"
  by (rule zero_less_power_int) (rule base_rat)

lemma unit_split:
  "of_int b powi lead x = of_int (b ^ n) * unit_at x" "of_int b powi (lead x + 1) = of_int (b ^ Suc n) * unit_at x"
  using base_rat(3) by (simp_all add: power_int_add power_int_diff)

lemma powi_less: "of_int b powi j < (of_int b :: rat) powi k \<Longrightarrow> j < k"
  using power_int_increasing [of k j "of_int b :: rat"] base_rat(1) by (meson not_le less_imp_le)

lemma rnd_pos_eq: "0 < x \<Longrightarrow> rnd x = of_int (round_half_even (x / unit_at x)) * unit_at x"
  by (simp add: rnd_eq)

text \<open>A value of at most \<open>n + 1\<close> digits is not rounded at all.\<close>

lemma rnd_exact:
  assumes "\<bar>c\<bar> < b ^ Suc n"
  shows "rnd (of_int c * of_int b powi k) = of_int c * of_int b powi k"
proof (cases "c = 0")
  case True
  then show ?thesis by (simp add: rnd_eq)
next
  case False
  let ?x = "of_int c * of_int b powi k :: rat"
  have p: "0 < (of_int b :: rat) powi k" by (rule zero_less_power_int) (rule base_rat)
  have x0: "0 < \<bar>?x\<bar>" "?x \<noteq> 0" using False base_rat(3) by (simp_all add: zero_less_mult_iff)
  have "(of_int \<bar>c\<bar> :: rat) < of_int (b ^ Suc n)" using assms by (simp only: of_int_less_iff)
  then have "of_int \<bar>c\<bar> * of_int b powi k < of_int b ^ Suc n * (of_int b :: rat) powi k"
    using p by (intro mult_strict_right_mono) simp_all
  also have "of_int b ^ Suc n * (of_int b :: rat) powi k = of_int b powi (int (Suc n) + k)"
    using base_rat(3) by (simp only: power_int_add power_int_of_nat simp_thms)
  finally have "\<bar>?x\<bar> < of_int b powi (int (Suc n) + k)" using p by (simp add: abs_mult)
  then have "of_int b powi lead \<bar>?x\<bar> < (of_int b :: rat) powi (int (Suc n) + k)"
    using lead_lower [OF x0(1)] by linarith
  then have "0 \<le> k - (lead \<bar>?x\<bar> - int n)" using powi_less by fastforce
  then obtain j where "k - (lead \<bar>?x\<bar> - int n) = int j" using nonneg_int_cases by metis
  then have j: "k = int j + (lead \<bar>?x\<bar> - int n)" by simp
  have "of_int b powi k = (of_int b ^ j * unit_at \<bar>?x\<bar> :: rat)"
    using base_rat(3) by (subst j) (simp only: power_int_add power_int_of_nat simp_thms)
  then have x: "?x = of_int (c * b ^ j) * unit_at \<bar>?x\<bar>" by (simp add: mult.assoc)
  then have "?x / unit_at \<bar>?x\<bar> = of_int (c * b ^ j)" using unit_pos [of "\<bar>?x\<bar>"] by (metis less_irrefl nonzero_eq_divide_eq)
  then have "round_half_even (?x / unit_at \<bar>?x\<bar>) = c * b ^ j" by (simp only: round_half_even_of_int)
  then show ?thesis using x0(2) x by (simp only: rnd_eq if_False)
qed

lemma rnd_minus: "rnd (- x) = - rnd x"
  by (simp add: rnd_eq round_half_even_minus)

lemma rnd_pos_bounds:
  assumes "0 < x"
  shows "of_int b powi lead x \<le> rnd x" "rnd x \<le> of_int b powi (lead x + 1)"
proof -
  have "of_int (b ^ n) \<le> x / unit_at x" and "x / unit_at x \<le> of_int (b ^ Suc n)"
    using lead_lower [OF assms] less_imp_le [OF lead_upper [OF assms]] unit_pos [of x]
    unfolding unit_split by (simp_all only: pos_le_divide_eq pos_divide_le_eq)
  then have "b ^ n \<le> round_half_even (x / unit_at x)" and "round_half_even (x / unit_at x) \<le> b ^ Suc n"
    by (metis round_half_even_mono round_half_even_of_int)+
  then have "of_int (b ^ n) * unit_at x \<le> of_int (round_half_even (x / unit_at x)) * unit_at x"
    and "of_int (round_half_even (x / unit_at x)) * unit_at x \<le> of_int (b ^ Suc n) * unit_at x"
    using unit_pos [of x] by (simp_all only: mult_le_cancel_right_pos of_int_le_iff)
  then show "of_int b powi lead x \<le> rnd x" "rnd x \<le> of_int b powi (lead x + 1)"
    unfolding rnd_pos_eq [OF assms] unit_split by simp_all
qed

lemma rnd_mono_pos:
  assumes "0 < x" and "x \<le> y"
  shows "rnd x \<le> rnd y"
proof (cases "lead x = lead y")
  case True
  have "x / unit_at y \<le> y / unit_at y" using assms(2) unit_pos [of y] by (intro divide_right_mono) simp_all
  then have "round_half_even (x / unit_at y) \<le> round_half_even (y / unit_at y)" by (rule round_half_even_mono)
  then show ?thesis
    using assms True unit_pos [of y] by (simp add: rnd_pos_eq)
next
  case False
  have y: "0 < y" using assms by simp
  have "(of_int b :: rat) powi lead x < of_int b powi (lead y + 1)"
    using lead_lower [OF assms(1)] lead_upper [OF y] assms(2) by linarith
  then have "lead x < lead y + 1" by (rule powi_less)
  with False have "(of_int b :: rat) powi (lead x + 1) \<le> of_int b powi lead y"
    using base_rat(1) by (intro power_int_increasing) simp_all
  with rnd_pos_bounds(2) [OF assms(1)] rnd_pos_bounds(1) [OF y] show ?thesis by linarith
qed

lemma rnd_pos: "0 < x \<Longrightarrow> 0 < rnd x"
  using rnd_pos_bounds(1) [of x] zero_less_power_int [OF base_rat(2), of "lead x"] by linarith

lemma rnd_le: "x \<le> y \<Longrightarrow> rnd x \<le> rnd y"
proof -
  assume le: "x \<le> y"
  consider "0 < x" | "x \<le> 0" "0 \<le> y" | "y < 0" by linarith
  then show ?thesis
  proof cases
    case 1
    then show ?thesis using le by (rule rnd_mono_pos)
  next
    case 2
    then have "rnd x \<le> 0" using rnd_pos [of "- x"] by (cases "x = 0") (simp_all add: rnd_minus, simp add: rnd_eq)
    moreover have "0 \<le> rnd y" using 2 rnd_pos [of y] by (cases "y = 0") (simp_all, simp add: rnd_eq)
    ultimately show ?thesis by simp
  next
    case 3
    then show ?thesis using le rnd_mono_pos [of "- y" "- x"] by (simp add: rnd_minus)
  qed
qed

lemma rnd_error:
  assumes "0 < x"
  shows "\<bar>rnd x - x\<bar> \<le> x / (2 * of_int b ^ n)"
proof -
  let ?r = "of_int (round_half_even (x / unit_at x)) - x / unit_at x"
  have "\<bar>?r\<bar> \<le> 1 / 2" using round_half_even_bounds [of "x / unit_at x"] by linarith
  then have "\<bar>?r\<bar> * unit_at x \<le> 1 / 2 * unit_at x"
    using unit_pos [of x] by (intro mult_right_mono) simp_all
  moreover have "\<bar>rnd x - x\<bar> = \<bar>?r\<bar> * unit_at x"
  proof -
    have "rnd x - x = ?r * unit_at x"
      using unit_pos [of x] unfolding rnd_pos_eq [OF assms] left_diff_distrib by (metis less_irrefl nonzero_eq_divide_eq)
    then show ?thesis using unit_pos [of x] by (simp only: abs_mult abs_of_pos)
  qed
  moreover have "unit_at x \<le> x / of_int b ^ n"
    using lead_lower [OF assms] base_rat by (simp add: power_int_diff divide_right_mono)
  ultimately show ?thesis by (simp add: field_simps)
qed

end

sublocale digit_rounding \<subseteq> rounding rnd
  by unfold_locales (rule rnd_le, simp_all add: rnd_eq)

interpretation ctx28: digit_rounding 10 27 lead_exp ctx
  by unfold_locales (simp_all add: lead_exp_bounds ctx_def Let_def)

text \<open>A value on some decimal grid with at most 28 digits there is kept.\<close>

lemma ctx_exact_int:
  assumes "\<bar>c\<bar> < 10 ^ 28"
  shows "ctx (of_int c / 10 ^ k) = of_int c / 10 ^ k"
  using ctx28.rnd_exact [of c "- int k"] assms by (simp add: power_int_minus divide_inverse)

text \<open>One context operation moves a value by at most half a unit in the 28th digit.\<close>

lemma ctx_error: "0 < x \<Longrightarrow> \<bar>ctx x - x\<bar> \<le> x / (2 * 10 ^ 27)"
  using ctx28.rnd_error [of x] by simp

lemmas ctx_minus = ctx28.rnd_minus
lemmas ctx_mono = ctx28.rnd_le
lemmas ctx_pos = ctx28.rnd_pos

lemma ctx_zero [simp]: "ctx 0 = 0"
  by (rule ctx28.rnd_zero)

text \<open>A rounding to multiples of a unit, never further than half a unit away.\<close>

locale unit_rounding = rounding rnd for rnd :: "rat \<Rightarrow> rat" +
  fixes u :: rat
  assumes unit_pos: "0 < u"
    and within_half: "\<bar>rnd x - x\<bar> \<le> u / 2"
    and on_multiples: "rnd (of_int n * u) = of_int n * u"
begin

lemma rnd_upper: "rnd x \<le> x + u / 2"
  using within_half [of x] by linarith

lemma rnd_lower: "x - u / 2 \<le> rnd x"
  using within_half [of x] by linarith

lemma rnd_le_multiple: "x \<le> of_int n * u \<Longrightarrow> rnd x \<le> of_int n * u"
  using rnd_mono [of x "of_int n * u"] by (simp add: on_multiples)

lemma multiple_le_rnd: "of_int n * u \<le> x \<Longrightarrow> of_int n * u \<le> rnd x"
  using rnd_mono [of "of_int n * u" x] by (simp add: on_multiples)

end

interpretation grid: unit_rounding "to_grid k" "1 / 10 ^ k" for k :: nat
proof unfold_locales
  fix x y :: rat
  assume "x \<le> y"
  then show "to_grid k x \<le> to_grid k y"
    by (simp add: to_grid_def divide_right_mono round_half_up_mono mult_right_mono)
next
  show "to_grid k 0 = 0"
    using round_half_up_of_int [of 0] by (simp add: to_grid_def)
next
  show "(0::rat) < 1 / 10 ^ k" by simp
next
  fix x :: rat
  have "\<bar>of_int (round_half_up (x * 10 ^ k)) - x * 10 ^ k\<bar> / 10 ^ k \<le> (1 / 2) / 10 ^ k"
    by (intro divide_right_mono round_half_up_error) simp
  moreover have "to_grid k x - x = (of_int (round_half_up (x * 10 ^ k)) - x * 10 ^ k) / 10 ^ k"
    by (simp add: to_grid_def diff_divide_distrib)
  ultimately show "\<bar>to_grid k x - x\<bar> \<le> 1 / 10 ^ k / 2" by (simp add: abs_divide)
next
  fix n :: int
  show "to_grid k (of_int n * (1 / 10 ^ k)) = of_int n * (1 / 10 ^ k)" by (simp add: to_grid_def)
qed

section \<open>Grids and quantising: laws\<close>

lemma on_gridE:
  assumes "on_grid k x"
  obtains n where "x = of_int n / 10 ^ k"
proof (rule that)
  show "x = of_int \<lfloor>x * 10 ^ k\<rfloor> / 10 ^ k" using assms unfolding on_grid_def by (simp only: ) simp
qed

lemma on_grid_of_int [simp]: "on_grid k (of_int n / 10 ^ k)"
  by (simp add: on_grid_def)

lemma on_grid_zero [simp]: "on_grid k 0"
  by (simp add: on_grid_def)

lemma on_grid_to_grid [simp]: "on_grid k (to_grid k x)"
  by (simp add: to_grid_def)

lemma to_grid_id: "on_grid k x \<Longrightarrow> to_grid k x = x"
  by (auto elim!: on_gridE simp: to_grid_def)

lemma on_grid_add: "on_grid k x \<Longrightarrow> on_grid k y \<Longrightarrow> on_grid k (x + y)"
  by (elim on_gridE) (metis add_divide_distrib of_int_add on_grid_of_int)

lemma on_grid_minus: "on_grid k x \<Longrightarrow> on_grid k (- x)"
  by (elim on_gridE) (metis minus_divide_left of_int_minus on_grid_of_int)

lemma on_grid_diff: "on_grid k x \<Longrightarrow> on_grid k y \<Longrightarrow> on_grid k (x - y)"
  using on_grid_add [of k x "- y"] on_grid_minus [of k y] by simp

lemma on_grid_sum_list: "(\<And>x. x \<in> set xs \<Longrightarrow> on_grid k (f x)) \<Longrightarrow> on_grid k (\<Sum>x\<leftarrow>xs. f x)"
  by (induction xs) (auto intro: on_grid_add)

text \<open>The values of scale \<open>k\<close> that the 28 digits of the context can hold.\<close>

definition fits :: "nat \<Rightarrow> dec \<Rightarrow> bool" where
  "fits k x \<longleftrightarrow> \<bar>x\<bar> < 10 ^ 28 / 10 ^ k"

lemma quantize_eq_Inr:
  "quantize k x = Inr y \<longleftrightarrow> y = to_grid k x \<and> fits k (to_grid k x)"
proof -
  have "(\<bar>round_half_up (x * 10 ^ k)\<bar> < 10 ^ 28) = (\<bar>of_int (round_half_up (x * 10 ^ k)) :: rat\<bar> < 10 ^ 28)"
    by (metis of_int_abs of_int_less_iff of_int_numeral of_int_power)
  then show ?thesis by (auto simp: quantize_def to_grid_def fits_def abs_divide divide_less_cancel)
qed

lemma quantize_on_grid: "quantize k x = Inr y \<Longrightarrow> on_grid k y"
  by (simp add: quantize_eq_Inr)

lemma quantize_fits: "quantize k x = Inr y \<Longrightarrow> fits k y"
  by (simp add: quantize_eq_Inr)

lemma quantize_id: "on_grid k x \<Longrightarrow> fits k x \<Longrightarrow> quantize k x = Inr x"
  by (simp add: quantize_eq_Inr to_grid_id)

lemma ctx_on_grid: "on_grid k x \<Longrightarrow> fits k x \<Longrightarrow> ctx x = x"
proof (elim on_gridE)
  fix n
  assume b: "fits k x" and x: "x = of_int n / 10 ^ k"
  from b x have "(\<bar>of_int n\<bar> :: rat) < 10 ^ 28"
    by (simp add: fits_def abs_divide divide_less_cancel)
  then have "\<bar>n\<bar> < 10 ^ 28" by (metis of_int_abs of_int_less_iff of_int_numeral of_int_power)
  then show "ctx x = x" by (simp only: x ctx_exact_int)
qed

lemma dec_add_exact [money_simps]:
  "on_grid k x \<Longrightarrow> on_grid k y \<Longrightarrow> fits k (x + y) \<Longrightarrow> dec_add x y = x + y"
  unfolding dec_add_def by (rule ctx_on_grid [OF on_grid_add])

lemma dec_sub_exact [money_simps]:
  "on_grid k x \<Longrightarrow> on_grid k y \<Longrightarrow> fits k (x - y) \<Longrightarrow> dec_sub x y = x - y"
  unfolding dec_sub_def by (rule ctx_on_grid [OF on_grid_diff])

lemma fits_diff: "0 \<le> x \<Longrightarrow> 0 \<le> y \<Longrightarrow> fits k x \<Longrightarrow> fits k y \<Longrightarrow> fits k (x - y)"
  unfolding fits_def by linarith

lemma column_fits:
  "column_value p s x \<Longrightarrow> s \<le> p \<Longrightarrow> p \<le> 28 \<Longrightarrow> fits s x"
proof -
  assume c: "column_value p s x" and s: "s \<le> p" and p: "p \<le> 28"
  have "(10::rat) ^ (p - s) \<le> 10 ^ (28 - s)" using p by (intro power_increasing) simp_all
  also have "(10::rat) ^ (28 - s) = 10 ^ 28 / 10 ^ s"
    using s p by (intro power_diff) simp_all
  finally show "fits s x" using c unfolding fits_def column_value_def by linarith
qed

text \<open>The sum of two amounts of a 20-digit column never meets the 28-digit limit.\<close>

lemma column_add_exact:
  assumes "column_value 20 6 x" and "column_value 20 6 y"
  shows "dec_add x y = x + y" "dec_sub x y = x - y"
proof -
  have x: "\<bar>x\<bar> < 10 ^ 14" and y: "\<bar>y\<bar> < 10 ^ 14" and g: "on_grid 6 x" "on_grid 6 y"
    using assms by (simp_all add: column_value_def)
  have "fits 6 (x + y)" and "fits 6 (x - y)" using x y unfolding fits_def by simp_all
  with g show "dec_add x y = x + y" "dec_sub x y = x - y"
    using dec_add_exact dec_sub_exact by blast+
qed

lemma column_value_zero [simp]: "column_value p s 0"
  by (simp add: column_value_def)

lemma store_numeric_eq:
  "store_numeric p s x = Some y \<longleftrightarrow> y = to_grid s x \<and> column_value p s y"
  by (auto simp: store_numeric_def column_value_def)

lemma store_numeric_id: "column_value p s x \<Longrightarrow> store_numeric p s x = Some x"
  by (simp add: store_numeric_eq to_grid_id column_value_def)

end
