(* ===== verification/PyText.thy ===== *)
theory PyText
  imports PyDecimal
begin

text \<open>
  The text operations of Python that the program uses, on strings of 8-bit characters: \<open>strip\<close>,
  \<open>lower\<close>, \<open>upper\<close>, \<open>isdigit\<close>, \<open>split\<close>, \<open>int(...)\<close>, \<open>Decimal(...)\<close> and the fixed-point
  \<open>format(value, 'f')\<close>. Characters above ASCII are outside the model: they are neither
  digits, letters nor white space here.
\<close>

section \<open>Characters\<close>

definition code :: "char \<Rightarrow> nat" where
  "code c = of_char c"

definition is_digit :: "char \<Rightarrow> bool" where
  "is_digit c \<longleftrightarrow> 48 \<le> code c \<and> code c \<le> 57"

definition digit_val :: "char \<Rightarrow> nat" where
  "digit_val c = code c - 48"

definition digit_char :: "nat \<Rightarrow> char" where
  "digit_char d = ''0123456789'' ! d"

definition is_space :: "char \<Rightarrow> bool" where
  "is_space c \<longleftrightarrow> (9 \<le> code c \<and> code c \<le> 13) \<or> (28 \<le> code c \<and> code c \<le> 32)"

definition is_alpha :: "char \<Rightarrow> bool" where
  "is_alpha c \<longleftrightarrow> (65 \<le> code c \<and> code c \<le> 90) \<or> (97 \<le> code c \<and> code c \<le> 122)"

definition lower_char :: "char \<Rightarrow> char" where
  "lower_char c = (if 65 \<le> code c \<and> code c \<le> 90 then char_of (code c + 32) else c)"

definition upper_char :: "char \<Rightarrow> char" where
  "upper_char c = (if 97 \<le> code c \<and> code c \<le> 122 then char_of (code c - 32) else c)"

lemma code_digit_char: "d < 10 \<Longrightarrow> code (digit_char d) = 48 + d"
proof -
  have "\<forall>d\<in>{..<10}. code (''0123456789'' ! d) = 48 + d"
    by (simp add: lessThan_nat_numeral lessThan_Suc code_def)
  then show "d < 10 \<Longrightarrow> code (digit_char d) = 48 + d" by (simp add: digit_char_def)
qed

lemma is_digit_digit_char [simp]: "d < 10 \<Longrightarrow> is_digit (digit_char d)"
  by (simp add: is_digit_def code_digit_char)

lemma digit_val_digit_char [simp]: "d < 10 \<Longrightarrow> digit_val (digit_char d) = d"
  by (simp add: digit_val_def code_digit_char)

lemma digit_val_bound: "is_digit c \<Longrightarrow> digit_val c < 10"
  unfolding is_digit_def digit_val_def by linarith

lemma digit_val_inj: "is_digit c \<Longrightarrow> is_digit d \<Longrightarrow> digit_val c = digit_val d \<Longrightarrow> c = d"
proof -
  assume "is_digit c" "is_digit d" "digit_val c = digit_val d"
  then have "code c = code d" by (auto simp: is_digit_def digit_val_def)
  then show "c = d" unfolding code_def by simp
qed

lemma code_lower_char: "code (lower_char c) = (if 65 \<le> code c \<and> code c \<le> 90 then code c + 32 else code c)"
  by (simp add: lower_char_def code_def take_bit_nat_def)

lemma lower_char_idem [simp]: "lower_char (lower_char c) = lower_char c"
proof (cases "65 \<le> code c \<and> code c \<le> 90")
  case True
  then show ?thesis by (simp add: lower_char_def [of "lower_char c"] code_lower_char)
next
  case False
  then have "lower_char c = c" unfolding lower_char_def by (rule if_not_P)
  then show ?thesis by simp
qed

lemma is_space_lower [simp]: "is_space (lower_char c) = is_space c"
  by (auto simp: is_space_def code_lower_char)

section \<open>Strings\<close>

definition lstrip :: "string \<Rightarrow> string" where
  "lstrip s = dropWhile is_space s"

definition strip :: "string \<Rightarrow> string" where
  "strip s = rev (lstrip (rev (lstrip s)))"

definition lower :: "string \<Rightarrow> string" where
  "lower s = map lower_char s"

definition upper :: "string \<Rightarrow> string" where
  "upper s = map upper_char s"

definition isdigit :: "string \<Rightarrow> bool" where
  "isdigit s \<longleftrightarrow> s \<noteq> [] \<and> list_all is_digit s"

text \<open>\<open>s.replace(c, '')\<close> for a one-character \<open>c\<close>.\<close>

definition remove_char :: "char \<Rightarrow> string \<Rightarrow> string" where
  "remove_char c s = filter (\<lambda>x. x \<noteq> c) s"

fun split_on :: "char \<Rightarrow> string \<Rightarrow> string list" where
  "split_on c [] = [[]]"
| "split_on c (x # xs) =
     (if x = c then [] # split_on c xs
      else case split_on c xs of [] \<Rightarrow> [[x]] | w # ws \<Rightarrow> (x # w) # ws)"

definition starts_with :: "string \<Rightarrow> string \<Rightarrow> bool" where
  "starts_with p s \<longleftrightarrow> take (length p) s = p"

definition last_chars :: "nat \<Rightarrow> string \<Rightarrow> string" where
  "last_chars n s = drop (length s - n) s"

lemma strip_Nil [simp]: "strip [] = []"
  by (simp add: strip_def lstrip_def)

lemma lower_lower [simp]: "lower (lower s) = lower s"
  by (simp add: lower_def)

lemma strip_lower: "strip (lower s) = lower (strip s)"
  by (simp add: strip_def lstrip_def lower_def dropWhile_map rev_map comp_def)

lemma lstrip_fix: "(s = [] \<or> \<not> is_space (hd s)) \<Longrightarrow> lstrip s = s"
  by (cases s) (simp_all add: lstrip_def)

lemma lstrip_hd: "lstrip s = [] \<or> \<not> is_space (hd (lstrip s))"
  using hd_dropWhile [of is_space s] by (auto simp: lstrip_def)

lemma last_lstrip: "lstrip s \<noteq> [] \<Longrightarrow> last (lstrip s) = last s"
  by (induction s) (auto simp: lstrip_def split: if_splits)

lemma strip_idem [simp]: "strip (strip s) = strip s"
proof -
  let ?t = "lstrip (rev (lstrip s))"
  have hd_s: "rev ?t = [] \<or> \<not> is_space (hd (rev ?t))"
  proof (cases "?t = []")
    case False
    then have "last ?t = last (rev (lstrip s))" by (rule last_lstrip)
    moreover have "lstrip s \<noteq> []" using False by (metis dropWhile.simps(1) lstrip_def rev.simps(1))
    ultimately show ?thesis using lstrip_hd [of s] by (simp add: hd_rev last_rev)
  qed simp
  have "lstrip (strip s) = strip s" using hd_s by (intro lstrip_fix) (simp add: strip_def)
  moreover have "lstrip (rev (strip s)) = rev (strip s)"
    using lstrip_hd [of "rev (lstrip s)"] by (intro lstrip_fix) (simp add: strip_def)
  ultimately show ?thesis unfolding strip_def [of "strip s"] by simp
qed

section \<open>Numbers in text\<close>

text \<open>\<open>int(s)\<close>: surrounding white space, a sign, digits with single underscores between them.\<close>

fun int_digits :: "int \<Rightarrow> string \<Rightarrow> int option" where
  "int_digits acc [] = Some acc"
| "int_digits acc (c # cs) =
     (if is_digit c then int_digits (10 * acc + int (digit_val c)) cs
      else if c = CHR ''_'' \<and> cs \<noteq> [] \<and> is_digit (hd cs) then int_digits acc cs else None)"

definition unsigned_int :: "string \<Rightarrow> int option" where
  "unsigned_int s = (if s \<noteq> [] \<and> is_digit (hd s) then int_digits 0 s else None)"

definition py_int :: "string \<Rightarrow> int option" where
  "py_int raw =
     (let s = strip raw
      in if s \<noteq> [] \<and> hd s = CHR ''-'' then map_option uminus (unsigned_int (tl s))
         else if s \<noteq> [] \<and> hd s = CHR ''+'' then unsigned_int (tl s)
         else unsigned_int s)"

text \<open>
  \<open>Decimal(s)\<close>: surrounding white space and every underscore are dropped; then a sign and a
  number with optional fraction and exponent, or \<open>inf\<close>, \<open>infinity\<close>, \<open>nan\<close>, \<open>snan\<close>.
\<close>

definition digits_value :: "string \<Rightarrow> int" where
  "digits_value ds = foldl (\<lambda>n c. 10 * n + int (digit_val c)) 0 ds"

definition parse_exponent :: "string \<Rightarrow> int option" where
  "parse_exponent s =
     (case s of [] \<Rightarrow> Some 0
      | e # r \<Rightarrow>
          if lower_char e \<noteq> CHR ''e'' then None
          else if r \<noteq> [] \<and> hd r = CHR ''-'' \<and> isdigit (tl r) then Some (- digits_value (tl r))
          else if r \<noteq> [] \<and> hd r = CHR ''+'' \<and> isdigit (tl r) then Some (digits_value (tl r))
          else if isdigit r then Some (digits_value r) else None)"

definition parse_unsigned :: "string \<Rightarrow> dec option" where
  "parse_unsigned s =
     (let whole = takeWhile is_digit s;
          rest = dropWhile is_digit s;
          point = rest \<noteq> [] \<and> hd rest = CHR ''.'';
          frac = (if point then takeWhile is_digit (tl rest) else []);
          rest' = (if point then dropWhile is_digit (tl rest) else rest)
      in if whole = [] \<and> frac = [] then None
         else map_option (\<lambda>e. of_int (digits_value (whole @ frac)) * 10 powi (e - int (length frac)))
                (parse_exponent rest'))"

definition parse_special :: "bool \<Rightarrow> string \<Rightarrow> decimal option" where
  "parse_special neg s =
     (let w = lower s
      in if w = ''inf'' \<or> w = ''infinity'' then Some (Infinite neg)
         else if take 3 w = ''nan'' \<and> list_all is_digit (drop 3 w) then Some (NaN False)
         else if take 4 w = ''snan'' \<and> list_all is_digit (drop 4 w) then Some (NaN True)
         else None)"

definition py_decimal :: "string \<Rightarrow> decimal option" where
  "py_decimal raw =
     (let s = remove_char CHR ''_'' (strip raw);
          neg = (s \<noteq> [] \<and> hd s = CHR ''-'');
          body = (if s \<noteq> [] \<and> (hd s = CHR ''-'' \<or> hd s = CHR ''+'') then tl s else s)
      in case parse_unsigned body of
           Some x \<Rightarrow> Some (Fin (if neg then - x else x))
         | None \<Rightarrow> parse_special neg body)"

section \<open>Rendering\<close>

function digits_of_int :: "int \<Rightarrow> string" where
  "digits_of_int n =
     (if n < 10 then [digit_char (nat n)] else digits_of_int (n div 10) @ [digit_char (nat (n mod 10))])"
  by pat_completeness auto
termination
  by (relation "measure nat") auto

declare digits_of_int.simps [simp del]

fun fixed_digits :: "nat \<Rightarrow> int \<Rightarrow> string" where
  "fixed_digits 0 n = []"
| "fixed_digits (Suc k) n = fixed_digits k (n div 10) @ [digit_char (nat (n mod 10))]"

definition text_of_int :: "int \<Rightarrow> string" where
  "text_of_int i = (if i < 0 then CHR ''-'' # digits_of_int (- i) else digits_of_int i)"

text \<open>\<open>format(value, 'f')\<close> of a value already quantised to \<open>k\<close> places.\<close>

definition fixed_text :: "nat \<Rightarrow> dec \<Rightarrow> string" where
  "fixed_text k x =
     (let c = \<lfloor>\<bar>x\<bar> * 10 ^ k\<rfloor>
      in (if x < 0 then ''-'' else []) @ digits_of_int (c div 10 ^ k)
         @ (if k = 0 then [] else CHR ''.'' # fixed_digits k (c mod 10 ^ k)))"

definition hex_char :: "nat \<Rightarrow> char" where
  "hex_char d = ''0123456789abcdef'' ! d"

fun hex_digits :: "nat \<Rightarrow> int \<Rightarrow> string" where
  "hex_digits 0 n = []"
| "hex_digits (Suc k) n = hex_digits k (n div 16) @ [hex_char (nat (n mod 16))]"

text \<open>\<open>uuid.hex\<close>: 32 lower-case hexadecimal digits.\<close>

definition uuid_hex :: "uuid \<Rightarrow> string" where
  "uuid_hex u = hex_digits 32 u"

section \<open>Reading back what was rendered\<close>

lemma digits_value_append:
  "digits_value (xs @ ys) = digits_value xs * 10 ^ length ys + digits_value ys"
proof -
  have step: "foldl (\<lambda>n c. 10 * n + int (digit_val c)) a ys = a * 10 ^ length ys + digits_value ys"
    for a ys
    unfolding digits_value_def
  proof (induction ys arbitrary: a rule: rev_induct)
    case (snoc y ys)
    show ?case using snoc [of a] by (simp add: algebra_simps)
  qed simp
  have "digits_value (xs @ ys) = foldl (\<lambda>n c. 10 * n + int (digit_val c)) (digits_value xs) ys"
    by (simp only: digits_value_def foldl_append)
  also have "\<dots> = digits_value xs * 10 ^ length ys + digits_value ys" by (rule step)
  finally show ?thesis .
qed

lemma digits_value_single [simp]: "digits_value [c] = int (digit_val c)" "digits_value [] = 0"
  by (simp_all add: digits_value_def)

lemma digits_of_int_value:
  "0 \<le> n \<Longrightarrow> digits_value (digits_of_int n) = n \<and> isdigit (digits_of_int n)"
proof (induction n rule: digits_of_int.induct)
  case (1 n)
  show ?case
  proof (cases "n < 10")
    case True
    with 1 show ?thesis by (subst (1 2) digits_of_int.simps) (simp add: isdigit_def nat_less_iff)
  next
    case False
    with 1 have "digits_value (digits_of_int (n div 10)) = n div 10" "isdigit (digits_of_int (n div 10))"
      by simp_all
    with False show ?thesis
      by (subst (1 2) digits_of_int.simps) (simp add: isdigit_def digits_value_append nat_less_iff)
  qed
qed

lemma fixed_digits_value:
  "digits_value (fixed_digits k n) = n mod 10 ^ k \<and> length (fixed_digits k n) = k
   \<and> list_all is_digit (fixed_digits k n)"
proof (induction k arbitrary: n)
  case 0
  then show ?case by simp
next
  case (Suc k)
  have "n mod (10 * 10 ^ k) = 10 * (n div 10 mod 10 ^ k) + n mod 10"
    by (simp add: zmod_zmult2_eq)
  with Suc [of "n div 10"] show ?case by (simp add: digits_value_append nat_less_iff)
qed

end
