(* ===== verification/Tables.thy ===== *)
theory Tables
  imports Prelude
begin

text \<open>
  The relational operations the services issue, on tables as lists of rows: a conditional
  \<open>UPDATE ... WHERE ... RETURNING id\<close>, a lookup by primary key, and the contract both sides
  of a guarded transition rely on. Every state change of the program that must happen at most
  once is such a guarded update; the locale \<open>guarded_change\<close> says once what that gives.
\<close>

definition update_where :: "('r \<Rightarrow> bool) \<Rightarrow> ('r \<Rightarrow> 'r) \<Rightarrow> 'r list \<Rightarrow> 'r list" where
  "update_where P f t = map (\<lambda>r. if P r then f r else r) t"

text \<open>
  \<open>result.scalar_one_or_none()\<close> of \<open>RETURNING id\<close>: the program filters on a primary or
  unique key, so at most one row matches.
\<close>

definition returning :: "('r \<Rightarrow> bool) \<Rightarrow> 'r list \<Rightarrow> 'r option" where
  "returning P t = find P t"

definition by_key :: "('r \<Rightarrow> uuid) \<Rightarrow> uuid \<Rightarrow> 'r list \<Rightarrow> 'r option" where
  "by_key key k t = find (\<lambda>r. key r = k) t"

text \<open>\<open>ORDER BY key ASC\<close> and \<open>DESC\<close>; SQL leaves the order of ties open.\<close>

definition ordered_by :: "('r \<Rightarrow> 'o::linorder) \<Rightarrow> 'r list \<Rightarrow> 'r list" where
  "ordered_by f t = sort_key f t"

definition newest_first :: "('r \<Rightarrow> 'o::linorder) \<Rightarrow> 'r list \<Rightarrow> 'r list" where
  "newest_first f t = rev (sort_key f t)"

definition first_row :: "'r list \<Rightarrow> 'r option" where
  "first_row t = (case t of [] \<Rightarrow> None | r # _ \<Rightarrow> Some r)"

section \<open>Laws of rows and tables\<close>

lemma update_where_Nil [simp]: "update_where P f [] = []"
  by (simp add: update_where_def)

lemma length_update_where [simp]: "length (update_where P f t) = length t"
  by (simp add: update_where_def)

lemma update_where_none: "\<forall>r\<in>set t. \<not> P r \<Longrightarrow> update_where P f t = t"
  unfolding update_where_def by (induction t) auto

lemma in_update_where:
  "r' \<in> set (update_where P f t) \<longleftrightarrow> (\<exists>r\<in>set t. r' = (if P r then f r else r))"
  by (auto simp: update_where_def)

lemma changed_in: "r \<in> set t \<Longrightarrow> P r \<Longrightarrow> f r \<in> set (update_where P f t)"
  by (auto simp: in_update_where)

lemma update_where_snoc: "update_where P f (xs @ [x]) = update_where P f xs @ [if P x then f x else x]"
  by (simp add: update_where_def)

lemma update_where_all:
  "(\<And>r. r \<in> set t \<Longrightarrow> Q r) \<Longrightarrow> (\<And>r. r \<in> set t \<Longrightarrow> P r \<Longrightarrow> Q r \<Longrightarrow> Q (f r))
   \<Longrightarrow> r' \<in> set (update_where P f t) \<Longrightarrow> Q r'"
  by (auto simp: in_update_where)

lemma by_key_Some: "by_key key k t = Some r \<Longrightarrow> r \<in> set t \<and> key r = k"
  unfolding by_key_def by (auto dest: find_Some_iff_mem)

lemma by_key_None: "by_key key k t = None \<longleftrightarrow> (\<forall>r\<in>set t. key r \<noteq> k)"
  by (simp add: by_key_def find_None_all)

lemma find_unique: "distinct (map key t) \<Longrightarrow> r \<in> set t \<Longrightarrow> find (\<lambda>x. key x = key r) t = Some r"
proof (induction t)
  case (Cons x t)
  then show ?case by (cases "x = r") (auto simp: image_iff)
qed simp

lemma by_key_unique:
  "distinct (map key t) \<Longrightarrow> r \<in> set t \<Longrightarrow> by_key key (key r) t = Some r"
  unfolding by_key_def by (rule find_unique)

lemma by_key_append:
  "by_key key k (t @ [r]) = (case by_key key k t of None \<Rightarrow> if key r = k then Some r else None | Some x \<Rightarrow> Some x)"
  unfolding by_key_def by (induction t) auto

lemma returning_SomeD: "returning P t = Some r \<Longrightarrow> r \<in> set t \<and> P r"
  unfolding returning_def by (rule find_Some_iff_mem)

lemma returning_None_noop: "returning P t = None \<Longrightarrow> update_where P f t = t"
  unfolding returning_def find_None_all by (rule update_where_none)

lemma set_newest_first [simp]: "set (newest_first f t) = set t"
  by (simp add: newest_first_def)

lemma set_ordered_by [simp]: "set (ordered_by f t) = set t"
  by (simp add: ordered_by_def)

lemma newest_first_sorted: "sorted (rev (map f (newest_first f t)))"
  by (simp add: newest_first_def rev_map [symmetric])

lemma insort_key_map:
  "f (g x) = f x \<Longrightarrow> (\<And>y. y \<in> set ys \<Longrightarrow> f (g y) = f y)
   \<Longrightarrow> insort_key f (g x) (map g ys) = map g (insort_key f x ys)"
  by (induction ys) auto

lemma newest_first_map:
  "(\<And>x. x \<in> set t \<Longrightarrow> f (g x) = f x) \<Longrightarrow> newest_first f (map g t) = map g (newest_first f t)"
proof -
  assume k: "\<And>x. x \<in> set t \<Longrightarrow> f (g x) = f x"
  then have "sort_key f (map g t) = map g (sort_key f t)"
    by (induction t) (auto intro!: insort_key_map)
  then show ?thesis by (simp add: newest_first_def rev_map)
qed

lemma first_row_map: "first_row (map g t) = map_option g (first_row t)"
  by (cases t) (simp_all add: first_row_def)

lemma first_row_mem: "first_row t = Some r \<Longrightarrow> r \<in> set t"
  by (cases t) (simp_all add: first_row_def)

text \<open>The newest row is at least as new as every other one.\<close>

lemma first_row_newest:
  assumes "first_row (newest_first f t) = Some r" and "x \<in> set t"
  shows "f x \<le> f r" "r \<in> set t"
proof -
  from assms(1) obtain rest where eq: "newest_first f t = r # rest"
    by (auto simp: first_row_def split: list.splits)
  have mem: "set t = insert r (set rest)" using set_newest_first [of f t] eq by simp
  then show "r \<in> set t" by simp
  have "sorted (map f (rev rest) @ [f r])" using newest_first_sorted [of f t] by (simp add: eq rev_map)
  then have "\<forall>y\<in>set rest. f y \<le> f r" by (simp add: sorted_append)
  with mem assms(2) show "f x \<le> f r" by auto
qed

section \<open>Changing rows\<close>

text \<open>A change to a row that keeps its primary key.\<close>

locale row_change =
  fixes key :: "'r \<Rightarrow> uuid" and f :: "'r \<Rightarrow> 'r"
  assumes key_kept: "key (f r) = key r"
begin

lemma keys_update_where: "map key (update_where P f t) = map key t"
  by (simp add: update_where_def key_kept)

lemma by_key_update_where:
  "by_key key k (update_where P f t) = map_option (\<lambda>r. if P r then f r else r) (by_key key k t)"
  unfolding by_key_def update_where_def by (induction t) (auto simp: key_kept)

lemma by_key_update_other:
  "(\<And>r. P r \<Longrightarrow> key r \<noteq> k) \<Longrightarrow> by_key key k (update_where P f t) = by_key key k t"
  using by_key_Some [of key k t] by (cases "by_key key k t") (auto simp: by_key_update_where)

text \<open>What an update of the one row with key \<open>k\<close> does to a sum over the table.\<close>

lemma sum_update_where:
  fixes g :: "'r \<Rightarrow> 'm::ab_group_add"
  assumes "distinct (map key t)" and "r \<in> set t" and "P r"
    and only: "\<And>x. P x \<Longrightarrow> key x = key r"
  shows "(\<Sum>x\<leftarrow>update_where P f t. g x) = (\<Sum>x\<leftarrow>t. g x) - g r + g (f r)"
proof -
  have "(\<Sum>x\<leftarrow>update_where P f t. g x) = (\<Sum>x\<leftarrow>t. g (if key x = key r then f x else x))"
    unfolding update_where_def map_map comp_def
  proof (rule sum_list_map_cong)
    fix x assume x: "x \<in> set t"
    show "g (if P x then f x else x) = g (if key x = key r then f x else x)"
    proof (cases "key x = key r")
      case True
      then have "x = r" using assms(1,2) x by (meson eq_key_imp_eq_value map_of_eq_Some_iff distinct_map inj_onD)
      with assms(3) show ?thesis by simp
    next
      case False
      with only [of x] show ?thesis by auto
    qed
  qed
  then show ?thesis using sum_list_update_one [OF assms(1,2), of g f] by simp
qed

lemma sum_update_unchanged:
  fixes g :: "'r \<Rightarrow> 'm::comm_monoid_add"
  assumes "\<And>r. r \<in> set t \<Longrightarrow> P r \<Longrightarrow> g (f r) = g r"
  shows "(\<Sum>x\<leftarrow>update_where P f t. g x) = (\<Sum>x\<leftarrow>t. g x)"
  unfolding update_where_def map_map comp_def using assms by (intro sum_list_map_cong) simp

end

text \<open>
  A transition guarded on the state it leaves: the change falsifies its own guard. Repeating it,
  by a double click, a redelivered message or a racing worker, then changes nothing.
\<close>

locale guarded_change = row_change key f for key :: "'r \<Rightarrow> uuid" and f :: "'r \<Rightarrow> 'r" +
  fixes guard :: "'r \<Rightarrow> bool"
  assumes leaves_guard: "guard r \<Longrightarrow> \<not> guard (f r)"
begin

lemma no_match_after: "returning guard (update_where guard f t) = None"
  unfolding returning_def find_None_all
proof
  fix r'
  assume "r' \<in> set (update_where guard f t)"
  then obtain r where "r' = (if guard r then f r else r)" by (auto simp: in_update_where)
  with leaves_guard [of r] show "\<not> guard r'" by (cases "guard r") simp_all
qed

lemma repeat_noop: "update_where guard f (update_where guard f t) = update_where guard f t"
  by (rule returning_None_noop [OF no_match_after])

text \<open>A row that is out of the guard stays as it is, whoever tries.\<close>

lemma other_rows_kept: "r \<in> set t \<Longrightarrow> \<not> guard r \<Longrightarrow> r \<in> set (update_where guard f t)"
  by (force simp: in_update_where)

lemma changed_row:
  assumes "distinct (map key t)" and "returning guard t = Some r"
  shows "by_key key (key r) (update_where guard f t) = Some (f r)"
  using assms returning_SomeD [OF assms(2)] by (simp add: by_key_update_where by_key_unique)

end

end
