(* ===== verification/Models.thy ===== *)
theory Models
  imports PyText Tables
begin

text \<open>
  The database of the application (\<open>app/models/\<close>): its enumerations as datatypes, its tables
  as lists of records, one record field per column, and the labels the model classes compute.
  A column declared \<open>onupdate=now\<close> is stamped whenever the ORM writes the row.
\<close>

section \<open>Users and KYC (user.py, kyc.py)\<close>

datatype kyc_status = Kyc_not_submitted | Kyc_pending | Kyc_approved | Kyc_rejected

record user =
  u_id :: uuid
  u_email :: string
  u_mobile :: string
  u_full_name :: string
  u_password_hash :: string
  u_is_admin :: bool
  u_can_send :: bool
  u_can_receive :: bool
  u_kyc_status :: kyc_status
  u_created_at :: instant
  u_updated_at :: instant

fun kyc_status_label :: "kyc_status \<Rightarrow> string" where
  "kyc_status_label Kyc_not_submitted = ''Not Submitted''"
| "kyc_status_label Kyc_pending = ''Pending Review''"
| "kyc_status_label Kyc_approved = ''Approved''"
| "kyc_status_label Kyc_rejected = ''Rejected''"

fun kyc_badge_class :: "kyc_status \<Rightarrow> string" where
  "kyc_badge_class Kyc_not_submitted = ''secondary''"
| "kyc_badge_class Kyc_pending = ''warning''"
| "kyc_badge_class Kyc_approved = ''success''"
| "kyc_badge_class Kyc_rejected = ''danger''"

datatype submission_status = Sub_pending | Sub_approved | Sub_rejected

text \<open>A calendar date as Python compares it: year, month, day.\<close>

type_synonym date = "int \<times> int \<times> int"

record kyc_submission =
  k_id :: uuid
  k_user_id :: uuid
  k_full_name :: string
  k_date_of_birth :: date
  k_nationality :: string
  k_id_number :: string
  k_residential_address :: string
  k_mobile :: string
  k_email :: string
  k_source_of_funds :: string
  k_status :: submission_status
  k_rejection_reason :: "string option"
  k_reviewed_by :: "uuid option"
  k_reviewed_at :: "instant option"
  k_submitted_at :: instant

section \<open>Beneficiaries (beneficiary.py)\<close>

datatype payout_currency = USD | ZAR

record beneficiary =
  b_id :: uuid
  b_sender_id :: uuid
  b_recipient_user_id :: "uuid option"
  b_full_name :: string
  b_email :: "string option"
  b_mobile :: "string option"
  b_country :: string
  b_payout_currency :: payout_currency
  b_relation_type :: string
  b_is_active :: bool
  b_created_at :: instant

section \<open>Platform configuration (platform_config.py)\<close>

record limit_tier =
  l_id :: uuid
  l_tier_name :: string
  l_daily_limit_zar :: dec
  l_monthly_limit_zar :: dec

record fee_config =
  f_id :: uuid
  f_fixed_fee_zar :: dec
  f_percentage_fee :: dec
  f_fx_margin :: dec
  f_cashout_fee_percentage :: dec
  f_cashout_fee_min_usd :: dec
  f_min_send_zar :: dec
  f_market_rate_zar_per_usd :: dec
  f_is_active :: bool
  f_created_at :: instant

section \<open>Remittances (transaction.py)\<close>

datatype cashin_status = CashIn_pending | CashIn_received | CashIn_failed

datatype settlement_status =
  Settle_not_queued | Settle_queued | Settle_processing | Settle_completed | Settle_failed

text \<open>One retired attempt, the dictionary \<open>cashin_service._archived_attempts\<close> appends.\<close>

record attempt =
  a_tx_hash :: string
  a_last_ledger_sequence :: "int option"
  a_submitted_ledger_index :: "int option"
  a_attempts :: int
  a_failure_reason :: "string option"
  a_retired_at :: instant

record transaction =
  t_id :: uuid
  t_sender_id :: uuid
  t_beneficiary_id :: uuid
  t_recipient_user_id :: "uuid option"
  t_zar_amount :: dec
  t_transaction_fee :: dec
  t_net_zar_converted :: dec
  t_market_rate :: dec
  t_exchange_rate :: dec
  t_fx_margin :: dec
  t_uctusd_amount :: dec
  t_idempotency_key :: uuid
  t_cashin_status :: cashin_status
  t_settlement_status :: settlement_status
  t_card_last4 :: "string option"
  t_cashin_updated_at :: "instant option"
  t_cashin_reviewed_by :: "uuid option"
  t_cashin_failure_reason :: "string option"
  t_xrpl_tx_hash :: "string option"
  t_last_ledger_sequence :: "int option"
  t_submitted_ledger_index :: "int option"
  t_settlement_attempts :: int
  t_previous_attempts :: "attempt list"
  t_xrpl_error_reason :: "string option"
  t_settled_at :: "instant option"
  t_aml_flagged :: bool
  t_created_at :: instant
  t_updated_at :: instant

definition txn_status_label :: "transaction \<Rightarrow> string" where
  "txn_status_label t =
     (if t_cashin_status t = CashIn_failed then ''Failed''
      else if t_cashin_status t = CashIn_pending then ''Awaiting payment''
      else case t_settlement_status t of
             Settle_not_queued \<Rightarrow> ''Payment received''
           | Settle_queued \<Rightarrow> ''Queued''
           | Settle_processing \<Rightarrow> ''Sending''
           | Settle_completed \<Rightarrow> ''Completed''
           | Settle_failed \<Rightarrow> ''Failed'')"

definition txn_status_badge :: "transaction \<Rightarrow> string" where
  "txn_status_badge t =
     (let l = txn_status_label t
      in if l = ''Failed'' then ''danger''
         else if l = ''Awaiting payment'' then ''warning''
         else if l = ''Completed'' then ''success'' else ''info'')"

text \<open>Python's \<open>x or default\<close> on an optional string: an empty string counts as missing.\<close>

definition or_else :: "string option \<Rightarrow> string \<Rightarrow> string" where
  "or_else x d = (case x of None \<Rightarrow> d | Some s \<Rightarrow> if s = [] then d else s)"

definition truthy :: "string option \<Rightarrow> bool" where
  "truthy x \<longleftrightarrow> (case x of None \<Rightarrow> False | Some s \<Rightarrow> s \<noteq> [])"

definition txn_failure_reason :: "transaction \<Rightarrow> string option" where
  "txn_failure_reason t =
     (if t_cashin_status t = CashIn_failed
      then Some (or_else (t_cashin_failure_reason t) ''Card payment failed.'')
      else if t_settlement_status t = Settle_failed then t_xrpl_error_reason t else None)"

section \<open>Recipient wallets (wallet.py)\<close>

record wallet =
  w_id :: uuid
  w_user_id :: uuid
  w_xrpl_address :: string
  w_encrypted_private_key :: string
  w_key_encryption_key_id :: string
  w_trust_set_complete :: bool
  w_balance_uctusd :: dec
  w_created_at :: instant
  w_updated_at :: instant

section \<open>Cash-outs (cashout.py)\<close>

datatype cashout_status = Out_requested | Out_approved | Out_completed | Out_failed

record cashout_request =
  c_id :: uuid
  c_recipient_user_id :: uuid
  c_wallet_id :: uuid
  c_uctusd_amount :: dec
  c_target_currency :: payout_currency
  c_market_rate :: dec
  c_cashout_fee_percentage :: dec
  c_cashout_fee_min_usd :: dec
  c_cashout_fee_usd :: dec
  c_net_payout :: dec
  c_status :: cashout_status
  c_approved_by :: "uuid option"
  c_approved_at :: "instant option"
  c_completed_at :: "instant option"
  c_failure_reason :: "string option"
  c_idempotency_key :: uuid
  c_burn_tx_hash :: "string option"
  c_burn_last_ledger_sequence :: "int option"
  c_burn_submitted_ledger_index :: "int option"
  c_burn_started_at :: "instant option"
  c_burn_attempts :: int
  c_fiat_payout_reference :: "string option"
  c_fiat_paid_at :: "instant option"
  c_created_at :: instant
  c_updated_at :: instant

definition awaiting_ledger_confirmation :: "cashout_request \<Rightarrow> bool" where
  "awaiting_ledger_confirmation c \<longleftrightarrow>
     c_status c = Out_approved \<and> c_burn_tx_hash c \<noteq> None
     \<and> starts_with ''outcome_unknown'' (or_else (c_failure_reason c) [])"

definition cashout_status_label :: "cashout_request \<Rightarrow> string" where
  "cashout_status_label c =
     (if awaiting_ledger_confirmation c then ''Awaiting ledger confirmation''
      else case c_status c of
             Out_requested \<Rightarrow> ''Requested''
           | Out_approved \<Rightarrow> ''Approved''
           | Out_completed \<Rightarrow> ''Completed''
           | Out_failed \<Rightarrow> ''Failed'')"

text \<open>A dictionary lookup: a label outside the table would raise KeyError (\<open>None\<close>).\<close>

definition cashout_status_badge :: "cashout_request \<Rightarrow> string option" where
  "cashout_status_badge c =
     map_of [(''Requested'', ''secondary''), (''Approved'', ''info''),
             (''Awaiting ledger confirmation'', ''warning''),
             (''Completed'', ''success''), (''Failed'', ''danger'')] (cashout_status_label c)"

text \<open>
  The forward order of cash-out states (FR-CO-03): requested, approved, then one of the two
  final states. Operations are shown to move up in it.
\<close>

fun out_rank :: "cashout_status \<Rightarrow> nat" where
  "out_rank Out_requested = 0"
| "out_rank Out_approved = 1"
| "out_rank Out_completed = 2"
| "out_rank Out_failed = 3"

lemma out_rank_inj: "out_rank a = out_rank b \<Longrightarrow> a = b"
  by (cases a; cases b) simp_all

instantiation cashout_status :: linorder
begin

definition less_eq_cashout_status :: "cashout_status \<Rightarrow> cashout_status \<Rightarrow> bool" where
  "a \<le> b \<longleftrightarrow> out_rank a \<le> out_rank b"

definition less_cashout_status :: "cashout_status \<Rightarrow> cashout_status \<Rightarrow> bool" where
  "a < b \<longleftrightarrow> out_rank a < out_rank b"

instance
  by standard (auto simp: less_eq_cashout_status_def less_cashout_status_def intro: out_rank_inj)

end

section \<open>The database\<close>

record db =
  users :: "user list"
  submissions :: "kyc_submission list"
  beneficiaries :: "beneficiary list"
  tiers :: "limit_tier list"
  fee_configs :: "fee_config list"
  transactions :: "transaction list"
  wallets :: "wallet list"
  cashouts :: "cashout_request list"

definition empty_db :: db where
  "empty_db = \<lparr>users = [], submissions = [], beneficiaries = [], tiers = [], fee_configs = [],
     transactions = [], wallets = [], cashouts = []\<rparr>"

section \<open>The exceptions of the services\<close>

text \<open>
  One constructor per \<open>raise\<close> of the services, in place of the message text (with the values
  the message reports); exceptions that reach a stored reason text carry their class name and
  message instead.
\<close>

datatype limit_reason =
  No_tier
| Zero_tier
| Over_daily dec
| Over_monthly dec

datatype refusal =
  Not_approved_sender
| Beneficiary_not_found
| Recipient_not_registered string
| Amount_refused dec
| Price_changed
| Over_limit limit_reason
| Card_number_invalid
| Expiry_format
| Card_expired
| Cvv_invalid
| Card_name_missing
| Cashin_already_processed
| No_recorded_range
| Still_could_validate int
| History_incomplete
| Not_retryable
| Settlement_changed
| Not_queued

datatype cashout_refusal =
  Amount_not_a_number
| Amount_not_positive
| Amount_too_large
| Amount_below_unit
| Currency_unsupported
| Cashout_unavailable
| Payout_not_positive dec
| No_wallet
| Over_available dec
| Wallet_missing
| Balance_too_low dec
| Already_actioned
| Already_resolved
| No_burn_to_reconcile

datatype exn =
  ArithmeticError arith_error
| FXConfigError
| AmountTooSmall dec
| RemittanceError refusal
| CashOutError cashout_refusal
| PricingChanged
| InvalidAmountError string
| ValueError string
| ProfileError string
| KYCReviewError
| DatabaseError
| NoResultFound
| Raised string string

text \<open>\<open>type(exc).__name__\<close> and \<open>str(exc)\<close> of the exceptions a worker may meet.\<close>

fun exn_name :: "exn \<Rightarrow> string" where
  "exn_name (ArithmeticError InvalidOperation) = ''InvalidOperation''"
| "exn_name (ArithmeticError DivisionByZero) = ''DivisionByZero''"
| "exn_name FXConfigError = ''FXConfigError''"
| "exn_name (AmountTooSmall _) = ''AmountTooSmall''"
| "exn_name (RemittanceError _) = ''RemittanceError''"
| "exn_name (CashOutError _) = ''CashOutError''"
| "exn_name PricingChanged = ''PricingChanged''"
| "exn_name (InvalidAmountError _) = ''InvalidAmountError''"
| "exn_name (ValueError _) = ''ValueError''"
| "exn_name (ProfileError _) = ''ProfileError''"
| "exn_name KYCReviewError = ''KYCReviewError''"
| "exn_name DatabaseError = ''DBAPIError''"
| "exn_name NoResultFound = ''NoResultFound''"
| "exn_name (Raised name _) = name"

fun exn_text :: "exn \<Rightarrow> string" where
  "exn_text (InvalidAmountError m) = m"
| "exn_text (ValueError m) = m"
| "exn_text (Raised _ m) = m"
| "exn_text _ = []"

text \<open>An arithmetic result of the decimal module inside a service.\<close>

definition arith :: "arith_error + 'a \<Rightarrow> exn + 'a" where
  "arith r = (case r of Inl e \<Rightarrow> Inl (ArithmeticError e) | Inr x \<Rightarrow> Inr x)"

lemma arith_simps [simp]:
  "arith (Inr x) = Inr x" "arith (Inl e) = Inl (ArithmeticError e)"
  "arith r = Inr y \<longleftrightarrow> r = Inr y"
  by (cases r; simp add: arith_def)+

lemma or_else_Some [simp]: "s \<noteq> [] \<Longrightarrow> or_else (Some s) d = s" "or_else None d = d"
  by (simp_all add: or_else_def)

text \<open>Every label has a badge: the lookup in \<open>status_badge\<close> never raises.\<close>

lemma cashout_badge_total: "cashout_status_badge c \<noteq> None"
  by (cases "c_status c") (simp_all add: cashout_status_badge_def cashout_status_label_def)

end
