(* ===== verification/Fx.thy ===== *)
theory Fx
  imports Models
begin

text \<open>
  The quote engine, \<open>app/services/fx_service.py\<close>: the active fee configuration, the market
  rate, the shared cash-out fee and payout arithmetic, and the sender's quote. Every rounding
  step of the code is a rounding step here (28-digit context operations and ROUND_HALF_UP
  quantising), so the bounds below are bounds on what the code computes.
\<close>

section \<open>Configuration\<close>

text \<open>The settings of \<open>app/config.py\<close> that the modelled services read.\<close>

record settings =
  fx_rate_source :: string
  fx_static_market_rate :: string
  display_utc_offset :: duration
  xrpl_currency_code :: string
  xrpl_issuer_address :: string
  xrpl_platform_wallet_address :: string
  xrpl_platform_wallet_seed :: string

definition get_active_fee_config :: "db \<Rightarrow> fee_config option" where
  "get_active_fee_config d = first_row (newest_first f_created_at (filter f_is_active (fee_configs d)))"

text \<open>The seven figures an admin edits, as parsed from the form.\<close>

record fee_values =
  v_fixed_fee_zar :: dec
  v_percentage_fee :: dec
  v_fx_margin :: dec
  v_cashout_fee_percentage :: dec
  v_cashout_fee_min_usd :: dec
  v_market_rate_zar_per_usd :: dec
  v_min_send_zar :: dec

text \<open>
  The write goes through the column types: each figure is rounded to its scale, and one that
  overflows its column aborts the transaction.
\<close>

definition stored_fees :: "fee_values \<Rightarrow> fee_config \<Rightarrow> fee_config option" where
  "stored_fees v c =
     (case (store_numeric 20 2 (v_fixed_fee_zar v), store_numeric 10 6 (v_percentage_fee v),
            store_numeric 10 6 (v_fx_margin v), store_numeric 10 6 (v_cashout_fee_percentage v),
            store_numeric 20 6 (v_cashout_fee_min_usd v), store_numeric 20 6 (v_market_rate_zar_per_usd v),
            store_numeric 20 2 (v_min_send_zar v)) of
        (Some fixed, Some pct, Some margin, Some cpct, Some cmin, Some rate, Some mins) \<Rightarrow>
          Some (c\<lparr>f_fixed_fee_zar := fixed, f_percentage_fee := pct, f_fx_margin := margin,
                  f_cashout_fee_percentage := cpct, f_cashout_fee_min_usd := cmin,
                  f_market_rate_zar_per_usd := rate, f_min_send_zar := mins\<rparr>)
      | _ \<Rightarrow> None)"

definition update_fee_config :: "db \<Rightarrow> fee_config \<Rightarrow> fee_values \<Rightarrow> (exn + fee_config) \<times> db" where
  "update_fee_config d c v =
     (case stored_fees v c of
        None \<Rightarrow> (Inl DatabaseError, d)
      | Some c' \<Rightarrow>
          (Inr c', d\<lparr>fee_configs := update_where (\<lambda>r. f_id r = f_id c) (\<lambda>_. c') (fee_configs d)\<rparr>))"

section \<open>Market rate\<close>

definition get_market_rate :: "settings \<Rightarrow> db \<Rightarrow> fee_config option \<Rightarrow> exn + dec" where
  "get_market_rate s d given =
     (let source = lower (if fx_rate_source s = [] then ''config'' else fx_rate_source s)
      in if source = ''config'' then
           case (case given of None \<Rightarrow> get_active_fee_config d | Some c \<Rightarrow> Some c) of
             None \<Rightarrow> Inl FXConfigError
           | Some c \<Rightarrow> arith (quantize 6 (f_market_rate_zar_per_usd c))
         else if source = ''static'' then
           case py_decimal (fx_static_market_rate s) of
             None \<Rightarrow> Inl (ArithmeticError InvalidOperation)
           | Some x \<Rightarrow> arith (quantize_any 6 x)
         else Inl FXConfigError)"

section \<open>Cash-out fee and payout\<close>

definition cashout_fee_usd :: "dec \<Rightarrow> dec \<Rightarrow> dec \<Rightarrow> exn + dec" where
  "cashout_fee_usd uctusd_amount fee_percentage fee_min_usd =
     arith (quantize 6 (max (dec_mul fee_percentage uctusd_amount) fee_min_usd))"

definition cashout_payout :: "dec \<Rightarrow> dec \<Rightarrow> dec \<Rightarrow> payout_currency \<Rightarrow> exn + dec" where
  "cashout_payout uctusd_amount fee_usd market_rate currency =
     (let net_uctusd = dec_sub uctusd_amount fee_usd
      in case currency of
           USD \<Rightarrow> arith (quantize 6 net_uctusd)
         | ZAR \<Rightarrow> arith (quantize 2 (dec_mul net_uctusd market_rate)))"

section \<open>Quotes\<close>

record quote =
  q_zar_amount :: dec
  q_transaction_fee :: dec
  q_net_zar_converted :: dec
  q_market_rate :: dec
  q_fx_margin :: dec
  q_exchange_rate :: dec
  q_uctusd_amount :: dec
  q_cashout_fee_estimate :: dec
  q_payout_estimate :: dec
  q_payout_currency :: payout_currency

definition calculate_quote ::
  "decimal \<Rightarrow> dec \<Rightarrow> dec \<Rightarrow> dec \<Rightarrow> dec \<Rightarrow> dec \<Rightarrow> dec \<Rightarrow> payout_currency \<Rightarrow> exn + quote" where
  "calculate_quote zar_send market fixed_fee_zar percentage_fee fx_margin
     cashout_fee_percentage cashout_fee_min_usd currency =
     and_then (arith (quantize_any 2 zar_send)) (\<lambda>zar.
     and_then (arith (quantize 6 market)) (\<lambda>market_rate.
     and_then (arith (quantize 2 (dec_add fixed_fee_zar (dec_mul percentage_fee zar)))) (\<lambda>fee.
     and_then (arith (quantize 6 (dec_mul market_rate (dec_add 1 fx_margin)))) (\<lambda>rate.
     and_then (arith (quantize 2 (dec_sub zar fee))) (\<lambda>net.
     and_then (raise_if (net \<le> 0) (AmountTooSmall zar)) (\<lambda>_.
     and_then (arith (dec_div net rate)) (\<lambda>converted.
     and_then (arith (quantize 6 converted)) (\<lambda>uctusd.
     and_then (raise_if (uctusd \<le> 0) (AmountTooSmall zar)) (\<lambda>_.
     and_then (cashout_fee_usd uctusd cashout_fee_percentage cashout_fee_min_usd) (\<lambda>estimate.
     and_then (cashout_payout uctusd estimate market_rate currency) (\<lambda>payout.
     and_then (arith (quantize 6 fx_margin)) (\<lambda>margin.
     Inr \<lparr>q_zar_amount = zar, q_transaction_fee = fee, q_net_zar_converted = net,
          q_market_rate = market_rate, q_fx_margin = margin, q_exchange_rate = rate,
          q_uctusd_amount = uctusd, q_cashout_fee_estimate = estimate,
          q_payout_estimate = payout, q_payout_currency = currency\<rparr>))))))))))))"

definition quote_for :: "settings \<Rightarrow> db \<Rightarrow> decimal \<Rightarrow> payout_currency \<Rightarrow> exn + quote" where
  "quote_for s d zar_send currency =
     (case get_active_fee_config d of
        None \<Rightarrow> Inl FXConfigError
      | Some c \<Rightarrow>
          and_then (arith (quantize 2 (f_min_send_zar c))) (\<lambda>minimum.
          and_then (arith (quantize_any 2 zar_send)) (\<lambda>zar.
          and_then (raise_if (zar < minimum) (AmountTooSmall minimum)) (\<lambda>_.
          and_then (get_market_rate s d (Some c)) (\<lambda>rate.
          calculate_quote zar_send rate (f_fixed_fee_zar c) (f_percentage_fee c) (f_fx_margin c)
            (f_cashout_fee_percentage c) (f_cashout_fee_min_usd c) currency)))))"

section \<open>Laws of the fee and payout arithmetic\<close>

lemma quantize_any_Inr:
  "quantize_any k x = Inr y \<longleftrightarrow> (\<exists>v. x = Fin v \<and> quantize k v = Inr y)"
  by (cases x) auto

lemma quantize_mono: "quantize k x = Inr a \<Longrightarrow> quantize k y = Inr b \<Longrightarrow> x \<le> y \<Longrightarrow> a \<le> b"
  by (simp add: quantize_eq_Inr grid.rnd_mono)

lemma cashout_fee_usd_Inr:
  assumes "cashout_fee_usd amount pct minimum = Inr fee"
  shows "fee = to_grid 6 (max (dec_mul pct amount) minimum)" "on_grid 6 fee" "fits 6 fee"
  using assms by (auto simp: cashout_fee_usd_def quantize_eq_Inr)

lemma cashout_fee_floor:
  "cashout_fee_usd amount pct minimum = Inr fee \<Longrightarrow> on_grid 6 minimum \<Longrightarrow> minimum \<le> fee"
  using grid.rnd_mono [of minimum "max (dec_mul pct amount) minimum" 6]
  by (auto dest: cashout_fee_usd_Inr(1) simp: to_grid_id)

lemma cashout_fee_nonneg:
  "cashout_fee_usd amount pct minimum = Inr fee \<Longrightarrow> 0 \<le> minimum \<Longrightarrow> 0 \<le> fee"
  using grid.rnd_nonneg [of "max (dec_mul pct amount) minimum" 6]
  by (auto dest: cashout_fee_usd_Inr(1))

lemma cashout_payout_usd:
  assumes "cashout_payout amount fee rate USD = Inr p" and "on_grid 6 amount" "fits 6 amount" "0 \<le> amount"
    and "on_grid 6 fee" "fits 6 fee" "0 \<le> fee"
  shows "p = amount - fee"
proof -
  have "dec_sub amount fee = amount - fee" using assms by (intro dec_sub_exact fits_diff)
  moreover have "quantize 6 (amount - fee) = Inr (amount - fee)"
    using assms by (intro quantize_id on_grid_diff fits_diff)
  ultimately show ?thesis using assms(1) by (simp add: cashout_payout_def)
qed

section \<open>Laws of a quote\<close>

text \<open>What a returned quote went through, step by step; the quote lemmas start here.\<close>

lemma calculate_quoteE:
  assumes "calculate_quote send market fixed pct margin cpct cmin cur = Inr q"
  obtains z where
    "send = Fin z" "quantize 2 z = Inr (q_zar_amount q)" "quantize 6 market = Inr (q_market_rate q)"
    "quantize 2 (dec_add fixed (dec_mul pct (q_zar_amount q))) = Inr (q_transaction_fee q)"
    "quantize 6 (dec_mul (q_market_rate q) (dec_add 1 margin)) = Inr (q_exchange_rate q)"
    "quantize 2 (dec_sub (q_zar_amount q) (q_transaction_fee q)) = Inr (q_net_zar_converted q)"
    "0 < q_net_zar_converted q" "q_exchange_rate q \<noteq> 0"
    "quantize 6 (ctx (q_net_zar_converted q / q_exchange_rate q)) = Inr (q_uctusd_amount q)"
    "0 < q_uctusd_amount q"
    "cashout_fee_usd (q_uctusd_amount q) cpct cmin = Inr (q_cashout_fee_estimate q)"
    "cashout_payout (q_uctusd_amount q) (q_cashout_fee_estimate q) (q_market_rate q) cur
       = Inr (q_payout_estimate q)"
    "q_payout_currency q = cur"
proof -
  from assms obtain zar rate0 fee rate net conv uct est pay mg where
    s: "arith (quantize_any 2 send) = Inr zar" "arith (quantize 6 market) = Inr rate0"
      "arith (quantize 2 (dec_add fixed (dec_mul pct zar))) = Inr fee"
      "arith (quantize 6 (dec_mul rate0 (dec_add 1 margin))) = Inr rate"
      "arith (quantize 2 (dec_sub zar fee)) = Inr net" "\<not> net \<le> 0"
      "arith (dec_div net rate) = Inr conv" "arith (quantize 6 conv) = Inr uct" "\<not> uct \<le> 0"
      "cashout_fee_usd uct cpct cmin = Inr est" "cashout_payout uct est rate0 cur = Inr pay"
    and q: "q = \<lparr>q_zar_amount = zar, q_transaction_fee = fee, q_net_zar_converted = net,
          q_market_rate = rate0, q_fx_margin = mg, q_exchange_rate = rate,
          q_uctusd_amount = uct, q_cashout_fee_estimate = est,
          q_payout_estimate = pay, q_payout_currency = cur\<rparr>"
    unfolding calculate_quote_def and_then_eq_Inr raise_if_eq by blast
  from s(7) have "rate \<noteq> 0" "conv = ctx (net / rate)"
    by (simp_all add: dec_div_def split: if_splits)
  moreover from s(1) obtain z where "send = Fin z" "quantize 2 z = Inr zar"
    by (auto simp: quantize_any_Inr)
  ultimately show thesis using s by (intro that) (simp_all add: q)
qed

lemma quote_fee_nonneg:
  assumes "calculate_quote send market fixed pct margin cpct cmin cur = Inr q"
    and "0 \<le> fixed" "0 \<le> pct" "0 \<le> q_zar_amount q"
  shows "0 \<le> q_transaction_fee q"
  using assms(1)
proof (rule calculate_quoteE)
  assume fee: "quantize 2 (dec_add fixed (dec_mul pct (q_zar_amount q))) = Inr (q_transaction_fee q)"
  have "0 \<le> dec_mul pct (q_zar_amount q)"
    unfolding dec_mul_def using assms by (intro ctx28.rnd_nonneg mult_nonneg_nonneg)
  then have "0 \<le> dec_add fixed (dec_mul pct (q_zar_amount q))"
    unfolding dec_add_def using assms(2) by (intro ctx28.rnd_nonneg add_nonneg_nonneg)
  then have "0 \<le> to_grid 2 (dec_add fixed (dec_mul pct (q_zar_amount q)))" by (rule grid.rnd_nonneg)
  with fee show ?thesis by (simp only: quantize_eq_Inr)
qed

lemma quote_positive:
  assumes "calculate_quote send market fixed pct margin cpct cmin cur = Inr q"
  shows "0 < q_net_zar_converted q" "0 < q_uctusd_amount q" "on_grid 6 (q_uctusd_amount q)"
    "fits 6 (q_uctusd_amount q)" "on_grid 2 (q_zar_amount q)" "on_grid 6 (q_exchange_rate q)"
  using assms by (auto elim!: calculate_quoteE simp: quantize_eq_Inr)

lemma quote_rate_positive:
  assumes "calculate_quote send market fixed pct margin cpct cmin cur = Inr q"
  shows "0 < q_exchange_rate q"
  using assms
proof (rule calculate_quoteE)
  assume u: "quantize 6 (ctx (q_net_zar_converted q / q_exchange_rate q)) = Inr (q_uctusd_amount q)"
    and pos: "0 < q_uctusd_amount q" "0 < q_net_zar_converted q"
  from u pos(1) have "0 < to_grid 6 (ctx (q_net_zar_converted q / q_exchange_rate q))"
    by (simp add: quantize_eq_Inr)
  then have "0 < ctx (q_net_zar_converted q / q_exchange_rate q)" by (rule grid.rnd_pos_arg)
  then have "0 < q_net_zar_converted q / q_exchange_rate q" by (rule ctx28.rnd_pos_arg)
  with pos(2) show ?thesis by (simp add: zero_less_divide_iff)
qed

section \<open>Properties of the quote engine\<close>

text \<open>
  The worked example of the docstring of \<open>calculate_quote\<close>: R1000 at 18.50 with a R25 + 1.5%
  fee and a 2% margin costs R40.00 and buys 50.874404 UCTUSD at 18.870000.
\<close>

definition example_quote :: quote where
  "example_quote = \<lparr>q_zar_amount = 1000, q_transaction_fee = 40, q_net_zar_converted = 960,
     q_market_rate = 18.5, q_fx_margin = 0.02, q_exchange_rate = 18.87,
     q_uctusd_amount = 50.874404, q_cashout_fee_estimate = 1, q_payout_estimate = 922.68,
     q_payout_currency = ZAR\<rparr>"

lemma example_quote_eq:
  "calculate_quote (Fin 1000) 18.50 25 0.015 0.02 0.01 1 ZAR = Inr example_quote"
proof -
  have steps: "quantize 2 1000 = Inr 1000" "quantize 6 18.50 = Inr 18.5"
    "quantize 2 (dec_add 25 (dec_mul 0.015 1000)) = Inr 40"
    "quantize 6 (dec_mul 18.5 (dec_add 1 0.02)) = Inr 18.87"
    "quantize 2 (dec_sub 1000 40) = Inr 960" "dec_div 960 18.87 = Inr (ctx (960 / 18.87))"
    "quantize 6 (ctx (960 / 18.87)) = Inr 50.874404" "cashout_fee_usd 50.874404 0.01 1 = Inr 1"
    "cashout_payout 50.874404 1 18.5 ZAR = Inr 922.68" "quantize 6 0.02 = Inr 0.02"
    by (code_simp, code_simp, code_simp, code_simp, code_simp, simp add: dec_div_def,
        code_simp, code_simp, code_simp, code_simp)
  show ?thesis
    unfolding calculate_quote_def quantize_any.simps arith_simps steps and_then_Inr example_quote_def
    by (simp add: raise_if_def)
qed

text \<open>
  C28. Money in equals money converted plus the fee: with non-negative fee settings a returned
  quote for a non-negative amount splits the sender's rand exactly into fee and converted
  amount, both within the send, and converts to a positive UCTUSD amount.
\<close>

theorem quote_balances:
  assumes "calculate_quote send market fixed pct margin cpct cmin cur = Inr q"
    and "0 \<le> fixed" "0 \<le> pct" "0 \<le> q_zar_amount q"
  shows "q_transaction_fee q + q_net_zar_converted q = q_zar_amount q
    \<and> 0 \<le> q_transaction_fee q \<and> 0 < q_net_zar_converted q \<and> 0 < q_uctusd_amount q
    \<and> on_grid 6 (q_uctusd_amount q)"
proof -
  have fee0: "0 \<le> q_transaction_fee q" using assms by (rule quote_fee_nonneg)
  from assms(1) have "q_net_zar_converted q = q_zar_amount q - q_transaction_fee q"
  proof (rule calculate_quoteE)
    fix z
    assume net: "quantize 2 (dec_sub (q_zar_amount q) (q_transaction_fee q)) = Inr (q_net_zar_converted q)"
      and z: "quantize 2 z = Inr (q_zar_amount q)"
      and f: "quantize 2 (dec_add fixed (dec_mul pct (q_zar_amount q))) = Inr (q_transaction_fee q)"
    have b: "fits 2 (q_zar_amount q - q_transaction_fee q)"
      by (rule fits_diff [OF assms(4) fee0 quantize_fits [OF z] quantize_fits [OF f]])
    have g: "on_grid 2 (q_zar_amount q)" "on_grid 2 (q_transaction_fee q)"
      by (rule quantize_on_grid [OF z] quantize_on_grid [OF f])+
    show ?thesis
      using net quantize_id [OF on_grid_diff [OF g] b] unfolding dec_sub_exact [OF g b] by simp
  qed
  then show ?thesis using fee0 quote_positive [OF assms(1)] by simp
qed

theorem quote_balances_witness:
  "q_transaction_fee example_quote + q_net_zar_converted example_quote = q_zar_amount example_quote
    \<and> 0 < q_uctusd_amount example_quote"
  using quote_balances [OF example_quote_eq] by (simp add: example_quote_def)

text \<open>
  The margin never turns against the platform: with a non-negative margin the rate the sender
  gets is at least the market rate of the quote.
\<close>

theorem quote_rate_at_least_market:
  assumes "calculate_quote send market fixed pct margin cpct cmin cur = Inr q"
    and "0 \<le> margin" "0 \<le> q_market_rate q"
  shows "q_market_rate q \<le> q_exchange_rate q"
  using assms(1)
proof (rule calculate_quoteE)
  assume m: "quantize 6 market = Inr (q_market_rate q)"
    and r: "quantize 6 (dec_mul (q_market_rate q) (dec_add 1 margin)) = Inr (q_exchange_rate q)"
  have one: "ctx 1 = 1" using ctx_exact_int [of 1 0] by simp
  have "1 \<le> dec_add 1 margin" using ctx_mono [of 1 "1 + margin"] assms(2) by (simp add: dec_add_def one)
  then have "q_market_rate q \<le> q_market_rate q * dec_add 1 margin"
    using assms(3) by (simp add: mult_le_cancel_left1)
  then have "ctx (q_market_rate q) \<le> dec_mul (q_market_rate q) (dec_add 1 margin)"
    unfolding dec_mul_def by (rule ctx_mono)
  moreover have "ctx (q_market_rate q) = q_market_rate q"
    using quantize_on_grid [OF m] quantize_fits [OF m] by (rule ctx_on_grid)
  ultimately have "to_grid 6 (q_market_rate q) \<le> to_grid 6 (dec_mul (q_market_rate q) (dec_add 1 margin))"
    by (intro grid.rnd_mono) simp
  then show ?thesis
    using r to_grid_id [OF quantize_on_grid [OF m]] by (simp add: quantize_eq_Inr)
qed

theorem quote_rate_at_least_market_witness:
  "q_market_rate example_quote \<le> q_exchange_rate example_quote"
  by (rule quote_rate_at_least_market [OF example_quote_eq]) (simp_all add: example_quote_def)

lemma errors_add: "\<bar>b - x\<bar> < e1 \<Longrightarrow> \<bar>a - b\<bar> \<le> e2 \<Longrightarrow> e1 + e2 \<le> e \<Longrightarrow> \<bar>a - x\<bar> < e"
  for a :: rat
  by linarith

text \<open>
  C29. The conversion is right to one millionth: for any send whose conversion stays below
  \<open>10 ^ 20\<close> units, the UCTUSD amount differs from net rand divided by the effective rate by less
  than the smallest unit, in spite of the 28-digit division and the final rounding.
\<close>

theorem quote_conversion_error:
  assumes "calculate_quote send market fixed pct margin cpct cmin cur = Inr q"
    and small: "q_net_zar_converted q < 10 ^ 20 * q_exchange_rate q"
  shows "\<bar>q_uctusd_amount q - q_net_zar_converted q / q_exchange_rate q\<bar> < 1 / 10 ^ 6"
  using assms(1)
proof (rule calculate_quoteE)
  let ?x = "q_net_zar_converted q / q_exchange_rate q"
  assume u: "quantize 6 (ctx ?x) = Inr (q_uctusd_amount q)" and net: "0 < q_net_zar_converted q"
  have rate: "0 < q_exchange_rate q" by (rule quote_rate_positive [OF assms(1)])
  have x0: "0 < ?x" and x1: "?x < 10 ^ 20"
    using net rate small by (simp_all add: pos_divide_less_eq)
  have "\<bar>ctx ?x - ?x\<bar> \<le> ?x / (2 * 10 ^ 27)" by (rule ctx_error [OF x0])
  also have "\<dots> < 10 ^ 20 / (2 * 10 ^ 27)" using x1 by (intro divide_strict_right_mono) simp_all
  finally have c: "\<bar>ctx ?x - ?x\<bar> < 1 / (2 * 10 ^ 7)" by simp
  have d: "\<bar>q_uctusd_amount q - ctx ?x\<bar> \<le> 1 / 10 ^ 6 / 2"
    using u grid.within_half [of 6 "ctx ?x"] by (simp only: quantize_eq_Inr)
  show ?thesis by (rule errors_add [OF c d]) simp
qed

theorem quote_conversion_error_witness:
  "\<bar>q_uctusd_amount example_quote - 960 / 18.87\<bar> < 1 / 10 ^ 6"
  using quote_conversion_error [OF example_quote_eq] by (simp add: example_quote_def)

text \<open>The quote for a given configuration row.\<close>

lemma quote_forE:
  assumes "quote_for s d send cur = Inr q"
  obtains c minimum zar rate where
    "get_active_fee_config d = Some c" "quantize 2 (f_min_send_zar c) = Inr minimum"
    "quantize_any 2 send = Inr zar" "minimum \<le> zar" "get_market_rate s d (Some c) = Inr rate"
    "calculate_quote send rate (f_fixed_fee_zar c) (f_percentage_fee c) (f_fx_margin c)
       (f_cashout_fee_percentage c) (f_cashout_fee_min_usd c) cur = Inr q"
  using assms that unfolding quote_for_def
  by (cases "get_active_fee_config d") (auto simp: not_less)

lemma quote_for_zar: "quote_for s d send cur = Inr q \<Longrightarrow> quantize_any 2 send = Inr (q_zar_amount q)"
  by (elim quote_forE calculate_quoteE) simp

text \<open>
  The configured minimum is enforced on every quote, whoever asks for it: no quote is returned
  for an amount that rounds to less than \<open>min_send_zar\<close>.
\<close>

theorem quote_for_minimum:
  assumes "quote_for s d send cur = Inr q" and "get_active_fee_config d = Some c"
    and "on_grid 2 (f_min_send_zar c)"
  shows "f_min_send_zar c \<le> q_zar_amount q"
  using assms(1)
proof (rule quote_forE)
  fix c' minimum zar rate
  assume "get_active_fee_config d = Some c'" "quantize 2 (f_min_send_zar c') = Inr minimum"
    "quantize_any 2 send = Inr zar" "minimum \<le> zar"
  then show ?thesis
    using assms(2,3) quote_for_zar [OF assms(1)] by (simp add: quantize_eq_Inr to_grid_id)
qed

text \<open>A one-row example configuration, the figures of the docstring.\<close>

definition example_fees :: fee_config where
  "example_fees = \<lparr>f_id = 1, f_fixed_fee_zar = 25, f_percentage_fee = 0.015, f_fx_margin = 0.02,
     f_cashout_fee_percentage = 0.01, f_cashout_fee_min_usd = 1, f_min_send_zar = 50,
     f_market_rate_zar_per_usd = 18.5, f_is_active = True, f_created_at = 0\<rparr>"

definition example_settings :: settings where
  "example_settings = \<lparr>fx_rate_source = ''config'', fx_static_market_rate = ''18.50'',
     display_utc_offset = hours 2, xrpl_currency_code = ''5543545553440000000000000000000000000000'',
     xrpl_issuer_address = ''rIssuer'', xrpl_platform_wallet_address = ''rPlatform'',
     xrpl_platform_wallet_seed = ''sSeed''\<rparr>"

lemma example_market_rate:
  "get_market_rate example_settings d (Some example_fees) = Inr 18.5"
proof -
  have "quantize 6 18.5 = Inr 18.5" by code_simp
  moreover have "lower (fx_rate_source example_settings) = ''config''" by code_simp
  ultimately show ?thesis
    by (simp add: get_market_rate_def example_settings_def example_fees_def)
qed

lemma example_quote_for:
  assumes "get_active_fee_config d = Some example_fees"
  shows "quote_for example_settings d (Fin 1000) ZAR = Inr example_quote"
proof -
  have "quantize 2 50 = Inr 50" "quantize 2 1000 = Inr 1000" by (code_simp, code_simp)
  then show ?thesis
    using assms example_market_rate example_quote_eq
    by (simp add: quote_for_def example_fees_def raise_if_def)
qed

lemma example_fees_active:
  "get_active_fee_config (empty_db\<lparr>fee_configs := [example_fees]\<rparr>) = Some example_fees"
  by (simp add: get_active_fee_config_def newest_first_def first_row_def example_fees_def)

theorem quote_for_minimum_witness:
  "f_min_send_zar example_fees \<le> q_zar_amount example_quote"
  by (rule quote_for_minimum [OF example_quote_for [OF example_fees_active] example_fees_active])
    (code_simp)

text \<open>
  A saved fee configuration (FR-FX-08) governs the quotes that follow and nothing else: when
  the active row is saved, the next quote reads exactly the saved row, and every booked remittance
  and cash-out keeps the figures it was priced with.
\<close>

theorem update_fee_config_governs:
  assumes "get_active_fee_config d = Some c" and "distinct (map f_id (fee_configs d))"
    and "update_fee_config d c v = (Inr c', d')"
  shows "get_active_fee_config d' = Some c' \<and> stored_fees v c = Some c'
    \<and> transactions d' = transactions d \<and> cashouts d' = cashouts d \<and> wallets d' = wallets d"
proof -
  from assms(3) have st: "stored_fees v c = Some c'"
    and d': "d' = d\<lparr>fee_configs := update_where (\<lambda>r. f_id r = f_id c) (\<lambda>_. c') (fee_configs d)\<rparr>"
    by (auto simp: update_fee_config_def split: option.splits)
  have keep: "f_id c' = f_id c" "f_is_active c' = f_is_active c" "f_created_at c' = f_created_at c"
    using st by (auto simp: stored_fees_def split: option.splits)
  have c: "c \<in> set (fee_configs d)"
    using assms(1) by (auto simp: get_active_fee_config_def dest!: first_row_mem)
  have same: "r = c" if "r \<in> set (fee_configs d)" "f_id r = f_id c" for r
    using that c assms(2) by (metis eq_key_imp_eq_value distinct_map inj_onD)
  let ?g = "\<lambda>r. if f_id r = f_id c then c' else r"
  have "filter f_is_active (map ?g (fee_configs d)) = map ?g (filter f_is_active (fee_configs d))"
    using same keep by (intro filter_map_keep) auto
  moreover have "newest_first f_created_at (map ?g (filter f_is_active (fee_configs d)))
    = map ?g (newest_first f_created_at (filter f_is_active (fee_configs d)))"
    using same keep by (intro newest_first_map) auto
  ultimately have "get_active_fee_config d' = map_option ?g (get_active_fee_config d)"
    by (simp add: get_active_fee_config_def d' update_where_def first_row_map)
  then show ?thesis using assms(1) st by (simp add: d')
qed

definition example_fee_values :: fee_values where
  "example_fee_values = \<lparr>v_fixed_fee_zar = 30, v_percentage_fee = 0.02, v_fx_margin = 0.02,
     v_cashout_fee_percentage = 0.01, v_cashout_fee_min_usd = 1,
     v_market_rate_zar_per_usd = 18.25, v_min_send_zar = 50\<rparr>"

theorem update_fee_config_governs_witness:
  "map_option f_market_rate_zar_per_usd (get_active_fee_config
     (snd (update_fee_config (empty_db\<lparr>fee_configs := [example_fees]\<rparr>) example_fees example_fee_values)))
   = Some 18.25"
proof -
  have "map_option f_market_rate_zar_per_usd (stored_fees example_fee_values example_fees) = Some 18.25"
    by code_simp
  then obtain c' where c': "stored_fees example_fee_values example_fees = Some c'"
    "f_market_rate_zar_per_usd c' = 18.25" by auto
  let ?d = "empty_db\<lparr>fee_configs := [example_fees]\<rparr>"
  have "update_fee_config ?d example_fees example_fee_values
      = (Inr c', snd (update_fee_config ?d example_fees example_fee_values))"
    by (simp add: update_fee_config_def c')
  from update_fee_config_governs [OF example_fees_active _ this] c' show ?thesis
    by (simp add: empty_db_def)
qed

end
