(* ===== verification/Calendar.thy ===== *)
theory Calendar
  imports Models
begin

text \<open>
  The calendar of Python's \<open>datetime\<close> as the program uses it: proleptic Gregorian dates as
  ordinals, and instants as microseconds from 0001-01-01T00:00Z. \<open>limit_service\<close> cuts the
  usage windows with it and \<open>cashin_service\<close> reads the current month. The two conversions are
  the ones of the library (\<open>_ymd2ord\<close> and \<open>_ord2ymd\<close>) and are proved inverse.
\<close>

section \<open>Dates and ordinals\<close>

definition is_leap :: "int \<Rightarrow> bool" where
  "is_leap y \<longleftrightarrow> y mod 4 = 0 \<and> (y mod 100 \<noteq> 0 \<or> y mod 400 = 0)"

definition days_before_year :: "int \<Rightarrow> int" where
  "days_before_year y = (y - 1) * 365 + (y - 1) div 4 - (y - 1) div 100 + (y - 1) div 400"

definition days_in_month :: "bool \<Rightarrow> int \<Rightarrow> int" where
  "days_in_month leap m =
     (if m = 2 then (if leap then 29 else 28) else if m \<in> {4, 6, 9, 11} then 30 else 31)"

definition days_before_month :: "bool \<Rightarrow> int \<Rightarrow> int" where
  "days_before_month leap m =
     [0, 31, 59, 90, 120, 151, 181, 212, 243, 273, 304, 334] ! nat (m - 1)
     + (if 2 < m \<and> leap then 1 else 0)"

definition ymd_ord :: "date \<Rightarrow> int" where
  "ymd_ord = (\<lambda>(y, m, d). days_before_year y + days_before_month (is_leap y) m + d)"

text \<open>The month and the day of the zero-based day \<open>n\<close> of a year.\<close>

definition month_day :: "bool \<Rightarrow> int \<Rightarrow> int \<times> int" where
  "month_day leap n =
     (let guess = (n + 50) div 32;
          passed = days_before_month leap guess
      in if n < passed
         then (guess - 1, n - (passed - days_in_month leap (guess - 1)) + 1)
         else (guess, n - passed + 1))"

definition ord_ymd :: "int \<Rightarrow> date" where
  "ord_ymd ordinal =
     (let n = ordinal - 1;
          n400 = n div 146097; n = n mod 146097;
          n100 = n div 36524; n = n mod 36524;
          n4 = n div 1461; n = n mod 1461;
          n1 = n div 365; n = n mod 365;
          year = n400 * 400 + 1 + n100 * 100 + n4 * 4 + n1
      in if n1 = 4 \<or> n100 = 4 then (year - 1, 12, 31)
         else let leap = (n1 = 3 \<and> (n4 \<noteq> 24 \<or> n100 = 3))
              in (year, month_day leap n))"

section \<open>The conversions are inverse\<close>

lemma month_day_inverse:
  assumes "0 \<le> n" and "n < 365"
  shows "days_before_month leap (fst (month_day leap n)) + snd (month_day leap n) = n + 1
    \<and> 1 \<le> snd (month_day leap n) \<and> snd (month_day leap n) \<le> 31
    \<and> 1 \<le> fst (month_day leap n) \<and> fst (month_day leap n) \<le> 12"
proof -
  have all: "list_all (\<lambda>l. list_all (\<lambda>k. days_before_month l (fst (month_day l k)) + snd (month_day l k) = k + 1
      \<and> 1 \<le> snd (month_day l k) \<and> snd (month_day l k) \<le> 31
      \<and> 1 \<le> fst (month_day l k) \<and> fst (month_day l k) \<le> 12) [0..364]) [True, False]"
    by code_simp
  have mem: "n \<in> set [0..364]" "leap \<in> set [True, False]" using assms by auto
  from all mem show ?thesis unfolding list_all_iff by blast
qed

lemma mod_zero_top: "1 \<le> v \<Longrightarrow> v \<le> k \<Longrightarrow> v mod k = 0 \<longleftrightarrow> v = k" for v k :: int
  by (cases "v = k") (simp_all add: mod_pos_pos_trivial)

text \<open>
  Year \<open>y + 1\<close> for \<open>y\<close> written as \<open>a\<close> cycles of 400 years, \<open>b\<close> centuries, \<open>c\<close> cycles of four
  years and \<open>e\<close> years.
\<close>

lemma year_quotients:
  fixes a b c e :: int
  assumes "0 \<le> b" "b \<le> 3" "0 \<le> c" "c \<le> 24" "0 \<le> e" "e \<le> 3" and "y = 400 * a + 100 * b + 4 * c + e"
  shows "y div 4 = 100 * a + 25 * b + c" "y div 100 = 4 * a + b" "y div 400 = a"
proof -
  have "y = (100 * a + 25 * b + c) * 4 + e" using assms(7) by simp
  then show "y div 4 = 100 * a + 25 * b + c" using assms(5,6) by (simp add: div_pos_pos_trivial)
  have "y = (4 * a + b) * 100 + (4 * c + e)" using assms(7) by simp
  then show "y div 100 = 4 * a + b" using assms(3-6) by (simp add: div_pos_pos_trivial)
  have "y = a * 400 + (100 * b + 4 * c + e)" using assms(7) by simp
  then show "y div 400 = a" using assms(1-6) by (simp add: div_pos_pos_trivial)
qed

text \<open>A remainder below the divisor that wraps only when it reaches it.\<close>

lemma year_ends_cycle:
  fixes q r k t :: int
  assumes "y = q * k + r" and "0 \<le> r" and "r + 1 \<le> k" and "r + 1 = k \<longleftrightarrow> P"
  shows "(y + 1) mod k = 0 \<longleftrightarrow> P"
proof -
  have "(y + 1) mod k = (r + 1) mod k" using mod_mult_self1 [of "r + 1" q k] assms(1) by (simp add: algebra_simps)
  then show ?thesis using assms(2-4) mod_zero_top [of "r + 1" k] by simp
qed

lemma year_div:
  fixes a b c e :: int
  assumes "0 \<le> b" "b \<le> 3" "0 \<le> c" "c \<le> 24" "0 \<le> e" "e \<le> 3"
  defines "y \<equiv> 400 * a + 100 * b + 4 * c + e"
  shows "is_leap (y + 1) \<longleftrightarrow> e = 3 \<and> (c \<noteq> 24 \<or> b = 3)"
    "days_before_year (y + 1) = 146097 * a + 36524 * b + 1461 * c + 365 * e"
proof -
  have "(y + 1) mod 4 = 0 \<longleftrightarrow> e = 3"
    using assms(5,6) by (intro year_ends_cycle [of _ "100 * a + 25 * b + c" _ e]) (auto simp: y_def)
  moreover have "4 * c + e + 1 = 100 \<longleftrightarrow> c = 24 \<and> e = 3" using assms(3-6) by (intro iffI conjI; (elim conjE)?; linarith)
  then have "(y + 1) mod 100 = 0 \<longleftrightarrow> c = 24 \<and> e = 3"
    using assms(3-6) by (intro year_ends_cycle [of _ "4 * a + b" _ "4 * c + e"]) (simp_all add: y_def)
  moreover have "100 * b + 4 * c + e + 1 = 400 \<longleftrightarrow> b = 3 \<and> c = 24 \<and> e = 3"
    using assms(1-6) by (intro iffI conjI; (elim conjE)?; linarith)
  then have "(y + 1) mod 400 = 0 \<longleftrightarrow> b = 3 \<and> c = 24 \<and> e = 3"
    using assms(1-6) by (intro year_ends_cycle [of _ a _ "100 * b + 4 * c + e"]) (simp_all add: y_def)
  ultimately show "is_leap (y + 1) \<longleftrightarrow> e = 3 \<and> (c \<noteq> 24 \<or> b = 3)" by (auto simp: is_leap_def)
  have "days_before_year (y + 1) = y * 365 + y div 4 - y div 100 + y div 400"
    by (simp add: days_before_year_def)
  then show "days_before_year (y + 1) = 146097 * a + 36524 * b + 1461 * c + 365 * e"
    unfolding year_quotients [OF assms(1-6), of y a, OF y_def [THEN meta_eq_to_obj_eq]] by (simp add: y_def)
qed

text \<open>The last day of a cycle of 400 or of four years, where the quotient of the code runs over.\<close>

lemma last_day_of_cycle:
  fixes a b c e r2 r3 f n :: int
  assumes "n - 1 = 146097 * a + (36524 * b + r2)" "r2 = 1461 * c + r3" "r3 = 365 * e + f"
    and "0 \<le> r2" "r2 < 36524" "0 \<le> r3" "r3 < 1461" "0 \<le> f" "0 \<le> b" "b \<le> 4" "0 \<le> c" "c \<le> 24" "0 \<le> e" "e \<le> 4"
    and "36524 * b + r2 < 146097" and "e = 4 \<or> b = 4"
  shows "\<exists>b' c'. 0 \<le> b' \<and> b' \<le> 3 \<and> 0 \<le> c' \<and> c' \<le> 24 \<and> (c' \<noteq> 24 \<or> b' = 3)
    \<and> 400 * a + 100 * b + 4 * c + e = 400 * a + 100 * b' + 4 * c' + 3 + 1
    \<and> n = 146097 * a + 36524 * b' + 1461 * c' + 365 * 3 + 366"
proof (cases "b = 4")
  case True
  then have "r2 = 0" "c = 0" "e = 0" "f = 0" using assms by linarith+
  with True assms(1) show ?thesis by (intro exI [of _ 3] exI [of _ 24]) simp
next
  case False
  with assms(16) have e: "e = 4" by simp
  then have "f = 0" using assms(3,7,8) by linarith
  moreover have "c \<noteq> 24" using e assms(2-8) by auto
  ultimately show ?thesis using e False assms by (intro exI [of _ b] exI [of _ c]) simp
qed

lemma ord_ymd_day:
  "ymd_ord (ord_ymd n) = n \<and> 1 \<le> snd (snd (ord_ymd n))"
proof -
  define a where "a = (n - 1) div 146097"
  define r where "r = (n - 1) mod 146097"
  define b where "b = r div 36524"
  define r2 where "r2 = r mod 36524"
  define c where "c = r2 div 1461"
  define r3 where "r3 = r2 mod 1461"
  define e where "e = r3 div 365"
  define f where "f = r3 mod 365"
  have bounds: "0 \<le> r" "r < 146097" "0 \<le> r2" "r2 < 36524" "0 \<le> r3" "r3 < 1461" "0 \<le> f" "f < 365"
    by (simp_all add: r_def r2_def r3_def f_def)
  have eqs: "n - 1 = 146097 * a + r" "r = 36524 * b + r2" "r2 = 1461 * c + r3" "r3 = 365 * e + f"
    by (simp_all add: a_def r_def b_def r2_def c_def r3_def e_def f_def)
  have nn: "0 \<le> b" "0 \<le> c" "0 \<le> e"
    using bounds by (simp_all add: b_def c_def e_def pos_imp_zdiv_nonneg_iff)
  have up: "b \<le> 4" "c \<le> 24" "e \<le> 4" using eqs bounds by linarith+
  let ?y = "400 * a + 100 * b + 4 * c + e"
  have unf: "ord_ymd n = (if e = 4 \<or> b = 4 then (?y, 12, 31)
      else (?y + 1, month_day (e = 3 \<and> (c \<noteq> 24 \<or> b = 3)) f))"
    by (simp add: ord_ymd_def Let_def a_def [symmetric] r_def [symmetric] b_def [symmetric]
        r2_def [symmetric] c_def [symmetric] r3_def [symmetric] e_def [symmetric] f_def [symmetric])
  show ?thesis
  proof (cases "e = 4 \<or> b = 4")
    case True
    obtain b' c' where q: "0 \<le> b'" "b' \<le> 3" "0 \<le> c'" "c' \<le> 24" "c' \<noteq> 24 \<or> b' = 3"
      "?y = 400 * a + 100 * b' + 4 * c' + 3 + 1" "n = 146097 * a + 36524 * b' + 1461 * c' + 365 * 3 + 366"
      using last_day_of_cycle [of n a b r2 c r3 e f] eqs bounds nn up True by auto
    note yd = year_div [of b' c' 3 a, OF q(1-4)] and y = q(6)
    have "is_leap ?y" using yd(1) q(5) unfolding y by simp
    then have "ymd_ord (?y, 12, 31) = days_before_year ?y + 366"
      by (simp add: ymd_ord_def days_before_month_def)
    also have "\<dots> = n" unfolding y using yd(2) q(7) by linarith
    finally show ?thesis using True by (simp add: unf)
  next
    case False
    with up have "b \<le> 3" "e \<le> 3" by auto
    note yd = year_div [OF nn(1) this(1) nn(2) up(2) nn(3) this(2), of a]
    show ?thesis
      using False yd eqs month_day_inverse [OF bounds(7,8), of "e = 3 \<and> (c \<noteq> 24 \<or> b = 3)"]
      by (simp add: unf ymd_ord_def split_beta)
  qed
qed

text \<open>From the year 1 on, the parts are in their ranges.\<close>

lemma ord_ymd_range:
  assumes "1 \<le> n" and "ord_ymd n = (y, m, d)"
  shows "0 \<le> y" "1 \<le> m" "m \<le> 12" "1 \<le> d" "d \<le> 31"
proof -
  define a where "a = (n - 1) div 146097"
  define r where "r = (n - 1) mod 146097"
  define b where "b = r div 36524"
  define c where "c = r mod 36524 div 1461"
  define e where "e = r mod 36524 mod 1461 div 365"
  define f where "f = r mod 36524 mod 1461 mod 365"
  have f: "0 \<le> f" "f < 365" by (simp_all add: f_def)
  have nn: "0 \<le> a" "0 \<le> b" "0 \<le> c" "0 \<le> e"
    using assms(1) by (simp_all add: a_def r_def b_def c_def e_def pos_imp_zdiv_nonneg_iff)
  let ?l = "e = 3 \<and> (c \<noteq> 24 \<or> b = 3)"
  have "ord_ymd n = (if e = 4 \<or> b = 4 then (400 * a + 100 * b + 4 * c + e, 12, 31)
      else (400 * a + 100 * b + 4 * c + e + 1, month_day ?l f))"
    by (simp add: ord_ymd_def Let_def a_def [symmetric] r_def [symmetric] b_def [symmetric] c_def [symmetric]
        e_def [symmetric] f_def [symmetric])
  then have "y = 400 * a + 100 * b + 4 * c + e \<and> m = 12 \<and> d = 31
    \<or> y = 400 * a + 100 * b + 4 * c + e + 1 \<and> (m, d) = month_day ?l f"
    using assms(2) by (auto split: if_splits)
  then show "0 \<le> y" "1 \<le> m" "m \<le> 12" "1 \<le> d" "d \<le> 31"
    using nn month_day_inverse [OF f, of ?l] by (cases "month_day ?l f"; auto)+
qed

section \<open>Instants and local days\<close>

abbreviation day_length :: duration where
  "day_length \<equiv> hours 24"

text \<open>
  The date of an instant in a zone \<open>offset\<close> ahead of UTC, and the instant a local date begins.
  The display zone is a fixed offset (the default, Africa/Johannesburg, is UTC+2 all year).
\<close>

definition local_date :: "duration \<Rightarrow> instant \<Rightarrow> date" where
  "local_date offset t = ord_ymd ((t + offset) div day_length + 1)"

definition local_midnight :: "duration \<Rightarrow> date \<Rightarrow> instant" where
  "local_midnight offset day = (ymd_ord day - 1) * day_length - offset"

definition date_plus_days :: "date \<Rightarrow> int \<Rightarrow> date" where
  "date_plus_days day n = ord_ymd (ymd_ord day + n)"

lemma midnight_of_date:
  "local_midnight z (local_date z t) \<le> t" "t < local_midnight z (local_date z t) + day_length"
proof -
  have "local_midnight z (local_date z t) = (t + z) div day_length * day_length - z"
    using ord_ymd_day by (simp add: local_midnight_def local_date_def)
  moreover have "(t + z) div day_length * day_length \<le> t + z"
    "t + z < (t + z) div day_length * day_length + day_length" by simp_all
  ultimately show "local_midnight z (local_date z t) \<le> t"
    "t < local_midnight z (local_date z t) + day_length" by linarith+
qed

lemma date_plus_midnight:
  "local_midnight z (date_plus_days day n) = local_midnight z day + n * day_length"
  using ord_ymd_day by (simp add: local_midnight_def date_plus_days_def algebra_simps)

end
