(* ===== verification/SendLimits.thy ===== *)
theory SendLimits
  imports Fx Calendar
begin

text \<open>
  Remittance limits, \<open>app/services/limit_service.py\<close>: the tier of a user, usage summed over the
  real rows of the local day and month, and the check a send has to pass.
\<close>

section \<open>Tiers\<close>

fun tier_for_status :: "kyc_status \<Rightarrow> string" where
  "tier_for_status Kyc_not_submitted = ''unverified''"
| "tier_for_status Kyc_pending = ''unverified''"
| "tier_for_status Kyc_rejected = ''unverified''"
| "tier_for_status Kyc_approved = ''standard''"

definition get_limit_tier :: "db \<Rightarrow> user \<Rightarrow> limit_tier option" where
  "get_limit_tier d u = returning (\<lambda>l. l_tier_name l = tier_for_status (u_kyc_status u)) (tiers d)"

definition get_tier_by_id :: "db \<Rightarrow> uuid \<Rightarrow> limit_tier option" where
  "get_tier_by_id d i = by_key l_id i (tiers d)"

definition update_tier :: "db \<Rightarrow> limit_tier \<Rightarrow> dec \<Rightarrow> dec \<Rightarrow> (exn + limit_tier) \<times> db" where
  "update_tier d l daily monthly =
     (case (store_numeric 20 2 daily, store_numeric 20 2 monthly) of
        (Some dl, Some ml) \<Rightarrow>
          (let l' = l\<lparr>l_daily_limit_zar := dl, l_monthly_limit_zar := ml\<rparr>
           in (Inr l', d\<lparr>tiers := update_where (\<lambda>r. l_id r = l_id l) (\<lambda>_. l') (tiers d)\<rparr>))
      | _ \<Rightarrow> (Inl DatabaseError, d))"

section \<open>Usage\<close>

text \<open>A failed cash-in never moved money; everything else holds allowance.\<close>

definition counts_since :: "uuid \<Rightarrow> instant \<Rightarrow> transaction \<Rightarrow> bool" where
  "counts_since uid since t \<longleftrightarrow>
     t_sender_id t = uid \<and> since \<le> t_created_at t \<and> t_cashin_status t \<noteq> CashIn_failed"

definition sum_zar_since :: "db \<Rightarrow> uuid \<Rightarrow> instant \<Rightarrow> dec" where
  "sum_zar_since d uid since = (\<Sum>t\<leftarrow>filter (counts_since uid since) (transactions d). t_zar_amount t)"

definition display_today :: "settings \<Rightarrow> instant \<Rightarrow> date" where
  "display_today s now = local_date (display_utc_offset s) now"

definition day_start_utc :: "settings \<Rightarrow> date \<Rightarrow> instant" where
  "day_start_utc s day = local_midnight (display_utc_offset s) day"

definition day_window :: "settings \<Rightarrow> instant \<Rightarrow> instant" where
  "day_window s now = day_start_utc s (display_today s now)"

definition month_window :: "settings \<Rightarrow> instant \<Rightarrow> instant" where
  "month_window s now = (case display_today s now of (y, m, _) \<Rightarrow> day_start_utc s (y, m, 1))"

definition get_daily_usage :: "settings \<Rightarrow> instant \<Rightarrow> db \<Rightarrow> uuid \<Rightarrow> dec" where
  "get_daily_usage s now d uid = sum_zar_since d uid (day_window s now)"

definition get_monthly_usage :: "settings \<Rightarrow> instant \<Rightarrow> db \<Rightarrow> uuid \<Rightarrow> dec" where
  "get_monthly_usage s now d uid = sum_zar_since d uid (month_window s now)"

section \<open>The check\<close>

record limit_check =
  allowed :: bool
  reason :: "limit_reason option"
  daily_remaining :: dec
  monthly_remaining :: dec

definition check_limit :: "settings \<Rightarrow> instant \<Rightarrow> db \<Rightarrow> user \<Rightarrow> dec \<Rightarrow> limit_check" where
  "check_limit s now d u amount_zar =
     (case get_limit_tier d u of
        None \<Rightarrow> \<lparr>allowed = False, reason = Some No_tier, daily_remaining = 0, monthly_remaining = 0\<rparr>
      | Some tier \<Rightarrow>
          if l_daily_limit_zar tier = 0 \<and> l_monthly_limit_zar tier = 0
          then \<lparr>allowed = False, reason = Some Zero_tier, daily_remaining = 0, monthly_remaining = 0\<rparr>
          else
            let daily_used = get_daily_usage s now d (u_id u);
                monthly_used = get_monthly_usage s now d (u_id u);
                daily = max (dec_sub (l_daily_limit_zar tier) daily_used) 0;
                monthly = max (dec_sub (l_monthly_limit_zar tier) monthly_used) 0
            in if l_daily_limit_zar tier < dec_add daily_used amount_zar
               then \<lparr>allowed = False, reason = Some (Over_daily daily),
                     daily_remaining = daily, monthly_remaining = monthly\<rparr>
               else if l_monthly_limit_zar tier < dec_add monthly_used amount_zar
               then \<lparr>allowed = False, reason = Some (Over_monthly monthly),
                     daily_remaining = daily, monthly_remaining = monthly\<rparr>
               else \<lparr>allowed = True, reason = None,
                     daily_remaining = daily, monthly_remaining = monthly\<rparr>)"

section \<open>Laws of usage\<close>

text \<open>The windows the current instant lies in.\<close>

lemma day_window_le: "day_window s now \<le> now"
  by (simp add: day_window_def day_start_utc_def display_today_def midnight_of_date)

lemma month_window_le: "month_window s now \<le> day_window s now"
proof -
  obtain y m dd where t: "display_today s now = (y, m, dd)" by (cases "display_today s now")
  then have "1 \<le> dd" using ord_ymd_day by (auto simp: display_today_def local_date_def) (metis snd_conv)
  then show ?thesis
    by (simp add: month_window_def day_window_def day_start_utc_def local_midnight_def t ymd_ord_def)
qed

text \<open>Amounts as the columns hold them: rows of \<open>Numeric(20, 2)\<close> and never negative.\<close>

definition sends_ok :: "db \<Rightarrow> bool" where
  "sends_ok d \<longleftrightarrow> (\<forall>t\<in>set (transactions d). on_grid 2 (t_zar_amount t) \<and> 0 \<le> t_zar_amount t)"

definition tiers_ok :: "db \<Rightarrow> bool" where
  "tiers_ok d \<longleftrightarrow> (\<forall>l\<in>set (tiers d). column_value 20 2 (l_daily_limit_zar l)
     \<and> column_value 20 2 (l_monthly_limit_zar l) \<and> 0 \<le> l_daily_limit_zar l \<and> 0 \<le> l_monthly_limit_zar l)"

lemma usage_ok:
  assumes "sends_ok d"
  shows "on_grid 2 (sum_zar_since d uid since)" "0 \<le> sum_zar_since d uid since"
  using assms unfolding sum_zar_since_def sends_ok_def
  by (auto intro!: on_grid_sum_list sum_list_nonneg)

text \<open>The 28-digit sum compares with a limit as the exact sum does.\<close>

lemma on_grid_gap:
  assumes "on_grid k x" and "on_grid k y" and "y < x"
  shows "y + 1 / 10 ^ k \<le> x"
proof -
  from assms(1,2) obtain m n where "x = of_int m / 10 ^ k" "y = of_int n / 10 ^ k"
    by (elim on_gridE) simp
  with assms(3) have "n + 1 \<le> m" by (simp add: divide_less_cancel)
  then have "of_int (n + 1) \<le> (of_int m :: rat)" by (rule of_int_le_iff [THEN iffD2])
  then show ?thesis
    using \<open>x = _\<close> \<open>y = _\<close> by (simp add: add_divide_distrib [symmetric] divide_right_mono)
qed

lemma ctx_le_column:
  assumes "on_grid 2 x" and "column_value 20 2 l" and "0 \<le> l"
  shows "ctx x \<le> l \<longleftrightarrow> x \<le> l"
proof
  assume "x \<le> l"
  then have "ctx x \<le> ctx l" by (rule ctx_mono)
  also have "ctx l = l"
    using assms(2) column_fits [OF assms(2)] by (intro ctx_on_grid [of 2]) (simp_all add: column_value_def)
  finally show "ctx x \<le> l" .
next
  assume le: "ctx x \<le> l"
  show "x \<le> l"
  proof (rule ccontr)
    assume "\<not> x \<le> l"
    then have "l + 1 / 10 ^ 2 \<le> x"
      using assms(1,2) by (intro on_grid_gap) (simp_all add: column_value_def)
    then have "ctx (l + 1 / 10 ^ 2) \<le> ctx x" by (rule ctx_mono)
    moreover have "ctx (l + 1 / 10 ^ 2) = l + 1 / 10 ^ 2"
    proof (rule ctx_on_grid)
      show "on_grid 2 (l + 1 / 10 ^ 2)"
        using on_grid_add [of 2 l "1 / 10 ^ 2"] on_grid_of_int [of 2 1] assms(2)
        by (simp add: column_value_def)
      show "fits 2 (l + 1 / 10 ^ 2)"
        using assms(2,3) by (simp add: fits_def column_value_def)
    qed
    ultimately show False using le by simp
  qed
qed

lemma remaining_exact:
  assumes "column_value 20 2 l" and "0 \<le> l" and "on_grid 2 used" and "0 \<le> used"
  shows "max (dec_sub l used) 0 = max (l - used) 0"
proof (cases "used \<le> l")
  case True
  have "fits 2 l" using column_fits [OF assms(1)] by simp
  with True assms have "fits 2 (l - used)" by (simp add: fits_def)
  with assms show ?thesis by (simp add: dec_sub_exact [of 2] column_value_def)
next
  case False
  then show ?thesis using ctx28.rnd_nonpos [of "l - used"] by (simp add: dec_sub_def max_def)
qed

text \<open>Adding a send raises the usage of its own sender and window by its amount.\<close>

lemma usage_append:
  "sum_zar_since (d\<lparr>transactions := transactions d @ [t]\<rparr>) uid since
   = sum_zar_since d uid since + (if counts_since uid since t then t_zar_amount t else 0)"
  by (simp add: sum_zar_since_def)

lemma check_limitE:
  assumes "allowed (check_limit s now d u amount)" and "sends_ok d" and "tiers_ok d" and "on_grid 2 amount"
  obtains l where "get_limit_tier d u = Some l"
    "get_daily_usage s now d (u_id u) + amount \<le> l_daily_limit_zar l"
    "get_monthly_usage s now d (u_id u) + amount \<le> l_monthly_limit_zar l"
proof -
  from assms(1) obtain l where l: "get_limit_tier d u = Some l"
    and a: "dec_add (get_daily_usage s now d (u_id u)) amount \<le> l_daily_limit_zar l"
      "dec_add (get_monthly_usage s now d (u_id u)) amount \<le> l_monthly_limit_zar l"
    by (auto simp: check_limit_def Let_def not_less split: option.splits if_splits)
  from l have "l \<in> set (tiers d)" by (auto simp: get_limit_tier_def dest: returning_SomeD)
  with assms(3) have c: "column_value 20 2 (l_daily_limit_zar l)" "column_value 20 2 (l_monthly_limit_zar l)"
    "0 \<le> l_daily_limit_zar l" "0 \<le> l_monthly_limit_zar l" by (auto simp: tiers_ok_def)
  have g: "on_grid 2 (get_daily_usage s now d (u_id u) + amount)"
    "on_grid 2 (get_monthly_usage s now d (u_id u) + amount)"
    using usage_ok(1) [OF assms(2)] assms(4)
    by (auto simp: get_daily_usage_def get_monthly_usage_def intro: on_grid_add)
  show thesis
    using that [OF l] a ctx_le_column [OF g(1) c(1,3)] ctx_le_column [OF g(2) c(2,4)]
    unfolding dec_add_def by blast
qed

section \<open>Properties of the limits\<close>

text \<open>
  The remaining allowance a refusal quotes (FR-LIM-03) is exact: for a tier that permits
  sending, a positive amount passes the check exactly when it is at most both remaining
  allowances, and these are the limit less what the local day and month have used, floored at 0.
\<close>

theorem check_limit_exact:
  fixes s :: settings and now :: instant
  assumes "get_limit_tier d u = Some l"
    and "l_daily_limit_zar l \<noteq> 0 \<or> l_monthly_limit_zar l \<noteq> 0"
    and "sends_ok d" and "tiers_ok d" and "on_grid 2 amount" and "0 < amount"
  defines "c \<equiv> check_limit s now d u amount"
  shows "(allowed c \<longleftrightarrow> amount \<le> daily_remaining c \<and> amount \<le> monthly_remaining c)
    \<and> daily_remaining c = max (l_daily_limit_zar l - get_daily_usage s now d (u_id u)) 0
    \<and> monthly_remaining c = max (l_monthly_limit_zar l - get_monthly_usage s now d (u_id u)) 0"
proof -
  let ?D = "get_daily_usage s now d (u_id u)" and ?M = "get_monthly_usage s now d (u_id u)"
  have "l \<in> set (tiers d)" using assms(1) by (auto simp: get_limit_tier_def dest: returning_SomeD)
  with assms(4) have col: "column_value 20 2 (l_daily_limit_zar l)" "column_value 20 2 (l_monthly_limit_zar l)"
    "0 \<le> l_daily_limit_zar l" "0 \<le> l_monthly_limit_zar l" by (auto simp: tiers_ok_def)
  have g: "on_grid 2 ?D" "0 \<le> ?D" "on_grid 2 ?M" "0 \<le> ?M"
    using usage_ok [OF assms(3)] by (simp_all add: get_daily_usage_def get_monthly_usage_def)
  note le = ctx_le_column [OF on_grid_add [OF g(1) assms(5)] col(1,3)]
    ctx_le_column [OF on_grid_add [OF g(3) assms(5)] col(2,4)]
  have "allowed c \<longleftrightarrow> ?D + amount \<le> l_daily_limit_zar l \<and> ?M + amount \<le> l_monthly_limit_zar l"
    using assms(2) le unfolding c_def check_limit_def assms(1) dec_add_def
    by (auto simp: Let_def not_less)
  moreover have "daily_remaining c = max (l_daily_limit_zar l - ?D) 0"
    "monthly_remaining c = max (l_monthly_limit_zar l - ?M) 0"
    using assms(2) unfolding c_def check_limit_def assms(1)
    by (auto simp: Let_def remaining_exact [OF col(1,3) g(1,2)] remaining_exact [OF col(2,4) g(3,4)])
  ultimately show ?thesis using assms(6) by (auto simp: max_def)
qed

definition standard_tier :: limit_tier where
  "standard_tier = \<lparr>l_id = 2, l_tier_name = ''standard'', l_daily_limit_zar = 5000,
     l_monthly_limit_zar = 25000\<rparr>"

definition example_sender :: user where
  "example_sender = \<lparr>u_id = 10, u_email = ''sender@example.org'', u_mobile = ''0820000001'',
     u_full_name = ''Thandi Sender'', u_password_hash = [], u_is_admin = False, u_can_send = True,
     u_can_receive = False, u_kyc_status = Kyc_approved, u_created_at = 0, u_updated_at = 0\<rparr>"

definition limits_example :: db where
  "limits_example = empty_db\<lparr>users := [example_sender], tiers := [standard_tier],
     fee_configs := [example_fees]\<rparr>"

lemma limits_example_ok: "sends_ok limits_example" "tiers_ok limits_example"
proof -
  have "column_value 20 2 5000" "column_value 20 2 25000" by (code_simp, code_simp)
  then show "tiers_ok limits_example"
    by (simp add: tiers_ok_def limits_example_def standard_tier_def)
qed (simp add: sends_ok_def limits_example_def empty_db_def)

lemma limits_example_tier: "get_limit_tier limits_example example_sender = Some standard_tier"
  by (simp add: get_limit_tier_def limits_example_def standard_tier_def example_sender_def returning_def)

theorem check_limit_exact_witness:
  "allowed (check_limit example_settings 0 limits_example example_sender 5000)
   \<longleftrightarrow> (5000::dec) \<le> max 5000 0 \<and> (5000::dec) \<le> max 25000 0"
proof -
  have "on_grid 2 5000" by code_simp
  moreover have "get_daily_usage example_settings 0 limits_example 10 = 0"
    "get_monthly_usage example_settings 0 limits_example 10 = 0"
    by (simp_all add: get_daily_usage_def get_monthly_usage_def sum_zar_since_def limits_example_def empty_db_def)
  ultimately show ?thesis
    using check_limit_exact [OF limits_example_tier _ limits_example_ok, of 5000 example_settings 0]
    by (simp add: standard_tier_def example_sender_def)
qed

end
