(* ===== verification/Kyc.thy ===== *)
theory Kyc
  imports SendLimits
begin

text \<open>
  Identity verification, \<open>app/services/kyc_service.py\<close>: submissions, the review queue and the
  one conditional decision on a pending submission; and the choice of the source of funds of
  \<open>app/routers/kyc.py\<close>, which also blocks a second submission.
\<close>

section \<open>Queries\<close>

definition get_active_kyc :: "db \<Rightarrow> uuid \<Rightarrow> kyc_submission option" where
  "get_active_kyc d uid =
     first_row (newest_first k_submitted_at (filter (\<lambda>k. k_user_id k = uid) (submissions d)))"

definition get_pending_submissions :: "db \<Rightarrow> kyc_submission list" where
  "get_pending_submissions d =
     ordered_by k_submitted_at (filter (\<lambda>k. k_status k = Sub_pending) (submissions d))"

definition count_pending_submissions :: "db \<Rightarrow> nat" where
  "count_pending_submissions d = length (filter (\<lambda>k. k_status k = Sub_pending) (submissions d))"

definition get_submission_by_id :: "db \<Rightarrow> uuid \<Rightarrow> kyc_submission option" where
  "get_submission_by_id d i = by_key k_id i (submissions d)"

section \<open>Submitting\<close>

record kyc_form =
  kf_full_name :: string
  kf_date_of_birth :: date
  kf_nationality :: string
  kf_id_number :: string
  kf_residential_address :: string
  kf_mobile :: string
  kf_email :: string
  kf_source_of_funds :: string

text \<open>Completed years, one less before this year's birthday.\<close>

definition age_on :: "date \<Rightarrow> date \<Rightarrow> int" where
  "age_on today birth =
     (case (today, birth) of ((ty, tm, td), (by, bm, bd)) \<Rightarrow>
        ty - by - (if tm < bm \<or> (tm = bm \<and> td < bd) then 1 else 0))"

text \<open>
  An ORM write of one user attribute: the row is updated, and stamped, only when the loaded
  object really changed.
\<close>

definition orm_kyc_status :: "instant \<Rightarrow> user \<Rightarrow> kyc_status \<Rightarrow> user list \<Rightarrow> user list" where
  "orm_kyc_status now u st us =
     (if u_kyc_status u = st then us
      else update_where (\<lambda>r. u_id r = u_id u) (\<lambda>r. r\<lparr>u_kyc_status := st, u_updated_at := now\<rparr>) us)"

definition submit_kyc ::
  "instant \<Rightarrow> date \<Rightarrow> uuid \<Rightarrow> db \<Rightarrow> user \<Rightarrow> kyc_form \<Rightarrow> (exn + kyc_submission) \<times> db" where
  "submit_kyc now today new_id d u f =
     (if age_on today (kf_date_of_birth f) < 18
      then (Inl (ValueError ''You must be at least 18 years old to submit KYC.''), d)
      else if length (strip (kf_id_number f)) < 6
      then (Inl (ValueError ''ID number must be at least 6 characters.''), d)
      else
        let sub = \<lparr>k_id = new_id, k_user_id = u_id u, k_full_name = strip (kf_full_name f),
               k_date_of_birth = kf_date_of_birth f, k_nationality = kf_nationality f,
               k_id_number = strip (kf_id_number f),
               k_residential_address = strip (kf_residential_address f),
               k_mobile = strip (kf_mobile f), k_email = strip (lower (kf_email f)),
               k_source_of_funds = strip (kf_source_of_funds f), k_status = Sub_pending,
               k_rejection_reason = None, k_reviewed_by = None, k_reviewed_at = None,
               k_submitted_at = now\<rparr>
        in (Inr sub, d\<lparr>submissions := submissions d @ [sub],
                       users := orm_kyc_status now u Kyc_pending (users d)\<rparr>))"

section \<open>Reviewing\<close>

definition review_guard :: "uuid \<Rightarrow> kyc_submission \<Rightarrow> bool" where
  "review_guard key k \<longleftrightarrow> k_id k = key \<and> k_status k = Sub_pending"

definition review_values ::
  "instant \<Rightarrow> uuid \<Rightarrow> submission_status \<Rightarrow> string option \<Rightarrow> kyc_submission \<Rightarrow> kyc_submission" where
  "review_values now admin_id decision why k =
     k\<lparr>k_status := decision, k_reviewed_by := Some admin_id, k_reviewed_at := Some now,
       k_rejection_reason := why\<rparr>"

text \<open>
  The conditional update claims the submission; the user row follows in the same database
  transaction, so a missing user (NoResultFound) rolls the claim back.
\<close>

definition review ::
  "instant \<Rightarrow> db \<Rightarrow> kyc_submission \<Rightarrow> user \<Rightarrow> submission_status \<Rightarrow> kyc_status \<Rightarrow> string option
     \<Rightarrow> (exn + kyc_submission) \<times> db" where
  "review now d sub admin decision ustatus why =
     (let upd = review_values now (u_id admin) decision why
      in case returning (review_guard (k_id sub)) (submissions d) of
           None \<Rightarrow> (Inl KYCReviewError, d)
         | Some r \<Rightarrow>
             (case by_key u_id (k_user_id sub) (users d) of
                None \<Rightarrow> (Inl NoResultFound, d)
              | Some u \<Rightarrow>
                  (Inr (upd r),
                   d\<lparr>submissions := update_where (review_guard (k_id sub)) upd (submissions d),
                     users := orm_kyc_status now u ustatus (users d)\<rparr>)))"

definition approve_kyc :: "instant \<Rightarrow> db \<Rightarrow> kyc_submission \<Rightarrow> user \<Rightarrow> (exn + kyc_submission) \<times> db" where
  "approve_kyc now d sub admin = review now d sub admin Sub_approved Kyc_approved None"

definition reject_kyc ::
  "instant \<Rightarrow> db \<Rightarrow> kyc_submission \<Rightarrow> user \<Rightarrow> string \<Rightarrow> (exn + kyc_submission) \<times> db" where
  "reject_kyc now d sub admin why =
     (if strip why = [] then (Inl (ValueError ''A rejection reason is required.''), d)
      else review now d sub admin Sub_rejected Kyc_rejected (Some (strip why)))"

section \<open>The form route\<close>

definition sources_of_funds :: "string list" where
  "sources_of_funds = [''Salary'', ''Business income'', ''Savings'', ''Investments'', ''Pension'',
     ''Gift or family support'']"

definition source_of_funds :: "string \<Rightarrow> string \<Rightarrow> string + string" where
  "source_of_funds choice described =
     (if choice = [] then Inl ''Please choose your source of funds.''
      else if choice \<in> set sources_of_funds then Inr choice
      else if choice \<noteq> ''Other'' then Inl ''Please choose a source of funds from the list.''
      else if described = [] then Inl ''Please describe your source of funds.''
      else if 200 < length described then Inl ''Please keep the description under 200 characters.''
      else Inr (''Other: '' @ described))"

datatype kyc_page = Already_approved | Under_review | Form_error string | Submitted

definition kyc_submit ::
  "instant \<Rightarrow> date \<Rightarrow> uuid \<Rightarrow> db \<Rightarrow> user \<Rightarrow> kyc_form \<Rightarrow> string \<Rightarrow> kyc_page \<times> db" where
  "kyc_submit now today new_id d u f other =
     (if u_kyc_status u = Kyc_approved then (Already_approved, d)
      else if u_kyc_status u = Kyc_pending then (Under_review, d)
      else case source_of_funds (strip (kf_source_of_funds f)) (strip other) of
             Inl e \<Rightarrow> (Form_error e, d)
           | Inr source \<Rightarrow>
               (case submit_kyc now today new_id d u (f\<lparr>kf_source_of_funds := source\<rparr>) of
                  (Inl e, d') \<Rightarrow> (Form_error (exn_text e), d')
                | (Inr _, d') \<Rightarrow> (Submitted, d')))"

section \<open>Laws of a review\<close>

interpretation kyc_approval: guarded_change k_id "review_values now admin_id Sub_approved why" "review_guard key"
  for now :: instant and admin_id :: uuid and why :: "string option" and key :: uuid
  by unfold_locales (simp_all add: review_values_def review_guard_def)

interpretation kyc_rejection: guarded_change k_id "review_values now admin_id Sub_rejected why" "review_guard key"
  for now :: instant and admin_id :: uuid and why :: "string option" and key :: uuid
  by unfold_locales (simp_all add: review_values_def review_guard_def)

lemma orm_kyc_status_mem:
  "r' \<in> set (orm_kyc_status now u st us) \<Longrightarrow>
     r' \<in> set us \<or> (\<exists>r\<in>set us. u_id r = u_id u \<and> r' = r\<lparr>u_kyc_status := st, u_updated_at := now\<rparr>)"
  by (auto simp: orm_kyc_status_def in_update_where split: if_splits)

lemma orm_kyc_status_keeps:
  "map (\<lambda>u. (u_id u, u_email u, u_mobile u, u_is_admin u)) (orm_kyc_status now u st us)
   = map (\<lambda>u. (u_id u, u_email u, u_mobile u, u_is_admin u)) us"
  by (simp add: orm_kyc_status_def update_where_def)

lemma reviewE:
  assumes "review now d sub admin decision ustatus why = (Inr r', d')"
  obtains r u where "returning (review_guard (k_id sub)) (submissions d) = Some r"
    "by_key u_id (k_user_id sub) (users d) = Some u"
    "r' = review_values now (u_id admin) decision why r"
    "d' = d\<lparr>submissions := update_where (review_guard (k_id sub))
               (review_values now (u_id admin) decision why) (submissions d),
            users := orm_kyc_status now u ustatus (users d)\<rparr>"
  using assms by (auto simp: review_def Let_def split: option.splits)

lemma review_error_keeps: "fst (review now d sub admin decision ustatus why) = Inl e
  \<Longrightarrow> snd (review now d sub admin decision ustatus why) = d"
  by (auto simp: review_def Let_def split: option.splits)

text \<open>
  Nobody is verified without a decision: an approved sender who is not an admin has an approved
  submission. Submissions are never deleted and a decided one never changes.
\<close>

definition kyc_sound :: "db \<Rightarrow> bool" where
  "kyc_sound d \<longleftrightarrow>
     (\<forall>u\<in>set (users d). u_kyc_status u = Kyc_approved \<longrightarrow> \<not> u_is_admin u \<longrightarrow>
        (\<exists>k\<in>set (submissions d). k_user_id k = u_id u \<and> k_status k = Sub_approved))"

lemma kyc_soundI_mono:
  assumes "kyc_sound d"
    and "\<And>k. k \<in> set (submissions d) \<Longrightarrow> k_status k = Sub_approved
      \<Longrightarrow> \<exists>k'\<in>set (submissions d'). k_user_id k' = k_user_id k \<and> k_status k' = Sub_approved"
    and "\<And>u'. u' \<in> set (users d') \<Longrightarrow> u_kyc_status u' = Kyc_approved \<Longrightarrow> \<not> u_is_admin u'
      \<Longrightarrow> (\<exists>u\<in>set (users d). u_id u = u_id u' \<and> u_kyc_status u = Kyc_approved \<and> \<not> u_is_admin u)
        \<or> (\<exists>k'\<in>set (submissions d'). k_user_id k' = u_id u' \<and> k_status k' = Sub_approved)"
  shows "kyc_sound d'"
  unfolding kyc_sound_def using assms unfolding kyc_sound_def by metis

lemma submit_kyc_sound:
  assumes "kyc_sound d"
  shows "kyc_sound (snd (submit_kyc now today new_id d u f))"
  using assms
  by (rule kyc_soundI_mono)
    (auto simp: submit_kyc_def Let_def dest!: orm_kyc_status_mem split: if_splits)

lemma kyc_submit_sound:
  assumes "kyc_sound d"
  shows "kyc_sound (snd (kyc_submit now today new_id d u f other))"
proof (cases "source_of_funds (strip (kf_source_of_funds f)) (strip other)")
  case (Inr src)
  then show ?thesis
    using assms submit_kyc_sound [OF assms, of now today new_id u "f\<lparr>kf_source_of_funds := src\<rparr>"]
    by (auto simp: kyc_submit_def split: prod.splits sum.splits)
qed (use assms in \<open>simp add: kyc_submit_def\<close>)

lemma review_sound:
  assumes "kyc_sound d" and "distinct (map k_id (submissions d))"
    and sub: "\<And>k. k \<in> set (submissions d) \<Longrightarrow> k_id k = k_id sub \<Longrightarrow> k_user_id k = k_user_id sub"
    and dec: "ustatus = Kyc_approved \<Longrightarrow> decision = Sub_approved"
  shows "kyc_sound (snd (review now d sub admin decision ustatus why))"
proof (cases "review now d sub admin decision ustatus why")
  case (Pair res d')
  show ?thesis
  proof (cases res)
    case (Inl e)
    with Pair review_error_keeps [of now d sub admin decision ustatus why e] assms(1) show ?thesis by simp
  next
    case (Inr r')
    with Pair have run: "review now d sub admin decision ustatus why = (Inr r', d')" by simp
    then obtain r u where r: "returning (review_guard (k_id sub)) (submissions d) = Some r"
      and u: "by_key u_id (k_user_id sub) (users d) = Some u"
      and d': "d' = d\<lparr>submissions := update_where (review_guard (k_id sub))
               (review_values now (u_id admin) decision why) (submissions d),
            users := orm_kyc_status now u ustatus (users d)\<rparr>"
      by (rule reviewE)
    from returning_SomeD [OF r] have rin: "r \<in> set (submissions d)" "review_guard (k_id sub) r" by simp_all
    then have owner: "k_user_id r = k_user_id sub" by (simp add: sub review_guard_def)
    let ?r = "review_values now (u_id admin) decision why r"
    have new: "?r \<in> set (submissions d')" "k_user_id ?r = k_user_id sub" "k_status ?r = decision"
      using rin owner by (auto simp: d' in_update_where review_values_def intro!: bexI [of _ r])
    have uid: "u_id u = k_user_id sub" using by_key_Some [OF u] by simp
    have "kyc_sound d'"
      using assms(1)
    proof (rule kyc_soundI_mono)
      fix k
      assume "k \<in> set (submissions d)" "k_status k = Sub_approved"
      then have "k \<in> set (submissions d')"
        by (auto simp: d' in_update_where review_guard_def intro!: bexI [of _ k])
      then show "\<exists>k'\<in>set (submissions d'). k_user_id k' = k_user_id k \<and> k_status k' = Sub_approved"
        using \<open>k_status k = Sub_approved\<close> by blast
    next
      fix u'
      assume "u' \<in> set (users d')" "u_kyc_status u' = Kyc_approved" "\<not> u_is_admin u'"
      then show "(\<exists>u\<in>set (users d). u_id u = u_id u' \<and> u_kyc_status u = Kyc_approved \<and> \<not> u_is_admin u)
        \<or> (\<exists>k'\<in>set (submissions d'). k_user_id k' = u_id u' \<and> k_status k' = Sub_approved)"
        using new dec uid by (fastforce simp: d' dest!: orm_kyc_status_mem)
    qed
    with Pair show ?thesis by simp
  qed
qed

section \<open>Properties of identity verification\<close>

text \<open>
  A decision is final (FR-KYC-03/04): whoever reviews a submission that is no longer pending,
  approving or rejecting, is refused and nothing changes, neither the submission nor the user.
\<close>

theorem kyc_decision_final:
  assumes "distinct (map k_id (submissions d))" and "r \<in> set (submissions d)"
    and "k_id r = k_id sub" and "k_status r \<noteq> Sub_pending" and "strip why \<noteq> []"
  shows "approve_kyc now d sub admin = (Inl KYCReviewError, d)
    \<and> reject_kyc now d sub admin why = (Inl KYCReviewError, d)"
proof -
  have "returning (review_guard (k_id sub)) (submissions d) = None"
    unfolding returning_def find_None_all
  proof
    fix k assume k: "k \<in> set (submissions d)"
    show "\<not> review_guard (k_id sub) k"
      using k assms(1-4) by (metis review_guard_def distinct_map inj_onD)
  qed
  then show ?thesis
    using assms(5) by (simp add: approve_kyc_def reject_kyc_def review_def Let_def)
qed

definition decided_submission :: kyc_submission where
  "decided_submission = \<lparr>k_id = 30, k_user_id = 10, k_full_name = ''Thandi Sender'',
     k_date_of_birth = (1990, 5, 17), k_nationality = ''South African'', k_id_number = ''9005170000000'',
     k_residential_address = ''1 Main Road'', k_mobile = ''0820000001'', k_email = ''sender@example.org'',
     k_source_of_funds = ''Salary'', k_status = Sub_rejected, k_rejection_reason = Some ''Blurred'',
     k_reviewed_by = Some 1, k_reviewed_at = Some 0, k_submitted_at = 0\<rparr>"

theorem kyc_decision_final_witness:
  "approve_kyc 5 (limits_example\<lparr>submissions := [decided_submission]\<rparr>) decided_submission example_sender
   = (Inl KYCReviewError, limits_example\<lparr>submissions := [decided_submission]\<rparr>)"
  using kyc_decision_final [of "limits_example\<lparr>submissions := [decided_submission]\<rparr>"
      decided_submission decided_submission "''late''" 5 example_sender]
  by (simp add: decided_submission_def strip_def lstrip_def is_space_def code_def)



end
