(* ===== verification/Auth.thy ===== *)
theory Auth
  imports Kyc
begin

text \<open>
  Accounts, \<open>app/services/auth_service.py\<close> with the registration route of \<open>app/routers/auth.py\<close>
  and the session lookups of \<open>app/dependencies.py\<close>. The password context (\<open>passlib\<close>) is a pair
  of parameters, \<open>hash\<close> and \<open>verify\<close>; uniqueness of email and mobile is what the table's
  constraints enforce at commit.
\<close>

section \<open>Formats\<close>

definition min_password_length :: nat where
  "min_password_length = 8"

definition password_problems :: "string \<Rightarrow> string \<Rightarrow> string list" where
  "password_problems password confirm =
     (if password \<noteq> confirm then [''Passwords do not match.''] else [])
     @ (if length password < min_password_length
        then [''Password must be at least 8 characters.''] else [])"

text \<open>\<open>$\<close> also matches before one final newline.\<close>

definition before_final_newline :: "string \<Rightarrow> string" where
  "before_final_newline s = (if s \<noteq> [] \<and> code (last s) = 10 then butlast s else s)"

text \<open>\<open>^[^@\s]+@[^@\s]+\.[A-Za-z]{2,}$\<close>\<close>

definition matches_email :: "string \<Rightarrow> bool" where
  "matches_email s \<longleftrightarrow>
     (case split_on CHR ''@'' s of
        [loc, domain] \<Rightarrow>
          (let tld = last (split_on CHR ''.'' domain)
           in loc \<noteq> [] \<and> list_all (\<lambda>c. \<not> is_space c) (loc @ domain)
              \<and> 2 \<le> length tld \<and> list_all is_alpha tld \<and> length tld + 1 < length domain)
      | _ \<Rightarrow> False)"

definition email_is_valid :: "string \<Rightarrow> bool" where
  "email_is_valid email \<longleftrightarrow> length email \<le> 255 \<and> matches_email (before_final_newline email)"

text \<open>\<open>^\+?[0-9]{7,15}$\<close>\<close>

definition mobile_is_valid :: "string \<Rightarrow> bool" where
  "mobile_is_valid mobile \<longleftrightarrow>
     (let s = before_final_newline mobile;
          ds = (if s \<noteq> [] \<and> hd s = CHR ''+'' then tl s else s)
      in 7 \<le> length ds \<and> length ds \<le> 15 \<and> list_all is_digit ds)"

section \<open>Lookups\<close>

definition get_user_by_email :: "db \<Rightarrow> string \<Rightarrow> user option" where
  "get_user_by_email d email = returning (\<lambda>u. u_email u = strip (lower email)) (users d)"

definition get_user_by_id :: "db \<Rightarrow> uuid \<Rightarrow> user option" where
  "get_user_by_id d i = by_key u_id i (users d)"

definition authenticate_user :: "(string \<Rightarrow> string \<Rightarrow> bool) \<Rightarrow> db \<Rightarrow> string \<Rightarrow> string \<Rightarrow> user option" where
  "authenticate_user verify d email password =
     (case get_user_by_email d email of
        None \<Rightarrow> None
      | Some u \<Rightarrow> if verify password (u_password_hash u) then Some u else None)"

text \<open>Who may open an admin route: signed in and an admin.\<close>

datatype admin_gate = To_login | Forbidden | Admitted user

definition require_admin :: "user option \<Rightarrow> admin_gate" where
  "require_admin u = (case u of None \<Rightarrow> To_login
     | Some x \<Rightarrow> if u_is_admin x then Admitted x else Forbidden)"

section \<open>Creating an account\<close>

text \<open>A commit the unique constraints refuse raises IntegrityError.\<close>

definition unique_contacts :: "user list \<Rightarrow> bool" where
  "unique_contacts us \<longleftrightarrow> distinct (map u_email us) \<and> distinct (map u_mobile us)"

definition commit_users :: "db \<Rightarrow> user list \<Rightarrow> exn option \<times> db" where
  "commit_users d us =
     (if unique_contacts us then (None, d\<lparr>users := us\<rparr>) else (Some (Raised ''IntegrityError'' []), d))"

text \<open>
  \<open>seen\<close> is the database the checks read, \<open>d\<close> the one the commit meets: another request may
  have committed in between.
\<close>

definition create_user ::
  "(string \<Rightarrow> string) \<Rightarrow> instant \<Rightarrow> uuid \<Rightarrow> db \<Rightarrow> db \<Rightarrow> string \<Rightarrow> string \<Rightarrow> string \<Rightarrow> string \<Rightarrow> bool
     \<Rightarrow> (exn + user) \<times> db" where
  "create_user hash now new_id seen d full_name raw_email raw_mobile password is_admin =
     (let email = strip (lower raw_email); mobile = strip raw_mobile
      in if get_user_by_email seen email \<noteq> None
         then (Inl (ValueError ''An account with this email already exists.''), d)
         else if returning (\<lambda>u. u_mobile u = mobile) (users seen) \<noteq> None
         then (Inl (ValueError ''An account with this mobile number already exists.''), d)
         else
           let u = \<lparr>u_id = new_id, u_email = email, u_mobile = mobile, u_full_name = strip full_name,
                 u_password_hash = hash password, u_is_admin = is_admin, u_can_send = (\<not> is_admin),
                 u_can_receive = False,
                 u_kyc_status = (if is_admin then Kyc_approved else Kyc_not_submitted),
                 u_created_at = now, u_updated_at = now\<rparr>
           in case commit_users d (users d @ [u]) of
                (Some e, d') \<Rightarrow> (Inl e, d')
              | (None, d') \<Rightarrow> (Inr u, d'))"

definition email_invalid :: string where
  "email_invalid = ''Enter a valid email address, like name@example.com.''"

definition mobile_invalid :: string where
  "mobile_invalid = ''Enter a valid mobile number: 7 to 15 digits, optionally starting with +, like +27821234567.''"

datatype register_page = Registered user | Register_errors "string list" | Server_error exn

definition register ::
  "(string \<Rightarrow> string) \<Rightarrow> instant \<Rightarrow> uuid \<Rightarrow> db \<Rightarrow> db \<Rightarrow> string \<Rightarrow> string \<Rightarrow> string \<Rightarrow> string \<Rightarrow> string
     \<Rightarrow> register_page \<times> db" where
  "register hash now new_id seen d full_name email mobile password confirm =
     (let errors = (if email_is_valid (strip (lower email)) then [] else [email_invalid])
            @ (if mobile_is_valid (strip mobile) then [] else [mobile_invalid])
            @ password_problems password confirm
      in if errors \<noteq> [] then (Register_errors errors, d)
         else case create_user hash now new_id seen d full_name email mobile password False of
                (Inr u, d') \<Rightarrow> (Registered u, d')
              | (Inl (ValueError m), d') \<Rightarrow> (Register_errors [m], d')
              | (Inl e, d') \<Rightarrow> (Server_error e, d'))"

section \<open>The profile\<close>

definition name_is_editable :: "db \<Rightarrow> user \<Rightarrow> bool" where
  "name_is_editable d u \<longleftrightarrow> \<not> u_is_admin u \<and> get_active_kyc d (u_id u) = None"

definition taken :: "db \<Rightarrow> (user \<Rightarrow> string) \<Rightarrow> string \<Rightarrow> uuid \<Rightarrow> bool" where
  "taken d column v uid \<longleftrightarrow> (\<exists>u\<in>set (users d). column u = v \<and> u_id u \<noteq> uid)"

definition name_locked :: string where
  "name_locked = ''Your name can't be changed after you've submitted identity verification.''"

text \<open>The name to store, checked only when it changes.\<close>

definition new_name :: "db \<Rightarrow> user \<Rightarrow> string option \<Rightarrow> exn + string" where
  "new_name d u full_name =
     (case full_name of
        None \<Rightarrow> Inr (u_full_name u)
      | Some raw \<Rightarrow>
          if strip raw = u_full_name u then Inr (u_full_name u)
          else if \<not> name_is_editable d u then Inl (ProfileError name_locked)
          else if strip raw = [] \<or> 255 < length (strip raw)
          then Inl (ProfileError ''Enter your full name.'')
          else Inr (strip raw))"

definition profile_checks :: "db \<Rightarrow> user \<Rightarrow> string \<Rightarrow> string \<Rightarrow> string option \<Rightarrow> exn + string" where
  "profile_checks d u email mobile full_name =
     and_then (raise_if (email \<noteq> u_email u \<and> \<not> email_is_valid email) (ProfileError email_invalid)) (\<lambda>_.
     and_then (raise_if (mobile \<noteq> u_mobile u \<and> \<not> mobile_is_valid mobile) (ProfileError mobile_invalid)) (\<lambda>_.
     and_then (new_name d u full_name) (\<lambda>name.
     and_then (raise_if (email \<noteq> u_email u \<and> taken d u_email email (u_id u))
                 (ProfileError ''Another account already uses this email address.'')) (\<lambda>_.
     and_then (raise_if (mobile \<noteq> u_mobile u \<and> taken d u_mobile mobile (u_id u))
                 (ProfileError ''Another account already uses this mobile number.'')) (\<lambda>_.
     Inr name)))))"

definition set_profile :: "instant \<Rightarrow> string \<Rightarrow> string \<Rightarrow> string \<Rightarrow> user \<Rightarrow> user" where
  "set_profile now email mobile name r =
     r\<lparr>u_email := email, u_mobile := mobile, u_full_name := name, u_updated_at := now\<rparr>"

definition update_profile ::
  "instant \<Rightarrow> db \<Rightarrow> db \<Rightarrow> user \<Rightarrow> string \<Rightarrow> string \<Rightarrow> string option \<Rightarrow> (exn + bool) \<times> db" where
  "update_profile now seen d u raw_email raw_mobile full_name =
     (let email = strip (lower raw_email); mobile = strip raw_mobile
      in case profile_checks seen u email mobile full_name of
           Inl e \<Rightarrow> (Inl e, d)
         | Inr name \<Rightarrow>
             if (email, mobile, name) = (u_email u, u_mobile u, u_full_name u) then (Inr False, d)
             else case commit_users d (update_where (\<lambda>r. u_id r = u_id u)
                         (set_profile now email mobile name) (users d)) of
                    (Some _, d') \<Rightarrow>
                      (Inl (ProfileError ''That email address or mobile number is already used by another account.''), d')
                  | (None, d') \<Rightarrow> (Inr True, d'))"

definition join_problems :: "string list \<Rightarrow> string" where
  "join_problems ps = (case ps of [] \<Rightarrow> [] | p # rest \<Rightarrow> p @ concat (map (\<lambda>x. CHR '' '' # x) rest))"

definition change_password ::
  "(string \<Rightarrow> string) \<Rightarrow> (string \<Rightarrow> string \<Rightarrow> bool) \<Rightarrow> instant \<Rightarrow> db \<Rightarrow> user \<Rightarrow> string \<Rightarrow> string \<Rightarrow> string
     \<Rightarrow> (exn + unit) \<times> db" where
  "change_password hash verify now d u current new confirm =
     (if \<not> verify current (u_password_hash u)
      then (Inl (ProfileError ''Your current password is incorrect.''), d)
      else let problems = password_problems new confirm
           in if problems \<noteq> [] then (Inl (ProfileError (join_problems problems)), d)
              else (Inr (), d\<lparr>users := update_where (\<lambda>r. u_id r = u_id u)
                      (\<lambda>r. r\<lparr>u_password_hash := hash new, u_updated_at := now\<rparr>) (users d)\<rparr>))"

section \<open>Laws of accounts\<close>

interpretation profile: row_change u_id "set_profile now email mobile name" for now email mobile name
  by unfold_locales (simp add: set_profile_def)

interpretation password: row_change u_id "\<lambda>r :: user. r\<lparr>u_password_hash := h, u_updated_at := now\<rparr>" for h now
  by unfold_locales simp

lemma commit_users_unique:
  "unique_contacts (users d) \<Longrightarrow> unique_contacts (users (snd (commit_users d us)))"
  by (simp add: commit_users_def)

lemma update_profileE:
  assumes "update_profile now seen d u raw_email raw_mobile full_name = (Inr True, d')"
  obtains name where "profile_checks seen u (strip (lower raw_email)) (strip raw_mobile) full_name = Inr name"
    "d' = d\<lparr>users := update_where (\<lambda>r. u_id r = u_id u)
       (set_profile now (strip (lower raw_email)) (strip raw_mobile) name) (users d)\<rparr>"
  using assms that
  by (auto simp: update_profile_def commit_users_def Let_def split: sum.splits prod.splits if_splits option.splits)

section \<open>Properties of accounts\<close>

text \<open>
  No two accounts ever share an email or a mobile number: registration and profile edits keep
  them unique whatever their checks saw, also when another request commits in between.
\<close>

theorem accounts_stay_unique:
  assumes "unique_contacts (users d)"
  shows "unique_contacts (users (snd (create_user hash now new_id seen d full_name email mobile pw is_admin)))
    \<and> unique_contacts (users (snd (update_profile now seen d u email mobile name)))
    \<and> unique_contacts (users (snd (change_password hash verify now d u pw new confirm)))"
proof (intro conjI)
  show "unique_contacts (users (snd (create_user hash now new_id seen d full_name email mobile pw is_admin)))"
    using assms by (simp add: create_user_def commit_users_def Let_def)
  show "unique_contacts (users (snd (update_profile now seen d u email mobile name)))"
    using assms by (auto simp: update_profile_def commit_users_def Let_def split: sum.splits)
  have "map u_email (update_where P (\<lambda>r. r\<lparr>u_password_hash := h, u_updated_at := now\<rparr>) us) = map u_email us"
    "map u_mobile (update_where P (\<lambda>r. r\<lparr>u_password_hash := h, u_updated_at := now\<rparr>) us) = map u_mobile us"
    for P h and us :: "user list"
    by (simp_all add: update_where_def)
  then show "unique_contacts (users (snd (change_password hash verify now d u pw new confirm)))"
    using assms by (simp add: change_password_def Let_def unique_contacts_def)
qed

theorem accounts_stay_unique_witness:
  "unique_contacts (users (snd (update_profile 5 limits_example limits_example example_sender
     ''new@example.org'' ''0820000009'' None)))"
  by (rule accounts_stay_unique [THEN conjunct2, THEN conjunct1])
    (simp add: limits_example_def unique_contacts_def)

text \<open>
  A changed password is the one that signs in: when \<open>verify\<close> accepts a password against its own
  hash, the user who changed it is authenticated by their stored email and the new password.
\<close>

theorem changed_password_signs_in:
  assumes "\<And>p. verify p (hash p)"
    and "distinct (map u_id (users d))" and "unique_contacts (users d)"
    and "u \<in> set (users d)" and "strip (lower (u_email u)) = u_email u"
    and "change_password hash verify now d u current new confirm = (Inr (), d')"
  shows "map_option u_id (authenticate_user verify d' (u_email u) new) = Some (u_id u)
    \<and> new = confirm \<and> 8 \<le> length new"
proof -
  let ?f = "\<lambda>r. r\<lparr>u_password_hash := hash new, u_updated_at := now\<rparr>"
  from assms(6) have d': "d' = d\<lparr>users := update_where (\<lambda>r. u_id r = u_id u) ?f (users d)\<rparr>"
    and ok: "password_problems new confirm = []"
    by (auto simp: change_password_def Let_def split: if_splits)
  have mem: "?f u \<in> set (users d')" using assms(4) by (auto simp: d' in_update_where)
  have only: "r' = ?f u" if "r' \<in> set (users d')" "u_email r' = u_email u" for r'
  proof -
    from that obtain r where r: "r \<in> set (users d)" "r' = (if u_id r = u_id u then ?f r else r)"
      by (auto simp: d' in_update_where)
    with that have "u_email r = u_email u" by (auto split: if_splits)
    then have "r = u" using assms(3,4) r(1) by (auto simp: unique_contacts_def distinct_map inj_on_def)
    with r show ?thesis by simp
  qed
  have "get_user_by_email d' (u_email u) = Some (?f u)"
  proof (cases "get_user_by_email d' (u_email u)")
    case None
    with mem show ?thesis
      by (auto simp: get_user_by_email_def returning_def find_None_all assms(5))
  next
    case (Some r')
    then show ?thesis
      using only [of r'] by (auto simp: get_user_by_email_def assms(5) dest!: returning_SomeD)
  qed
  then show ?thesis
    using ok assms(1) by (auto simp: authenticate_user_def password_problems_def min_password_length_def split: if_splits)
qed

theorem changed_password_signs_in_witness:
  "map_option u_id (authenticate_user (\<lambda>p h. h = CHR ''#'' # p)
     (snd (change_password (\<lambda>p. CHR ''#'' # p) (\<lambda>p h. h = CHR ''#'' # p) 5
        (limits_example\<lparr>users := [example_sender\<lparr>u_password_hash := ''#old''\<rparr>]\<rparr>)
        (example_sender\<lparr>u_password_hash := ''#old''\<rparr>) ''old'' ''new-password'' ''new-password''))
     ''sender@example.org'' ''new-password'') = Some 10"
proof -
  let ?u = "example_sender\<lparr>u_password_hash := ''#old''\<rparr>"
  let ?d = "limits_example\<lparr>users := [?u]\<rparr>"
  have run: "change_password (\<lambda>p. CHR ''#'' # p) (\<lambda>p h. h = CHR ''#'' # p) 5 ?d ?u ''old''
      ''new-password'' ''new-password'' = (Inr (), snd (change_password (\<lambda>p. CHR ''#'' # p)
      (\<lambda>p h. h = CHR ''#'' # p) 5 ?d ?u ''old'' ''new-password'' ''new-password''))"
    by (simp add: change_password_def password_problems_def min_password_length_def Let_def)
  have "strip (lower (u_email ?u)) = u_email ?u" by code_simp
  with changed_password_signs_in [OF _ _ _ _ _ run] show ?thesis
    by (simp add: unique_contacts_def example_sender_def)
qed

end
