(* ===== verification/Beneficiaries.thy ===== *)
theory Beneficiaries
  imports Kyc
begin

text \<open>
  Beneficiaries and their link to a platform account, \<open>app/services/beneficiary_service.py\<close>
  (FR-BEN-04). A link decides who is credited, so the invariant here is that it never points at
  the sender or at an admin.
\<close>

section \<open>Queries\<close>

definition list_beneficiaries :: "db \<Rightarrow> uuid \<Rightarrow> beneficiary list" where
  "list_beneficiaries d sender_id =
     newest_first b_created_at (filter (\<lambda>b. b_sender_id b = sender_id \<and> b_is_active b) (beneficiaries d))"

definition get_beneficiary :: "db \<Rightarrow> uuid \<Rightarrow> uuid \<Rightarrow> beneficiary option" where
  "get_beneficiary d bid sender_id =
     returning (\<lambda>b. b_id b = bid \<and> b_sender_id b = sender_id \<and> b_is_active b) (beneficiaries d)"

section \<open>Linking\<close>

text \<open>One lookup: the non-admin account with this address, unless it is the sender.\<close>

definition linkable :: "(user \<Rightarrow> bool) \<Rightarrow> db \<Rightarrow> uuid \<Rightarrow> uuid option" where
  "linkable P d sender_id =
     (case returning (\<lambda>u. P u \<and> \<not> u_is_admin u) (users d) of
        None \<Rightarrow> None
      | Some u \<Rightarrow> if u_id u = sender_id then None else Some (u_id u))"

definition resolve_recipient :: "db \<Rightarrow> string option \<Rightarrow> string option \<Rightarrow> uuid \<Rightarrow> uuid option" where
  "resolve_recipient d email mobile sender_id =
     (case (if truthy email
            then linkable (\<lambda>u. u_email u = strip (lower (the email))) d sender_id else None) of
        Some r \<Rightarrow> Some r
      | None \<Rightarrow>
          if truthy mobile
          then linkable (\<lambda>u. u_mobile u = strip (the mobile)) d sender_id else None)"

text \<open>\<open>PayoutCurrency(value)\<close>: an unknown value is a ValueError.\<close>

definition payout_currency_of :: "string \<Rightarrow> exn + payout_currency" where
  "payout_currency_of v =
     (if v = ''USD'' then Inr USD else if v = ''ZAR'' then Inr ZAR
      else Inl (ValueError (CHR 0x27 # v @ [CHR 0x27] @ '' is not a valid PayoutCurrency'')))"

section \<open>Saving\<close>

record ben_form =
  bf_full_name :: string
  bf_email :: "string option"
  bf_mobile :: "string option"
  bf_country :: string
  bf_payout_currency :: string
  bf_relationship :: string

text \<open>\<open>x.lower().strip() if x else None\<close> and \<open>x.strip() if x else None\<close>.\<close>

definition cleaned :: "(string \<Rightarrow> string) \<Rightarrow> string option \<Rightarrow> string option" where
  "cleaned f x = (if truthy x then map_option f x else None)"

definition no_contact :: exn where
  "no_contact = ValueError ''At least one of email or mobile is required.''"

definition create_beneficiary ::
  "instant \<Rightarrow> uuid \<Rightarrow> db \<Rightarrow> user \<Rightarrow> ben_form \<Rightarrow> (exn + beneficiary) \<times> db" where
  "create_beneficiary now new_id d sender f =
     (if \<not> truthy (bf_email f) \<and> \<not> truthy (bf_mobile f) then (Inl no_contact, d)
      else
        let link = resolve_recipient d (bf_email f) (bf_mobile f) (u_id sender)
        in case payout_currency_of (bf_payout_currency f) of
             Inl e \<Rightarrow> (Inl e, d)
           | Inr cur \<Rightarrow>
               (let ben = \<lparr>b_id = new_id, b_sender_id = u_id sender, b_recipient_user_id = link,
                      b_full_name = strip (bf_full_name f),
                      b_email = cleaned (\<lambda>s. strip (lower s)) (bf_email f),
                      b_mobile = cleaned strip (bf_mobile f), b_country = bf_country f,
                      b_payout_currency = cur, b_relation_type = bf_relationship f,
                      b_is_active = True, b_created_at = now\<rparr>
                in (Inr ben, d\<lparr>beneficiaries := beneficiaries d @ [ben]\<rparr>)))"

text \<open>
  The edit writes the object field by field; an unknown currency raises half-way, before anything
  is committed, so the stored row stays as it was.
\<close>

definition edited :: "string option \<Rightarrow> string option \<Rightarrow> ben_form \<Rightarrow> payout_currency \<Rightarrow> uuid option
    \<Rightarrow> beneficiary \<Rightarrow> beneficiary" where
  "edited email mobile f cur link b =
     b\<lparr>b_full_name := strip (bf_full_name f), b_email := email, b_mobile := mobile,
       b_country := bf_country f, b_payout_currency := cur, b_relation_type := bf_relationship f,
       b_recipient_user_id := link\<rparr>"

definition update_beneficiary :: "db \<Rightarrow> beneficiary \<Rightarrow> ben_form \<Rightarrow> (exn + beneficiary) \<times> db" where
  "update_beneficiary d b f =
     (if \<not> truthy (bf_email f) \<and> \<not> truthy (bf_mobile f) then (Inl no_contact, d)
      else case payout_currency_of (bf_payout_currency f) of
             Inl e \<Rightarrow> (Inl e, d)
           | Inr cur \<Rightarrow>
               (let upd = edited (cleaned (\<lambda>s. strip (lower s)) (bf_email f))
                      (cleaned strip (bf_mobile f)) f cur
                      (resolve_recipient d (bf_email f) (bf_mobile f) (b_sender_id b))
                in (Inr (upd b),
                    d\<lparr>beneficiaries := update_where (\<lambda>r. b_id r = b_id b) upd (beneficiaries d)\<rparr>)))"

definition delete_beneficiary :: "db \<Rightarrow> beneficiary \<Rightarrow> db" where
  "delete_beneficiary d b =
     d\<lparr>beneficiaries := update_where (\<lambda>r. b_id r = b_id b) (\<lambda>r. r\<lparr>b_is_active := False\<rparr>)
         (beneficiaries d)\<rparr>"

section \<open>Refreshing a link\<close>

definition find_recipient_user_id :: "db \<Rightarrow> beneficiary \<Rightarrow> uuid option" where
  "find_recipient_user_id d b =
     (case b_recipient_user_id b of
        Some r \<Rightarrow> Some r
      | None \<Rightarrow> resolve_recipient d (b_email b) (b_mobile b) (b_sender_id b))"

text \<open>Not committed here: the write is part of the caller's database transaction.\<close>

definition refresh_recipient_link :: "db \<Rightarrow> beneficiary \<Rightarrow> uuid option \<times> db" where
  "refresh_recipient_link d b =
     (case b_recipient_user_id b of
        Some r \<Rightarrow> (Some r, d)
      | None \<Rightarrow>
          (let link = find_recipient_user_id d b
           in (link, d\<lparr>beneficiaries :=
                 update_where (\<lambda>r. b_id r = b_id b) (\<lambda>r. r\<lparr>b_recipient_user_id := link\<rparr>)
                   (beneficiaries d)\<rparr>)))"

section \<open>Laws of a link\<close>

interpretation ben_edit: row_change b_id "edited email mobile f cur link"
  for email mobile :: "string option" and f cur link
  by unfold_locales (simp add: edited_def)

text \<open>An account a sender may send to: registered, not an admin, not the sender.\<close>

definition payable :: "db \<Rightarrow> uuid \<Rightarrow> uuid \<Rightarrow> bool" where
  "payable d sender_id r \<longleftrightarrow> r \<noteq> sender_id \<and> (\<exists>u\<in>set (users d). u_id u = r \<and> \<not> u_is_admin u)"

definition links_ok :: "db \<Rightarrow> bool" where
  "links_ok d \<longleftrightarrow>
     (\<forall>b\<in>set (beneficiaries d). \<forall>r. b_recipient_user_id b = Some r \<longrightarrow> payable d (b_sender_id b) r)"

lemma linkable_payable: "linkable P d sender_id = Some r \<Longrightarrow> payable d sender_id r"
  by (auto simp: linkable_def payable_def split: option.splits if_splits dest!: returning_SomeD)

lemma resolve_payable: "resolve_recipient d email mobile sender_id = Some r \<Longrightarrow> payable d sender_id r"
  by (auto simp: resolve_recipient_def split: option.splits if_splits dest: linkable_payable)

lemma find_recipient_payable:
  "links_ok d \<Longrightarrow> b \<in> set (beneficiaries d) \<Longrightarrow> find_recipient_user_id d b = Some r
   \<Longrightarrow> payable d (b_sender_id b) r"
  by (auto simp: find_recipient_user_id_def links_ok_def split: option.splits dest: resolve_payable)

lemma refresh_recipient_eq: "fst (refresh_recipient_link d b) = find_recipient_user_id d b"
  by (auto simp: refresh_recipient_link_def find_recipient_user_id_def Let_def split: option.splits)

lemma refresh_frame [frame_simps]:
  "users (snd (refresh_recipient_link d b)) = users d"
  "submissions (snd (refresh_recipient_link d b)) = submissions d"
  "tiers (snd (refresh_recipient_link d b)) = tiers d"
  "fee_configs (snd (refresh_recipient_link d b)) = fee_configs d"
  "transactions (snd (refresh_recipient_link d b)) = transactions d"
  "wallets (snd (refresh_recipient_link d b)) = wallets d"
  "cashouts (snd (refresh_recipient_link d b)) = cashouts d"
  by (auto simp: refresh_recipient_link_def Let_def split: option.splits)

lemma links_okI:
  assumes "links_ok d" and "users d' = users d"
    and "\<And>b' r. b' \<in> set (beneficiaries d') \<Longrightarrow> b_recipient_user_id b' = Some r
      \<Longrightarrow> (\<exists>b\<in>set (beneficiaries d). b_sender_id b = b_sender_id b' \<and> b_recipient_user_id b = Some r)
        \<or> payable d (b_sender_id b') r"
  shows "links_ok d'"
  using assms unfolding links_ok_def payable_def by metis

lemma refresh_links_ok:
  assumes "links_ok d" and "\<And>r. r \<in> set (beneficiaries d) \<Longrightarrow> b_id r = b_id b \<Longrightarrow> b_sender_id r = b_sender_id b"
  shows "links_ok (snd (refresh_recipient_link d b))"
  using assms(1)
proof (rule links_okI)
  fix b' r
  assume "b' \<in> set (beneficiaries (snd (refresh_recipient_link d b)))" "b_recipient_user_id b' = Some r"
  then show "(\<exists>b\<in>set (beneficiaries d). b_sender_id b = b_sender_id b' \<and> b_recipient_user_id b = Some r)
        \<or> payable d (b_sender_id b') r"
    using assms(2) resolve_payable [of d "b_email b" "b_mobile b" "b_sender_id b" r]
    by (auto simp: refresh_recipient_link_def find_recipient_user_id_def Let_def in_update_where
        split: option.splits if_splits)
qed (simp add: frame_simps)

section \<open>Properties of beneficiaries\<close>

text \<open>
  C31. Money can only be addressed to someone else's customer account (FR-BEN-04): saving, editing,
  deleting or re-linking a beneficiary keeps every link on a registered account that is neither an
  admin nor the sender, whatever email or mobile the sender typed.
\<close>

theorem beneficiary_links_ok:
  assumes "links_ok d" and "\<And>r. r \<in> set (beneficiaries d) \<Longrightarrow> b_id r = b_id b \<Longrightarrow> b_sender_id r = b_sender_id b"
  shows "links_ok (snd (create_beneficiary now new_id d sender f))
    \<and> links_ok (snd (update_beneficiary d b f))
    \<and> links_ok (delete_beneficiary d b)
    \<and> links_ok (snd (refresh_recipient_link d b))"
proof (intro conjI)
  show "links_ok (snd (create_beneficiary now new_id d sender f))"
    using assms(1)
    by (rule links_okI)
      (auto simp: create_beneficiary_def Let_def split: sum.splits if_splits dest: resolve_payable)
  show "links_ok (snd (update_beneficiary d b f))"
    using assms(1)
  proof (rule links_okI)
    fix b' r
    assume "b' \<in> set (beneficiaries (snd (update_beneficiary d b f)))" "b_recipient_user_id b' = Some r"
    then show "(\<exists>b\<in>set (beneficiaries d). b_sender_id b = b_sender_id b' \<and> b_recipient_user_id b = Some r)
        \<or> payable d (b_sender_id b') r"
      using assms(2) resolve_payable [of d "bf_email f" "bf_mobile f" "b_sender_id b" r]
      by (auto simp: update_beneficiary_def Let_def in_update_where edited_def split: sum.splits if_splits)
  qed (auto simp: update_beneficiary_def Let_def split: sum.splits)
  show "links_ok (delete_beneficiary d b)"
    using assms(1) by (rule links_okI) (auto simp: delete_beneficiary_def in_update_where split: if_splits)
  show "links_ok (snd (refresh_recipient_link d b))"
    using assms by (rule refresh_links_ok)
qed

text \<open>A sender who types an admin's address, and one who types their own.\<close>

definition platform_admin :: user where
  "platform_admin = example_sender\<lparr>u_id := 1, u_email := ''admin@example.org'', u_mobile := ''0110000000'',
     u_is_admin := True, u_can_send := False\<rparr>"

definition example_recipient :: user where
  "example_recipient = example_sender\<lparr>u_id := 11, u_email := ''rudo@example.org'', u_mobile := ''0770000002'',
     u_full_name := ''Rudo Recipient'', u_can_receive := True, u_kyc_status := Kyc_not_submitted\<rparr>"

definition people_example :: db where
  "people_example = limits_example\<lparr>users := [platform_admin, example_sender, example_recipient]\<rparr>"

definition example_ben_form :: ben_form where
  "example_ben_form = \<lparr>bf_full_name = ''Rudo'', bf_email = Some ''Rudo@Example.org'', bf_mobile = None,
     bf_country = ''Zimbabwe'', bf_payout_currency = ''ZAR'', bf_relationship = ''Sibling''\<rparr>"

lemma people_example_links: "links_ok people_example"
  by (simp add: links_ok_def people_example_def limits_example_def empty_db_def)

theorem beneficiary_links_ok_witness:
  "links_ok (snd (create_beneficiary 0 40 people_example example_sender example_ben_form))
   \<and> resolve_recipient people_example (Some ''admin@example.org'') None 10 = None
   \<and> resolve_recipient people_example (Some ''Rudo@Example.org '') None 10 = Some 11"
proof -
  have "links_ok (snd (create_beneficiary 0 40 people_example example_sender example_ben_form))"
    using beneficiary_links_ok [OF people_example_links, of undefined 0 40 example_sender example_ben_form]
    by (simp add: people_example_def limits_example_def empty_db_def)
  moreover have "resolve_recipient people_example (Some ''admin@example.org'') None 10 = None"
    by code_simp
  moreover have "resolve_recipient people_example (Some ''Rudo@Example.org '') None 10 = Some 11"
    by code_simp
  ultimately show ?thesis by simp
qed

end
