(* ===== verification/Xrpl.thy ===== *)
theory Xrpl
  imports Auth Beneficiaries
begin

text \<open>
  The ledger surface, \<open>app/services/xrpl_service.py\<close>. The client library (\<open>xrpl-py\<close>), the seed
  encryption and the ledger itself are not code of the repository: each of their calls appears
  as an argument holding the outcome of that call, so a statement for all arguments is a
  statement for every behaviour of the network. What reached the wire is part of the result.
\<close>

section \<open>Outcomes\<close>

datatype resolution = Succeeded | Failed | Unknown | Not_submitted

definition tes_success :: string where
  "tes_success = ''tesSUCCESS''"

record xrpl_result =
  x_success :: bool
  x_result_code :: string
  x_tx_hash :: "string option"
  x_message :: string
  x_outcome :: "resolution option"

definition resolution_of :: "xrpl_result \<Rightarrow> resolution" where
  "resolution_of r =
     (case x_outcome r of
        Some res \<Rightarrow> res
      | None \<Rightarrow> if x_success r then Succeeded
                else if x_tx_hash r = None then Not_submitted else Unknown)"

record signed_tx =
  s_tx_hash :: string
  s_last_ledger_sequence :: "int option"
  s_submitted_ledger_index :: "int option"

text \<open>
  What the library calls may do: signing returns a hash and a deadline, raises an XRPLException,
  or raises something else (class name and message); submitting returns the validated code, or
  raises the reliable-submission exception, another XRPLException, or something else.
\<close>

datatype sign_outcome =
  Signed string "int option"
| Sign_refused string
| Sign_raised string string

datatype submit_outcome =
  Validated string
| Reliable_error string
| Other_xrpl_error string
| Submit_raised string string

section \<open>Amounts and the treasury\<close>

record issued_amount =
  i_currency :: string
  i_issuer :: string
  i_value :: string

definition uctusd :: "settings \<Rightarrow> dec \<Rightarrow> exn + issued_amount" where
  "uctusd s value =
     (case quantize 6 value of
        Inl _ \<Rightarrow> Inl (InvalidAmountError
          (''Not a usable UCTUSD amount: Decimal('' @ [CHR 0x27] @ fixed_text 6 value @ [CHR 0x27] @ '')''))
      | Inr v \<Rightarrow>
          if v \<le> 0 then Inl (InvalidAmountError ''UCTUSD amount must be positive.'')
          else Inr \<lparr>i_currency = xrpl_currency_code s, i_issuer = xrpl_issuer_address s,
                    i_value = fixed_text 6 v\<rparr>)"

text \<open>\<open>derive\<close> is \<open>XRPLWallet.from_seed\<close>: the classic address of a seed, or no wallet.\<close>

definition load_treasury :: "(string \<Rightarrow> string option) \<Rightarrow> settings \<Rightarrow> exn + string" where
  "load_treasury derive s =
     (if xrpl_platform_wallet_seed s = [] \<or> xrpl_platform_wallet_address s = []
      then Inl (Raised ''XRPLConfigError'' ''Treasury wallet address/seed are not configured.'')
      else case derive (xrpl_platform_wallet_seed s) of
             None \<Rightarrow> Inl (Raised ''XRPLConfigError'' ''XRPL_PLATFORM_WALLET_SEED is not a valid seed.'')
           | Some address \<Rightarrow>
               if address \<noteq> xrpl_platform_wallet_address s
               then Inl (Raised ''XRPLConfigError''
                      ''Treasury seed does not derive XRPL_PLATFORM_WALLET_ADDRESS.'')
               else Inr address)"

section \<open>Classifying a failed submission\<close>

definition is_upper :: "char \<Rightarrow> bool" where
  "is_upper c \<longleftrightarrow> 65 \<le> code c \<and> code c \<le> 90"

definition is_lower :: "char \<Rightarrow> bool" where
  "is_lower c \<longleftrightarrow> 97 \<le> code c \<and> code c \<le> 122"

definition upper_or_underscore :: "char \<Rightarrow> bool" where
  "upper_or_underscore c \<longleftrightarrow> is_upper c \<or> c = CHR ''_''"

text \<open>\<open>[a-z]{3}[A-Z][A-Z_]*\<close>\<close>

definition code_shape :: "string \<Rightarrow> bool" where
  "code_shape s \<longleftrightarrow>
     3 < length s \<and> list_all is_lower (take 3 s) \<and> is_upper (s ! 3)
     \<and> list_all upper_or_underscore (drop 4 s)"

definition validated_failure :: "string \<Rightarrow> string option" where
  "validated_failure text =
     (let rest = before_final_newline (drop 20 text)
      in if starts_with ''Transaction failed: '' text \<and> code_shape rest then Some rest else None)"

text \<open>\<open>^(tem[A-Z_]+):\<close>\<close>

definition malformed_code :: "string \<Rightarrow> string option" where
  "malformed_code text =
     (let body = takeWhile upper_or_underscore (drop 3 text);
          after = drop (3 + length body) text
      in if starts_with ''tem'' text \<and> body \<noteq> [] \<and> after \<noteq> [] \<and> hd after = CHR '':''
         then Some (''tem'' @ body) else None)"

fun contains :: "string \<Rightarrow> string \<Rightarrow> bool" where
  "contains pat [] = (pat = [])"
| "contains pat (c # cs) = (starts_with pat (c # cs) \<or> contains pat cs)"

definition classify :: "bool \<Rightarrow> string \<Rightarrow> resolution \<times> string" where
  "classify reliable text =
     (if \<not> reliable then (Unknown, ''submission_error'')
      else case validated_failure text of
             Some c \<Rightarrow> (Failed, c)
           | None \<Rightarrow>
               (case malformed_code text of
                  Some c \<Rightarrow> (Failed, c)
                | None \<Rightarrow>
                    if contains ''LastLedgerSequence'' text then (Unknown, ''submission_timeout'')
                    else (Unknown, ''submission_error'')))"

section \<open>Sign, persist, submit\<close>

type_synonym 's callback = "'s \<Rightarrow> exn option \<times> 's"

text \<open>
  \<open>submit\<close> over a caller state \<open>'s\<close> that the callbacks change. The last component is the hash
  that was handed to the network, if any: an exception of a callback leaves it at None.
\<close>

definition run_callback :: "('a \<Rightarrow> 's callback) option \<Rightarrow> 'a \<Rightarrow> 's callback" where
  "run_callback f x st = (case f of None \<Rightarrow> (None, st) | Some g \<Rightarrow> g x st)"

definition submitted_result :: "submit_outcome \<Rightarrow> string \<Rightarrow> exn + xrpl_result" where
  "submitted_result out h =
     (case out of
        Validated c \<Rightarrow>
          Inr \<lparr>x_success = (c = tes_success), x_result_code = c, x_tx_hash = Some h, x_message = [],
               x_outcome = Some (if c = tes_success then Succeeded else Failed)\<rparr>
      | Reliable_error text \<Rightarrow>
          Inr \<lparr>x_success = False, x_result_code = snd (classify True text), x_tx_hash = Some h,
               x_message = text, x_outcome = Some (fst (classify True text))\<rparr>
      | Other_xrpl_error text \<Rightarrow>
          Inr \<lparr>x_success = False, x_result_code = snd (classify False text), x_tx_hash = Some h,
               x_message = text, x_outcome = Some (fst (classify False text))\<rparr>
      | Submit_raised name text \<Rightarrow> Inl (Raised name text))"

text \<open>The outcomes that prove a transaction moved nothing: a validated failure, or malformed.\<close>

definition never_moved :: "submit_outcome \<Rightarrow> bool" where
  "never_moved out \<longleftrightarrow>
     (case out of
        Validated c \<Rightarrow> c \<noteq> tes_success
      | Reliable_error text \<Rightarrow> validated_failure text \<noteq> None \<or> malformed_code text \<noteq> None
      | _ \<Rightarrow> False)"

definition submit ::
  "sign_outcome \<Rightarrow> (string \<Rightarrow> 's callback) option \<Rightarrow> (signed_tx \<Rightarrow> 's callback) option \<Rightarrow> int option
     \<Rightarrow> submit_outcome \<Rightarrow> 's \<Rightarrow> (exn + xrpl_result) \<times> 's \<times> string option" where
  "submit sign on_signed on_signed_tx submitted_index out st =
     (case sign of
        Sign_raised name text \<Rightarrow> (Inl (Raised name text), st, None)
      | Sign_refused text \<Rightarrow>
          (Inr \<lparr>x_success = False, x_result_code = ''sign_error'', x_tx_hash = None,
                x_message = text, x_outcome = Some Not_submitted\<rparr>, st, None)
      | Signed h last_ledger \<Rightarrow>
          (case run_callback on_signed h st of
             (Some e, st) \<Rightarrow> (Inl e, st, None)
           | (None, st) \<Rightarrow>
               (case run_callback on_signed_tx \<lparr>s_tx_hash = h, s_last_ledger_sequence = last_ledger,
                       s_submitted_ledger_index = submitted_index\<rparr> st of
                  (Some e, st) \<Rightarrow> (Inl e, st, None)
                | (None, st) \<Rightarrow> (submitted_result out h, st, Some h))))"

section \<open>Payments\<close>

text \<open>
  The outcomes of one payment's library calls: reading the validated ledger, building the
  transaction model and its signer, signing and submitting.
\<close>

record payment_run =
  p_latest :: "exn + int"
  p_prepare :: "exn + unit"
  p_sign :: sign_outcome
  p_submit :: submit_outcome

text \<open>The validated index is read only when there is a callback to hand it to.\<close>

definition read_index :: "(signed_tx \<Rightarrow> 's callback) option \<Rightarrow> payment_run \<Rightarrow> exn + int option" where
  "read_index on_signed_tx r =
     (case on_signed_tx of
        None \<Rightarrow> Inr None
      | Some _ \<Rightarrow> and_then (p_latest r) (\<lambda>i. Inr (Some i)))"

definition send_from_treasury ::
  "(string \<Rightarrow> string option) \<Rightarrow> settings \<Rightarrow> payment_run \<Rightarrow> dec \<Rightarrow> (string \<Rightarrow> 's callback) option
     \<Rightarrow> (signed_tx \<Rightarrow> 's callback) option \<Rightarrow> 's \<Rightarrow> (exn + xrpl_result) \<times> 's \<times> string option" where
  "send_from_treasury derive s r amount on_signed on_signed_tx st =
     (case and_then (load_treasury derive s) (\<lambda>_.
           and_then (read_index on_signed_tx r) (\<lambda>i.
           and_then (uctusd s amount) (\<lambda>_.
           and_then (p_prepare r) (\<lambda>_. Inr i)))) of
        Inl e \<Rightarrow> (Inl e, st, None)
      | Inr i \<Rightarrow> submit (p_sign r) on_signed on_signed_tx i (p_submit r) st)"

definition burn_to_issuer ::
  "settings \<Rightarrow> payment_run \<Rightarrow> dec \<Rightarrow> (signed_tx \<Rightarrow> 's callback) option \<Rightarrow> 's
     \<Rightarrow> (exn + xrpl_result) \<times> 's \<times> string option" where
  "burn_to_issuer s r amount on_signed_tx st =
     (case and_then (read_index on_signed_tx r) (\<lambda>i.
           and_then (uctusd s amount) (\<lambda>_.
           and_then (p_prepare r) (\<lambda>_. Inr i))) of
        Inl e \<Rightarrow> (Inl e, st, None)
      | Inr i \<Rightarrow> submit (p_sign r) None on_signed_tx i (p_submit r) st)"

section \<open>Looking at the ledger\<close>

record tx_reply =
  r_successful :: bool
  r_error :: "string option"
  r_validated :: bool
  r_code :: string

definition get_transaction_result :: "tx_reply \<Rightarrow> exn + string option" where
  "get_transaction_result r =
     (if \<not> r_successful r
      then if r_error r = Some ''txnNotFound'' then Inr None
           else Inl (Raised ''XRPLRequestFailureException'' [])
      else if \<not> r_validated r then Inr None
      else Inr (Some (r_code r)))"

text \<open>The first account line in the platform currency; each line is (currency, balance).\<close>

definition get_uctusd_balance :: "settings \<Rightarrow> (string \<times> string) list \<Rightarrow> exn + decimal option" where
  "get_uctusd_balance s lines =
     (case find (\<lambda>l. fst l = xrpl_currency_code s) lines of
        None \<Rightarrow> Inr None
      | Some l \<Rightarrow>
          (case py_decimal (snd l) of
             None \<Rightarrow> Inl (ArithmeticError InvalidOperation)
           | Some v \<Rightarrow> Inr (Some v)))"

definition parse_ledger_chunk :: "string \<Rightarrow> (int \<times> int) list" where
  "parse_ledger_chunk raw =
     (let chunk = strip raw
      in if chunk = [] \<or> chunk = ''empty'' then []
         else if CHR ''-'' \<in> set chunk then
           (case (py_int (takeWhile (\<lambda>c. c \<noteq> CHR ''-'') chunk),
                  py_int (tl (dropWhile (\<lambda>c. c \<noteq> CHR ''-'') chunk))) of
              (Some low, Some high) \<Rightarrow> [(low, high)]
            | _ \<Rightarrow> [])
         else case py_int chunk of Some n \<Rightarrow> [(n, n)] | None \<Rightarrow> [])"

definition parse_complete_ledgers :: "string \<Rightarrow> (int \<times> int) list" where
  "parse_complete_ledgers s = concat (map parse_ledger_chunk (split_on CHR '','' s))"

text \<open>\<open>reply\<close> is the \<open>complete_ledgers\<close> text of a successful ServerInfo request.\<close>

definition has_complete_ledger_range :: "string option \<Rightarrow> int \<Rightarrow> int \<Rightarrow> bool" where
  "has_complete_ledger_range reply start finish =
     (case reply of
        None \<Rightarrow> False
      | Some text \<Rightarrow> \<exists>r\<in>set (parse_complete_ledgers text). fst r \<le> start \<and> finish \<le> snd r)"

section \<open>Recipient wallets\<close>

definition get_wallet_for_user :: "db \<Rightarrow> uuid \<Rightarrow> wallet option" where
  "get_wallet_for_user d uid = by_key w_user_id uid (wallets d)"

text \<open>
  The TrustSet of a wallet, once. \<open>meanwhile\<close> is what other sessions commit during the network
  call; the flag is then written through the ORM object.
\<close>

definition set_trust :: "instant \<Rightarrow> wallet \<Rightarrow> wallet" where
  "set_trust now w = w\<lparr>w_trust_set_complete := True, w_updated_at := now\<rparr>"

definition ensure_trust_line ::
  "instant \<Rightarrow> payment_run \<Rightarrow> (db \<Rightarrow> db) \<Rightarrow> db \<Rightarrow> wallet \<Rightarrow> (exn + xrpl_result \<times> wallet) \<times> db" where
  "ensure_trust_line now r meanwhile d w =
     (if w_trust_set_complete w
      then (Inr (\<lparr>x_success = True, x_result_code = tes_success, x_tx_hash = None,
                   x_message = ''already set'', x_outcome = None\<rparr>, w), d)
      else
        let d = meanwhile d
        in case p_prepare r of
             Inl e \<Rightarrow> (Inl e, d)
           | Inr _ \<Rightarrow>
               (case submit (p_sign r) None None None (p_submit r) () of
                  (Inl e, _) \<Rightarrow> (Inl e, d)
                | (Inr res, _) \<Rightarrow>
                    if x_success res
                    then (Inr (res, set_trust now w),
                          d\<lparr>wallets := update_where (\<lambda>x. w_id x = w_id w) (set_trust now) (wallets d)\<rparr>)
                    else (Inr (res, w), d)))"

text \<open>\<open>faucet\<close>: the funded account as (address, encrypted seed, key id), or the exception.\<close>

definition new_wallet :: "instant \<Rightarrow> uuid \<Rightarrow> uuid \<Rightarrow> string \<times> string \<times> string \<Rightarrow> wallet" where
  "new_wallet now new_id uid acc =
     (case acc of (address, sealed, kid) \<Rightarrow>
        \<lparr>w_id = new_id, w_user_id = uid, w_xrpl_address = address, w_encrypted_private_key = sealed,
         w_key_encryption_key_id = kid, w_trust_set_complete = False, w_balance_uctusd = 0,
         w_created_at = now, w_updated_at = now\<rparr>)"

definition unique_wallets :: "wallet list \<Rightarrow> bool" where
  "unique_wallets ws \<longleftrightarrow> distinct (map w_id ws) \<and> distinct (map w_user_id ws) \<and> distinct (map w_xrpl_address ws)"

definition set_can_receive :: "instant \<Rightarrow> user \<Rightarrow> user list \<Rightarrow> user list" where
  "set_can_receive now u us =
     (if u_can_receive u then us
      else update_where (\<lambda>r. u_id r = u_id u) (\<lambda>r. r\<lparr>u_can_receive := True, u_updated_at := now\<rparr>) us)"

definition provision_wallet ::
  "instant \<Rightarrow> uuid \<Rightarrow> exn + (string \<times> string \<times> string) \<Rightarrow> payment_run \<Rightarrow> (db \<Rightarrow> db) \<Rightarrow> (db \<Rightarrow> db)
     \<Rightarrow> db \<Rightarrow> user \<Rightarrow> (exn + wallet) \<times> db" where
  "provision_wallet now new_id faucet r during_faucet during_trust d u =
     (case (case get_wallet_for_user d (u_id u) of
              Some w \<Rightarrow> (Inr w, d)
            | None \<Rightarrow>
                (let d = during_faucet d
                 in case faucet of
                      Inl e \<Rightarrow> (Inl e, d)
                    | Inr acc \<Rightarrow>
                        (let w = new_wallet now new_id (u_id u) acc
                         in if unique_wallets (wallets d @ [w])
                            then (Inr w, d\<lparr>wallets := wallets d @ [w],
                                           users := set_can_receive now u (users d)\<rparr>)
                            else (Inl (Raised ''IntegrityError'' []), d)))) of
        (Inl e, d) \<Rightarrow> (Inl e, d)
      | (Inr w, d) \<Rightarrow>
          (case ensure_trust_line now r during_trust d w of
             (Inl e, d) \<Rightarrow> (Inl e, d)
           | (Inr (_, w), d) \<Rightarrow> (Inr w, d)))"

text \<open>
  \<open>SELECT ... FOR UPDATE\<close> of a wallet. The row is locked, but an instance the session already
  holds (\<open>loaded\<close>, from an earlier SELECT of the same session) is returned as it was loaded:
  without \<open>populate_existing\<close> the ORM does not overwrite loaded attributes.
\<close>

definition for_update :: "wallet option \<Rightarrow> wallet option \<Rightarrow> wallet option" where
  "for_update loaded row =
     (case (row, loaded) of
        (Some w, Some l) \<Rightarrow> if w_id l = w_id w then Some l else Some w
      | _ \<Rightarrow> row)"

definition set_balance :: "instant \<Rightarrow> dec \<Rightarrow> wallet \<Rightarrow> wallet" where
  "set_balance now b w = w\<lparr>w_balance_uctusd := b, w_updated_at := now\<rparr>"

text \<open>
  \<open>wallet.balance_uctusd = b\<close> and the flush: a changed attribute is written to the row by
  primary key, through the column type; an equal value writes nothing.
\<close>

definition write_balance :: "instant \<Rightarrow> wallet \<Rightarrow> dec \<Rightarrow> wallet list \<Rightarrow> wallet list option" where
  "write_balance now w b ws =
     (if b = w_balance_uctusd w then Some ws
      else case store_numeric 20 6 b of
             None \<Rightarrow> None
           | Some v \<Rightarrow> Some (update_where (\<lambda>x. w_id x = w_id w) (set_balance now v) ws))"

section \<open>Laws of submission\<close>

lemma run_callback_None [simp]: "run_callback None x st = (None, st)"
  by (simp add: run_callback_def)

lemma run_callback_Some [simp]: "run_callback (Some g) x st = g x st"
  by (simp add: run_callback_def)

lemma classify_cases: "fst (classify b t) = Failed \<or> fst (classify b t) = Unknown"
  by (auto simp: classify_def split: option.splits)

lemma classify_failed:
  "fst (classify b t) = Failed \<Longrightarrow> b \<and> (validated_failure t \<noteq> None \<or> malformed_code t \<noteq> None)"
  by (auto simp: classify_def split: option.splits if_splits)

lemma submitE:
  assumes "submit sign cb1 cb out_index sub st = (res, st', sent)"
  obtains (raised) e where "sent = None" "res = Inl e"
  | (refused) msg where "sent = None" "sign = Sign_refused msg" "st' = st"
      "res = Inr \<lparr>x_success = False, x_result_code = ''sign_error'', x_tx_hash = None,
                x_message = msg, x_outcome = Some Not_submitted\<rparr>"
  | (sent) h l st1 where "sign = Signed h l" "sent = Some h" "res = submitted_result sub h"
      "run_callback cb1 h st = (None, st1)"
      "run_callback cb \<lparr>s_tx_hash = h, s_last_ledger_sequence = l, s_submitted_ledger_index = out_index\<rparr> st1
       = (None, st')"
  using assms unfolding submit_def
  by (auto split: sign_outcome.splits prod.splits option.splits)

text \<open>What the callback leaves alone, submission leaves alone.\<close>

lemma submit_frame:
  assumes "submit sign None (Some cb) i out d = (res, d', sent)" and "\<And>st. f (snd (cb st d)) = f d"
  shows "f d' = f d"
proof (cases sign)
  case (Signed h l)
  let ?st = "\<lparr>s_tx_hash = h, s_last_ledger_sequence = l, s_submitted_ledger_index = i\<rparr>"
  have "d' = snd (cb ?st d)" using assms(1) Signed by (auto simp: submit_def split: prod.splits option.splits)
  then show ?thesis using assms(2) by simp
qed (use assms(1) in \<open>simp_all add: submit_def\<close>)

lemma submitted_result_eq:
  assumes "submitted_result sub h = Inr r"
  shows "x_tx_hash r = Some h" "resolution_of r =
     (case sub of Validated c \<Rightarrow> if c = tes_success then Succeeded else Failed
      | Reliable_error t \<Rightarrow> fst (classify True t) | Other_xrpl_error t \<Rightarrow> fst (classify False t)
      | Submit_raised _ _ \<Rightarrow> Unknown)"
  using assms by (cases sub; auto simp: submitted_result_def resolution_of_def)+

lemma submitted_result_resolution:
  assumes "submitted_result sub h = Inr r"
  shows "resolution_of r \<noteq> Not_submitted"
    "resolution_of r = Succeeded \<longleftrightarrow> sub = Validated tes_success"
    "resolution_of r = Failed \<Longrightarrow> never_moved sub"
proof -
  show "resolution_of r \<noteq> Not_submitted"
    unfolding submitted_result_eq(2) [OF assms]
    using classify_cases by (cases sub) (simp_all, (metis resolution.distinct)+)
  show "resolution_of r = Succeeded \<longleftrightarrow> sub = Validated tes_success"
    unfolding submitted_result_eq(2) [OF assms]
    using classify_cases by (cases sub) (simp_all, (metis resolution.distinct)+)
  assume "resolution_of r = Failed"
  then show "never_moved sub"
    unfolding submitted_result_eq(2) [OF assms]
    by (cases sub) (auto simp: never_moved_def dest!: classify_failed split: if_splits)
qed

lemma send_from_treasuryE:
  assumes "send_from_treasury derive s r amount cb1 cb st = (res, st', sent)"
  obtains e where "res = Inl e" "st' = st" "sent = None"
  | i where "submit (p_sign r) cb1 cb i (p_submit r) st = (res, st', sent)"
  using assms unfolding send_from_treasury_def
  by (auto split: sum.splits)

lemma burn_to_issuerE:
  assumes "burn_to_issuer s r amount cb st = (res, st', sent)"
  obtains e where "res = Inl e" "st' = st" "sent = None"
  | i where "submit (p_sign r) None cb i (p_submit r) st = (res, st', sent)"
  using assms unfolding burn_to_issuer_def
  by (auto split: sum.splits)

section \<open>Laws of the ledger range text\<close>

lemma int_digits_value: "list_all is_digit s \<Longrightarrow> int_digits a s = Some (foldl (\<lambda>n c. 10 * n + int (digit_val c)) a s)"
  by (induction s arbitrary: a) auto

lemma digit_not_space: "is_digit c \<Longrightarrow> \<not> is_space c"
  by (auto simp: is_digit_def is_space_def)

lemma digit_not: "is_digit c \<Longrightarrow> c \<noteq> CHR ''-'' \<and> c \<noteq> CHR ''+'' \<and> c \<noteq> CHR '','' \<and> \<not> is_alpha c"
  by (auto simp: is_digit_def is_alpha_def code_def)

lemma strip_digits: "list_all (\<lambda>c. \<not> is_space c) s \<Longrightarrow> strip s = s"
proof -
  assume a: "list_all (\<lambda>c. \<not> is_space c) s"
  have "lstrip t = t" if "list_all (\<lambda>c. \<not> is_space c) t" for t
    using that by (intro lstrip_fix) (cases t, auto)
  from this [OF a] this [of "rev s"] a show "strip s = s" by (simp add: strip_def)
qed

lemma py_int_digits: "isdigit s \<Longrightarrow> py_int s = Some (digits_value s)"
proof -
  assume d: "isdigit s"
  then obtain c cs where s: "s = c # cs" "is_digit c" by (cases s) (auto simp: isdigit_def)
  have "strip s = s" using d digit_not_space
    by (intro strip_digits) (auto simp: isdigit_def list_all_iff)
  then show ?thesis
    using d s digit_not [of c] by (simp add: py_int_def unsigned_int_def int_digits_value isdigit_def digits_value_def)
qed

text \<open>How a server renders the ranges it holds: \<open>lo-hi\<close> joined by commas.\<close>

definition range_text :: "int \<times> int \<Rightarrow> string" where
  "range_text r = digits_of_int (fst r) @ CHR ''-'' # digits_of_int (snd r)"

fun ledgers_text :: "(int \<times> int) list \<Rightarrow> string" where
  "ledgers_text [] = ''empty''"
| "ledgers_text [r] = range_text r"
| "ledgers_text (r # rs) = range_text r @ CHR '','' # ledgers_text rs"

lemma digits_ok: "0 \<le> n \<Longrightarrow> isdigit (digits_of_int n) \<and> py_int (digits_of_int n) = Some n"
  using digits_of_int_value [of n] py_int_digits by auto

lemma parse_range_text:
  assumes "0 \<le> fst r" and "0 \<le> snd r"
  shows "parse_ledger_chunk (range_text r) = [r]" "CHR '','' \<notin> set (range_text r)"
proof -
  let ?a = "digits_of_int (fst r)" and ?b = "digits_of_int (snd r)"
  have a: "isdigit ?a" "py_int ?a = Some (fst r)" and b: "isdigit ?b" "py_int ?b = Some (snd r)"
    using digits_ok assms by auto
  have na: "\<forall>c\<in>set ?a. c \<noteq> CHR ''-'' \<and> c \<noteq> CHR '','' \<and> \<not> is_space c"
    and nb: "\<forall>c\<in>set ?b. c \<noteq> CHR '','' \<and> \<not> is_space c"
    using a(1) b(1) digit_not digit_not_space by (auto simp: isdigit_def list_all_iff)
  then show "CHR '','' \<notin> set (range_text r)" by (auto simp: range_text_def)
  have st: "strip (range_text r) = range_text r"
    using na nb by (intro strip_digits) (auto simp: range_text_def list_all_iff is_space_def code_def)
  have tw: "takeWhile (\<lambda>c. c \<noteq> CHR ''-'') (range_text r) = ?a"
    "dropWhile (\<lambda>c. c \<noteq> CHR ''-'') (range_text r) = CHR ''-'' # ?b"
    using na by (simp_all add: range_text_def takeWhile_tail dropWhile_append3)
  have "CHR ''-'' \<in> set (range_text r)" "range_text r \<noteq> []" by (simp_all add: range_text_def)
  moreover from this(1) have "range_text r \<noteq> ''empty''" by auto
  ultimately show "parse_ledger_chunk (range_text r) = [r]"
    using a b by (simp add: parse_ledger_chunk_def st tw)
qed

lemma split_on_none: "c \<notin> set s \<Longrightarrow> split_on c s = [s]"
  by (induction s) auto

lemma split_on_append: "c \<notin> set s \<Longrightarrow> split_on c (s @ c # t) = s # split_on c t"
  by (induction s) auto

section \<open>Properties of the ledger surface\<close>

text \<open>
  C25. A resolution never claims more than the ledger showed. When \<open>submit\<close> returns: the result says
  "not submitted" exactly when nothing reached the network; it says "succeeded" exactly when the
  validated code was tesSUCCESS; and it says "failed" only on a validated failure or a malformed
  rejection. Everything else that was sent is "unknown".
\<close>

theorem submit_resolution_sound:
  assumes "submit sign on_signed on_signed_tx i out st = (Inr r, st', sent)"
  shows "(resolution_of r = Not_submitted \<longleftrightarrow> sent = None)
    \<and> (resolution_of r = Succeeded \<longleftrightarrow> sent \<noteq> None \<and> out = Validated tes_success)
    \<and> (resolution_of r = Failed \<longrightarrow> never_moved out)
    \<and> x_tx_hash r = sent"
  using assms
proof (cases rule: submitE)
  case (sent h l st1)
  then have r: "submitted_result out h = Inr r" by simp
  show ?thesis using sent(2) submitted_result_eq(1) [OF r] submitted_result_resolution [OF r] by auto
qed (auto simp: resolution_of_def)

text \<open>The message \<open>xrpl-py\<close> raises when it gives up waiting, carrying a preliminary code.\<close>

definition timeout_text :: string where
  "timeout_text = ''The latest ledger sequence 121 is greater than the LastLedgerSequence 120. Prelim result: tesSUCCESS''"

definition timeout_result :: xrpl_result where
  "timeout_result = \<lparr>x_success = False, x_result_code = ''submission_timeout'', x_tx_hash = Some ''ABC'',
     x_message = timeout_text, x_outcome = Some Unknown\<rparr>"

lemma timeout_not_proven: "validated_failure timeout_text = None" "malformed_code timeout_text = None"
  by code_simp+

lemma submit_timeout:
  "submit (Signed ''ABC'' (Some 120)) None None (Some 100) (Reliable_error timeout_text) ()
   = (Inr timeout_result, (), Some ''ABC'')"
proof -
  have "contains ''LastLedgerSequence'' timeout_text" by code_simp
  then show ?thesis
    by (simp add: submit_def submitted_result_def classify_def timeout_not_proven timeout_result_def)
qed

theorem submit_resolution_sound_witness:
  "resolution_of timeout_result = Unknown"
  using submit_resolution_sound [OF submit_timeout] timeout_not_proven
  unfolding never_moved_def
  by (cases "resolution_of timeout_result") auto

lemma parse_ledgers_text:
  assumes "\<forall>r\<in>set rs. 0 \<le> fst r \<and> 0 \<le> snd r"
  shows "parse_complete_ledgers (ledgers_text rs) = rs"
  using assms
proof (induction rs rule: ledgers_text.induct)
  case 1
  show ?case by code_simp
next
  case (2 r)
  then show ?case by (simp add: parse_complete_ledgers_def split_on_none parse_range_text)
next
  case (3 r r' rs)
  then show ?case
    using parse_range_text [of r] by (simp add: parse_complete_ledgers_def split_on_append)
qed

text \<open>
  The text a server reports its history in is read back exactly: parsing the rendering of any
  list of ledger ranges gives those ranges, in order.
\<close>

theorem complete_ledgers_roundtrip:
  assumes "\<forall>r\<in>set rs. 0 \<le> fst r \<and> 0 \<le> snd r"
  shows "parse_complete_ledgers (ledgers_text rs) = rs"
  using assms by (rule parse_ledgers_text)

theorem complete_ledgers_roundtrip_witness:
  "parse_complete_ledgers (ledgers_text [(32570, 97531234), (97531240, 97531250)])
   = [(32570, 97531234), (97531240, 97531250)]"
  by (rule complete_ledgers_roundtrip) simp

end
