(* ===== verification/Settlement.thy ===== *)
theory Settlement
  imports Xrpl
begin

text \<open>
  The settlement worker, \<open>app/workers/settlement_worker.py\<close>: the conditional transitions of a
  remittance's settlement and the job that pays one remittance on the ledger. A job runs beside
  other jobs and web requests, so the places where it waits carry what other sessions commit
  meanwhile, as functions on the database.
\<close>

section \<open>Transitions\<close>

definition max_attempts :: int where
  "max_attempts = 3"

definition retry_delays :: "int list" where
  "retry_delays = [10, 30, 60]"

definition claim_guard :: "uuid \<Rightarrow> transaction \<Rightarrow> bool" where
  "claim_guard key t \<longleftrightarrow> t_idempotency_key t = key \<and> t_settlement_status t = Settle_queued
     \<and> t_cashin_status t = CashIn_received \<and> t_xrpl_tx_hash t = None"

definition claim_values :: "instant \<Rightarrow> transaction \<Rightarrow> transaction" where
  "claim_values now t =
     t\<lparr>t_settlement_status := Settle_processing, t_settlement_attempts := t_settlement_attempts t + 1,
       t_updated_at := now\<rparr>"

text \<open>The claimed row as reloaded, and the database after the commit.\<close>

definition claim :: "instant \<Rightarrow> db \<Rightarrow> uuid \<Rightarrow> transaction option \<times> db" where
  "claim now d key =
     (map_option (claim_values now) (returning (claim_guard key) (transactions d)),
      d\<lparr>transactions := update_where (claim_guard key) (claim_values now) (transactions d)\<rparr>)"

text \<open>The guard of every later transition: this row, in one of the expected states.\<close>

definition settle_guard :: "uuid \<Rightarrow> settlement_status set \<Rightarrow> transaction \<Rightarrow> bool" where
  "settle_guard i from_statuses t \<longleftrightarrow> t_id t = i \<and> t_settlement_status t \<in> from_statuses"

definition completed_values :: "instant \<Rightarrow> string \<Rightarrow> transaction \<Rightarrow> transaction" where
  "completed_values now h t =
     t\<lparr>t_settlement_status := Settle_completed, t_xrpl_tx_hash := Some h, t_xrpl_error_reason := None,
       t_settled_at := Some now, t_updated_at := now\<rparr>"

definition recipient_wallet :: "db \<Rightarrow> transaction \<Rightarrow> wallet option" where
  "recipient_wallet d t =
     (case t_recipient_user_id t of None \<Rightarrow> None | Some uid \<Rightarrow> get_wallet_for_user d uid)"

text \<open>
  Status and credit commit together. \<open>loaded\<close> is the wallet instance the session holds from an
  earlier SELECT, if any. A balance the column cannot hold rolls everything back.
\<close>

definition complete_settlement ::
  "instant \<Rightarrow> wallet option \<Rightarrow> db \<Rightarrow> transaction \<Rightarrow> string \<Rightarrow> settlement_status set
     \<Rightarrow> (exn + bool) \<times> db" where
  "complete_settlement now loaded d txn h from_statuses =
     (case returning (settle_guard (t_id txn) from_statuses) (transactions d) of
        None \<Rightarrow> (Inr False, d)
      | Some _ \<Rightarrow>
          (let d' = d\<lparr>transactions := update_where (settle_guard (t_id txn) from_statuses)
                        (completed_values now h) (transactions d)\<rparr>
           in case for_update loaded (recipient_wallet d txn) of
                None \<Rightarrow> (Inr True, d')
              | Some w \<Rightarrow>
                  (case write_balance now w (dec_add (w_balance_uctusd w) (t_uctusd_amount txn))
                          (wallets d) of
                     None \<Rightarrow> (Inl DatabaseError, d)
                   | Some ws \<Rightarrow> (Inr True, d'\<lparr>wallets := ws\<rparr>))))"

definition failed_values :: "instant \<Rightarrow> string \<Rightarrow> string option \<Rightarrow> transaction \<Rightarrow> transaction" where
  "failed_values now why h t =
     t\<lparr>t_settlement_status := Settle_failed, t_xrpl_error_reason := Some why, t_updated_at := now,
       t_xrpl_tx_hash := (if truthy h then h else t_xrpl_tx_hash t)\<rparr>"

definition fail_settlement ::
  "instant \<Rightarrow> db \<Rightarrow> transaction \<Rightarrow> string \<Rightarrow> string option \<Rightarrow> settlement_status set \<Rightarrow> bool \<times> db" where
  "fail_settlement now d txn why h from_statuses =
     (case returning (settle_guard (t_id txn) from_statuses) (transactions d) of
        None \<Rightarrow> (False, d)
      | Some _ \<Rightarrow>
          (True, d\<lparr>transactions := update_where (settle_guard (t_id txn) from_statuses)
                     (failed_values now why h) (transactions d)\<rparr>))"

definition requeued_values :: "instant \<Rightarrow> string \<Rightarrow> transaction \<Rightarrow> transaction" where
  "requeued_values now why t =
     t\<lparr>t_settlement_status := Settle_queued, t_xrpl_error_reason := Some (''retrying: '' @ why),
       t_updated_at := now\<rparr>"

datatype worker_result = Skipped | Completed | Job_failed | Requeued | Outcome_unknown

text \<open>The delay before the next attempt; \<open>requeue\<close> publishes it, or raises.\<close>

definition settle_delay :: "int \<Rightarrow> int" where
  "settle_delay attempts = retry_delays ! nat (min (max attempts 1 - 1) 2)"

definition retry_or_fail ::
  "instant \<Rightarrow> db \<Rightarrow> transaction \<Rightarrow> string \<Rightarrow> (int \<Rightarrow> uuid \<Rightarrow> uuid \<Rightarrow> exn option)
     \<Rightarrow> (exn + worker_result) \<times> db" where
  "retry_or_fail now d txn why requeue =
     (if max_attempts \<le> t_settlement_attempts txn
      then (Inr Job_failed, snd (fail_settlement now d txn (''retries_exhausted: '' @ why) None {Settle_processing}))
      else case returning (settle_guard (t_id txn) {Settle_processing}) (transactions d) of
             None \<Rightarrow> (Inr Skipped, d)
           | Some _ \<Rightarrow>
               (case requeue (settle_delay (t_settlement_attempts txn)) (t_idempotency_key txn) (t_id txn) of
                  Some e \<Rightarrow> Inl e | None \<Rightarrow> Inr Requeued,
                d\<lparr>transactions := update_where (settle_guard (t_id txn) {Settle_processing})
                    (requeued_values now why) (transactions d)\<rparr>))"

section \<open>The job\<close>

text \<open>
  Everything outside the program that one job meets: the faucet, the TrustSet, the treasury
  lock, the payment, the commit of the signed hash (and whether the session survives a failed
  commit), and what other sessions commit while the job waits.
\<close>

record settle_run =
  g_faucet :: "exn + (string \<times> string \<times> string)"
  g_trust :: payment_run
  g_lock_enter :: "exn option"
  g_lock_exit :: "exn option"
  g_payment :: payment_run
  g_persist :: "exn option"
  g_session_lost :: "exn option"
  g_during_faucet :: "db \<Rightarrow> db"
  g_during_trust :: "db \<Rightarrow> db"
  g_during_lock :: "db \<Rightarrow> db"
  g_during_send :: "db \<Rightarrow> db"

definition signed_values :: "instant \<Rightarrow> signed_tx \<Rightarrow> transaction \<Rightarrow> transaction" where
  "signed_values now st t =
     t\<lparr>t_xrpl_tx_hash := Some (s_tx_hash st), t_last_ledger_sequence := s_last_ledger_sequence st,
       t_submitted_ledger_index := s_submitted_ledger_index st, t_updated_at := now\<rparr>"

text \<open>\<open>remember_signed\<close>: an ORM write by primary key, whatever the row's status by then.\<close>

definition remember_signed :: "instant \<Rightarrow> exn option \<Rightarrow> uuid \<Rightarrow> signed_tx \<Rightarrow> db callback" where
  "remember_signed now persist i st d =
     (case persist of
        Some e \<Rightarrow> (Some e, d)
      | None \<Rightarrow> (None, d\<lparr>transactions :=
                   update_where (\<lambda>t. t_id t = i) (signed_values now st) (transactions d)\<rparr>))"

text \<open>\<open>f"{code}: {message}".strip(": ")\<close>\<close>

definition strip_colons :: "string \<Rightarrow> string" where
  "strip_colons s =
     (let cut = dropWhile (\<lambda>c. c = CHR '':'' \<or> c = CHR '' '')
      in rev (cut (rev (cut s))))"

definition reason_of :: "xrpl_result \<Rightarrow> string" where
  "reason_of r = strip_colons (x_result_code r @ '': '' @ x_message r)"

definition described :: "exn \<Rightarrow> string" where
  "described e = exn_name e @ '': '' @ exn_text e"

text \<open>
  The guarded block: wallet, trust line, lock, payment. The result keeps the provisioned wallet
  instance, the hash that was submitted, and whether the commit of the hash failed.
\<close>

definition pay_under_lock ::
  "(string \<Rightarrow> string option) \<Rightarrow> settings \<Rightarrow> instant \<Rightarrow> settle_run \<Rightarrow> transaction \<Rightarrow> db
     \<Rightarrow> (exn + xrpl_result) \<times> db \<times> string option" where
  "pay_under_lock derive s now g txn d =
     (let d = g_during_lock g d
      in case g_lock_enter g of
           Some e \<Rightarrow> (Inl e, d, None)
         | None \<Rightarrow>
             (case send_from_treasury derive s (g_payment g) (t_uctusd_amount txn) None
                     (Some (remember_signed now (g_persist g) (t_id txn))) d of
                (res, d, sent) \<Rightarrow>
                  (case g_lock_exit g of Some e \<Rightarrow> Inl e | None \<Rightarrow> res, d, sent)))"

definition attempt_payment ::
  "(string \<Rightarrow> string option) \<Rightarrow> settings \<Rightarrow> instant \<Rightarrow> uuid \<Rightarrow> settle_run \<Rightarrow> transaction \<Rightarrow> user \<Rightarrow> db
     \<Rightarrow> (exn + xrpl_result) \<times> db \<times> string option \<times> wallet option" where
  "attempt_payment derive s now new_id g txn u d =
     (case provision_wallet now new_id (g_faucet g) (g_trust g) (g_during_faucet g) (g_during_trust g) d u of
        (Inl e, d) \<Rightarrow> (Inl e, d, None, None)
      | (Inr w, d) \<Rightarrow>
          if \<not> w_trust_set_complete w
          then (Inl (Raised ''TransientSettlementError'' ''trust line to the issuer is not set yet''),
                d, None, Some w)
          else (case pay_under_lock derive s now g txn d of
                  (res, d, sent) \<Rightarrow> (res, d, sent, Some w)))"

text \<open>What the worker does with the outcome.\<close>

definition after_exception ::
  "instant \<Rightarrow> settle_run \<Rightarrow> (int \<Rightarrow> uuid \<Rightarrow> uuid \<Rightarrow> exn option) \<Rightarrow> transaction \<Rightarrow> string option \<Rightarrow> exn
     \<Rightarrow> db \<Rightarrow> (exn + worker_result) \<times> db" where
  "after_exception now g requeue txn sent e d =
     (case g_session_lost g of
        Some e' \<Rightarrow> (Inl e', d)
      | None \<Rightarrow>
          (case (e, sent) of
             (InvalidAmountError m, _) \<Rightarrow>
               (Inr Job_failed, snd (fail_settlement now d txn (''invalid_amount: '' @ m) None {Settle_processing}))
           | (_, Some h) \<Rightarrow>
               (Inr Job_failed, snd (fail_settlement now d txn
                  (''outcome_unknown: '' @ exn_name e @ '' after signing; check the hash on the ledger'')
                  (Some h) {Settle_processing}))
           | (_, None) \<Rightarrow> retry_or_fail now d txn (described e) requeue))"

definition after_result ::
  "instant \<Rightarrow> (int \<Rightarrow> uuid \<Rightarrow> uuid \<Rightarrow> exn option) \<Rightarrow> transaction \<Rightarrow> wallet option \<Rightarrow> xrpl_result \<Rightarrow> db
     \<Rightarrow> (exn + worker_result) \<times> db" where
  "after_result now requeue txn loaded r d =
     (case resolution_of r of
        Succeeded \<Rightarrow>
          (case complete_settlement now loaded d txn (or_else (x_tx_hash r) []) {Settle_processing} of
             (Inl e, d) \<Rightarrow> (Inl e, d)
           | (Inr _, d) \<Rightarrow> (Inr Completed, d))
      | Not_submitted \<Rightarrow> retry_or_fail now d txn (reason_of r) requeue
      | Unknown \<Rightarrow>
          (Inr Job_failed, snd (fail_settlement now d txn
             (''outcome_unknown: '' @ reason_of r @ ''; check the hash on the ledger'') (x_tx_hash r)
             {Settle_processing}))
      | Failed \<Rightarrow>
          (Inr Job_failed, snd (fail_settlement now d txn (reason_of r) (x_tx_hash r) {Settle_processing})))"

definition process_settlement ::
  "(string \<Rightarrow> string option) \<Rightarrow> settings \<Rightarrow> instant \<Rightarrow> uuid \<Rightarrow> settle_run
     \<Rightarrow> (int \<Rightarrow> uuid \<Rightarrow> uuid \<Rightarrow> exn option) \<Rightarrow> db \<Rightarrow> uuid
     \<Rightarrow> (exn + worker_result) \<times> db \<times> string option" where
  "process_settlement derive s now new_id g requeue d key =
     (case claim now d key of
        (None, d) \<Rightarrow> (Inr Skipped, d, None)
      | (Some txn, d) \<Rightarrow>
          (case (case t_recipient_user_id txn of None \<Rightarrow> None | Some uid \<Rightarrow> by_key u_id uid (users d)) of
             None \<Rightarrow>
               (Inr Job_failed, snd (fail_settlement now d txn
                  ''recipient_not_registered: no platform user to receive funds'' None {Settle_processing}), None)
           | Some u \<Rightarrow>
               (case attempt_payment derive s now new_id g txn u d of
                  (res, d, sent, loaded) \<Rightarrow>
                    (let d = g_during_send g d;
                         done = (case res of
                                   Inl e \<Rightarrow> after_exception now g requeue txn sent e d
                                 | Inr r \<Rightarrow> after_result now requeue txn loaded r d)
                     in (fst done, snd done, sent)))))"

section \<open>The transitions as guarded changes\<close>

interpretation settle_claim: guarded_change t_id "claim_values now" "claim_guard key" for now key
  by unfold_locales (simp_all add: claim_values_def claim_guard_def)

interpretation settle_complete: guarded_change t_id "completed_values now h" "settle_guard i {Settle_processing}"
  for now h i
  by unfold_locales (simp_all add: completed_values_def settle_guard_def)

interpretation settle_reconcile: guarded_change t_id "completed_values now h" "settle_guard i {Settle_failed}"
  for now h i
  by unfold_locales (simp_all add: completed_values_def settle_guard_def)

interpretation settle_fail: guarded_change t_id "failed_values now why h" "settle_guard i {Settle_processing}"
  for now why h i
  by unfold_locales (simp_all add: failed_values_def settle_guard_def)

interpretation settle_unqueue: guarded_change t_id "failed_values now why h" "settle_guard i {Settle_queued}"
  for now why h i
  by unfold_locales (simp_all add: failed_values_def settle_guard_def)

interpretation settle_requeue: guarded_change t_id "requeued_values now why" "settle_guard i {Settle_processing}"
  for now why i
  by unfold_locales (simp_all add: requeued_values_def settle_guard_def)

interpretation settle_sign: row_change t_id "signed_values now st" for now st
  by unfold_locales (simp add: signed_values_def)

section \<open>Frames\<close>

lemma claim_frame [frame_simps]:
  "wallets (snd (claim now d key)) = wallets d" "users (snd (claim now d key)) = users d"
  "cashouts (snd (claim now d key)) = cashouts d" "beneficiaries (snd (claim now d key)) = beneficiaries d"
  by (simp_all add: claim_def)

lemma fail_settlement_frame [frame_simps]:
  "wallets (snd (fail_settlement now d t why h F)) = wallets d"
  "users (snd (fail_settlement now d t why h F)) = users d"
  "cashouts (snd (fail_settlement now d t why h F)) = cashouts d"
  "beneficiaries (snd (fail_settlement now d t why h F)) = beneficiaries d"
  by (simp_all add: fail_settlement_def split: option.splits)

lemma retry_or_fail_frame [frame_simps]:
  "wallets (snd (retry_or_fail now d t why rq)) = wallets d"
  "users (snd (retry_or_fail now d t why rq)) = users d"
  "cashouts (snd (retry_or_fail now d t why rq)) = cashouts d"
  by (simp_all add: retry_or_fail_def frame_simps split: option.splits)

lemma retry_not_completed [simp]: "fst (retry_or_fail now d t why rq) \<noteq> Inr Completed"
  by (auto simp: retry_or_fail_def split: option.splits)

lemma after_exception_frame [frame_simps]:
  "wallets (snd (after_exception now g rq t sent e d)) = wallets d"
  "fst (after_exception now g rq t sent e d) \<noteq> Inr Completed"
  by (auto simp: after_exception_def frame_simps split: option.splits exn.splits)

lemma remember_signed_frame [frame_simps]:
  "wallets (snd (remember_signed now p i st d)) = wallets d"
  "users (snd (remember_signed now p i st d)) = users d"
  by (simp_all add: remember_signed_def split: option.splits)

section \<open>Wallet balances\<close>

definition balance_of :: "db \<Rightarrow> uuid \<Rightarrow> dec" where
  "balance_of d uid = (case get_wallet_for_user d uid of None \<Rightarrow> 0 | Some w \<Rightarrow> w_balance_uctusd w)"

lemma balance_of_cong: "wallets d = wallets d' \<Longrightarrow> balance_of d uid = balance_of d' uid"
  by (simp add: balance_of_def get_wallet_for_user_def)

interpretation wallet_owner: row_change w_user_id "set_balance now b" for now b
  by unfold_locales (simp add: set_balance_def)

interpretation wallet_id: row_change w_id "set_balance now b" for now b
  by unfold_locales (simp add: set_balance_def)

interpretation trust_owner: row_change w_user_id "set_trust now" for now
  by unfold_locales (simp add: set_trust_def)

lemma unique_wallets_map:
  assumes "map (\<lambda>w. (w_id w, w_user_id w, w_xrpl_address w)) ws = map (\<lambda>w. (w_id w, w_user_id w, w_xrpl_address w)) ws'"
  shows "unique_wallets ws = unique_wallets ws'"
  using arg_cong [OF assms, of "map fst"] arg_cong [OF assms, of "map (fst \<circ> snd)"]
    arg_cong [OF assms, of "map (snd \<circ> snd)"]
  by (simp add: unique_wallets_def comp_def)

lemma write_balance_row:
  assumes "write_balance now w b ws = Some ws'" and "unique_wallets ws" and "by_key w_user_id uid ws = Some r"
  shows "\<exists>r'. by_key w_user_id uid ws' = Some r' \<and> w_id r' = w_id r
    \<and> w_balance_uctusd r' = (if w_id r = w_id w \<and> b \<noteq> w_balance_uctusd w then to_grid 6 b else w_balance_uctusd r)"
proof (cases "b = w_balance_uctusd w")
  case True
  with assms show ?thesis by (simp add: write_balance_def)
next
  case False
  with assms(1) obtain v where v: "store_numeric 20 6 b = Some v"
    and ws': "ws' = update_where (\<lambda>x. w_id x = w_id w) (set_balance now v) ws"
    by (auto simp: write_balance_def split: option.splits)
  then show ?thesis
    using assms(3) False
    by (simp add: wallet_owner.by_key_update_where set_balance_def store_numeric_eq)
qed

lemma write_balance_none:
  "write_balance now w b ws = Some ws' \<Longrightarrow> by_key w_user_id uid ws = None \<Longrightarrow> by_key w_user_id uid ws' = None"
  by (auto simp: write_balance_def wallet_owner.by_key_update_where split: option.splits if_splits)

lemma write_balance_unique:
  "write_balance now w b ws = Some ws' \<Longrightarrow> unique_wallets ws' = unique_wallets ws"
  by (auto simp: write_balance_def update_where_def set_balance_def split: option.splits if_splits
      intro!: unique_wallets_map)

text \<open>The credit, from the instance the session works on.\<close>

lemma complete_settlementE:
  assumes "complete_settlement now loaded d txn h F = (Inr True, d')"
  obtains t ws where "returning (settle_guard (t_id txn) F) (transactions d) = Some t"
    "transactions d' = update_where (settle_guard (t_id txn) F) (completed_values now h) (transactions d)"
    "wallets d' = ws"
    "case for_update loaded (recipient_wallet d txn) of None \<Rightarrow> ws = wallets d
     | Some w \<Rightarrow> write_balance now w (dec_add (w_balance_uctusd w) (t_uctusd_amount txn)) (wallets d) = Some ws"
    "users d' = users d" "cashouts d' = cashouts d" "beneficiaries d' = beneficiaries d"
    "submissions d' = submissions d" "fee_configs d' = fee_configs d" "tiers d' = tiers d"
  using assms that unfolding complete_settlement_def Let_def
  by (cases "returning (settle_guard (t_id txn) F) (transactions d)")
    (auto split: option.splits)

lemma write_balance_of:
  assumes "write_balance now inst (dec_add (w_balance_uctusd inst) a) (wallets d) = Some ws" and "wallets d' = ws"
    and "unique_wallets (wallets d)" and "row \<in> set (wallets d)" and "w_id inst = w_id row"
    and "column_value 20 6 (w_balance_uctusd inst)" and "column_value 20 6 a" and "a \<noteq> 0"
  shows "balance_of d' uid = (if w_user_id row = uid then w_balance_uctusd inst + a else balance_of d uid)"
proof -
  let ?b = "w_balance_uctusd inst + a"
  have sum: "dec_add (w_balance_uctusd inst) a = ?b" using column_add_exact(1) assms(6,7) by simp
  have grid: "to_grid 6 ?b = ?b"
    using assms(6,7) by (intro to_grid_id on_grid_add) (simp_all add: column_value_def)
  have ws: "write_balance now inst ?b (wallets d) = Some ws" using assms(1) by (simp add: sum)
  show ?thesis
  proof (cases "by_key w_user_id uid (wallets d)")
    case None
    moreover have "w_user_id row \<noteq> uid" using None assms(4) by (auto simp: by_key_None)
    ultimately show ?thesis
      using write_balance_none [OF ws None] by (simp add: balance_of_def get_wallet_for_user_def assms(2))
  next
    case (Some r)
    have r: "r \<in> set (wallets d)" "w_user_id r = uid" using by_key_Some [OF Some] by simp_all
    then have "w_id r = w_id row \<longleftrightarrow> w_user_id row = uid"
      using assms(3,4) by (auto simp: unique_wallets_def distinct_map dest: inj_onD)
    with write_balance_row [OF ws assms(3) Some] show ?thesis
      using Some assms(5,8) grid by (auto simp: balance_of_def get_wallet_for_user_def assms(2))
  qed
qed

lemma credit_balance:
  assumes "complete_settlement now loaded d txn h F = (Inr True, d')"
    and "unique_wallets (wallets d)" and "recipient_wallet d txn = Some row"
    and "loaded = None \<or> loaded = Some w" and "w_id w = w_id row"
    and "column_value 20 6 (w_balance_uctusd (if loaded = None then row else w))"
    and "column_value 20 6 (t_uctusd_amount txn)"
    and "t_uctusd_amount txn \<noteq> 0"
  shows "balance_of d' uid = (if t_recipient_user_id txn = Some uid
     then w_balance_uctusd (if loaded = None then row else w) + t_uctusd_amount txn else balance_of d uid)"
proof -
  define inst where "inst = (if loaded = None then row else w)"
  have fu: "for_update loaded (recipient_wallet d txn) = Some inst"
    using assms(3,4,5) by (auto simp: for_update_def inst_def)
  from assms(1) obtain ws where
    ws: "write_balance now inst (dec_add (w_balance_uctusd inst) (t_uctusd_amount txn)) (wallets d) = Some ws"
      "wallets d' = ws"
    by (rule complete_settlementE) (simp add: fu)
  have row: "row \<in> set (wallets d)" "t_recipient_user_id txn = Some (w_user_id row)"
    using assms(3) by (auto simp: recipient_wallet_def get_wallet_for_user_def dest: by_key_Some split: option.splits)
  have "w_id inst = w_id row" using assms(5) by (simp add: inst_def)
  from write_balance_of [OF ws assms(2) row(1) this] show ?thesis
    using assms(6-8) row(2) by (simp add: inst_def [symmetric])
qed

section \<open>Provisioning\<close>

definition balances_ok :: "db \<Rightarrow> bool" where
  "balances_ok d \<longleftrightarrow> unique_wallets (wallets d) \<and> (\<forall>w\<in>set (wallets d). column_value 20 6 (w_balance_uctusd w))"

lemma set_trust_ok:
  assumes "balances_ok d" and "get_wallet_for_user d uid = Some w"
    and "d' = d\<lparr>wallets := update_where (\<lambda>x. w_id x = w_id w) (set_trust now) (wallets d)\<rparr>"
  shows "balances_ok d'" "balance_of d' = balance_of d" "get_wallet_for_user d' uid = Some (set_trust now w)"
proof -
  have "unique_wallets (wallets d') = unique_wallets (wallets d)"
    unfolding assms(3) by (rule unique_wallets_map) (simp add: update_where_def set_trust_def)
  then show "balances_ok d'"
    using assms(1) by (auto simp: balances_ok_def assms(3) in_update_where set_trust_def)
  show "balance_of d' = balance_of d"
    by (rule ext)
      (auto simp: balance_of_def get_wallet_for_user_def assms(3) trust_owner.by_key_update_where set_trust_def
        split: option.splits)
  show "get_wallet_for_user d' uid = Some (set_trust now w)"
    using assms(2) by (simp add: get_wallet_for_user_def assms(3) trust_owner.by_key_update_where)
qed

lemma ensure_trust_line_ok:
  assumes "ensure_trust_line now r (\<lambda>d. d) d w = (res, d')" and "balances_ok d"
    and "get_wallet_for_user d uid = Some w"
  shows "balances_ok d'" "balance_of d' = balance_of d" "transactions d' = transactions d" "users d' = users d"
    "res = Inr (x, w') \<Longrightarrow> get_wallet_for_user d' uid = Some w'"
  using assms set_trust_ok [OF assms(2,3)]
  by (auto simp: ensure_trust_line_def Let_def split: if_splits sum.splits prod.splits)

lemma new_wallet_ok:
  assumes "balances_ok d" and "get_wallet_for_user d uid = None" and "unique_wallets (wallets d @ [new_wallet now i uid acc])"
    and "wallets d' = wallets d @ [new_wallet now i uid acc]"
  shows "balances_ok d'" "balance_of d' = balance_of d"
    "get_wallet_for_user d' uid = Some (new_wallet now i uid acc)"
  using assms
  by (auto simp: balances_ok_def balance_of_def get_wallet_for_user_def by_key_append new_wallet_def fun_eq_iff
      split: prod.splits option.splits)

lemma after_trust_ok:
  assumes "(case ensure_trust_line now r (\<lambda>d. d) d w of (Inl e, d) \<Rightarrow> (Inl e, d) | (Inr (_, w), d) \<Rightarrow> (Inr w, d)) = (res, d')"
    and "balances_ok d" and "get_wallet_for_user d uid = Some w"
  shows "balances_ok d' \<and> balance_of d' = balance_of d \<and> transactions d' = transactions d
    \<and> (\<forall>w. res = Inr w \<longrightarrow> get_wallet_for_user d' uid = Some w)"
proof -
  obtain res2 d2 where run: "ensure_trust_line now r (\<lambda>d. d) d w = (res2, d2)" by fastforce
  note ok = ensure_trust_line_ok [OF run assms(2,3)]
  show ?thesis
  proof (cases res2)
    case (Inl e)
    with assms(1) run ok(1-3) show ?thesis by auto
  next
    case (Inr p)
    then obtain x w' where "res2 = Inr (x, w')" by (cases p) auto
    with assms(1) run ok(1-3) ok(5) [OF this] show ?thesis by auto
  qed
qed

lemma provision_wallet_ok:
  assumes "provision_wallet now i f r (\<lambda>d. d) (\<lambda>d. d) d u = (res, d')" and "balances_ok d"
  shows "balances_ok d' \<and> balance_of d' = balance_of d \<and> transactions d' = transactions d
    \<and> (\<forall>w. res = Inr w \<longrightarrow> get_wallet_for_user d' (u_id u) = Some w)"
proof (cases "get_wallet_for_user d (u_id u)")
  case (Some w)
  with assms(1) show ?thesis
    by (intro after_trust_ok [OF _ assms(2) Some, of now r]) (simp add: provision_wallet_def)
next
  case None
  show ?thesis
  proof (cases f)
    case (Inl e)
    with assms None show ?thesis by (auto simp: provision_wallet_def)
  next
    case (Inr acc)
    let ?w = "new_wallet now i (u_id u) acc"
    let ?d1 = "d\<lparr>wallets := wallets d @ [?w], users := set_can_receive now u (users d)\<rparr>"
    show ?thesis
    proof (cases "unique_wallets (wallets d @ [?w])")
      case True
      have w1: "wallets ?d1 = wallets d @ [?w]" "transactions ?d1 = transactions d" by simp_all
      note new = new_wallet_ok [OF assms(2) None True w1(1)]
      have "balances_ok d' \<and> balance_of d' = balance_of ?d1 \<and> transactions d' = transactions ?d1
        \<and> (\<forall>w. res = Inr w \<longrightarrow> get_wallet_for_user d' (u_id u) = Some w)"
        using assms(1) None Inr True
        by (intro after_trust_ok [OF _ new(1,3), of now r]) (simp add: provision_wallet_def Let_def)
      then show ?thesis using new(2) w1(2) by simp
    next
      case False
      with assms None Inr show ?thesis by (auto simp: provision_wallet_def Let_def)
    qed
  qed
qed

section \<open>Properties of settlement\<close>

text \<open>
  C5. A message is processed once (FR-MQ-04): after a claim, a redelivery of the same message finds
  nothing to claim and the job stops at once without touching the database or the ledger; and a row
  that was ever signed for is never claimed.
\<close>

theorem claim_at_most_once:
  shows "process_settlement derive s now' i g rq (snd (claim now d key)) key
      = (Inr Skipped, snd (claim now d key), None)
    \<and> (fst (claim now d key) = None \<or> (\<exists>t\<in>set (transactions d). t_xrpl_tx_hash t = None
         \<and> t_cashin_status t = CashIn_received \<and> fst (claim now d key) = Some (claim_values now t)))"
proof
  have none: "returning (claim_guard key) (transactions (snd (claim now d key))) = None"
    unfolding claim_def by (simp add: settle_claim.no_match_after)
  then have "claim now' (snd (claim now d key)) key = (None, snd (claim now d key))"
    by (simp add: claim_def [of now' "snd (claim now d key)"] returning_None_noop)
  then show "process_settlement derive s now' i g rq (snd (claim now d key)) key
      = (Inr Skipped, snd (claim now d key), None)"
    by (simp add: process_settlement_def)
  show "fst (claim now d key) = None \<or> (\<exists>t\<in>set (transactions d). t_xrpl_tx_hash t = None
         \<and> t_cashin_status t = CashIn_received \<and> fst (claim now d key) = Some (claim_values now t))"
  proof (cases "returning (claim_guard key) (transactions d)")
    case (Some t)
    with returning_SomeD [OF Some] show ?thesis by (auto simp: claim_def claim_guard_def)
  qed (simp add: claim_def)
qed

text \<open>
  C6. Nothing reaches the network before the database knows it (FR-MQ-06): when a job submits a
  payment with hash \<open>h\<close>, the row it settles already carries \<open>h\<close> with the payment's deadline and
  the validated ledger index read before signing; if that commit fails, nothing is submitted.
\<close>

theorem signed_before_sent:
  assumes "pay_under_lock derive s now g txn d = (res, d', Some h)"
    and "t \<in> set (transactions (g_during_lock g d))" and "t_id t = t_id txn"
  shows "\<exists>last idx. p_sign (g_payment g) = Signed h last \<and> p_latest (g_payment g) = Inr idx
    \<and> g_persist g = None
    \<and> t\<lparr>t_xrpl_tx_hash := Some h, t_last_ledger_sequence := last, t_submitted_ledger_index := Some idx,
        t_updated_at := now\<rparr> \<in> set (transactions d')"
proof -
  let ?d = "g_during_lock g d" and ?r = "g_payment g"
  let ?cb = "remember_signed now (g_persist g) (t_id txn)"
  from assms(1) obtain res1 where
    run: "send_from_treasury derive s ?r (t_uctusd_amount txn) None (Some ?cb) ?d = (res1, d', Some h)"
    by (auto simp: pay_under_lock_def Let_def split: option.splits prod.splits)
  then obtain i where idx: "read_index (Some ?cb) ?r = Inr i"
    and sub: "submit (p_sign ?r) None (Some ?cb) i (p_submit ?r) ?d = (res1, d', Some h)"
    by (auto simp: send_from_treasury_def split: sum.splits)
  from idx obtain n where n: "i = Some n" "p_latest ?r = Inr n" by (auto simp: read_index_def)
  from sub show ?thesis
  proof (cases rule: submitE)
    case (sent h' l st1)
    then have cb: "?cb \<lparr>s_tx_hash = h, s_last_ledger_sequence = l, s_submitted_ledger_index = i\<rparr> ?d = (None, d')"
      by simp
    then have p: "g_persist g = None" by (auto simp: remember_signed_def split: option.splits)
    with cb have d': "transactions d' = update_where (\<lambda>t. t_id t = t_id txn) (signed_values now
      \<lparr>s_tx_hash = h, s_last_ledger_sequence = l, s_submitted_ledger_index = i\<rparr>) (transactions ?d)"
      by (auto simp: remember_signed_def)
    show ?thesis
      using sent p n assms(2,3) by (force simp: d' in_update_where signed_values_def)
  qed simp_all
qed

text \<open>A funded example: one received remittance of 50.874404 UCTUSD to a provisioned recipient.\<close>

definition example_txn :: transaction where
  "example_txn = \<lparr>t_id = 50, t_sender_id = 10, t_beneficiary_id = 40, t_recipient_user_id = Some 11,
     t_zar_amount = 1000, t_transaction_fee = 40, t_net_zar_converted = 960, t_market_rate = 18.5,
     t_exchange_rate = 18.87, t_fx_margin = 0.02, t_uctusd_amount = 50.874404, t_idempotency_key = 51,
     t_cashin_status = CashIn_received, t_settlement_status = Settle_queued, t_card_last4 = Some ''4242'',
     t_cashin_updated_at = Some 1, t_cashin_reviewed_by = Some 1, t_cashin_failure_reason = None,
     t_xrpl_tx_hash = None, t_last_ledger_sequence = None, t_submitted_ledger_index = None,
     t_settlement_attempts = 0, t_previous_attempts = [], t_xrpl_error_reason = None, t_settled_at = None,
     t_aml_flagged = False, t_created_at = 0, t_updated_at = 1\<rparr>"

definition example_wallet :: wallet where
  "example_wallet = \<lparr>w_id = 60, w_user_id = 11, w_xrpl_address = ''rRudo'', w_encrypted_private_key = ''sealed'',
     w_key_encryption_key_id = ''k1'', w_trust_set_complete = True, w_balance_uctusd = 10,
     w_created_at = 0, w_updated_at = 0\<rparr>"

definition settle_db :: db where
  "settle_db = people_example\<lparr>transactions := [example_txn], wallets := [example_wallet]\<rparr>"

definition paying_run :: settle_run where
  "paying_run = \<lparr>g_faucet = Inl NoResultFound,
     g_trust = \<lparr>p_latest = Inr 100, p_prepare = Inr (), p_sign = Signed ''T1'' (Some 120), p_submit = Validated tes_success\<rparr>,
     g_lock_enter = None, g_lock_exit = None,
     g_payment = \<lparr>p_latest = Inr 100, p_prepare = Inr (), p_sign = Signed ''P1'' (Some 120), p_submit = Validated tes_success\<rparr>,
     g_persist = None, g_session_lost = None, g_during_faucet = (\<lambda>d. d), g_during_trust = (\<lambda>d. d),
     g_during_lock = (\<lambda>d. d), g_during_send = (\<lambda>d. d)\<rparr>"

definition derive_platform :: "string \<Rightarrow> string option" where
  "derive_platform seed = (if seed = ''sSeed'' then Some ''rPlatform'' else None)"

lemma example_amount_ok: "quantize 6 50.874404 = Inr 50.874404" "column_value 20 6 50.874404"
  "column_value 20 6 10"
  by (code_simp, code_simp, code_simp)

lemma example_send:
  "send_from_treasury derive_platform example_settings (g_payment paying_run) 50.874404 None
     (Some (remember_signed now None 50)) d
   = (Inr \<lparr>x_success = True, x_result_code = tes_success, x_tx_hash = Some ''P1'', x_message = [],
           x_outcome = Some Succeeded\<rparr>,
      d\<lparr>transactions := update_where (\<lambda>t. t_id t = 50) (signed_values now
          \<lparr>s_tx_hash = ''P1'', s_last_ledger_sequence = Some 120, s_submitted_ledger_index = Some 100\<rparr>)
          (transactions d)\<rparr>, Some ''P1'')"
  using example_amount_ok(1)
  by (simp add: send_from_treasury_def load_treasury_def example_settings_def derive_platform_def
      paying_run_def read_index_def uctusd_def submit_def remember_signed_def submitted_result_def)

lemma example_pay:
  "pay_under_lock derive_platform example_settings now paying_run (claim_values n example_txn) d
   = (Inr \<lparr>x_success = True, x_result_code = tes_success, x_tx_hash = Some ''P1'', x_message = [],
           x_outcome = Some Succeeded\<rparr>,
      d\<lparr>transactions := update_where (\<lambda>t. t_id t = 50) (signed_values now
          \<lparr>s_tx_hash = ''P1'', s_last_ledger_sequence = Some 120, s_submitted_ledger_index = Some 100\<rparr>)
          (transactions d)\<rparr>, Some ''P1'')"
  using example_send [of now d]
  by (simp add: pay_under_lock_def claim_values_def example_txn_def) (simp add: paying_run_def)

theorem signed_before_sent_witness:
  "\<exists>last idx. p_sign (g_payment paying_run) = Signed ''P1'' last \<and> p_latest (g_payment paying_run) = Inr idx"
  using signed_before_sent [OF example_pay [of 5 2 settle_db], of example_txn]
  by (auto simp: settle_db_def paying_run_def example_txn_def claim_values_def)

section \<open>The whole job\<close>

text \<open>A job that no other session disturbs while it waits.\<close>

definition undisturbed :: "settle_run \<Rightarrow> bool" where
  "undisturbed g \<longleftrightarrow> g_during_faucet g = (\<lambda>d. d) \<and> g_during_trust g = (\<lambda>d. d)
     \<and> g_during_lock g = (\<lambda>d. d) \<and> g_during_send g = (\<lambda>d. d)"

definition in_processing :: "uuid \<Rightarrow> db \<Rightarrow> bool" where
  "in_processing i d \<longleftrightarrow> (\<exists>r\<in>set (transactions d). settle_guard i {Settle_processing} r)"

lemma in_processing_returning: "in_processing i d \<longleftrightarrow> returning (settle_guard i {Settle_processing}) (transactions d) \<noteq> None"
  unfolding in_processing_def returning_def using find_None_all [of "settle_guard i {Settle_processing}" "transactions d"] by auto

lemma claimed_in_processing:
  assumes "returning (claim_guard key) (transactions d) = Some t"
  shows "in_processing (t_id t) (snd (claim now d key))"
proof -
  have "claim_values now t \<in> set (transactions (snd (claim now d key)))"
    using returning_SomeD [OF assms] by (auto simp: claim_def in_update_where)
  then show ?thesis
    unfolding in_processing_def by (rule bexI [rotated]) (simp add: settle_guard_def claim_values_def)
qed

lemma remember_keeps: "in_processing i d \<Longrightarrow> in_processing i (snd (remember_signed now p j st d))"
proof -
  assume "in_processing i d"
  then obtain r where r: "r \<in> set (transactions d)" "settle_guard i {Settle_processing} r"
    by (auto simp: in_processing_def)
  show "in_processing i (snd (remember_signed now p j st d))"
  proof (cases p)
    case None
    let ?r = "if t_id r = j then signed_values now st r else r"
    have "settle_guard i {Settle_processing} ?r"
      using r(2) by (auto simp: settle_guard_def signed_values_def)
    moreover have "?r \<in> set (transactions (snd (remember_signed now p j st d)))"
      using r(1) None by (auto simp: remember_signed_def in_update_where)
    ultimately show ?thesis by (auto simp: in_processing_def)
  qed (use \<open>in_processing i d\<close> in \<open>simp add: remember_signed_def\<close>)
qed

lemma send_resultE:
  assumes "send_from_treasury derive s r amount None (Some cb) d = (res, d', sent)"
  obtains (raised) e where "res = Inl e" "d' = d \<or> (\<exists>st. d' = snd (cb st d))"
  | (returned) x where "res = Inr x" "d' = d \<or> (\<exists>st. d' = snd (cb st d))"
      "resolution_of x = Succeeded \<Longrightarrow> sent \<noteq> None \<and> p_submit r = Validated tes_success
         \<and> x_tx_hash x = sent"
  using assms
proof (cases rule: send_from_treasuryE)
  case (1 e)
  then show thesis using raised by blast
next
  case (2 i)
  then have db: "d' = d \<or> (\<exists>st. d' = snd (cb st d))"
    by (auto simp: submit_def split: sign_outcome.splits prod.splits option.splits) (metis snd_conv)+
  from 2 show thesis
  proof (cases rule: submitE)
    case (raised e)
    with db show ?thesis using that(1) by blast
  next
    case (refused msg)
    with db show ?thesis using that(2) by (simp add: resolution_of_def)
  next
    case (sent h l st1)
    show ?thesis
    proof (cases res)
      case (Inl e)
      with db show ?thesis using that(1) by blast
    next
      case (Inr x)
      with sent(3) have x: "submitted_result (p_submit r) h = Inr x" by simp
      show ?thesis
        using that(2) [OF Inr db] sent(2) submitted_result_eq(1) [OF x] submitted_result_resolution(2) [OF x] by simp
    qed
  qed
qed

lemma pay_under_lock_ok:
  assumes "pay_under_lock derive s now g txn d = (res, d', sent)" and "undisturbed g"
    and "in_processing i d"
  shows "wallets d' = wallets d \<and> in_processing i d'
    \<and> (\<forall>x. res = Inr x \<longrightarrow> resolution_of x = Succeeded
         \<longrightarrow> sent \<noteq> None \<and> p_submit (g_payment g) = Validated tes_success \<and> x_tx_hash x = sent)"
proof (cases "g_lock_enter g")
  case None
  let ?cb = "remember_signed now (g_persist g) (t_id txn)"
  obtain res1 where
    run: "send_from_treasury derive s (g_payment g) (t_uctusd_amount txn) None (Some ?cb) d = (res1, d', sent)"
    and res: "res = (case g_lock_exit g of Some e \<Rightarrow> Inl e | None \<Rightarrow> res1)"
    using assms(1,2) None by (auto simp: pay_under_lock_def undisturbed_def split: prod.splits)
  from run show ?thesis
  proof (cases rule: send_resultE)
    case (raised e)
    with assms(3) res show ?thesis
      by (auto simp: frame_simps intro: remember_keeps split: option.splits)
  next
    case (returned x)
    with assms(3) res show ?thesis
      by (auto simp: frame_simps intro: remember_keeps split: option.splits)
  qed
qed (use assms in \<open>auto simp: pay_under_lock_def undisturbed_def\<close>)

lemma after_result_balance:
  assumes "after_result now rq txn (Some w) r d = (res, d')" and "balances_ok d"
    and "recipient_wallet d txn = Some w" and "in_processing (t_id txn) d"
    and "column_value 20 6 (t_uctusd_amount txn)" and "t_uctusd_amount txn \<noteq> 0"
  shows "balance_of d' uid = balance_of d uid
      + (if res = Inr Completed \<and> t_recipient_user_id txn = Some uid then t_uctusd_amount txn else 0)
    \<and> (res = Inr Completed \<longrightarrow> resolution_of r = Succeeded)"
proof (cases "resolution_of r")
  case Succeeded
  show ?thesis
  proof (cases "complete_settlement now (Some w) d txn (or_else (x_tx_hash r) []) {Settle_processing}")
    case (Pair b d1)
    show ?thesis
    proof (cases b)
      case (Inl e)
      then have "d1 = d" using Pair
        by (auto simp: complete_settlement_def Let_def split: option.splits)
      with assms(1) Succeeded Pair Inl show ?thesis by (auto simp: after_result_def)
    next
      case (Inr c)
      have "c" using Pair Inr assms(4)
        by (auto simp: complete_settlement_def in_processing_returning Let_def split: option.splits)
      with Pair Inr have run: "complete_settlement now (Some w) d txn (or_else (x_tx_hash r) []) {Settle_processing}
          = (Inr True, d1)" by simp
      have col: "column_value 20 6 (w_balance_uctusd w)"
        using assms(2,3) by (auto simp: balances_ok_def recipient_wallet_def get_wallet_for_user_def
            dest!: by_key_Some split: option.splits)
      have eq: "res = Inr Completed" "d' = d1" using assms(1) Succeeded Pair Inr by (simp_all add: after_result_def)
      have own: "t_recipient_user_id txn = Some uid \<Longrightarrow> w_balance_uctusd w = balance_of d uid"
        using assms(3) by (simp add: recipient_wallet_def balance_of_def)
      show ?thesis
        using credit_balance [OF run _ assms(3), of w uid] assms(2,5,6) col own Succeeded
        by (auto simp: eq balances_ok_def)
    qed
  qed
next
  case Not_submitted
  then have "wallets d' = wallets d" "res \<noteq> Inr Completed"
    using assms(1) retry_or_fail_frame(1) [of now d txn "reason_of r" rq]
      retry_not_completed [of now d txn "reason_of r" rq]
    by (auto simp: after_result_def)
  then show ?thesis by (auto intro: balance_of_cong)
next
  case Unknown
  then show ?thesis using assms(1) by (auto simp: after_result_def frame_simps intro!: balance_of_cong)
next
  case Failed
  then show ?thesis using assms(1) by (auto simp: after_result_def frame_simps intro!: balance_of_cong)
qed

text \<open>An undisturbed attempt moves no balance, and with a result it holds the recipient's wallet.\<close>

lemma attempt_ok:
  assumes "attempt_payment derive s now i g txn u d = (res, d', sent, loaded)" and "undisturbed g"
    and "balances_ok d" and "in_processing (t_id txn) d" and "t_recipient_user_id txn = Some (u_id u)"
  shows "balance_of d' = balance_of d
    \<and> (\<forall>r. res = Inr r \<longrightarrow> balances_ok d' \<and> in_processing (t_id txn) d' \<and> recipient_wallet d' txn = loaded
        \<and> loaded \<noteq> None \<and> (resolution_of r = Succeeded \<longrightarrow> sent \<noteq> None \<and> p_submit (g_payment g) = Validated tes_success))"
proof -
  obtain rw dw where prov: "provision_wallet now i (g_faucet g) (g_trust g) (\<lambda>d. d) (\<lambda>d. d) d u = (rw, dw)"
    by fastforce
  note pw = provision_wallet_ok [OF prov assms(3)]
  have att: "(res, d', sent, loaded) = (case rw of
      Inl e \<Rightarrow> (Inl e, dw, None, None)
    | Inr w \<Rightarrow> if \<not> w_trust_set_complete w
        then (Inl (Raised ''TransientSettlementError'' ''trust line to the issuer is not set yet''), dw, None, Some w)
        else (case pay_under_lock derive s now g txn dw of (res, d, sent) \<Rightarrow> (res, d, sent, Some w)))"
    using assms(1,2) prov by (simp add: attempt_payment_def undisturbed_def split: sum.splits)
  show ?thesis
  proof (cases "\<exists>w. rw = Inr w \<and> w_trust_set_complete w")
    case False
    with att have "d' = dw" "\<And>r. res \<noteq> Inr r" by (cases rw; auto split: if_splits)+
    with pw show ?thesis by blast
  next
    case True
    then obtain w where w: "rw = Inr w" "w_trust_set_complete w" by blast
    with att have pay: "pay_under_lock derive s now g txn dw = (res, d', sent)" and ld: "loaded = Some w"
      by (auto split: prod.splits)
    have "in_processing (t_id txn) dw" using assms(4) pw by (simp add: in_processing_def)
    note pl = pay_under_lock_ok [OF pay assms(2) this]
    have "balance_of d' = balance_of d" using pw pl by (intro ext) (metis balance_of_cong)
    moreover have "recipient_wallet d' txn = Some w"
      using pw w(1) pl by (simp add: recipient_wallet_def assms(5) get_wallet_for_user_def)
    ultimately show ?thesis using pw pl ld by (simp add: balances_ok_def)
  qed
qed

text \<open>The end of a job after its payment attempt: the amount is credited exactly when it reports completion.\<close>

lemma finish_credits:
  assumes "attempt_payment derive s now i g txn u d = (res1, d1, sent, loaded)" and "undisturbed g" and "balances_ok d"
    and "in_processing (t_id txn) d" and "t_recipient_user_id txn = Some (u_id u)"
    and "column_value 20 6 (t_uctusd_amount txn)" and "t_uctusd_amount txn \<noteq> 0"
    and "(res, d') = (case res1 of Inl e \<Rightarrow> after_exception now g rq txn sent e d1 | Inr r \<Rightarrow> after_result now rq txn loaded r d1)"
  shows "balance_of d' uid = balance_of d uid
      + (if res = Inr Completed \<and> t_recipient_user_id txn = Some uid then t_uctusd_amount txn else 0)
    \<and> (res = Inr Completed \<longrightarrow> sent \<noteq> None \<and> p_submit (g_payment g) = Validated tes_success)"
proof -
  note ok = attempt_ok [OF assms(1-5)]
  show ?thesis
  proof (cases res1)
    case (Inl e)
    then have "wallets d' = wallets d1" "res \<noteq> Inr Completed"
      using assms(8) after_exception_frame [of now g rq txn sent e d1] by (auto simp: prod_eq_iff)
    moreover from this(1) have "balance_of d' uid = balance_of d1 uid" by (rule balance_of_cong)
    ultimately show ?thesis using ok by simp
  next
    case (Inr r)
    with ok obtain w where w: "loaded = Some w" "recipient_wallet d1 txn = Some w" by auto
    have ar: "after_result now rq txn (Some w) r d1 = (res, d')" using assms(8) Inr w(1) by simp
    have ok1: "balances_ok d1" using ok Inr by blast
    show ?thesis using after_result_balance [OF ar ok1 w(2) _ assms(6,7), of uid] ok Inr by auto
  qed
qed


lemma example_sum: "\<exists>v. dec_add 10 50.874404 = v \<and> store_numeric 20 6 v = Some v"
proof -
  have "store_numeric 20 6 (dec_add 10 50.874404) = Some (dec_add 10 50.874404)" by code_simp
  then show ?thesis by blast
qed

lemma settle_db_ok: "balances_ok settle_db"
  using example_amount_ok(3) by (simp add: balances_ok_def settle_db_def unique_wallets_def example_wallet_def)

lemma example_claim: "returning (claim_guard 51) (transactions settle_db) = Some example_txn"
  by (simp add: returning_def settle_db_def claim_guard_def example_txn_def)

lemma settle_user: "by_key u_id 11 (users settle_db) = Some example_recipient"
  by (simp add: settle_db_def people_example_def by_key_def platform_admin_def example_sender_def example_recipient_def)

lemma settle_wallet: "get_wallet_for_user settle_db 11 = Some example_wallet"
  by (simp add: get_wallet_for_user_def by_key_def settle_db_def example_wallet_def)

text \<open>The example run completes: its whole path, evaluated.\<close>

lemma example_settles:
  "\<exists>d'. process_settlement derive_platform example_settings 5 70 paying_run (\<lambda>_ _ _. None) settle_db 51
    = (Inr Completed, d', Some ''P1'')"
proof -
  let ?txn = "claim_values 5 example_txn"
  obtain d1 where cl: "claim 5 settle_db 51 = (Some ?txn, d1)" and sn: "d1 = snd (claim 5 settle_db 51)"
    by (simp add: claim_def example_claim)
  have fr: "users d1 = users settle_db" "wallets d1 = wallets settle_db" by (simp_all add: sn frame_simps)
  then have w1: "get_wallet_for_user d1 11 = Some example_wallet"
    using settle_wallet by (simp add: get_wallet_for_user_def)
  have rid: "t_recipient_user_id ?txn = Some 11" by (simp add: claim_values_def example_txn_def)
  have prov: "provision_wallet 5 70 (g_faucet paying_run) (g_trust paying_run) (g_during_faucet paying_run)
      (g_during_trust paying_run) d1 example_recipient = (Inr example_wallet, d1)"
    using w1 by (simp add: provision_wallet_def ensure_trust_line_def example_wallet_def example_recipient_def)
  let ?r = "\<lparr>x_success = True, x_result_code = tes_success, x_tx_hash = Some ''P1'', x_message = [],
           x_outcome = Some Succeeded\<rparr>"
  let ?d2 = "d1\<lparr>transactions := update_where (\<lambda>t. t_id t = 50) (signed_values 5
          \<lparr>s_tx_hash = ''P1'', s_last_ledger_sequence = Some 120, s_submitted_ledger_index = Some 100\<rparr>)
          (transactions d1)\<rparr>"
  have att: "attempt_payment derive_platform example_settings 5 70 paying_run ?txn example_recipient d1
      = (Inr ?r, ?d2, Some ''P1'', Some example_wallet)"
    using prov example_pay [of 5 5 d1]
    by (simp add: attempt_payment_def) (simp add: example_wallet_def)
  have "in_processing (t_id ?txn) ?d2"
    by (simp add: in_processing_def sn claim_def example_claim settle_db_def update_where_def claim_guard_def
        settle_guard_def example_txn_def claim_values_def signed_values_def)
  then have pr: "returning (settle_guard (t_id ?txn) {Settle_processing}) (transactions ?d2) \<noteq> None"
    by (simp only: in_processing_returning not_False_eq_True)
  have rw: "recipient_wallet ?d2 ?txn = Some example_wallet"
    using w1 by (simp add: recipient_wallet_def rid get_wallet_for_user_def)
  have am: "t_uctusd_amount ?txn = 50.874404" "w_balance_uctusd example_wallet = 10"
    by (simp_all add: claim_values_def example_txn_def example_wallet_def)
  obtain v where sum: "dec_add 10 50.874404 = v" "store_numeric 20 6 v = Some v"
    using example_sum by blast
  note sum = sum [simplified]
  have "\<exists>d'. complete_settlement 5 (Some example_wallet) ?d2 ?txn ''P1'' {Settle_processing} = (Inr True, d')"
    using pr by (auto simp: complete_settlement_def Let_def rw for_update_def write_balance_def am sum)
  then obtain d' where "complete_settlement 5 (Some example_wallet) ?d2 ?txn ''P1'' {Settle_processing} = (Inr True, d')" ..
  then have "after_result 5 (\<lambda>_ _ _. None) ?txn (Some example_wallet) ?r ?d2 = (Inr Completed, d')"
    by (simp add: after_result_def resolution_of_def)
  then show ?thesis
    using cl att rid fr(1) settle_user
    by (simp add: process_settlement_def paying_run_def [THEN arg_cong, of g_during_send] Let_def)
qed


text \<open>
  Settling is once (FR-MQ-04): after a settlement has been completed, completing or failing it
  again from the same state, by a redelivery, an admin's reconcile or a slow worker, changes nothing.
\<close>

theorem settlement_final:
  assumes "complete_settlement now loaded d txn h {Settle_processing} = (Inr True, d')"
  shows "complete_settlement now2 loaded2 d' txn h2 {Settle_processing} = (Inr False, d')
    \<and> fail_settlement now2 d' txn why h2' {Settle_processing} = (False, d')"
proof -
  from assms obtain ws where "transactions d'
      = update_where (settle_guard (t_id txn) {Settle_processing}) (completed_values now h) (transactions d)"
    by (rule complete_settlementE)
  then have "returning (settle_guard (t_id txn) {Settle_processing}) (transactions d') = None"
    by (simp add: settle_complete.no_match_after)
  then show ?thesis by (simp add: complete_settlement_def fail_settlement_def)
qed

definition processing_db :: db where
  "processing_db = settle_db\<lparr>transactions := [example_txn\<lparr>t_settlement_status := Settle_processing\<rparr>]\<rparr>"

lemma example_completes:
  assumes "for_update loaded (Some row) = Some w" and "w_balance_uctusd w = 10" and "w_user_id row = 11"
  shows "\<exists>d'. complete_settlement 6 loaded (processing_db\<lparr>wallets := [row]\<rparr>) example_txn ''P1'' {Settle_processing}
    = (Inr True, d')"
proof -
  let ?d = "processing_db\<lparr>wallets := [row]\<rparr>"
  obtain v where sum: "dec_add 10 50.874404 = v" "store_numeric 20 6 v = Some v"
    using example_sum by blast
  note sum = sum [simplified]
  have rw: "recipient_wallet ?d example_txn = Some row"
    using assms(3) by (simp add: recipient_wallet_def get_wallet_for_user_def by_key_def example_txn_def)
  have am: "t_uctusd_amount example_txn = 50.874404" by (simp add: example_txn_def)
  have ret: "returning (settle_guard (t_id example_txn) {Settle_processing}) (transactions ?d) \<noteq> None"
    by (simp add: processing_db_def returning_def settle_guard_def example_txn_def)
  then show ?thesis
    by (auto simp: complete_settlement_def rw assms(1,2) write_balance_def am sum Let_def)
qed

theorem settlement_final_witness:
  "\<exists>d'. complete_settlement 6 None (processing_db\<lparr>wallets := [example_wallet]\<rparr>) example_txn ''P1'' {Settle_processing}
      = (Inr True, d')
    \<and> complete_settlement 7 None d' example_txn ''P1'' {Settle_processing} = (Inr False, d')"
proof -
  obtain d' where "complete_settlement 6 None (processing_db\<lparr>wallets := [example_wallet]\<rparr>) example_txn ''P1''
      {Settle_processing} = (Inr True, d')"
    using example_completes [of None example_wallet example_wallet]
    by (auto simp: for_update_def example_wallet_def)
  with settlement_final [OF this] show ?thesis by blast
qed

text \<open>
  The lock alone does not make a credit safe. The balance written at completion is computed from
  the wallet instance the job loaded before it waited for the lock and the ledger, not from the
  locked row: a credit or a debit that another session committed meanwhile is overwritten, whatever
  the row held (\<open>with_for_update()\<close> without \<open>populate_existing\<close> keeps loaded attributes).
\<close>

theorem stale_credit_overwrites:
  assumes "complete_settlement now (Some w) d txn h F = (Inr True, d')"
    and "unique_wallets (wallets d)" and "recipient_wallet d txn = Some row" and "w_id w = w_id row"
    and "column_value 20 6 (w_balance_uctusd w)" and "column_value 20 6 (t_uctusd_amount txn)"
    and "t_uctusd_amount txn \<noteq> 0" and "t_recipient_user_id txn = Some uid"
  shows "balance_of d' uid = w_balance_uctusd w + t_uctusd_amount txn
    \<and> (balance_of d' uid = balance_of d uid + t_uctusd_amount txn \<longleftrightarrow> w_balance_uctusd w = w_balance_uctusd row)"
proof -
  have "balance_of d' uid = w_balance_uctusd w + t_uctusd_amount txn"
    using credit_balance [OF assms(1-3), of w uid] assms(4-8) by simp
  moreover have "balance_of d uid = w_balance_uctusd row"
    using assms(3,8) by (simp add: balance_of_def recipient_wallet_def)
  ultimately show ?thesis by simp
qed

text \<open>
  Two settlements of 50.874404 to the same recipient: the second job loaded the wallet at 10 and
  completes after the first one made it 60.874404; the recipient ends with 60.874404, not 111.748808.
\<close>

theorem stale_credit_overwrites_witness:
  "\<exists>d'. complete_settlement 6 (Some example_wallet)
      (processing_db\<lparr>wallets := [example_wallet\<lparr>w_balance_uctusd := 60.874404\<rparr>]\<rparr>)
      example_txn ''P1'' {Settle_processing} = (Inr True, d')
    \<and> balance_of d' 11 = 60.874404"
proof -
  let ?row = "example_wallet\<lparr>w_balance_uctusd := 60.874404\<rparr>"
  let ?d = "processing_db\<lparr>wallets := [?row]\<rparr>"
  obtain d' where run: "complete_settlement 6 (Some example_wallet) ?d example_txn ''P1'' {Settle_processing} = (Inr True, d')"
    using example_completes [of "Some example_wallet" ?row example_wallet]
    by (auto simp: for_update_def example_wallet_def)
  have "recipient_wallet ?d example_txn = Some ?row"
    by (simp add: recipient_wallet_def get_wallet_for_user_def by_key_def example_wallet_def example_txn_def)
  from stale_credit_overwrites [OF run _ this, of 11] example_amount_ok(2,3) run show ?thesis
    by (auto simp: unique_wallets_def example_wallet_def example_txn_def)
qed

end
