(* ===== verification/Burn.thy ===== *)
theory Burn
  imports Settlement
begin

text \<open>
  The burn worker, \<open>app/workers/cashout_worker.py\<close>: settlement in reverse. An approved cash-out
  (already debited) is claimed, signed, burned on the ledger and completed; it is restored only
  when the tokens provably did not move, and held when nobody knows.
\<close>

section \<open>Transitions\<close>

definition burn_max_attempts :: int where
  "burn_max_attempts = 3"

definition burn_retry_delays :: "int list" where
  "burn_retry_delays = [10, 30, 60]"

definition stuck_after :: duration where
  "stuck_after = minutes 10"

text \<open>Any payout reference: \<open>SIMPAY-\<close> and the first 12 hexadecimal digits of the id.\<close>

definition payout_reference :: "cashout_request \<Rightarrow> string" where
  "payout_reference c = ''SIMPAY-'' @ upper (take 12 (uuid_hex (c_id c)))"

definition burn_claim_guard :: "instant \<Rightarrow> uuid \<Rightarrow> cashout_request \<Rightarrow> bool" where
  "burn_claim_guard now key c \<longleftrightarrow> c_idempotency_key c = key \<and> c_status c = Out_approved
     \<and> c_burn_tx_hash c = None
     \<and> (case c_burn_started_at c of None \<Rightarrow> True | Some t \<Rightarrow> t < now - stuck_after)"

definition burn_claim_values :: "instant \<Rightarrow> cashout_request \<Rightarrow> cashout_request" where
  "burn_claim_values now c =
     c\<lparr>c_burn_started_at := Some now, c_burn_attempts := c_burn_attempts c + 1, c_updated_at := now\<rparr>"

definition claim_burn :: "instant \<Rightarrow> db \<Rightarrow> uuid \<Rightarrow> cashout_request option \<times> db" where
  "claim_burn now d key =
     (map_option (burn_claim_values now) (returning (burn_claim_guard now key) (cashouts d)),
      d\<lparr>cashouts := update_where (burn_claim_guard now key) (burn_claim_values now) (cashouts d)\<rparr>)"

text \<open>An ORM write by primary key; nothing to write when the loaded claim was already empty.\<close>

definition released_values :: "instant \<Rightarrow> cashout_request \<Rightarrow> cashout_request" where
  "released_values now c = c\<lparr>c_burn_started_at := None, c_updated_at := now\<rparr>"

definition release_claim :: "instant \<Rightarrow> db \<Rightarrow> cashout_request \<Rightarrow> db" where
  "release_claim now d req =
     (if c_burn_started_at req = None then d
      else d\<lparr>cashouts := update_where (\<lambda>c. c_id c = c_id req) (released_values now) (cashouts d)\<rparr>)"

definition out_guard :: "uuid \<Rightarrow> cashout_status set \<Rightarrow> cashout_request \<Rightarrow> bool" where
  "out_guard i from_statuses c \<longleftrightarrow> c_id c = i \<and> c_status c \<in> from_statuses"

definition burned_values :: "instant \<Rightarrow> string \<Rightarrow> string \<Rightarrow> cashout_request \<Rightarrow> cashout_request" where
  "burned_values now h reference c =
     c\<lparr>c_status := Out_completed, c_burn_tx_hash := Some h, c_failure_reason := None,
       c_completed_at := Some now, c_fiat_payout_reference := Some reference,
       c_fiat_paid_at := Some now, c_updated_at := now\<rparr>"

definition complete_burn ::
  "instant \<Rightarrow> db \<Rightarrow> cashout_request \<Rightarrow> string \<Rightarrow> cashout_status set \<Rightarrow> bool \<times> db" where
  "complete_burn now d req h from_statuses =
     (case returning (out_guard (c_id req) from_statuses) (cashouts d) of
        None \<Rightarrow> (False, d)
      | Some _ \<Rightarrow>
          (True, d\<lparr>cashouts := update_where (out_guard (c_id req) from_statuses)
                     (burned_values now h (payout_reference req)) (cashouts d)\<rparr>))"

definition out_failed_values :: "instant \<Rightarrow> string \<Rightarrow> string option \<Rightarrow> cashout_request \<Rightarrow> cashout_request" where
  "out_failed_values now why h c =
     c\<lparr>c_status := Out_failed, c_failure_reason := Some why, c_updated_at := now,
       c_burn_tx_hash := (if truthy h then h else c_burn_tx_hash c)\<rparr>"

text \<open>
  Status and restore commit together. The wallet is selected by id (\<open>scalar_one\<close>: a missing row
  raises and rolls back); \<open>loaded\<close> is the instance the session holds already, if any.
\<close>

definition fail_and_restore ::
  "instant \<Rightarrow> wallet option \<Rightarrow> db \<Rightarrow> cashout_request \<Rightarrow> string \<Rightarrow> string option \<Rightarrow> cashout_status set
     \<Rightarrow> (exn + bool) \<times> db" where
  "fail_and_restore now loaded d req why h from_statuses =
     (case returning (out_guard (c_id req) from_statuses) (cashouts d) of
        None \<Rightarrow> (Inr False, d)
      | Some _ \<Rightarrow>
          (case for_update loaded (by_key w_id (c_wallet_id req) (wallets d)) of
             None \<Rightarrow> (Inl NoResultFound, d)
           | Some w \<Rightarrow>
               (case write_balance now w (dec_add (w_balance_uctusd w) (c_uctusd_amount req)) (wallets d) of
                  None \<Rightarrow> (Inl DatabaseError, d)
                | Some ws \<Rightarrow>
                    (Inr True,
                     d\<lparr>cashouts := update_where (out_guard (c_id req) from_statuses)
                         (out_failed_values now why h) (cashouts d), wallets := ws\<rparr>))))"

definition unknown_prefix :: string where
  "unknown_prefix = ''outcome_unknown''"

definition held_values :: "instant \<Rightarrow> string \<Rightarrow> cashout_request \<Rightarrow> cashout_request" where
  "held_values now why c =
     c\<lparr>c_failure_reason := Some (unknown_prefix @ '': '' @ why), c_updated_at := now\<rparr>"

definition hold_unknown :: "instant \<Rightarrow> db \<Rightarrow> cashout_request \<Rightarrow> string \<Rightarrow> db" where
  "hold_unknown now d req why =
     d\<lparr>cashouts := update_where (out_guard (c_id req) {Out_approved}) (held_values now why) (cashouts d)\<rparr>"

text \<open>
  \<open>RETRY_DELAYS[min(attempts - 1, 2)]\<close>: a Python index, so an attempt count of 0 takes the last.
\<close>

definition burn_delay :: "int \<Rightarrow> int" where
  "burn_delay attempts =
     (let i = min (attempts - 1) 2
      in burn_retry_delays ! nat (if i < 0 then i + 3 else i))"

text \<open>\<open>await fail_and_restore(...); return "failed"\<close>\<close>

definition finish_failed :: "(exn + bool) \<times> db \<Rightarrow> (exn + worker_result) \<times> db" where
  "finish_failed r = (case r of (Inl e, d) \<Rightarrow> (Inl e, d) | (Inr _, d) \<Rightarrow> (Inr Job_failed, d))"

definition burn_retry_or_fail ::
  "instant \<Rightarrow> wallet option \<Rightarrow> db \<Rightarrow> cashout_request \<Rightarrow> string \<Rightarrow> (int \<Rightarrow> uuid \<Rightarrow> uuid \<Rightarrow> exn option)
     \<Rightarrow> (exn + worker_result) \<times> db" where
  "burn_retry_or_fail now loaded d req why requeue =
     (if burn_max_attempts \<le> c_burn_attempts req
      then finish_failed (fail_and_restore now loaded d req (''retries_exhausted: '' @ why) None {Out_approved})
      else
        (case requeue (burn_delay (c_burn_attempts req)) (c_idempotency_key req) (c_id req) of
           Some e \<Rightarrow> Inl e | None \<Rightarrow> Inr Requeued,
         release_claim now d req))"

section \<open>The job\<close>

text \<open>What one job meets: the payment, the commit of the hash, and other sessions while it waits.\<close>

record burn_run =
  h_payment :: payment_run
  h_persist :: "exn option"
  h_session_lost :: "exn option"
  h_before_sign :: "db \<Rightarrow> db"
  h_during_send :: "db \<Rightarrow> db"

definition burn_signed_values :: "instant \<Rightarrow> signed_tx \<Rightarrow> cashout_request \<Rightarrow> cashout_request" where
  "burn_signed_values now st c =
     c\<lparr>c_burn_tx_hash := Some (s_tx_hash st), c_burn_last_ledger_sequence := s_last_ledger_sequence st,
       c_burn_submitted_ledger_index := s_submitted_ledger_index st, c_updated_at := now\<rparr>"

definition remember_burn :: "instant \<Rightarrow> exn option \<Rightarrow> uuid \<Rightarrow> signed_tx \<Rightarrow> db callback" where
  "remember_burn now persist i st d =
     (case persist of
        Some e \<Rightarrow> (Some e, d)
      | None \<Rightarrow> (None, d\<lparr>cashouts :=
                   update_where (\<lambda>c. c_id c = i) (burn_signed_values now st) (cashouts d)\<rparr>))"

definition burn_exception ::
  "instant \<Rightarrow> burn_run \<Rightarrow> (int \<Rightarrow> uuid \<Rightarrow> uuid \<Rightarrow> exn option) \<Rightarrow> cashout_request \<Rightarrow> wallet \<Rightarrow> string option
     \<Rightarrow> exn \<Rightarrow> db \<Rightarrow> (exn + worker_result) \<times> db" where
  "burn_exception now g requeue req w sent e d =
     (case h_session_lost g of
        Some e' \<Rightarrow> (Inl e', d)
      | None \<Rightarrow>
          (case (e, sent) of
             (InvalidAmountError m, _) \<Rightarrow>
               finish_failed (fail_and_restore now (Some w) d req (''invalid_amount: '' @ m) None {Out_approved})
           | (_, Some _) \<Rightarrow> (Inr Outcome_unknown, hold_unknown now d req (exn_name e @ '' after signing''))
           | (_, None) \<Rightarrow> burn_retry_or_fail now (Some w) d req (described e) requeue))"

definition burn_result ::
  "instant \<Rightarrow> (int \<Rightarrow> uuid \<Rightarrow> uuid \<Rightarrow> exn option) \<Rightarrow> cashout_request \<Rightarrow> wallet \<Rightarrow> xrpl_result \<Rightarrow> db
     \<Rightarrow> (exn + worker_result) \<times> db" where
  "burn_result now requeue req w r d =
     (case resolution_of r of
        Succeeded \<Rightarrow>
          (Inr Completed, snd (complete_burn now d req (or_else (x_tx_hash r) []) {Out_approved}))
      | Not_submitted \<Rightarrow> burn_retry_or_fail now (Some w) d req (reason_of r) requeue
      | Unknown \<Rightarrow> (Inr Outcome_unknown, hold_unknown now d req (reason_of r))
      | Failed \<Rightarrow>
          finish_failed (fail_and_restore now (Some w) d req (reason_of r) (x_tx_hash r) {Out_approved}))"

definition process_burn ::
  "settings \<Rightarrow> instant \<Rightarrow> burn_run \<Rightarrow> (int \<Rightarrow> uuid \<Rightarrow> uuid \<Rightarrow> exn option) \<Rightarrow> db \<Rightarrow> uuid
     \<Rightarrow> (exn + worker_result) \<times> db \<times> string option" where
  "process_burn s now g requeue d key =
     (case claim_burn now d key of
        (None, d) \<Rightarrow> (Inr Skipped, d, None)
      | (Some req, d) \<Rightarrow>
          (case by_key w_id (c_wallet_id req) (wallets d) of
             None \<Rightarrow>
               (let done = finish_failed (fail_and_restore now None d req
                      ''wallet_missing: no XRPL wallet to burn from'' None {Out_approved})
                in (fst done, snd done, None))
           | Some w \<Rightarrow>
               (case burn_to_issuer s (h_payment g) (c_uctusd_amount req)
                       (Some (remember_burn now (h_persist g) (c_id req))) (h_before_sign g d) of
                  (res, d, sent) \<Rightarrow>
                    (let d = h_during_send g d;
                         done = (case res of
                                   Inl e \<Rightarrow> burn_exception now g requeue req w sent e d
                                 | Inr r \<Rightarrow> burn_result now requeue req w r d)
                     in (fst done, snd done, sent)))))"

section \<open>The transitions as guarded changes\<close>

interpretation burn_done: guarded_change c_id "burned_values now h reference" "out_guard i {Out_approved}"
  for now h reference i
  by unfold_locales (simp_all add: burned_values_def out_guard_def)

interpretation burn_failed: guarded_change c_id "out_failed_values now why h" "out_guard i {Out_approved}"
  for now why h i
  by unfold_locales (simp_all add: out_failed_values_def out_guard_def)

interpretation burn_claimed: row_change c_id "burn_claim_values now" for now
  by unfold_locales (simp add: burn_claim_values_def)

interpretation burn_released: row_change c_id "released_values now" for now
  by unfold_locales (simp add: released_values_def)

interpretation burn_held: row_change c_id "held_values now why" for now why
  by unfold_locales (simp add: held_values_def)

interpretation burn_signed: row_change c_id "burn_signed_values now st" for now st
  by unfold_locales (simp add: burn_signed_values_def)

section \<open>Frames\<close>

lemma claim_burn_frame [frame_simps]:
  "wallets (snd (claim_burn now d key)) = wallets d" "transactions (snd (claim_burn now d key)) = transactions d"
  by (simp_all add: claim_burn_def)

lemma complete_burn_frame [frame_simps]:
  "wallets (snd (complete_burn now d c h F)) = wallets d"
  "transactions (snd (complete_burn now d c h F)) = transactions d"
  by (simp_all add: complete_burn_def split: option.splits)

lemma hold_unknown_frame [frame_simps]:
  "wallets (hold_unknown now d c why) = wallets d" "transactions (hold_unknown now d c why) = transactions d"
  by (simp_all add: hold_unknown_def)

lemma release_claim_frame [frame_simps]:
  "wallets (release_claim now d c) = wallets d" "transactions (release_claim now d c) = transactions d"
  by (simp_all add: release_claim_def)

lemma remember_burn_frame [frame_simps]:
  "wallets (snd (remember_burn now p i st d)) = wallets d"
  "transactions (snd (remember_burn now p i st d)) = transactions d"
  by (simp_all add: remember_burn_def split: option.splits)

lemma fail_and_restoreE:
  assumes "fail_and_restore now loaded d req why h F = (Inr True, d')"
  obtains c w ws where "returning (out_guard (c_id req) F) (cashouts d) = Some c"
    "for_update loaded (by_key w_id (c_wallet_id req) (wallets d)) = Some w"
    "write_balance now w (dec_add (w_balance_uctusd w) (c_uctusd_amount req)) (wallets d) = Some ws"
    "wallets d' = ws" "transactions d' = transactions d"
    "cashouts d' = update_where (out_guard (c_id req) F) (out_failed_values now why h) (cashouts d)"
  using assms that unfolding fail_and_restore_def by (auto split: option.splits)

lemma fail_and_restore_noop:
  "fail_and_restore now loaded d req why h F = (r, d') \<Longrightarrow> r \<noteq> Inr True \<Longrightarrow> d' = d"
  by (auto simp: fail_and_restore_def split: option.splits)

text \<open>The restore, from the instance the session works on.\<close>

lemma restore_balance:
  assumes "fail_and_restore now (Some w) d req why h F = (Inr True, d')"
    and "unique_wallets (wallets d)" and "by_key w_id (c_wallet_id req) (wallets d) = Some row" and "w_id w = w_id row"
    and "column_value 20 6 (w_balance_uctusd w)" and "column_value 20 6 (c_uctusd_amount req)"
    and "c_uctusd_amount req \<noteq> 0"
  shows "balance_of d' uid = (if w_user_id row = uid then w_balance_uctusd w + c_uctusd_amount req else balance_of d uid)"
proof -
  have fu: "for_update (Some w) (Some row) = Some w" using assms(4) by (simp add: for_update_def)
  from assms(1) obtain ws where
    "write_balance now w (dec_add (w_balance_uctusd w) (c_uctusd_amount req)) (wallets d) = Some ws" "wallets d' = ws"
    by (rule fail_and_restoreE) (simp add: assms(3) fu)
  from write_balance_of [OF this assms(2) _ assms(4-7)] show ?thesis
    using by_key_Some [OF assms(3)] by simp
qed

section \<open>Rows that were signed for\<close>

text \<open>Every row of an idempotency key carries a burn hash.\<close>

definition signed_rows :: "uuid \<Rightarrow> db \<Rightarrow> bool" where
  "signed_rows key d \<longleftrightarrow> (\<forall>c\<in>set (cashouts d). c_idempotency_key c = key \<longrightarrow> c_burn_tx_hash c \<noteq> None)"

lemma signed_rows_update:
  assumes "signed_rows key d" and "cashouts d' = update_where P f (cashouts d)"
    and "\<And>c. c_idempotency_key (f c) = c_idempotency_key c"
    and "\<And>c. c_burn_tx_hash c \<noteq> None \<Longrightarrow> c_burn_tx_hash (f c) \<noteq> None"
  shows "signed_rows key d'"
  using assms by (auto simp: signed_rows_def in_update_where)

lemma truthy_None [simp]: "\<not> truthy None"
  by (simp add: truthy_def)

lemma signed_rows_stay:
  assumes "signed_rows key d"
  shows "signed_rows key (snd (complete_burn now d c h F))"
    "signed_rows key (snd (fail_and_restore now l d c why h' F))"
    "signed_rows key (hold_unknown now d c why)" "signed_rows key (release_claim now d c)"
proof -
  show "signed_rows key (snd (complete_burn now d c h F))"
    using assms by (auto simp: complete_burn_def burned_values_def intro: signed_rows_update split: option.splits)
  show "signed_rows key (snd (fail_and_restore now l d c why h' F))"
    using assms by (auto simp: fail_and_restore_def out_failed_values_def truthy_def intro: signed_rows_update split: option.splits)
  show "signed_rows key (hold_unknown now d c why)"
    by (rule signed_rows_update [OF assms, of _ "out_guard (c_id c) {Out_approved}" "held_values now why"])
      (simp_all add: hold_unknown_def held_values_def)
  show "signed_rows key (release_claim now d c)"
  proof (cases "c_burn_started_at c")
    case (Some x)
    then show ?thesis
      by (intro signed_rows_update [OF assms, of _ "\<lambda>r. c_id r = c_id c" "released_values now"])
        (simp_all add: release_claim_def released_values_def)
  qed (use assms in \<open>simp add: release_claim_def\<close>)
qed

lemma signed_rows_skip:
  assumes "signed_rows key d"
  shows "process_burn s now g rq d key = (Inr Skipped, d, None)"
proof -
  have "returning (burn_claim_guard now key) (cashouts d) = None"
    using assms by (auto simp: returning_def find_None_all burn_claim_guard_def signed_rows_def)
  then show ?thesis by (simp add: process_burn_def claim_burn_def returning_None_noop)
qed

lemma finish_failed_db: "snd (finish_failed r) = snd r"
  by (auto simp: finish_failed_def split: prod.splits sum.splits)

lemma burn_retry_signed:
  "signed_rows key d \<Longrightarrow> signed_rows key (snd (burn_retry_or_fail now l d c why rq))"
  by (simp add: burn_retry_or_fail_def finish_failed_db signed_rows_stay)

lemma burn_exception_signed:
  assumes "signed_rows key d"
  shows "signed_rows key (snd (burn_exception now g rq c w sent e d))"
proof (cases "h_session_lost g")
  case None
  then show ?thesis
    by (cases e; cases sent)
      (simp_all add: burn_exception_def finish_failed_db signed_rows_stay [OF assms] burn_retry_signed [OF assms])
qed (simp add: burn_exception_def assms)

lemma burn_result_signed:
  assumes "signed_rows key d"
  shows "signed_rows key (snd (burn_result now rq c w r d))"
  by (cases "resolution_of r")
    (simp_all add: burn_result_def finish_failed_db signed_rows_stay [OF assms] burn_retry_signed [OF assms])

lemma burn_sentE:
  assumes "burn_to_issuer s r a (Some (remember_burn now p i)) d = (res, d', Some h)"
  obtains l idx where "p_sign r = Signed h l" "p_latest r = Inr idx" "p = None"
    "cashouts d' = update_where (\<lambda>c. c_id c = i) (burn_signed_values now
       \<lparr>s_tx_hash = h, s_last_ledger_sequence = l, s_submitted_ledger_index = Some idx\<rparr>) (cashouts d)"
    "wallets d' = wallets d"
proof -
  let ?cb = "remember_burn now p i"
  from assms obtain n where idx: "read_index (Some ?cb) r = Inr n"
    and sub: "submit (p_sign r) None (Some ?cb) n (p_submit r) d = (res, d', Some h)"
    by (auto simp: burn_to_issuer_def split: sum.splits)
  from idx obtain m where m: "n = Some m" "p_latest r = Inr m" by (auto simp: read_index_def)
  from sub show thesis
  proof (cases rule: submitE)
    case (sent h' l st1)
    then have cb: "?cb \<lparr>s_tx_hash = h, s_last_ledger_sequence = l, s_submitted_ledger_index = n\<rparr> d = (None, d')"
      by simp
    then have p: "p = None" by (auto simp: remember_burn_def split: option.splits)
    with cb have "cashouts d' = update_where (\<lambda>c. c_id c = i) (burn_signed_values now
        \<lparr>s_tx_hash = h, s_last_ledger_sequence = l, s_submitted_ledger_index = n\<rparr>) (cashouts d)"
      "wallets d' = wallets d"
      by (auto simp: remember_burn_def)
    then show thesis using that [of l m] sent m p by simp
  qed simp_all
qed

section \<open>Properties of the burn\<close>

text \<open>
  C10. Tokens are never burned twice (FR-CO-05): once a job has handed a burn of this message to the
  network, any later delivery of the message, at any time and whatever became of the first job's
  outcome, is skipped without touching the database or the ledger. Other sessions may do anything
  in between that does not erase a hash.
\<close>

theorem burn_at_most_once:
  assumes "process_burn s now g rq d key = (res, d', Some h)"
    and "\<And>x. cashouts (h_before_sign g x) = cashouts x"
    and "\<And>x. signed_rows key x \<Longrightarrow> signed_rows key (h_during_send g x)"
    and "\<And>c c'. c \<in> set (cashouts d) \<Longrightarrow> c' \<in> set (cashouts d) \<Longrightarrow> c_idempotency_key c = key
          \<Longrightarrow> c_idempotency_key c' = key \<Longrightarrow> c_id c = c_id c'"
  shows "process_burn s' now' g' rq' d' key = (Inr Skipped, d', None)"
proof (rule signed_rows_skip)
  from assms(1) obtain c where c: "returning (burn_claim_guard now key) (cashouts d) = Some c"
    by (cases "returning (burn_claim_guard now key) (cashouts d)") (auto simp: process_burn_def claim_burn_def)
  let ?c = "burn_claim_values now c"
  obtain d1 where cl: "claim_burn now d key = (Some ?c, d1)"
    and d1: "cashouts d1 = update_where (burn_claim_guard now key) (burn_claim_values now) (cashouts d)"
    by (simp add: claim_burn_def c)
  from assms(1) obtain w where w: "by_key w_id (c_wallet_id ?c) (wallets d1) = Some w"
    by (cases "by_key w_id (c_wallet_id ?c) (wallets d1)") (auto simp: process_burn_def cl Let_def)
  obtain res1 d2 where run: "burn_to_issuer s (h_payment g) (c_uctusd_amount ?c)
      (Some (remember_burn now (h_persist g) (c_id ?c))) (h_before_sign g d1) = (res1, d2, Some h)"
    and d': "d' = snd (case res1 of Inl e \<Rightarrow> burn_exception now g rq ?c w (Some h) e (h_during_send g d2)
                        | Inr r \<Rightarrow> burn_result now rq ?c w r (h_during_send g d2))"
    using assms(1) by (auto simp: process_burn_def cl w Let_def split: prod.splits)
  from run obtain l idx where upd: "cashouts d2 = update_where (\<lambda>x. c_id x = c_id ?c) (burn_signed_values now
      \<lparr>s_tx_hash = h, s_last_ledger_sequence = l, s_submitted_ledger_index = Some idx\<rparr>) (cashouts d1)"
    by (rule burn_sentE) (simp add: assms(2))
  have mem: "c \<in> set (cashouts d)" "c_idempotency_key c = key"
    using returning_SomeD [OF c] by (auto simp: burn_claim_guard_def)
  have "signed_rows key d2"
    unfolding signed_rows_def
  proof (intro ballI impI)
    fix x assume x: "x \<in> set (cashouts d2)" "c_idempotency_key x = key"
    let ?sv = "burn_signed_values now
      \<lparr>s_tx_hash = h, s_last_ledger_sequence = l, s_submitted_ledger_index = Some idx\<rparr>"
    from x(1) obtain y where y: "y \<in> set (cashouts d1)" "x = (if c_id y = c_id ?c then ?sv y else y)"
      unfolding upd in_update_where by blast
    from y(1) obtain z where z: "z \<in> set (cashouts d)"
      "y = (if burn_claim_guard now key z then burn_claim_values now z else y)" "c_id y = c_id z"
      "c_idempotency_key y = c_idempotency_key z"
      unfolding d1 in_update_where by (auto simp: burn_claim_values_def)
    have "c_idempotency_key x = c_idempotency_key y" by (simp add: y(2) burn_signed_values_def)
    then have "c_id z = c_id c" using assms(4) [OF z(1) mem(1) _ mem(2)] z(4) x(2) by simp
    then show "c_burn_tx_hash x \<noteq> None"
      by (simp add: y(2) z(3) burn_claim_values_def) (simp add: burn_signed_values_def)
  qed
  then have "signed_rows key (h_during_send g d2)" by (rule assms(3))
  then show "signed_rows key d'"
    by (simp add: d' burn_exception_signed burn_result_signed split: sum.splits)
qed

section \<open>What a burn restores\<close>

lemma burn_resultE:
  assumes "burn_to_issuer s r a (Some (remember_burn now p i)) d = (res, d', sent)"
  obtains (raised) e where "res = Inl e" "wallets d' = wallets d" "sent \<noteq> None \<Longrightarrow> \<exists>n m. e = Raised n m"
  | (returned) x where "res = Inr x" "wallets d' = wallets d"
      "resolution_of x = Failed \<Longrightarrow> never_moved (p_submit r)" "resolution_of x = Not_submitted \<Longrightarrow> sent = None"
  using assms
proof (cases rule: burn_to_issuerE)
  case (1 e)
  then show thesis using raised by simp
next
  case (2 n)
  then have db: "wallets d' = wallets d" by (rule submit_frame [where f = wallets]) (simp add: frame_simps)
  from 2 show thesis
  proof (cases rule: submitE)
    case (raised e)
    with db show ?thesis using that(1) by simp
  next
    case (refused msg)
    with db show ?thesis using that(2) by (simp add: resolution_of_def)
  next
    case (sent h l st1)
    show ?thesis
    proof (cases res)
      case (Inl e)
      with sent(3) have "\<exists>n m. e = Raised n m" by (auto simp: submitted_result_def split: submit_outcome.splits)
      with Inl db show ?thesis by (intro that(1)) simp_all
    next
      case (Inr x)
      with sent(3) have x: "submitted_result (p_submit r) h = Inr x" by simp
      show ?thesis
        using that(2) [OF Inr db] submitted_result_resolution(1,3) [OF x] by simp
    qed
  qed
qed

text \<open>A balance is as before, or the wallet's owner has the amount back and \<open>P\<close> holds.\<close>

definition kept_or_restored :: "bool \<Rightarrow> wallet \<Rightarrow> dec \<Rightarrow> db \<Rightarrow> db \<Rightarrow> bool" where
  "kept_or_restored p w a d d' \<longleftrightarrow>
     (\<forall>uid. balance_of d' uid = balance_of d uid
       \<or> (w_user_id w = uid \<and> p \<and> balance_of d' uid = balance_of d uid + a))"

lemma kept_wallets: "wallets d' = wallets d \<Longrightarrow> kept_or_restored p w a d d'"
  by (auto simp: kept_or_restored_def intro: balance_of_cong)

lemma by_id_owner:
  assumes "unique_wallets (wallets d)" and "by_key w_id i (wallets d) = Some w"
  shows "balance_of d (w_user_id w) = w_balance_uctusd w"
proof -
  have "by_key w_user_id (w_user_id w) (wallets d) = Some w"
    using assms(1) by_key_Some [OF assms(2)] by (intro by_key_unique) (auto simp: unique_wallets_def)
  then show ?thesis by (simp add: balance_of_def get_wallet_for_user_def)
qed

lemma restore_kept:
  assumes "fail_and_restore now (Some w) d req why h F = (r, d')" and "balances_ok d"
    and "by_key w_id (c_wallet_id req) (wallets d) = Some w" and "column_value 20 6 (c_uctusd_amount req)"
    and "c_uctusd_amount req \<noteq> 0" and "p"
  shows "kept_or_restored p w (c_uctusd_amount req) d d'"
proof (cases "r = Inr True")
  case True
  have w: "unique_wallets (wallets d)" "column_value 20 6 (w_balance_uctusd w)"
    using assms(2) by_key_Some [OF assms(3)] by (auto simp: balances_ok_def)
  show ?thesis
    using restore_balance [OF assms(1) [unfolded True] w(1) assms(3) refl w(2) assms(4,5)] assms(6)
      by_id_owner [OF w(1) assms(3)]
    by (auto simp: kept_or_restored_def)
next
  case False
  with fail_and_restore_noop [OF assms(1)] show ?thesis by (simp add: kept_wallets)
qed

lemma retry_kept:
  assumes "balances_ok d" and "by_key w_id (c_wallet_id req) (wallets d) = Some w"
    and "column_value 20 6 (c_uctusd_amount req)" and "c_uctusd_amount req \<noteq> 0" and "p"
  shows "kept_or_restored p w (c_uctusd_amount req) d (snd (burn_retry_or_fail now (Some w) d req why rq))"
  using restore_kept [OF surjective_pairing assms]
  by (simp add: burn_retry_or_fail_def finish_failed_db kept_wallets frame_simps)

text \<open>Both ways a job ends keep the balances or restore the reserve, and restore only where that is allowed.\<close>

lemma burn_exception_kept:
  assumes "balances_ok d" and "by_key w_id (c_wallet_id req) (wallets d) = Some w" and "column_value 20 6 (c_uctusd_amount req)"
    and "c_uctusd_amount req \<noteq> 0" and "sent \<noteq> None \<Longrightarrow> \<exists>n m. e = Raised n m" and "sent = None \<Longrightarrow> p"
  shows "kept_or_restored p w (c_uctusd_amount req) d (snd (burn_exception now g rq req w sent e d))"
proof (cases "h_session_lost g = None \<and> sent = None")
  case True
  then show ?thesis
    using restore_kept [OF surjective_pairing assms(1-4)] retry_kept [OF assms(1-4)] assms(6)
    by (cases e) (simp_all add: burn_exception_def finish_failed_db)
next
  case False
  then consider "h_session_lost g \<noteq> None" | n m where "e = Raised n m" "sent \<noteq> None"
    using assms(5) by (cases "h_session_lost g") auto
  then show ?thesis
    by cases (auto simp: burn_exception_def frame_simps intro!: kept_wallets split: option.splits)
qed

lemma burn_result_kept:
  assumes "balances_ok d" and "by_key w_id (c_wallet_id req) (wallets d) = Some w" and "column_value 20 6 (c_uctusd_amount req)"
    and "c_uctusd_amount req \<noteq> 0" and "resolution_of x \<in> {Failed, Not_submitted} \<Longrightarrow> p"
  shows "kept_or_restored p w (c_uctusd_amount req) d (snd (burn_result now rq req w x d))"
  using assms(5) restore_kept [OF surjective_pairing assms(1-4)] retry_kept [OF assms(1-4)]
  by (cases "resolution_of x") (simp_all add: burn_result_def finish_failed_db frame_simps kept_wallets)

text \<open>
  C11. Reserved UCTUSD comes back only when the tokens provably did not leave (FR-CO-06): a job that
  nothing disturbs either leaves every balance as it is, or gives the wallet's owner back exactly
  the amount of the cash-out, and then nothing was submitted at all or the ledger's answer was a
  validated failure or a malformed rejection. A timeout, a lost response or an unknown error never
  restores.
\<close>

theorem burn_restores_only_dead:
  assumes "process_burn s now g rq d key = (res, d', sent)"
    and "returning (burn_claim_guard now key) (cashouts d) = Some c"
    and "by_key w_id (c_wallet_id c) (wallets d) = Some w"
    and "h_before_sign g = (\<lambda>x. x)" and "h_during_send g = (\<lambda>x. x)" and "balances_ok d"
    and "column_value 20 6 (c_uctusd_amount c)" and "c_uctusd_amount c \<noteq> 0"
  shows "balance_of d' uid = balance_of d uid
    \<or> (w_user_id w = uid \<and> (sent = None \<or> never_moved (p_submit (h_payment g)))
       \<and> balance_of d' uid = balance_of d uid + c_uctusd_amount c)"
proof -
  let ?c = "burn_claim_values now c" and ?p = "sent = None \<or> never_moved (p_submit (h_payment g))"
  have c: "c_wallet_id ?c = c_wallet_id c" "c_uctusd_amount ?c = c_uctusd_amount c" "c_id ?c = c_id c"
    by (simp_all add: burn_claim_values_def)
  obtain d1 where cl: "claim_burn now d key = (Some ?c, d1)" and w1: "wallets d1 = wallets d"
    by (simp add: claim_burn_def assms(2))
  obtain res1 d2 sent1 where run: "burn_to_issuer s (h_payment g) (c_uctusd_amount ?c)
      (Some (remember_burn now (h_persist g) (c_id ?c))) d1 = (res1, d2, sent1)"
    by (metis prod_cases3)
  have look: "by_key w_id (c_wallet_id ?c) (wallets d1) = Some w" by (simp add: w1 c assms(3))
  have fin: "sent1 = sent" "d' = snd (case res1 of Inl e \<Rightarrow> burn_exception now g rq ?c w sent e d2
                        | Inr r \<Rightarrow> burn_result now rq ?c w r d2)"
    using assms(1,4,5) run by (auto simp: process_burn_def cl look Let_def)
  note run = run [unfolded fin(1)]
  have w2: "wallets d2 = wallets d" using run w1 by (cases rule: burn_resultE) simp_all
  have ok: "balances_ok d2" and wc: "by_key w_id (c_wallet_id ?c) (wallets d2) = Some w"
    and am: "column_value 20 6 (c_uctusd_amount ?c)" "c_uctusd_amount ?c \<noteq> 0"
    using assms(6) look assms(7,8) by (simp_all add: balances_ok_def w2 w1 c)
  have "kept_or_restored ?p w (c_uctusd_amount ?c) d2 d'"
    using run
  proof (cases rule: burn_resultE)
    case (raised e)
    then show ?thesis using burn_exception_kept [OF ok wc am, of sent e ?p] by (simp add: fin(2))
  next
    case (returned x)
    then show ?thesis using burn_result_kept [OF ok wc am, of x ?p] by (auto simp: fin(2))
  qed
  moreover have "balance_of d2 = balance_of d" using w2 by (intro ext balance_of_cong)
  ultimately show ?thesis by (simp add: kept_or_restored_def c)
qed

text \<open>An approved cash-out of 5 UCTUSD whose burn times out with a preliminary success.\<close>

definition example_cashout :: cashout_request where
  "example_cashout = \<lparr>c_id = 80, c_recipient_user_id = 11, c_wallet_id = 60, c_uctusd_amount = 5,
     c_target_currency = ZAR, c_market_rate = 18.5, c_cashout_fee_percentage = 0.01,
     c_cashout_fee_min_usd = 1, c_cashout_fee_usd = 1, c_net_payout = 74, c_status = Out_approved,
     c_approved_by = Some 1, c_approved_at = Some 3, c_completed_at = None, c_failure_reason = None,
     c_idempotency_key = 81, c_burn_tx_hash = None, c_burn_last_ledger_sequence = None,
     c_burn_submitted_ledger_index = None, c_burn_started_at = None, c_burn_attempts = 0,
     c_fiat_payout_reference = None, c_fiat_paid_at = None, c_created_at = 2, c_updated_at = 3\<rparr>"

definition burn_db :: db where
  "burn_db = settle_db\<lparr>cashouts := [example_cashout]\<rparr>"

definition timeout_burn :: burn_run where
  "timeout_burn = \<lparr>h_payment = \<lparr>p_latest = Inr 100, p_prepare = Inr (), p_sign = Signed ''B1'' (Some 120),
       p_submit = Reliable_error timeout_text\<rparr>,
     h_persist = None, h_session_lost = None, h_before_sign = (\<lambda>x. x), h_during_send = (\<lambda>x. x)\<rparr>"

lemma example_burn_claim: "returning (burn_claim_guard now 81) (cashouts burn_db) = Some example_cashout"
  by (simp add: returning_def burn_db_def burn_claim_guard_def example_cashout_def)

lemma example_burn_amount: "quantize 6 5 = Inr 5" "column_value 20 6 5"
  by (code_simp, code_simp)

lemma example_burn_sent:
  "\<exists>res d'. process_burn example_settings 5 timeout_burn (\<lambda>_ _ _. None) burn_db 81 = (res, d', Some ''B1'')"
proof -
  have "by_key w_id 60 (wallets burn_db) = Some example_wallet"
    by (simp add: burn_db_def settle_db_def by_key_def example_wallet_def)
  then show ?thesis
    using example_burn_amount(1)
    by (simp add: process_burn_def claim_burn_def example_burn_claim burn_claim_values_def
        example_cashout_def burn_to_issuer_def read_index_def timeout_burn_def uctusd_def submit_def
        remember_burn_def split_beta Let_def)
qed

theorem burn_at_most_once_witness:
  "\<exists>res d'. process_burn example_settings 5 timeout_burn (\<lambda>_ _ _. None) burn_db 81 = (res, d', Some ''B1'')
    \<and> process_burn example_settings 900000000 timeout_burn (\<lambda>_ _ _. None) d' 81 = (Inr Skipped, d', None)"
proof -
  obtain res d' where run: "process_burn example_settings 5 timeout_burn (\<lambda>_ _ _. None) burn_db 81 = (res, d', Some ''B1'')"
    using example_burn_sent by blast
  have "process_burn example_settings 900000000 timeout_burn (\<lambda>_ _ _. None) d' 81 = (Inr Skipped, d', None)"
    by (rule burn_at_most_once [OF run]) (simp_all add: timeout_burn_def burn_db_def)
  with run show ?thesis by blast
qed

theorem burn_restores_only_dead_witness:
  "\<exists>res d'. process_burn example_settings 5 timeout_burn (\<lambda>_ _ _. None) burn_db 81 = (res, d', Some ''B1'')
    \<and> balance_of d' 11 = balance_of burn_db 11"
proof -
  obtain res d' where run: "process_burn example_settings 5 timeout_burn (\<lambda>_ _ _. None) burn_db 81 = (res, d', Some ''B1'')"
    using example_burn_sent by blast
  have w: "by_key w_id (c_wallet_id example_cashout) (wallets burn_db) = Some example_wallet"
    by (simp add: burn_db_def settle_db_def by_key_def example_wallet_def example_cashout_def)
  have ok: "balances_ok burn_db" using settle_db_ok by (simp add: balances_ok_def burn_db_def)
  have "\<not> never_moved (p_submit (h_payment timeout_burn))"
    by (simp add: never_moved_def timeout_burn_def timeout_not_proven)
  then have "balance_of d' 11 = balance_of burn_db 11"
    using burn_restores_only_dead [OF run example_burn_claim w _ _ ok, of 11] example_burn_amount(2)
    by (simp add: timeout_burn_def example_cashout_def)
  with run show ?thesis by blast
qed

text \<open>
  C27. A missing wallet is not recorded as a failure: the branch that should mark the cash-out
  \<open>wallet_missing\<close> restores into the wallet that does not exist, so \<open>scalar_one()\<close> raises, the
  failure is rolled back and the row stays approved, claimed and unexplained.
\<close>

theorem wallet_missing_raises:
  assumes "returning (burn_claim_guard now key) (cashouts d) = Some c"
    and "by_key w_id (c_wallet_id c) (wallets d) = None"
  shows "process_burn s now g rq d key
    = (Inl NoResultFound, d\<lparr>cashouts := update_where (burn_claim_guard now key) (burn_claim_values now) (cashouts d)\<rparr>, None)"
proof -
  let ?d = "d\<lparr>cashouts := update_where (burn_claim_guard now key) (burn_claim_values now) (cashouts d)\<rparr>"
  have "burn_claim_values now c \<in> set (cashouts ?d)" "c_status (burn_claim_values now c) = Out_approved"
    using returning_SomeD [OF assms(1)]
    by (auto simp: in_update_where burn_claim_guard_def) (simp add: burn_claim_values_def)
  then have "returning (out_guard (c_id (burn_claim_values now c)) {Out_approved}) (cashouts ?d) \<noteq> None"
    unfolding returning_def find_None_all by (auto simp: out_guard_def)
  moreover have "c_wallet_id (burn_claim_values now c) = c_wallet_id c" by (simp add: burn_claim_values_def)
  ultimately show ?thesis
    using assms by (auto simp: process_burn_def claim_burn_def fail_and_restore_def for_update_def finish_failed_def Let_def)
qed

theorem wallet_missing_raises_witness:
  "fst (process_burn example_settings 5 timeout_burn (\<lambda>_ _ _. None) (burn_db\<lparr>wallets := []\<rparr>) 81) = Inl NoResultFound"
  using wallet_missing_raises [of 5 81 "burn_db\<lparr>wallets := []\<rparr>" example_cashout] example_burn_claim [of 5]
  by (simp add: by_key_def)

end
