(* ===== verification/CashIn.thy ===== *)
theory CashIn
  imports Burn
begin

text \<open>
  Remittances, \<open>app/services/cashin_service.py\<close>: booking a send from an accepted quote and a mock
  card, confirming or failing the cash-in, handing over to settlement, and the admin's retry,
  which must never pay twice.
\<close>

section \<open>The accepted quote\<close>

record accepted_quote =
  aq_exchange_rate :: decimal
  aq_transaction_fee :: decimal
  aq_uctusd_amount :: decimal

text \<open>\<open>a == b and ...\<close>: a comparison with a signalling NaN raises.\<close>

definition pricing_matches :: "quote \<Rightarrow> accepted_quote \<Rightarrow> exn + bool" where
  "pricing_matches q a =
     and_then (arith (equals_dec (q_exchange_rate q) (aq_exchange_rate a))) (\<lambda>b1.
     if \<not> b1 then Inr False else
     and_then (arith (equals_dec (q_transaction_fee q) (aq_transaction_fee a))) (\<lambda>b2.
     if \<not> b2 then Inr False else
     arith (equals_dec (q_uctusd_amount q) (aq_uctusd_amount a))))"

section \<open>The mock card\<close>

record mock_card =
  card_number :: string
  card_expiry :: string
  card_cvv :: string
  card_name :: string

definition declined_test_card :: string where
  "declined_test_card = ''4000000000000002''"

text \<open>The sum over the reversed digits; every second one is doubled, less 9 above 9.\<close>

definition luhn_digit :: "bool \<Rightarrow> nat \<Rightarrow> nat" where
  "luhn_digit doubled v = (if doubled then (if 4 < v then v * 2 - 9 else v * 2) else v)"

fun luhn_total :: "bool \<Rightarrow> string \<Rightarrow> nat" where
  "luhn_total doubled [] = 0"
| "luhn_total doubled (c # cs) = luhn_digit doubled (digit_val c) + luhn_total (\<not> doubled) cs"

definition luhn_ok :: "string \<Rightarrow> bool" where
  "luhn_ok digits \<longleftrightarrow> luhn_total False (rev digits) mod 10 = 0"

definition card_digits :: "mock_card \<Rightarrow> string" where
  "card_digits mc = remove_char CHR ''-'' (remove_char CHR '' '' (card_number mc))"

definition parse_expiry :: "string \<Rightarrow> (int \<times> int) option" where
  "parse_expiry raw =
     (case split_on CHR ''/'' (strip raw) of
        [m, y] \<Rightarrow>
          (case (py_int m, py_int y) of
             (Some month, Some year) \<Rightarrow> if 1 \<le> month \<and> month \<le> 12 then Some (2000 + year, month) else None
           | _ \<Rightarrow> None)
      | _ \<Rightarrow> None)"

definition validate_mock_card :: "instant \<Rightarrow> mock_card \<Rightarrow> exn + string" where
  "validate_mock_card now mc =
     (let digits = card_digits mc
      in if \<not> isdigit digits \<or> \<not> (13 \<le> length digits \<and> length digits \<le> 19) \<or> \<not> luhn_ok digits
         then Inl (RemittanceError Card_number_invalid)
         else case parse_expiry (card_expiry mc) of
                None \<Rightarrow> Inl (RemittanceError Expiry_format)
              | Some (year, month) \<Rightarrow>
                  (case local_date 0 now of (ty, tm, _) \<Rightarrow>
                     if year < ty \<or> (year = ty \<and> month < tm) then Inl (RemittanceError Card_expired)
                     else if \<not> isdigit (card_cvv mc) \<or> length (card_cvv mc) \<notin> {3, 4}
                     then Inl (RemittanceError Cvv_invalid)
                     else if strip (card_name mc) = [] then Inl (RemittanceError Card_name_missing)
                     else Inr (last_chars 4 digits)))"

section \<open>Booking a send\<close>

text \<open>The figures of the quote through their column types; an overflow aborts the insert.\<close>

definition stored_quote :: "quote \<Rightarrow> transaction \<Rightarrow> transaction option" where
  "stored_quote q t =
     (case (store_numeric 20 2 (q_zar_amount q), store_numeric 20 2 (q_transaction_fee q),
            store_numeric 20 2 (q_net_zar_converted q), store_numeric 20 6 (q_market_rate q),
            store_numeric 20 6 (q_exchange_rate q), store_numeric 10 6 (q_fx_margin q),
            store_numeric 20 6 (q_uctusd_amount q)) of
        (Some zar, Some fee, Some net, Some market, Some rate, Some margin, Some uct) \<Rightarrow>
          Some (t\<lparr>t_zar_amount := zar, t_transaction_fee := fee, t_net_zar_converted := net,
                  t_market_rate := market, t_exchange_rate := rate, t_fx_margin := margin,
                  t_uctusd_amount := uct\<rparr>)
      | _ \<Rightarrow> None)"

definition new_transaction :: "instant \<Rightarrow> uuid \<Rightarrow> uuid \<Rightarrow> uuid \<Rightarrow> uuid \<Rightarrow> uuid \<Rightarrow> string \<Rightarrow> transaction" where
  "new_transaction now new_id new_key sender_id ben_id recipient_id last4 =
     \<lparr>t_id = new_id, t_sender_id = sender_id, t_beneficiary_id = ben_id,
      t_recipient_user_id = Some recipient_id, t_zar_amount = 0, t_transaction_fee = 0,
      t_net_zar_converted = 0, t_market_rate = 0, t_exchange_rate = 0, t_fx_margin = 0,
      t_uctusd_amount = 0, t_idempotency_key = new_key, t_cashin_status = CashIn_pending,
      t_settlement_status = Settle_not_queued, t_card_last4 = Some last4, t_cashin_updated_at = None,
      t_cashin_reviewed_by = None, t_cashin_failure_reason = None, t_xrpl_tx_hash = None,
      t_last_ledger_sequence = None, t_submitted_ledger_index = None, t_settlement_attempts = 0,
      t_previous_attempts = [], t_xrpl_error_reason = None, t_settled_at = None,
      t_aml_flagged = False, t_created_at = now, t_updated_at = now\<rparr>"

definition decline :: "instant \<Rightarrow> transaction \<Rightarrow> transaction" where
  "decline now t =
     t\<lparr>t_cashin_status := CashIn_failed,
       t_cashin_failure_reason := Some ''Card declined by the payment processor (test card).'',
       t_cashin_updated_at := Some now\<rparr>"

text \<open>
  The checks, in order, on the database \<open>d\<close> with the refreshed link; the caller's row is locked
  until the commit, so the usage the limit check reads is the usage the insert adds to.
\<close>

definition remittance_checks ::
  "settings \<Rightarrow> instant \<Rightarrow> db \<Rightarrow> user \<Rightarrow> beneficiary \<Rightarrow> decimal \<Rightarrow> mock_card \<Rightarrow> accepted_quote
     \<Rightarrow> exn + (quote \<times> string)" where
  "remittance_checks s now d sender ben zar_amount mc accepted =
     and_then (case quote_for s d zar_amount (b_payout_currency ben) of
                 Inl (AmountTooSmall x) \<Rightarrow> Inl (RemittanceError (Amount_refused x))
               | r \<Rightarrow> r) (\<lambda>q.
     and_then (pricing_matches q accepted) (\<lambda>same.
     and_then (raise_if (\<not> same) (RemittanceError Price_changed)) (\<lambda>_.
     and_then (let limit = check_limit s now d sender (q_zar_amount q)
               in raise_if (\<not> allowed limit) (RemittanceError (Over_limit (the (reason limit))))) (\<lambda>_.
     and_then (validate_mock_card now mc) (\<lambda>last4. Inr (q, last4))))))"

definition create_remittance ::
  "settings \<Rightarrow> instant \<Rightarrow> uuid \<Rightarrow> uuid \<Rightarrow> db \<Rightarrow> user \<Rightarrow> uuid \<Rightarrow> decimal \<Rightarrow> mock_card \<Rightarrow> accepted_quote
     \<Rightarrow> (exn + transaction) \<times> db" where
  "create_remittance s now new_id new_key d sender beneficiary_id zar_amount mc accepted =
     (if \<not> u_can_send sender \<or> u_kyc_status sender \<noteq> Kyc_approved
      then (Inl (RemittanceError Not_approved_sender), d)
      else case get_beneficiary d beneficiary_id (u_id sender) of
             None \<Rightarrow> (Inl (RemittanceError Beneficiary_not_found), d)
           | Some ben \<Rightarrow>
               (case refresh_recipient_link d ben of
                  (None, _) \<Rightarrow> (Inl (RemittanceError (Recipient_not_registered (b_full_name ben))), d)
                | (Some recipient_id, linked) \<Rightarrow>
                    (case remittance_checks s now linked sender ben zar_amount mc accepted of
                       Inl e \<Rightarrow> (Inl e, d)
                     | Inr (q, last4) \<Rightarrow>
                         (case stored_quote q (new_transaction now new_id new_key (u_id sender) (b_id ben)
                                 recipient_id last4) of
                            None \<Rightarrow> (Inl DatabaseError, d)
                          | Some t \<Rightarrow>
                              (let t = (if card_digits mc = declined_test_card then decline now t else t)
                               in (Inr t, linked\<lparr>transactions := transactions linked @ [t]\<rparr>))))))"

section \<open>Confirming or failing the cash-in\<close>

text \<open>
  \<open>enqueue\<close> may raise although the queue took the message; \<open>meanwhile\<close> is what workers and other
  sessions commit before the exception is handled.
\<close>

definition publish ::
  "instant \<Rightarrow> (uuid \<Rightarrow> uuid \<Rightarrow> exn option) \<Rightarrow> (db \<Rightarrow> db) \<Rightarrow> db \<Rightarrow> transaction \<Rightarrow> db" where
  "publish now enqueue meanwhile d txn =
     (case enqueue (t_idempotency_key txn) (t_id txn) of
        None \<Rightarrow> meanwhile d
      | Some e \<Rightarrow> snd (fail_settlement now (meanwhile d) txn
          (''queue_unavailable: '' @ exn_name e @ ''; retry from the admin monitor'') None {Settle_queued}))"

definition cashin_guard :: "uuid \<Rightarrow> transaction \<Rightarrow> bool" where
  "cashin_guard i t \<longleftrightarrow> t_id t = i \<and> t_cashin_status t = CashIn_pending"

definition received_values :: "instant \<Rightarrow> user option \<Rightarrow> transaction \<Rightarrow> transaction" where
  "received_values now reviewer t =
     t\<lparr>t_cashin_status := CashIn_received, t_cashin_updated_at := Some now,
       t_cashin_reviewed_by := map_option u_id reviewer, t_settlement_status := Settle_queued,
       t_updated_at := now\<rparr>"

definition mark_cashin_received ::
  "instant \<Rightarrow> (uuid \<Rightarrow> uuid \<Rightarrow> exn option) \<Rightarrow> (db \<Rightarrow> db) \<Rightarrow> db \<Rightarrow> transaction \<Rightarrow> user option
     \<Rightarrow> (exn + unit) \<times> db" where
  "mark_cashin_received now enqueue meanwhile d txn reviewer =
     (case returning (cashin_guard (t_id txn)) (transactions d) of
        None \<Rightarrow> (Inl (RemittanceError Cashin_already_processed), d)
      | Some _ \<Rightarrow>
          (Inr (), publish now enqueue meanwhile
             (d\<lparr>transactions := update_where (cashin_guard (t_id txn)) (received_values now reviewer)
                  (transactions d)\<rparr>) txn))"

definition cashin_failed_values :: "instant \<Rightarrow> user option \<Rightarrow> string \<Rightarrow> transaction \<Rightarrow> transaction" where
  "cashin_failed_values now reviewer why t =
     t\<lparr>t_cashin_status := CashIn_failed, t_cashin_updated_at := Some now,
       t_cashin_reviewed_by := map_option u_id reviewer,
       t_cashin_failure_reason := Some (if strip why = [] then ''Payment was not received.'' else strip why),
       t_updated_at := now\<rparr>"

definition mark_cashin_failed ::
  "instant \<Rightarrow> db \<Rightarrow> transaction \<Rightarrow> user option \<Rightarrow> string \<Rightarrow> (exn + unit) \<times> db" where
  "mark_cashin_failed now d txn reviewer why =
     (case returning (cashin_guard (t_id txn)) (transactions d) of
        None \<Rightarrow> (Inl (RemittanceError Cashin_already_processed), d)
      | Some _ \<Rightarrow>
          (Inr (), d\<lparr>transactions := update_where (cashin_guard (t_id txn))
                       (cashin_failed_values now reviewer why) (transactions d)\<rparr>))"

definition cashin_expiry :: duration where
  "cashin_expiry = hours 24"

definition stale_guard :: "instant \<Rightarrow> transaction \<Rightarrow> bool" where
  "stale_guard cutoff t \<longleftrightarrow> t_cashin_status t = CashIn_pending \<and> t_created_at t < cutoff"

definition expired_values :: "instant \<Rightarrow> transaction \<Rightarrow> transaction" where
  "expired_values now t =
     t\<lparr>t_cashin_status := CashIn_failed,
       t_cashin_failure_reason := Some (''Payment was not confirmed in time; this transfer was cancelled. ''
         @ ''Nothing was sent and your limit allowance has been released.''),
       t_cashin_updated_at := Some now, t_updated_at := now\<rparr>"

definition expire_stale_cashins :: "instant \<Rightarrow> duration \<Rightarrow> db \<Rightarrow> nat \<times> db" where
  "expire_stale_cashins now older_than d =
     (length (filter (stale_guard (now - older_than)) (transactions d)),
      d\<lparr>transactions := update_where (stale_guard (now - older_than)) (expired_values now) (transactions d)\<rparr>)"

section \<open>Retrying a settlement\<close>

definition settle_stuck_after :: duration where
  "settle_stuck_after = minutes 10"

definition is_stuck :: "instant \<Rightarrow> transaction \<Rightarrow> bool" where
  "is_stuck now t \<longleftrightarrow> t_settlement_status t = Settle_processing \<and> settle_stuck_after \<le> now - t_updated_at t"

text \<open>The sole gate on re-sending; the two ledger questions may raise.\<close>

definition refuse_unless_provably_dead ::
  "transaction \<Rightarrow> exn + int \<Rightarrow> (int \<Rightarrow> int \<Rightarrow> exn + bool) \<Rightarrow> exn + unit" where
  "refuse_unless_provably_dead t latest complete_range =
     (case (t_last_ledger_sequence t, t_submitted_ledger_index t) of
        (Some last_ledger, Some submitted) \<Rightarrow>
          and_then latest (\<lambda>l.
          and_then (raise_if (l \<le> last_ledger) (RemittanceError (Still_could_validate last_ledger))) (\<lambda>_.
          and_then (complete_range submitted last_ledger) (\<lambda>c.
          raise_if (\<not> c) (RemittanceError History_incomplete))))
      | _ \<Rightarrow> Inl (RemittanceError No_recorded_range))"

definition archived_attempts :: "instant \<Rightarrow> transaction \<Rightarrow> attempt list" where
  "archived_attempts now t =
     (if \<not> truthy (t_xrpl_tx_hash t) then t_previous_attempts t
      else t_previous_attempts t @
        [\<lparr>a_tx_hash = or_else (t_xrpl_tx_hash t) [], a_last_ledger_sequence = t_last_ledger_sequence t,
          a_submitted_ledger_index = t_submitted_ledger_index t, a_attempts = t_settlement_attempts t,
          a_failure_reason = t_xrpl_error_reason t, a_retired_at = now\<rparr>])"

datatype retry_result = Retry_requeued | Retry_reconciled

definition retry_guard :: "transaction \<Rightarrow> transaction \<Rightarrow> bool" where
  "retry_guard seen t \<longleftrightarrow> t_id t = t_id seen \<and> t_settlement_status t = t_settlement_status seen
     \<and> t_updated_at t = t_updated_at seen"

definition retried_values :: "instant \<Rightarrow> transaction \<Rightarrow> transaction \<Rightarrow> transaction" where
  "retried_values now seen t =
     t\<lparr>t_settlement_status := Settle_queued, t_settlement_attempts := 0, t_xrpl_error_reason := None,
       t_xrpl_tx_hash := None, t_last_ledger_sequence := None, t_submitted_ledger_index := None,
       t_previous_attempts := archived_attempts now seen, t_updated_at := now\<rparr>"

text \<open>
  What the ledger answers: the final code of the hash (None when absent), the validated index and
  whether a range is held; each may raise. \<open>during_lookup\<close> is committed by others meanwhile.
\<close>

record ledger_view =
  v_code :: "exn + string option"
  v_latest :: "exn + int"
  v_range :: "int \<Rightarrow> int \<Rightarrow> exn + bool"

definition may_resend :: "transaction \<Rightarrow> ledger_view \<Rightarrow> exn + bool" where
  "may_resend t v =
     (if \<not> truthy (t_xrpl_tx_hash t) then Inr True
      else and_then (v_code v) (\<lambda>code.
           case code of
             Some c \<Rightarrow> Inr (c \<noteq> tes_success)
           | None \<Rightarrow> and_then (refuse_unless_provably_dead t (v_latest v) (v_range v)) (\<lambda>_. Inr True)))"

definition retry_settlement ::
  "instant \<Rightarrow> (uuid \<Rightarrow> uuid \<Rightarrow> exn option) \<Rightarrow> ledger_view \<Rightarrow> (db \<Rightarrow> db) \<Rightarrow> (db \<Rightarrow> db) \<Rightarrow> db \<Rightarrow> transaction
     \<Rightarrow> (exn + retry_result) \<times> db" where
  "retry_settlement now enqueue v during_lookup meanwhile d txn =
     (if \<not> (t_settlement_status txn = Settle_failed \<or> is_stuck now txn) \<or> t_cashin_status txn \<noteq> CashIn_received
      then (Inl (RemittanceError Not_retryable), d)
      else
        let d = (if truthy (t_xrpl_tx_hash txn) then during_lookup d else d)
        in case may_resend txn v of
             Inl e \<Rightarrow> (Inl e, d)
           | Inr False \<Rightarrow>
               (case complete_settlement now None d txn (or_else (t_xrpl_tx_hash txn) []) {t_settlement_status txn} of
                  (Inl e, d) \<Rightarrow> (Inl e, d)
                | (Inr _, d) \<Rightarrow> (Inr Retry_reconciled, d))
           | Inr True \<Rightarrow>
               (case returning (retry_guard txn) (transactions d) of
                  None \<Rightarrow> (Inl (RemittanceError Settlement_changed), d)
                | Some _ \<Rightarrow>
                    (Inr Retry_requeued, publish now enqueue meanwhile
                       (d\<lparr>transactions := update_where (retry_guard txn) (retried_values now txn)
                            (transactions d)\<rparr>) txn)))"

definition requeue_stuck ::
  "instant \<Rightarrow> (uuid \<Rightarrow> uuid \<Rightarrow> exn option) \<Rightarrow> (db \<Rightarrow> db) \<Rightarrow> db \<Rightarrow> transaction \<Rightarrow> (exn + unit) \<times> db" where
  "requeue_stuck now enqueue meanwhile d txn =
     (if t_settlement_status txn \<noteq> Settle_queued then (Inl (RemittanceError Not_queued), d)
      else (Inr (), publish now enqueue meanwhile d txn))"

section \<open>Queries and review\<close>

definition get_transaction :: "db \<Rightarrow> uuid \<Rightarrow> transaction option" where
  "get_transaction d i = by_key t_id i (transactions d)"

definition list_for_sender :: "db \<Rightarrow> uuid \<Rightarrow> nat option \<Rightarrow> transaction list" where
  "list_for_sender d uid limit =
     (let rows = newest_first t_created_at (filter (\<lambda>t. t_sender_id t = uid) (transactions d))
      in case limit of None \<Rightarrow> rows | Some n \<Rightarrow> if n = 0 then rows else take n rows)"

definition list_incoming :: "db \<Rightarrow> uuid \<Rightarrow> transaction list" where
  "list_incoming d uid = newest_first t_created_at
     (filter (\<lambda>t. t_recipient_user_id t = Some uid \<and> t_settlement_status t \<noteq> Settle_not_queued) (transactions d))"

definition list_pending_cashins :: "db \<Rightarrow> transaction list" where
  "list_pending_cashins d = ordered_by t_created_at (filter (\<lambda>t. t_cashin_status t = CashIn_pending) (transactions d))"

definition count_pending_cashins :: "db \<Rightarrow> nat" where
  "count_pending_cashins d = length (filter (\<lambda>t. t_cashin_status t = CashIn_pending) (transactions d))"

definition count_failed_settlements :: "db \<Rightarrow> nat" where
  "count_failed_settlements d = length (filter (\<lambda>t. t_settlement_status t = Settle_failed) (transactions d))"

definition count_settled_since :: "db \<Rightarrow> instant \<Rightarrow> nat" where
  "count_settled_since d since = length (filter (\<lambda>t. t_settlement_status t = Settle_completed
     \<and> (case t_settled_at t of None \<Rightarrow> False | Some x \<Rightarrow> since \<le> x)) (transactions d))"

definition list_settlement_issues :: "instant \<Rightarrow> db \<Rightarrow> transaction list" where
  "list_settlement_issues now d = newest_first t_updated_at
     (filter (\<lambda>t. t_settlement_status t = Settle_failed
        \<or> (t_settlement_status t \<in> {Settle_queued, Settle_processing}
           \<and> t_updated_at t < now - settle_stuck_after)) (transactions d))"

text \<open>SQL \<open>ILIKE\<close>: \<open>%\<close> any run, \<open>_\<close> any character, a backslash takes the next one literally.\<close>

function like :: "string \<Rightarrow> string \<Rightarrow> bool" where
  "like [] s = (s = [])"
| "like (p # ps) s =
     (if p = CHR ''%'' then like ps s \<or> (case s of [] \<Rightarrow> False | _ # r \<Rightarrow> like (p # ps) r)
      else case s of
             [] \<Rightarrow> False
           | c # r \<Rightarrow>
               if p = CHR ''_'' then like ps r
               else if p = CHR 0x5C \<and> ps \<noteq> [] then c = hd ps \<and> like (tl ps) r
               else c = p \<and> like ps r)"
  by pat_completeness auto
termination
  by (relation "measure (\<lambda>(p, s). length p + length s)") (auto simp: neq_Nil_conv)

definition ilike :: "string \<Rightarrow> string \<Rightarrow> bool" where
  "ilike s pattern \<longleftrightarrow> like (lower pattern) (lower s)"

record monitor_filter =
  m_cashin :: "cashin_status option"
  m_settlement :: "settlement_status option"
  m_date_from :: "date option"
  m_date_to :: "date option"
  m_user_query :: "string option"
  m_aml :: "bool option"

definition matches_party :: "db \<Rightarrow> string \<Rightarrow> transaction \<Rightarrow> bool" where
  "matches_party d pattern t \<longleftrightarrow>
     (\<exists>u\<in>set (users d). (u_id u = t_sender_id t \<or> t_recipient_user_id t = Some (u_id u))
        \<and> (ilike (u_full_name u) pattern \<or> ilike (u_email u) pattern))
     \<or> (\<exists>b\<in>set (beneficiaries d). b_id b = t_beneficiary_id t
        \<and> (ilike (b_full_name b) pattern
           \<or> (case b_email b of None \<Rightarrow> False | Some e \<Rightarrow> ilike e pattern)))"

text \<open>
  A \<open>datetime\<close> lies in the years 1 to 9999: the first and the last day of the calendar may have no
  local midnight in UTC, and the last one has no next day. Either raises OverflowError.
\<close>

definition last_day :: int where
  "last_day = 3652059"

definition overflow_error :: exn where
  "overflow_error = Raised ''OverflowError'' ''date value out of range''"

definition day_bounds :: "settings \<Rightarrow> date \<Rightarrow> exn + instant" where
  "day_bounds s day =
     (let t = day_start_utc s day
      in if t < 0 \<or> last_day * day_length \<le> t then Inl overflow_error else Inr t)"

definition after_day :: "settings \<Rightarrow> date \<Rightarrow> exn + instant" where
  "after_day s day =
     (if last_day \<le> ymd_ord day then Inl overflow_error else day_bounds s (date_plus_days day 1))"

text \<open>The constraint of an optional filter.\<close>

definition optional_bound :: "(date \<Rightarrow> exn + instant) \<Rightarrow> date option \<Rightarrow> exn + instant option" where
  "optional_bound f day = (case day of None \<Rightarrow> Inr None | Some x \<Rightarrow> and_then (f x) (\<lambda>t. Inr (Some t)))"

definition monitor_matches :: "db \<Rightarrow> monitor_filter \<Rightarrow> instant option \<Rightarrow> instant option \<Rightarrow> transaction \<Rightarrow> bool" where
  "monitor_matches d f lower_end upper_end t \<longleftrightarrow>
     (m_cashin f = None \<or> m_cashin f = Some (t_cashin_status t))
     \<and> (m_settlement f = None \<or> m_settlement f = Some (t_settlement_status t))
     \<and> (case lower_end of None \<Rightarrow> True | Some x \<Rightarrow> x \<le> t_created_at t)
     \<and> (case upper_end of None \<Rightarrow> True | Some x \<Rightarrow> t_created_at t < x)
     \<and> (m_aml f = None \<or> m_aml f = Some (t_aml_flagged t))
     \<and> (let term = strip (or_else (m_user_query f) [])
        in term = [] \<or> matches_party d (CHR ''%'' # term @ ''%'') t)"

definition list_transactions :: "settings \<Rightarrow> db \<Rightarrow> monitor_filter \<Rightarrow> nat \<Rightarrow> exn + transaction list" where
  "list_transactions s d f limit =
     and_then (optional_bound (day_bounds s) (m_date_from f)) (\<lambda>lower_end.
     and_then (optional_bound (after_day s) (m_date_to f)) (\<lambda>upper_end.
     Inr (take limit (newest_first t_created_at
       (filter (monitor_matches d f lower_end upper_end) (transactions d))))))"

definition monitor_limit :: nat where
  "monitor_limit = 500"

text \<open>An ORM write: an unchanged flag writes nothing; a changed one also stamps the row.\<close>

definition set_aml_flag :: "instant \<Rightarrow> db \<Rightarrow> transaction \<Rightarrow> bool \<Rightarrow> db" where
  "set_aml_flag now d txn flagged =
     (if t_aml_flagged txn = flagged then d
      else d\<lparr>transactions := update_where (\<lambda>t. t_id t = t_id txn)
               (\<lambda>t. t\<lparr>t_aml_flagged := flagged, t_updated_at := now\<rparr>) (transactions d)\<rparr>)"

section \<open>The transitions as guarded changes\<close>

interpretation cashin_receive: guarded_change t_id "received_values now reviewer" "cashin_guard i"
  for now reviewer i
  by unfold_locales (simp_all add: received_values_def cashin_guard_def)

interpretation cashin_fail: guarded_change t_id "cashin_failed_values now reviewer why" "cashin_guard i"
  for now reviewer why i
  by unfold_locales (simp_all add: cashin_failed_values_def cashin_guard_def)

interpretation cashin_expire: guarded_change t_id "expired_values now" "stale_guard cutoff"
  for now cutoff
  by unfold_locales (simp_all add: expired_values_def stale_guard_def)

interpretation settle_retry: row_change t_id "retried_values now seen" for now seen
  by unfold_locales (simp add: retried_values_def)

section \<open>The card check\<close>

lemma luhn_digit_inj: "v < 10 \<Longrightarrow> w < 10 \<Longrightarrow> luhn_digit p v = luhn_digit p w \<Longrightarrow> v = w"
  by (auto simp: luhn_digit_def split: if_splits) presburger+

lemma luhn_digit_bound: "v < 10 \<Longrightarrow> luhn_digit p v < 10"
  by (auto simp: luhn_digit_def)

lemma mod_10_cancel:
  fixes r x y :: nat
  assumes "(r + x) mod 10 = (r + y) mod 10" and "x < 10" and "y < 10"
  shows "x = y"
proof -
  have "r + x = 10 * ((r + x) div 10) + (r + x) mod 10" "r + y = 10 * ((r + y) div 10) + (r + y) mod 10" by simp_all
  then show ?thesis
    using assms by (cases "(r + x) div 10" "(r + y) div 10" rule: linorder_cases) linarith+
qed

lemma luhn_total_at:
  "\<exists>rest p. \<forall>c. luhn_total b (a @ c # r) = rest + luhn_digit p (digit_val c)"
proof (induction a arbitrary: b)
  case Nil
  show ?case by (rule exI [of _ "luhn_total (\<not> b) r"], rule exI [of _ b]) simp
next
  case (Cons x a)
  from Cons.IH [of "\<not> b"] obtain rest p
    where "\<forall>c. luhn_total (\<not> b) (a @ c # r) = rest + luhn_digit p (digit_val c)" by blast
  then show ?case
    by (intro exI [of _ "luhn_digit b (digit_val x) + rest"] exI [of _ p]) simp
qed

text \<open>
  The card check catches every mistyped digit: if the digits of one card pass the Luhn check,
  a card whose number differs from it in exactly one digit is refused, whatever its other fields.
\<close>

theorem mistyped_digit_refused:
  assumes "luhn_ok (xs @ c # ys)" and "is_digit c" and "is_digit c'" and "c \<noteq> c'"
    and "card_digits mc = xs @ c' # ys"
  shows "validate_mock_card now mc = Inl (RemittanceError Card_number_invalid)"
proof -
  obtain rest p where tot: "\<forall>c. luhn_total False (rev ys @ c # rev xs) = rest + luhn_digit p (digit_val c)"
    using luhn_total_at by blast
  have bounds: "luhn_digit p (digit_val c) < 10" "luhn_digit p (digit_val c') < 10"
    using assms(2,3) by (simp_all add: luhn_digit_bound digit_val_bound)
  have "\<not> luhn_ok (xs @ c' # ys)"
  proof
    assume "luhn_ok (xs @ c' # ys)"
    with assms(1) tot have "(rest + luhn_digit p (digit_val c)) mod 10 = (rest + luhn_digit p (digit_val c')) mod 10"
      by (simp add: luhn_ok_def)
    then have "luhn_digit p (digit_val c) = luhn_digit p (digit_val c')" using bounds by (rule mod_10_cancel)
    then have "digit_val c = digit_val c'"
      using assms(2,3) luhn_digit_inj [of "digit_val c" "digit_val c'" p] by (simp add: digit_val_bound)
    with assms(2,3,4) digit_val_inj show False by blast
  qed
  then show ?thesis by (simp add: validate_mock_card_def assms(5))
qed

theorem mistyped_digit_refused_witness:
  "validate_mock_card 0 \<lparr>card_number = ''4242 4242 4242 4243'', card_expiry = ''12/30'', card_cvv = ''123'',
     card_name = ''T Sender''\<rparr> = Inl (RemittanceError Card_number_invalid)"
proof (rule mistyped_digit_refused)
  show "luhn_ok (''424242424242424'' @ CHR ''2'' # [])" by code_simp
  show "is_digit CHR ''2''" "is_digit CHR ''3''" by code_simp+
  show "card_digits \<lparr>card_number = ''4242 4242 4242 4243'', card_expiry = ''12/30'', card_cvv = ''123'',
     card_name = ''T Sender''\<rparr> = ''424242424242424'' @ CHR ''3'' # []" by code_simp
qed simp

section \<open>A booked send\<close>

lemma equals_dec_True: "arith (equals_dec x y) = Inr True \<longleftrightarrow> y = Fin x"
  by (cases y) (auto split: if_splits)

lemma pricing_matches_True:
  "pricing_matches q a = Inr True \<longleftrightarrow> aq_exchange_rate a = Fin (q_exchange_rate q)
     \<and> aq_transaction_fee a = Fin (q_transaction_fee q) \<and> aq_uctusd_amount a = Fin (q_uctusd_amount q)"
proof -
  have "pricing_matches q a = Inr True \<longleftrightarrow> arith (equals_dec (q_exchange_rate q) (aq_exchange_rate a)) = Inr True
     \<and> arith (equals_dec (q_transaction_fee q) (aq_transaction_fee a)) = Inr True
     \<and> arith (equals_dec (q_uctusd_amount q) (aq_uctusd_amount a)) = Inr True"
    unfolding pricing_matches_def by (auto split: if_splits)
  then show ?thesis by (simp only: equals_dec_True)
qed

lemma remittance_checksE:
  assumes "remittance_checks s now d sender ben zar mc acc = Inr (q, last4)"
  shows "quote_for s d zar (b_payout_currency ben) = Inr q" "pricing_matches q acc = Inr True"
    "allowed (check_limit s now d sender (q_zar_amount q))" "validate_mock_card now mc = Inr last4"
  using assms unfolding remittance_checks_def Let_def
  by (auto split: sum.splits exn.splits)

lemma create_remittanceE:
  assumes "create_remittance s now i k d sender bid zar mc acc = (Inr t, d')"
  obtains ben rid q last4 t0 where
    "u_can_send sender" "u_kyc_status sender = Kyc_approved"
    "get_beneficiary d bid (u_id sender) = Some ben" "find_recipient_user_id d ben = Some rid"
    "remittance_checks s now (snd (refresh_recipient_link d ben)) sender ben zar mc acc = Inr (q, last4)"
    "stored_quote q (new_transaction now i k (u_id sender) (b_id ben) rid last4) = Some t0"
    "t = (if card_digits mc = declined_test_card then decline now t0 else t0)"
    "d' = (snd (refresh_recipient_link d ben))\<lparr>transactions := transactions d @ [t]\<rparr>"
proof -
  from assms obtain ben where ben: "u_can_send sender" "u_kyc_status sender = Kyc_approved"
    "get_beneficiary d bid (u_id sender) = Some ben"
    unfolding create_remittance_def by (auto split: if_splits option.splits)
  obtain l linked where link: "refresh_recipient_link d ben = (l, linked)" by fastforce
  have fl: "find_recipient_user_id d ben = l" "transactions linked = transactions d"
    using refresh_recipient_eq [of d ben] refresh_frame(5) [of d ben] by (simp_all add: link)
  from assms ben link obtain rid where rid: "l = Some rid" by (auto simp: create_remittance_def split: option.splits)
  from assms ben link rid obtain q last4 where chk: "remittance_checks s now linked sender ben zar mc acc = Inr (q, last4)"
    by (auto simp: create_remittance_def split: sum.splits)
  from assms ben link rid chk obtain t0 where
    "stored_quote q (new_transaction now i k (u_id sender) (b_id ben) rid last4) = Some t0"
    "t = (if card_digits mc = declined_test_card then decline now t0 else t0)"
    "d' = linked\<lparr>transactions := transactions linked @ [t]\<rparr>"
    by (auto simp: create_remittance_def Let_def split: option.splits)
  with that ben fl rid chk link show thesis by simp
qed

lemma stored_quoteE:
  assumes "stored_quote q t = Some t'"
  shows "t_zar_amount t' = to_grid 2 (q_zar_amount q)" "t_transaction_fee t' = to_grid 2 (q_transaction_fee q)"
    "t_net_zar_converted t' = to_grid 2 (q_net_zar_converted q)"
    "t_exchange_rate t' = to_grid 6 (q_exchange_rate q)" "t_uctusd_amount t' = to_grid 6 (q_uctusd_amount q)"
    "column_value 20 6 (t_uctusd_amount t')" "t_sender_id t' = t_sender_id t" "t_id t' = t_id t"
    "t_recipient_user_id t' = t_recipient_user_id t" "t_cashin_status t' = t_cashin_status t"
    "t_settlement_status t' = t_settlement_status t" "t_created_at t' = t_created_at t"
    "t_xrpl_tx_hash t' = t_xrpl_tx_hash t" "t_idempotency_key t' = t_idempotency_key t"
  using assms by (auto simp: stored_quote_def store_numeric_eq split: option.splits)

lemma booked_row:
  assumes "create_remittance s now i k d sender bid zar mc acc = (Inr t, d')"
  shows "transactions d' = transactions d @ [t] \<and> t_sender_id t = u_id sender \<and> t_created_at t = now
    \<and> t_id t = i \<and> t_idempotency_key t = k \<and> t_xrpl_tx_hash t = None
    \<and> t_settlement_status t = Settle_not_queued \<and> column_value 20 6 (t_uctusd_amount t)"
  using assms
proof (rule create_remittanceE)
  fix ben rid q last4 t0
  assume st: "stored_quote q (new_transaction now i k (u_id sender) (b_id ben) rid last4) = Some t0"
    and t: "t = (if card_digits mc = declined_test_card then decline now t0 else t0)"
    and d': "d' = (snd (refresh_recipient_link d ben))\<lparr>transactions := transactions d @ [t]\<rparr>"
  have "t_sender_id t = t_sender_id t0 \<and> t_created_at t = t_created_at t0 \<and> t_id t = t_id t0
    \<and> t_idempotency_key t = t_idempotency_key t0 \<and> t_xrpl_tx_hash t = t_xrpl_tx_hash t0
    \<and> t_settlement_status t = t_settlement_status t0 \<and> t_uctusd_amount t = t_uctusd_amount t0"
    by (simp add: t decline_def)
  then show ?thesis using stored_quoteE [OF st] by (simp add: d' new_transaction_def)
qed

lemma quote_grids:
  assumes "calculate_quote send market fixed pct margin cpct cmin cur = Inr q"
  shows "to_grid 2 (q_zar_amount q) = q_zar_amount q" "to_grid 2 (q_transaction_fee q) = q_transaction_fee q"
    "to_grid 2 (q_net_zar_converted q) = q_net_zar_converted q"
    "to_grid 6 (q_exchange_rate q) = q_exchange_rate q" "to_grid 6 (q_uctusd_amount q) = q_uctusd_amount q"
  using assms by (auto elim!: calculate_quoteE intro!: to_grid_id dest: quantize_on_grid)

lemma check_limit_cong:
  assumes "tiers d = tiers d'" and "transactions d = transactions d'"
  shows "check_limit s now d u a = check_limit s now d' u a"
proof -
  have usage: "get_daily_usage s now d = get_daily_usage s now d'" "get_monthly_usage s now d = get_monthly_usage s now d'"
    using assms(2) by (simp_all add: fun_eq_iff get_daily_usage_def get_monthly_usage_def sum_zar_since_def)
  show ?thesis unfolding check_limit_def get_limit_tier_def assms(1) usage by (rule refl)
qed

text \<open>The booked row carries the figures of the quote unchanged.\<close>

lemma booked_figures:
  assumes "create_remittance s now i k d sender bid zar mc acc = (Inr t, d')"
  shows "\<exists>q. pricing_matches q acc = Inr True \<and> allowed (check_limit s now d sender (q_zar_amount q))
    \<and> 0 < q_uctusd_amount q \<and> t_zar_amount t = q_zar_amount q \<and> t_transaction_fee t = q_transaction_fee q
    \<and> t_net_zar_converted t = q_net_zar_converted q \<and> t_exchange_rate t = q_exchange_rate q
    \<and> t_uctusd_amount t = q_uctusd_amount q \<and> on_grid 2 (t_zar_amount t)"
  using assms
proof (rule create_remittanceE)
  fix ben rid q last4 t0
  assume b: "get_beneficiary d bid (u_id sender) = Some ben"
    and chk: "remittance_checks s now (snd (refresh_recipient_link d ben)) sender ben zar mc acc = Inr (q, last4)"
    and st: "stored_quote q (new_transaction now i k (u_id sender) (b_id ben) rid last4) = Some t0"
    and t: "t = (if card_digits mc = declined_test_card then decline now t0 else t0)"
  from remittance_checksE(1) [OF chk] obtain market fixed pct margin cpct cmin
    where calc: "calculate_quote zar market fixed pct margin cpct cmin (b_payout_currency ben) = Inr q"
    by (rule quote_forE)
  have same: "t_zar_amount t = t_zar_amount t0" "t_transaction_fee t = t_transaction_fee t0"
    "t_net_zar_converted t = t_net_zar_converted t0" "t_exchange_rate t = t_exchange_rate t0"
    "t_uctusd_amount t = t_uctusd_amount t0"
    by (simp_all add: t decline_def)
  have "allowed (check_limit s now d sender (q_zar_amount q))"
    using remittance_checksE(3) [OF chk] check_limit_cong [of "snd (refresh_recipient_link d ben)" d s now sender "q_zar_amount q"]
    by (simp add: frame_simps)
  then show ?thesis
    using remittance_checksE(2) [OF chk]
      stored_quoteE(1-5) [OF st] quote_grids [OF calc] quote_positive(2,5) [OF calc] same
    by (intro exI [of _ q]) simp
qed

text \<open>
  C21. The sender pays the price they accepted (FR-FX-07): a booked remittance stores exactly the
  exchange rate, fee and UCTUSD amount the sender agreed to, which are those of a fresh server-side
  quote, and a positive amount; only a KYC-approved sender can book one, for a registered customer
  account that is neither an admin nor their own.
\<close>

theorem remittance_price_lock:
  assumes "create_remittance s now i k d sender bid zar mc acc = (Inr t, d')" and "links_ok d"
  shows "acc = \<lparr>aq_exchange_rate = Fin (t_exchange_rate t), aq_transaction_fee = Fin (t_transaction_fee t),
      aq_uctusd_amount = Fin (t_uctusd_amount t)\<rparr> \<and> 0 < t_uctusd_amount t
    \<and> u_can_send sender \<and> u_kyc_status sender = Kyc_approved
    \<and> (\<exists>r. t_recipient_user_id t = Some r \<and> payable d (u_id sender) r)"
proof -
  have "acc = \<lparr>aq_exchange_rate = Fin (t_exchange_rate t), aq_transaction_fee = Fin (t_transaction_fee t),
      aq_uctusd_amount = Fin (t_uctusd_amount t)\<rparr> \<and> 0 < t_uctusd_amount t"
    using booked_figures [OF assms(1)] by (auto simp: pricing_matches_True intro!: accepted_quote.equality)
  moreover from assms(1) have "u_can_send sender \<and> u_kyc_status sender = Kyc_approved
    \<and> (\<exists>r. t_recipient_user_id t = Some r \<and> payable d (u_id sender) r)"
  proof (rule create_remittanceE)
    fix ben rid q last4 t0
    assume a: "u_can_send sender" "u_kyc_status sender = Kyc_approved"
      and b: "get_beneficiary d bid (u_id sender) = Some ben" and r: "find_recipient_user_id d ben = Some rid"
      and st: "stored_quote q (new_transaction now i k (u_id sender) (b_id ben) rid last4) = Some t0"
      and t: "t = (if card_digits mc = declined_test_card then decline now t0 else t0)"
    from b have "ben \<in> set (beneficiaries d)" "b_sender_id ben = u_id sender"
      by (auto simp: get_beneficiary_def dest!: returning_SomeD)
    then have "payable d (u_id sender) rid" using find_recipient_payable [OF assms(2) _ r] by simp
    moreover have "t_recipient_user_id t = Some rid"
      using stored_quoteE(9) [OF st] by (simp add: t decline_def new_transaction_def)
    ultimately show ?thesis using a by simp
  qed
  ultimately show ?thesis by simp
qed

text \<open>
  C24. No send goes over a limit (FR-LIM-01/02): when a remittance is booked, the sender's usage of
  the local day and of the local month, this send included, is within the limits of their tier; a
  send declined by the card processor consumes no allowance.
\<close>

theorem remittance_within_limits:
  assumes "create_remittance s now i k d sender bid zar mc acc = (Inr t, d')" and "sends_ok d" and "tiers_ok d"
  shows "\<exists>l. get_limit_tier d sender = Some l
    \<and> get_daily_usage s now d (u_id sender) + t_zar_amount t \<le> l_daily_limit_zar l
    \<and> get_monthly_usage s now d (u_id sender) + t_zar_amount t \<le> l_monthly_limit_zar l
    \<and> get_daily_usage s now d' (u_id sender) = get_daily_usage s now d (u_id sender)
        + (if t_cashin_status t = CashIn_failed then 0 else t_zar_amount t)
    \<and> get_monthly_usage s now d' (u_id sender) = get_monthly_usage s now d (u_id sender)
        + (if t_cashin_status t = CashIn_failed then 0 else t_zar_amount t)"
proof -
  have al: "allowed (check_limit s now d sender (t_zar_amount t))" and z: "on_grid 2 (t_zar_amount t)"
    using booked_figures [OF assms(1)] by auto
  obtain d': "transactions d' = transactions d @ [t]" and own: "t_sender_id t = u_id sender" "t_created_at t = now"
    using booked_row [OF assms(1)] by blast
  have use: "sum_zar_since d' (u_id sender) since = sum_zar_since d (u_id sender) since
      + (if t_cashin_status t = CashIn_failed then 0 else t_zar_amount t)" if "since \<le> now" for since
    using that usage_append [of d t "u_id sender" since] own
    by (simp add: sum_zar_since_def d' counts_since_def)
  from al assms(2,3) z obtain l where "get_limit_tier d sender = Some l"
    "get_daily_usage s now d (u_id sender) + t_zar_amount t \<le> l_daily_limit_zar l"
    "get_monthly_usage s now d (u_id sender) + t_zar_amount t \<le> l_monthly_limit_zar l"
    by (rule check_limitE)
  moreover have "month_window s now \<le> now" using month_window_le day_window_le order_trans by blast
  ultimately show ?thesis
    using use [OF day_window_le] use [of "month_window s now"]
    by (auto simp: get_daily_usage_def get_monthly_usage_def)
qed

section \<open>A send that goes through\<close>

definition shop_beneficiary :: beneficiary where
  "shop_beneficiary = \<lparr>b_id = 40, b_sender_id = 10, b_recipient_user_id = Some 11, b_full_name = ''Rudo'',
     b_email = Some ''rudo@example.org'', b_mobile = None, b_country = ''Zimbabwe'',
     b_payout_currency = ZAR, b_relation_type = ''Sibling'', b_is_active = True, b_created_at = 0\<rparr>"

definition shop_db :: db where
  "shop_db = people_example\<lparr>beneficiaries := [shop_beneficiary]\<rparr>"

definition shop_card :: mock_card where
  "shop_card = \<lparr>card_number = ''4242 4242 4242 4242'', card_expiry = ''12/30'', card_cvv = ''123'',
     card_name = ''T Sender''\<rparr>"

definition shop_price :: accepted_quote where
  "shop_price = \<lparr>aq_exchange_rate = Fin (q_exchange_rate example_quote),
     aq_transaction_fee = Fin (q_transaction_fee example_quote),
     aq_uctusd_amount = Fin (q_uctusd_amount example_quote)\<rparr>"

lemma shop_db_ok: "links_ok shop_db" "sends_ok shop_db" "tiers_ok shop_db"
proof -
  show "links_ok shop_db"
    by (simp add: links_ok_def payable_def shop_db_def shop_beneficiary_def people_example_def
        example_recipient_def example_sender_def)
  show "sends_ok shop_db"
    by (simp add: sends_ok_def shop_db_def people_example_def limits_example_def empty_db_def)
  show "tiers_ok shop_db"
    using limits_example_ok(2) by (simp add: tiers_ok_def shop_db_def people_example_def)
qed

lemma shop_limit: "allowed (check_limit example_settings 0 shop_db example_sender 1000)"
proof -
  have tier: "get_limit_tier shop_db example_sender = Some standard_tier"
    using limits_example_tier by (simp add: get_limit_tier_def shop_db_def people_example_def)
  have use: "get_daily_usage example_settings 0 shop_db 10 = 0" "get_monthly_usage example_settings 0 shop_db 10 = 0"
    by (simp_all add: get_daily_usage_def get_monthly_usage_def sum_zar_since_def shop_db_def
        people_example_def limits_example_def empty_db_def)
  have uid: "u_id example_sender = 10" by (simp add: example_sender_def)
  have "dec_add 0 1000 \<le> (5000 :: dec)" "dec_add 0 1000 \<le> (25000 :: dec)" by (code_simp, code_simp)
  then show ?thesis
    unfolding check_limit_def tier uid use by (simp add: standard_tier_def not_less)
qed

lemma shop_checks:
  "remittance_checks example_settings 0 shop_db example_sender shop_beneficiary (Fin 1000) shop_card shop_price
   = Inr (example_quote, ''4242'')"
proof -
  have "get_active_fee_config shop_db = Some example_fees"
    using example_fees_active by (simp add: get_active_fee_config_def shop_db_def people_example_def limits_example_def)
  then have q: "quote_for example_settings shop_db (Fin 1000) (b_payout_currency shop_beneficiary) = Inr example_quote"
    using example_quote_for by (simp add: shop_beneficiary_def)
  have p: "pricing_matches example_quote shop_price = Inr True"
    by (simp add: pricing_matches_True shop_price_def)
  have z: "q_zar_amount example_quote = 1000" by (simp add: example_quote_def)
  have v: "validate_mock_card 0 shop_card = Inr ''4242''" by code_simp
  show ?thesis unfolding remittance_checks_def q by (simp add: p z v shop_limit raise_if_def)
qed

lemma shop_booked:
  "\<exists>t d'. create_remittance example_settings 0 100 101 shop_db example_sender 40 (Fin 1000) shop_card shop_price
     = (Inr t, d') \<and> t_cashin_status t = CashIn_pending"
proof -
  have b: "get_beneficiary shop_db 40 (u_id example_sender) = Some shop_beneficiary"
    by (simp add: get_beneficiary_def shop_db_def shop_beneficiary_def returning_def example_sender_def)
  have r: "refresh_recipient_link shop_db shop_beneficiary = (Some 11, shop_db)"
    by code_simp
  have ok: "u_can_send example_sender" "u_kyc_status example_sender = Kyc_approved"
    by (simp_all add: example_sender_def)
  have cols: "column_value 20 2 1000" "column_value 20 2 40" "column_value 20 2 960" "column_value 20 6 18.5"
    "column_value 20 6 18.87" "column_value 10 6 0.02" "column_value 20 6 50.874404"
    by (code_simp, code_simp, code_simp, code_simp, code_simp, code_simp, code_simp)
  have "stored_quote example_quote t \<noteq> None" for t
    using cols [THEN store_numeric_id] by (simp add: stored_quote_def example_quote_def)
  then obtain t where "stored_quote example_quote (new_transaction 0 100 101 (u_id example_sender) (b_id shop_beneficiary)
      11 ''4242'') = Some t" by blast
  moreover from stored_quoteE(10) [OF this] have "t_cashin_status t = CashIn_pending"
    by (simp add: new_transaction_def)
  moreover have "card_digits shop_card \<noteq> declined_test_card" by code_simp
  ultimately show ?thesis using b r ok shop_checks by (simp add: create_remittance_def)
qed

theorem remittance_price_lock_witness:
  "\<exists>t d'. create_remittance example_settings 0 100 101 shop_db example_sender 40 (Fin 1000) shop_card shop_price
     = (Inr t, d') \<and> 0 < t_uctusd_amount t"
  using shop_booked remittance_price_lock [OF _ shop_db_ok(1)] by meson

theorem remittance_within_limits_witness:
  "\<exists>t d'. create_remittance example_settings 0 100 101 shop_db example_sender 40 (Fin 1000) shop_card shop_price
     = (Inr t, d') \<and> (\<exists>l. get_limit_tier shop_db example_sender = Some l
      \<and> get_daily_usage example_settings 0 shop_db 10 + t_zar_amount t \<le> l_daily_limit_zar l)"
proof -
  obtain t d' where run: "create_remittance example_settings 0 100 101 shop_db example_sender 40 (Fin 1000)
      shop_card shop_price = (Inr t, d')" using shop_booked by blast
  have "u_id example_sender = 10" by (simp add: example_sender_def)
  with remittance_within_limits [OF run shop_db_ok(2,3)] run show ?thesis by auto
qed

end
