(* ===== verification/Retry.thy ===== *)
theory Retry
  imports CashIn
begin

text \<open>
  What the transitions of \<open>app/services/cashin_service.py\<close> promise: confirming, failing and expiring
  a cash-in happen once, a queue outage never overwrites a worker, and a settlement is re-sent only
  on the ledger's proof that the earlier payment is dead.
\<close>

section \<open>Proof of death\<close>

text \<open>
  The evidence XRPL's reliable submission demands before a signed transaction may be treated as
  dead: a validated failure, or absence from a ledger that is past its deadline, on a server that
  holds the whole range.
\<close>

definition proven_dead :: "int option \<Rightarrow> int option \<Rightarrow> ledger_view \<Rightarrow> bool" where
  "proven_dead last_ledger submitted v \<longleftrightarrow>
     (case v_code v of
        Inl _ \<Rightarrow> False
      | Inr (Some c) \<Rightarrow> c \<noteq> tes_success
      | Inr None \<Rightarrow>
          (case (last_ledger, submitted, v_latest v) of
             (Some l, Some i, Inr latest) \<Rightarrow> l < latest \<and> v_range v i l = Inr True
           | _ \<Rightarrow> False))"

lemma may_resend_unsigned: "\<not> truthy (t_xrpl_tx_hash t) \<Longrightarrow> may_resend t v = Inr True"
  by (simp add: may_resend_def)

lemma refuse_eq:
  "refuse_unless_provably_dead t (v_latest v) (v_range v) = Inr ()
   \<longleftrightarrow> (case (t_last_ledger_sequence t, t_submitted_ledger_index t, v_latest v) of
             (Some l, Some i, Inr latest) \<Rightarrow> l < latest \<and> v_range v i l = Inr True
           | _ \<Rightarrow> False)"
  unfolding refuse_unless_provably_dead_def
  by (cases "v_latest v") (auto simp: not_le split: option.splits)

lemma may_resend_signed:
  assumes "truthy (t_xrpl_tx_hash t)"
  shows "may_resend t v = Inr True
    \<longleftrightarrow> proven_dead (t_last_ledger_sequence t) (t_submitted_ledger_index t) v"
proof (cases "v_code v")
  case (Inl e)
  then show ?thesis using assms by (simp add: may_resend_def proven_dead_def)
next
  case (Inr code)
  show ?thesis
  proof (cases code)
    case None
    then show ?thesis using assms Inr refuse_eq [of t v] by (simp add: may_resend_def proven_dead_def)
  qed (use assms Inr in \<open>simp add: may_resend_def proven_dead_def\<close>)
qed

section \<open>Retrying\<close>

lemma retry_requeuedE:
  assumes "retry_settlement now enqueue v during meanwhile d t = (Inr Retry_requeued, d')"
  obtains d1 r where "d1 = (if truthy (t_xrpl_tx_hash t) then during d else d)" "may_resend t v = Inr True"
    "t_settlement_status t = Settle_failed \<or> is_stuck now t" "t_cashin_status t = CashIn_received"
    "returning (retry_guard t) (transactions d1) = Some r"
    "d' = publish now enqueue meanwhile
       (d1\<lparr>transactions := update_where (retry_guard t) (retried_values now t) (transactions d1)\<rparr>) t"
proof -
  let ?d1 = "if truthy (t_xrpl_tx_hash t) then during d else d"
  have ok: "(t_settlement_status t = Settle_failed \<or> is_stuck now t) \<and> t_cashin_status t = CashIn_received"
    using assms by (auto simp: retry_settlement_def split: if_splits)
  with assms have run: "(case may_resend t v of
             Inl e \<Rightarrow> (Inl e, ?d1)
           | Inr False \<Rightarrow>
               (case complete_settlement now None ?d1 t (or_else (t_xrpl_tx_hash t) []) {t_settlement_status t} of
                  (Inl e, d) \<Rightarrow> (Inl e, d)
                | (Inr _, d) \<Rightarrow> (Inr Retry_reconciled, d))
           | Inr True \<Rightarrow>
               (case returning (retry_guard t) (transactions ?d1) of
                  None \<Rightarrow> (Inl (RemittanceError Settlement_changed), ?d1)
                | Some _ \<Rightarrow>
                    (Inr Retry_requeued, publish now enqueue meanwhile
                       (?d1\<lparr>transactions := update_where (retry_guard t) (retried_values now t)
                            (transactions ?d1)\<rparr>) t))) = (Inr Retry_requeued, d')"
    by (simp add: retry_settlement_def Let_def)
  have "may_resend t v = Inr True"
    using run by (auto split: sum.splits bool.splits prod.splits)
  with run ok that show thesis by (auto split: option.splits)
qed

text \<open>
  C9. No double payment on retry (FR-MQ-06): an admin retry puts a signed settlement back into the
  queue only when the ledger proves that the earlier payment can never move money; and the row that
  goes back has no hash, so a worker may sign again, while the retired hash and its ledger range
  are kept in the row's history.
\<close>

theorem retry_needs_proof:
  assumes "retry_settlement now (\<lambda>_ _. None) v during (\<lambda>d. d) d t = (Inr Retry_requeued, d')"
    and "t_xrpl_tx_hash t = Some h" and "h \<noteq> []"
  shows "proven_dead (t_last_ledger_sequence t) (t_submitted_ledger_index t) v
    \<and> (\<exists>r\<in>set (transactions d'). t_id r = t_id t \<and> t_settlement_status r = Settle_queued
        \<and> t_xrpl_tx_hash r = None \<and> t_settlement_attempts r = 0
        \<and> t_previous_attempts r = t_previous_attempts t @
           [\<lparr>a_tx_hash = h, a_last_ledger_sequence = t_last_ledger_sequence t,
             a_submitted_ledger_index = t_submitted_ledger_index t, a_attempts = t_settlement_attempts t,
             a_failure_reason = t_xrpl_error_reason t, a_retired_at = now\<rparr>])"
  using assms(1)
proof (rule retry_requeuedE)
  fix d1 r
  assume go: "may_resend t v = Inr True" and r: "returning (retry_guard t) (transactions d1) = Some r"
    and d': "d' = publish now (\<lambda>_ _. None) (\<lambda>d. d)
       (d1\<lparr>transactions := update_where (retry_guard t) (retried_values now t) (transactions d1)\<rparr>) t"
  have tr: "truthy (t_xrpl_tx_hash t)" using assms(2,3) by (simp add: truthy_def)
  have "retried_values now t r \<in> set (transactions d')"
    using returning_SomeD [OF r] by (auto simp: d' publish_def in_update_where)
  moreover have "t_id r = t_id t" using returning_SomeD [OF r] by (simp add: retry_guard_def)
  ultimately show ?thesis
    using go may_resend_signed [OF tr] tr assms(2,3)
    by (auto simp: retried_values_def archived_attempts_def intro!: bexI [of _ "retried_values now t r"])
qed

text \<open>A failed payment whose deadline passed, on a server with the full range.\<close>

definition dead_payment :: transaction where
  "dead_payment = example_txn\<lparr>t_settlement_status := Settle_failed, t_xrpl_tx_hash := Some ''H9'',
     t_last_ledger_sequence := Some 120, t_submitted_ledger_index := Some 100\<rparr>"

definition absent_view :: ledger_view where
  "absent_view = \<lparr>v_code = Inr None, v_latest = Inr 121, v_range = (\<lambda>_ _. Inr True)\<rparr>"

lemma retry_example:
  "fst (retry_settlement 7 (\<lambda>_ _. None) absent_view (\<lambda>d. d) (\<lambda>d. d)
      (settle_db\<lparr>transactions := [dead_payment]\<rparr>) dead_payment) = Inr Retry_requeued"
  by (simp add: retry_settlement_def dead_payment_def may_resend_def truthy_def absent_view_def
      refuse_unless_provably_dead_def raise_if_def returning_def retry_guard_def example_txn_def Let_def)

theorem retry_needs_proof_witness:
  "proven_dead (t_last_ledger_sequence dead_payment) (t_submitted_ledger_index dead_payment) absent_view
   \<and> \<not> proven_dead (Some 120) (Some 100) (absent_view\<lparr>v_latest := Inr 120\<rparr>)
   \<and> \<not> proven_dead (Some 120) (Some 100) (absent_view\<lparr>v_range := \<lambda>_ _. Inr False\<rparr>)"
proof -
  obtain d' where "retry_settlement 7 (\<lambda>_ _. None) absent_view (\<lambda>d. d) (\<lambda>d. d)
      (settle_db\<lparr>transactions := [dead_payment]\<rparr>) dead_payment = (Inr Retry_requeued, d')"
    using retry_example by (metis prod.collapse)
  from retry_needs_proof [OF this, of "''H9''"] show ?thesis
    by (simp add: dead_payment_def proven_dead_def absent_view_def)
qed

section \<open>Publishing\<close>

text \<open>
  A queue that accepted the message and still raised cannot undo the worker's claim: when the
  row has left \<open>queued\<close> by the time the exception is handled, \<open>publish\<close> changes nothing; when it
  is still queued, it becomes a visible failure and the money tables are untouched.
\<close>

theorem publish_respects_claim:
  assumes "\<And>r. r \<in> set (transactions (meanwhile d)) \<Longrightarrow> t_id r = t_id t \<Longrightarrow> t_settlement_status r \<noteq> Settle_queued"
  shows "publish now enqueue meanwhile d t = meanwhile d"
proof -
  have "returning (settle_guard (t_id t) {Settle_queued}) (transactions (meanwhile d)) = None"
    using assms by (auto simp: returning_def find_None_all settle_guard_def)
  then show ?thesis by (simp add: publish_def fail_settlement_def split: option.splits)
qed

text \<open>Redis took the message and timed out; a worker claimed the row before the exception surfaced.\<close>

theorem publish_respects_claim_witness:
  "publish 9 (\<lambda>_ _. Some (Raised ''TimeoutError'' [])) (\<lambda>d. snd (claim 8 d (t_idempotency_key example_txn)))
     settle_db example_txn = snd (claim 8 settle_db (t_idempotency_key example_txn))"
  by (rule publish_respects_claim)
    (auto simp: claim_def in_update_where settle_db_def claim_guard_def claim_values_def example_txn_def)

lemma publish_frame [frame_simps]:
  "wallets (publish now enqueue (\<lambda>d. d) d t) = wallets d"
  "users (publish now enqueue (\<lambda>d. d) d t) = users d"
  "cashouts (publish now enqueue (\<lambda>d. d) d t) = cashouts d"
  by (simp_all add: publish_def frame_simps split: option.splits)

lemma publish_cashin_guard:
  assumes "returning (cashin_guard i) (transactions d) = None"
  shows "returning (cashin_guard i) (transactions (publish now enqueue (\<lambda>d. d) d t)) = None"
proof -
  have "\<exists>r0\<in>set (transactions d). t_id r = t_id r0 \<and> t_cashin_status r = t_cashin_status r0"
    if "r \<in> set (transactions (publish now enqueue (\<lambda>d. d) d t))" for r
  proof (cases "enqueue (t_idempotency_key t) (t_id t)")
    case None
    with that show ?thesis by (auto simp: publish_def)
  next
    case (Some e)
    with that obtain r0 why where "r0 \<in> set (transactions d)" "r = r0 \<or> r = failed_values now why None r0"
      by (auto simp: publish_def fail_settlement_def in_update_where split: option.splits if_splits)
    then show ?thesis by (auto simp: failed_values_def)
  qed
  then show ?thesis using assms unfolding returning_def find_None_all cashin_guard_def by metis
qed

section \<open>Deciding a cash-in\<close>

text \<open>
  A cash-in is decided once (FR-CI-02): after it was confirmed or failed, a double click, a
  repeated API call or another admin gets "already processed" and changes nothing, so a second
  settlement message is never published.
\<close>

theorem cashin_decided_once:
  assumes "mark_cashin_received now enqueue (\<lambda>d. d) d t reviewer = (Inr (), d')
    \<or> mark_cashin_failed now d t reviewer why = (Inr (), d')"
  shows "mark_cashin_received now2 enqueue2 meanwhile2 d' t reviewer2
      = (Inl (RemittanceError Cashin_already_processed), d')
    \<and> mark_cashin_failed now2 d' t reviewer2 why2 = (Inl (RemittanceError Cashin_already_processed), d')"
proof -
  have "returning (cashin_guard (t_id t)) (transactions d') = None"
    using assms
  proof
    assume "mark_cashin_received now enqueue (\<lambda>d. d) d t reviewer = (Inr (), d')"
    then have "d' = publish now enqueue (\<lambda>d. d) (d\<lparr>transactions := update_where (cashin_guard (t_id t))
        (received_values now reviewer) (transactions d)\<rparr>) t"
      by (auto simp: mark_cashin_received_def split: option.splits)
    then show ?thesis using publish_cashin_guard [of "t_id t"] cashin_receive.no_match_after by simp
  next
    assume "mark_cashin_failed now d t reviewer why = (Inr (), d')"
    then show ?thesis
      using cashin_fail.no_match_after by (auto simp: mark_cashin_failed_def split: option.splits)
  qed
  then show ?thesis by (simp add: mark_cashin_received_def mark_cashin_failed_def)
qed

definition pending_txn :: transaction where
  "pending_txn = example_txn\<lparr>t_cashin_status := CashIn_pending, t_settlement_status := Settle_not_queued\<rparr>"

definition pending_db :: db where
  "pending_db = settle_db\<lparr>transactions := [pending_txn]\<rparr>"

theorem cashin_decided_once_witness:
  "\<exists>d'. mark_cashin_received 5 (\<lambda>_ _. None) (\<lambda>d. d) pending_db pending_txn None = (Inr (), d')
    \<and> mark_cashin_received 6 (\<lambda>_ _. None) (\<lambda>d. d) d' pending_txn None
      = (Inl (RemittanceError Cashin_already_processed), d')"
proof -
  obtain d' where run: "mark_cashin_received 5 (\<lambda>_ _. None) (\<lambda>d. d) pending_db pending_txn None = (Inr (), d')"
    by (simp add: mark_cashin_received_def pending_db_def pending_txn_def returning_def cashin_guard_def)
  from cashin_decided_once [OF disjI1 [OF run]] run show ?thesis by blast
qed

section \<open>Expiry\<close>

text \<open>
  The expiry sweep releases exactly what abandoned sends held (FR-LIM-01/02): it fails the
  pending cash-ins older than the window and no other row, so a sender's usage drops by exactly
  the amounts of their expired sends in the window; no wallet changes; and running it again at
  the same instant expires nothing.
\<close>

theorem expiry_releases_exactly:
  assumes "expire_stale_cashins now older_than d = (n, d')"
  shows "sum_zar_since d' uid since = sum_zar_since d uid since
      - (\<Sum>t\<leftarrow>filter (\<lambda>t. stale_guard (now - older_than) t \<and> counts_since uid since t) (transactions d). t_zar_amount t)
    \<and> n = length (filter (stale_guard (now - older_than)) (transactions d))
    \<and> wallets d' = wallets d
    \<and> expire_stale_cashins now older_than d' = (0, d')"
proof -
  let ?g = "stale_guard (now - older_than)"
  have d': "transactions d' = update_where ?g (expired_values now) (transactions d)" "wallets d' = wallets d"
    "n = length (filter ?g (transactions d))"
    using assms by (auto simp: expire_stale_cashins_def)
  have "(\<Sum>t\<leftarrow>filter (counts_since uid since) (update_where ?g (expired_values now) ts). t_zar_amount t)
    = (\<Sum>t\<leftarrow>filter (counts_since uid since) ts. t_zar_amount t)
      - (\<Sum>t\<leftarrow>filter (\<lambda>t. ?g t \<and> counts_since uid since t) ts. t_zar_amount t)" for ts
    by (induction ts) (auto simp: update_where_def counts_since_def expired_values_def stale_guard_def)
  then have sum: "sum_zar_since d' uid since = sum_zar_since d uid since
      - (\<Sum>t\<leftarrow>filter (\<lambda>t. ?g t \<and> counts_since uid since t) (transactions d). t_zar_amount t)"
    by (simp add: sum_zar_since_def d'(1))
  have none: "\<forall>t\<in>set (transactions d'). \<not> ?g t"
    using cashin_expire.no_match_after [of "now - older_than" now "transactions d"]
    by (simp add: d'(1) returning_def find_None_all)
  then have "filter ?g (transactions d') = []" "update_where ?g (expired_values now) (transactions d') = transactions d'"
    by (simp_all add: filter_empty_conv update_where_none)
  then show ?thesis using sum d'(2,3) by (simp add: expire_stale_cashins_def)
qed

theorem expiry_releases_exactly_witness:
  "expire_stale_cashins (hours 25) cashin_expiry (snd (expire_stale_cashins (hours 25) cashin_expiry pending_db))
     = (0, snd (expire_stale_cashins (hours 25) cashin_expiry pending_db))
   \<and> fst (expire_stale_cashins (hours 25) cashin_expiry pending_db) = 1"
proof -
  have one: "fst (expire_stale_cashins (hours 25) cashin_expiry pending_db) = 1"
    by (simp add: expire_stale_cashins_def pending_db_def stale_guard_def pending_txn_def example_txn_def cashin_expiry_def)
  obtain n d' where run: "expire_stale_cashins (hours 25) cashin_expiry pending_db = (n, d')" by fastforce
  from expiry_releases_exactly [OF run] one show ?thesis unfolding run by simp
qed

end
