(* ===== verification/CashOut.thy ===== *)
theory CashOut
  imports Retry
begin

text \<open>
  Cash-outs, \<open>app/services/cashout_service.py\<close>: parsing and pricing a request, the amount a
  recipient may still commit, opening a request, the admin's approval (which reserves the money and
  publishes the burn) and rejection, reconciling a held burn with the ledger, and the sweep that
  re-publishes approved burns without a live message.
\<close>

definition publish_grace :: duration where
  "publish_grace = minutes 2"

section \<open>Input\<close>

definition parse_amount :: "string \<Rightarrow> exn + dec" where
  "parse_amount raw =
     (case py_decimal (remove_char CHR '','' (strip raw)) of
        None \<Rightarrow> Inl (CashOutError Amount_not_a_number)
      | Some (Fin v) \<Rightarrow>
          if v \<le> 0 then Inl (CashOutError Amount_not_positive)
          else (case quantize 6 v of
                  Inl _ \<Rightarrow> Inl (CashOutError Amount_too_large)
                | Inr amount \<Rightarrow>
                    if amount \<le> 0 then Inl (CashOutError Amount_below_unit) else Inr amount)
      | Some _ \<Rightarrow> Inl (CashOutError Amount_not_positive))"

definition parse_currency :: "string \<Rightarrow> exn + payout_currency" where
  "parse_currency raw =
     (let s = upper (strip raw)
      in if s = ''USD'' then Inr USD else if s = ''ZAR'' then Inr ZAR
         else Inl (CashOutError Currency_unsupported))"

section \<open>Pricing\<close>

record cashout_pricing =
  cp_uctusd_amount :: dec
  cp_target_currency :: payout_currency
  cp_market_rate :: dec
  cp_cashout_fee_percentage :: dec
  cp_cashout_fee_min_usd :: dec
  cp_cashout_fee_usd :: dec
  cp_net_payout :: dec

definition price_cashout :: "settings \<Rightarrow> db \<Rightarrow> dec \<Rightarrow> payout_currency \<Rightarrow> exn + cashout_pricing" where
  "price_cashout s d amount currency =
     (case get_active_fee_config d of
        None \<Rightarrow> Inl (CashOutError Cashout_unavailable)
      | Some c \<Rightarrow>
          and_then (get_market_rate s d (Some c)) (\<lambda>market_rate.
          and_then (cashout_fee_usd amount (f_cashout_fee_percentage c) (f_cashout_fee_min_usd c)) (\<lambda>fee_usd.
          and_then (cashout_payout amount fee_usd market_rate currency) (\<lambda>payout.
          and_then (raise_if (payout \<le> 0) (CashOutError (Payout_not_positive fee_usd))) (\<lambda>_.
          Inr \<lparr>cp_uctusd_amount = amount, cp_target_currency = currency, cp_market_rate = market_rate,
               cp_cashout_fee_percentage = f_cashout_fee_percentage c,
               cp_cashout_fee_min_usd = f_cashout_fee_min_usd c, cp_cashout_fee_usd = fee_usd,
               cp_net_payout = payout\<rparr>)))))"

definition held_for_requests :: "db \<Rightarrow> uuid \<Rightarrow> dec" where
  "held_for_requests d uid =
     (\<Sum>c\<leftarrow>filter (\<lambda>c. c_recipient_user_id c = uid \<and> c_status c = Out_requested) (cashouts d). c_uctusd_amount c)"

definition available_balance :: "db \<Rightarrow> uuid \<Rightarrow> dec" where
  "available_balance d uid =
     (case get_wallet_for_user d uid of
        None \<Rightarrow> 0
      | Some w \<Rightarrow> dec_sub (w_balance_uctusd w) (held_for_requests d uid))"

text \<open>The three figures of an accepted price that are compared; form decimals, so possibly not finite.\<close>

record accepted_pricing =
  ap_market_rate :: decimal
  ap_cashout_fee_usd :: decimal
  ap_net_payout :: decimal

definition cashout_pricing_matches :: "cashout_pricing \<Rightarrow> accepted_pricing option \<Rightarrow> exn + bool" where
  "cashout_pricing_matches p accepted =
     (case accepted of
        None \<Rightarrow> Inr True
      | Some a \<Rightarrow>
          and_then (arith (equals_dec (cp_market_rate p) (ap_market_rate a))) (\<lambda>b1.
          if \<not> b1 then Inr False else
          and_then (arith (equals_dec (cp_cashout_fee_usd p) (ap_cashout_fee_usd a))) (\<lambda>b2.
          if \<not> b2 then Inr False else
          arith (equals_dec (cp_net_payout p) (ap_net_payout a)))))"

section \<open>Opening a request\<close>

text \<open>The pricing snapshot through its column types.\<close>

definition stored_pricing :: "cashout_pricing \<Rightarrow> cashout_request \<Rightarrow> cashout_request option" where
  "stored_pricing p c =
     (case (store_numeric 20 6 (cp_uctusd_amount p), store_numeric 20 6 (cp_market_rate p),
            store_numeric 10 6 (cp_cashout_fee_percentage p), store_numeric 20 6 (cp_cashout_fee_min_usd p),
            store_numeric 20 6 (cp_cashout_fee_usd p), store_numeric 20 6 (cp_net_payout p)) of
        (Some amount, Some rate, Some pct, Some minimum, Some fee, Some payout) \<Rightarrow>
          Some (c\<lparr>c_uctusd_amount := amount, c_market_rate := rate, c_cashout_fee_percentage := pct,
                  c_cashout_fee_min_usd := minimum, c_cashout_fee_usd := fee, c_net_payout := payout\<rparr>)
      | _ \<Rightarrow> None)"

definition new_request :: "instant \<Rightarrow> uuid \<Rightarrow> uuid \<Rightarrow> uuid \<Rightarrow> uuid \<Rightarrow> payout_currency \<Rightarrow> cashout_request" where
  "new_request now new_id new_key recipient_id wallet_id currency =
     \<lparr>c_id = new_id, c_recipient_user_id = recipient_id, c_wallet_id = wallet_id, c_uctusd_amount = 0,
      c_target_currency = currency, c_market_rate = 0, c_cashout_fee_percentage = 0,
      c_cashout_fee_min_usd = 0, c_cashout_fee_usd = 0, c_net_payout = 0, c_status = Out_requested,
      c_approved_by = None, c_approved_at = None, c_completed_at = None, c_failure_reason = None,
      c_idempotency_key = new_key, c_burn_tx_hash = None, c_burn_last_ledger_sequence = None,
      c_burn_submitted_ledger_index = None, c_burn_started_at = None, c_burn_attempts = 0,
      c_fiat_payout_reference = None, c_fiat_paid_at = None, c_created_at = now, c_updated_at = now\<rparr>"

text \<open>The checks under the wallet lock, in order; \<open>w\<close> is the instance the SELECT returned.\<close>

definition request_checks ::
  "settings \<Rightarrow> db \<Rightarrow> wallet \<Rightarrow> uuid \<Rightarrow> dec \<Rightarrow> payout_currency \<Rightarrow> accepted_pricing option
     \<Rightarrow> exn + cashout_pricing" where
  "request_checks s d w uid amount currency accepted =
     (let available = dec_sub (w_balance_uctusd w) (held_for_requests d uid)
      in and_then (raise_if (available < amount) (CashOutError (Over_available available))) (\<lambda>_.
         and_then (price_cashout s d amount currency) (\<lambda>p.
         and_then (cashout_pricing_matches p accepted) (\<lambda>same.
         and_then (raise_if (\<not> same) PricingChanged) (\<lambda>_. Inr p)))))"

definition create_request ::
  "settings \<Rightarrow> instant \<Rightarrow> uuid \<Rightarrow> uuid \<Rightarrow> wallet option \<Rightarrow> db \<Rightarrow> user \<Rightarrow> dec \<Rightarrow> payout_currency
     \<Rightarrow> accepted_pricing option \<Rightarrow> (exn + cashout_request) \<times> db" where
  "create_request s now new_id new_key loaded d recipient amount currency accepted =
     (case for_update loaded (get_wallet_for_user d (u_id recipient)) of
        None \<Rightarrow> (Inl (CashOutError No_wallet), d)
      | Some w \<Rightarrow>
          (case request_checks s d w (u_id recipient) amount currency accepted of
             Inl e \<Rightarrow> (Inl e, d)
           | Inr p \<Rightarrow>
               (case stored_pricing p (new_request now new_id new_key (u_id recipient) (w_id w) currency) of
                  None \<Rightarrow> (Inl DatabaseError, d)
                | Some c \<Rightarrow> (Inr c, d\<lparr>cashouts := cashouts d @ [c]\<rparr>))))"

section \<open>Approving and rejecting\<close>

text \<open>
  \<open>enqueue\<close> may raise although the queue took the message; \<open>meanwhile\<close> is what workers and other
  sessions commit before the exception is handled. \<open>loaded\<close> is the session's wallet instance.
\<close>

definition publish_burn ::
  "instant \<Rightarrow> (uuid \<Rightarrow> uuid \<Rightarrow> exn option) \<Rightarrow> (db \<Rightarrow> db) \<Rightarrow> wallet option \<Rightarrow> db \<Rightarrow> cashout_request
     \<Rightarrow> (exn + unit) \<times> db" where
  "publish_burn now enqueue meanwhile loaded d req =
     (case enqueue (c_idempotency_key req) (c_id req) of
        None \<Rightarrow> (Inr (), meanwhile d)
      | Some e \<Rightarrow>
          (case fail_and_restore now loaded (meanwhile d) req
                  (''queue_unavailable: '' @ exn_name e @ ''; the reserved UCTUSD was returned'')
                  None {Out_approved} of
             (Inl e', d) \<Rightarrow> (Inl e', d)
           | (Inr _, d) \<Rightarrow> (Inr (), d)))"

definition approved_values :: "instant \<Rightarrow> user \<Rightarrow> cashout_request \<Rightarrow> cashout_request" where
  "approved_values now admin c =
     c\<lparr>c_status := Out_approved, c_approved_by := Some (u_id admin), c_approved_at := Some now,
       c_updated_at := now\<rparr>"

text \<open>The reserve: status and debit commit together; \<open>Inr\<close> is the session's debited wallet instance.\<close>

definition reserve ::
  "instant \<Rightarrow> wallet option \<Rightarrow> db \<Rightarrow> cashout_request \<Rightarrow> user \<Rightarrow> (exn + wallet) \<times> db" where
  "reserve now loaded d req admin =
     (case for_update loaded (by_key w_id (c_wallet_id req) (wallets d)) of
        None \<Rightarrow> (Inl (CashOutError Wallet_missing), d)
      | Some w \<Rightarrow>
          if w_balance_uctusd w < c_uctusd_amount req
          then (Inl (CashOutError (Balance_too_low (w_balance_uctusd w))), d)
          else (case returning (out_guard (c_id req) {Out_requested}) (cashouts d) of
                  None \<Rightarrow> (Inl (CashOutError Already_actioned), d)
                | Some _ \<Rightarrow>
                    (let left = dec_sub (w_balance_uctusd w) (c_uctusd_amount req)
                     in case write_balance now w left (wallets d) of
                          None \<Rightarrow> (Inl DatabaseError, d)
                        | Some ws \<Rightarrow>
                            (Inr (set_balance now left w),
                             d\<lparr>cashouts := update_where (out_guard (c_id req) {Out_requested})
                                 (approved_values now admin) (cashouts d), wallets := ws\<rparr>))))"

definition approve ::
  "instant \<Rightarrow> (uuid \<Rightarrow> uuid \<Rightarrow> exn option) \<Rightarrow> (db \<Rightarrow> db) \<Rightarrow> wallet option \<Rightarrow> db \<Rightarrow> cashout_request \<Rightarrow> user
     \<Rightarrow> (exn + unit) \<times> db" where
  "approve now enqueue meanwhile loaded d req admin =
     (case reserve now loaded d req admin of
        (Inl e, d) \<Rightarrow> (Inl e, d)
      | (Inr w, d) \<Rightarrow> publish_burn now enqueue meanwhile (Some w) d req)"

definition rejected_values :: "instant \<Rightarrow> user \<Rightarrow> string \<Rightarrow> cashout_request \<Rightarrow> cashout_request" where
  "rejected_values now admin why c =
     c\<lparr>c_status := Out_failed, c_approved_by := Some (u_id admin), c_approved_at := Some now,
       c_failure_reason := Some (if strip why = [] then ''Rejected by an administrator.'' else strip why),
       c_updated_at := now\<rparr>"

definition reject :: "instant \<Rightarrow> db \<Rightarrow> cashout_request \<Rightarrow> user \<Rightarrow> string \<Rightarrow> (exn + unit) \<times> db" where
  "reject now d req admin why =
     (case returning (out_guard (c_id req) {Out_requested}) (cashouts d) of
        None \<Rightarrow> (Inl (CashOutError Already_actioned), d)
      | Some _ \<Rightarrow>
          (Inr (), d\<lparr>cashouts := update_where (out_guard (c_id req) {Out_requested})
                       (rejected_values now admin why) (cashouts d)\<rparr>))"

section \<open>Reconciling with the ledger\<close>

datatype reconcile_result = Rec_completed | Rec_failed | Unresolved

text \<open>What the ledger proves of a burn; an absent one only past its deadline and without gaps.\<close>

datatype verdict = Burned | Dead string | Undecided

definition ledger_verdict :: "cashout_request \<Rightarrow> ledger_view \<Rightarrow> exn + verdict" where
  "ledger_verdict req v =
     and_then (v_code v) (\<lambda>code.
       case code of
         Some c \<Rightarrow> Inr (if c = tes_success then Burned else Dead (c @ '': burn rejected on-ledger''))
       | None \<Rightarrow>
           (case (c_burn_last_ledger_sequence req, c_burn_submitted_ledger_index req) of
              (Some last_ledger, Some submitted_at) \<Rightarrow>
                and_then (v_latest v) (\<lambda>latest.
                if latest \<le> last_ledger then Inr Undecided
                else and_then (v_range v submitted_at last_ledger) (\<lambda>complete.
                     if \<not> complete then Inr Undecided
                     else Inr (Dead (''expired: not validated by ledger '' @ text_of_int last_ledger
                            @ ''; the burn can never be included''))))
            | _ \<Rightarrow> Inr Undecided))"

definition reconcile ::
  "instant \<Rightarrow> ledger_view \<Rightarrow> (db \<Rightarrow> db) \<Rightarrow> wallet option \<Rightarrow> db \<Rightarrow> cashout_request
     \<Rightarrow> (exn + reconcile_result) \<times> db" where
  "reconcile now v during_lookup loaded d req =
     (if c_status req \<in> {Out_completed, Out_failed} then (Inl (CashOutError Already_resolved), d)
      else if c_status req \<noteq> Out_approved \<or> \<not> truthy (c_burn_tx_hash req)
      then (Inl (CashOutError No_burn_to_reconcile), d)
      else
        let d = during_lookup d
        in case ledger_verdict req v of
             Inl e \<Rightarrow> (Inl e, d)
           | Inr Undecided \<Rightarrow> (Inr Unresolved, d)
           | Inr Burned \<Rightarrow>
               (Inr Rec_completed, snd (complete_burn now d req (or_else (c_burn_tx_hash req) []) {Out_approved}))
           | Inr (Dead why) \<Rightarrow>
               (case fail_and_restore now loaded d req why (c_burn_tx_hash req) {Out_approved} of
                  (Inl e, d) \<Rightarrow> (Inl e, d)
                | (Inr _, d) \<Rightarrow> (Inr Rec_failed, d)))"

section \<open>The sweep\<close>

definition sweep_guard :: "instant \<Rightarrow> duration \<Rightarrow> duration \<Rightarrow> cashout_request \<Rightarrow> bool" where
  "sweep_guard now grace stale c \<longleftrightarrow>
     c_status c = Out_approved \<and> c_burn_tx_hash c = None
     \<and> ((c_burn_started_at c = None
          \<and> (case c_approved_at c of None \<Rightarrow> False | Some t \<Rightarrow> t < now - grace))
        \<or> (case c_burn_started_at c of None \<Rightarrow> False | Some t \<Rightarrow> t < now - stale))"

text \<open>The published messages; a row whose \<open>enqueue\<close> raises is left for the next sweep.\<close>

definition sweep_unpublished ::
  "instant \<Rightarrow> duration \<Rightarrow> duration \<Rightarrow> (uuid \<Rightarrow> uuid \<Rightarrow> exn option) \<Rightarrow> db \<Rightarrow> uuid list" where
  "sweep_unpublished now grace stale enqueue d =
     map c_id (filter (\<lambda>c. enqueue (c_idempotency_key c) (c_id c) = None)
       (filter (sweep_guard now grace stale) (cashouts d)))"

section \<open>Queries\<close>

definition get_request :: "db \<Rightarrow> uuid \<Rightarrow> uuid option \<Rightarrow> cashout_request option" where
  "get_request d i recipient_id =
     returning (\<lambda>c. c_id c = i \<and> (case recipient_id of None \<Rightarrow> True | Some r \<Rightarrow> c_recipient_user_id c = r))
       (cashouts d)"

definition list_for_recipient :: "db \<Rightarrow> uuid \<Rightarrow> cashout_request list" where
  "list_for_recipient d uid = newest_first c_created_at (filter (\<lambda>c. c_recipient_user_id c = uid) (cashouts d))"

definition count_open :: "db \<Rightarrow> nat \<times> nat" where
  "count_open d =
     (length (filter (\<lambda>c. c_status c = Out_requested) (cashouts d)),
      length (filter (\<lambda>c. c_status c = Out_approved \<and> c_burn_tx_hash c \<noteq> None
        \<and> (case c_failure_reason c of None \<Rightarrow> False | Some r \<Rightarrow> like ''outcome_unknown%'' r)) (cashouts d)))"

definition list_open :: "db \<Rightarrow> cashout_request list" where
  "list_open d = ordered_by c_created_at (filter (\<lambda>c. c_status c \<in> {Out_requested, Out_approved}) (cashouts d))"

section \<open>Reading back a rendered amount\<close>

text \<open>Characters of a rendered amount: digits and one point.\<close>

definition amount_char :: "char \<Rightarrow> bool" where
  "amount_char c \<longleftrightarrow> is_digit c \<or> c = CHR ''.''"

lemma amount_char_not:
  "amount_char c \<Longrightarrow> \<not> is_space c \<and> c \<noteq> CHR ''_'' \<and> c \<noteq> CHR '','' \<and> c \<noteq> CHR ''-'' \<and> c \<noteq> CHR ''+''"
  by (auto simp: amount_char_def is_digit_def is_space_def code_def)

lemma remove_char_none: "c \<notin> set s \<Longrightarrow> remove_char c s = s"
  by (auto simp: remove_char_def filter_id_conv)

lemma fixed_text_parts:
  assumes "0 \<le> x" and "0 < k"
  obtains whole fr where "fixed_text k x = whole @ CHR ''.'' # fr" "isdigit whole"
    "list_all is_digit fr" "length fr = k"
    "digits_value (whole @ fr) = \<lfloor>x * 10 ^ k\<rfloor>"
proof -
  let ?c = "\<lfloor>x * 10 ^ k\<rfloor>"
  let ?whole = "digits_of_int (?c div 10 ^ k)" and ?fr = "fixed_digits k (?c mod 10 ^ k)"
  have c: "0 \<le> ?c" using assms(1) by simp
  then have w: "digits_value ?whole = ?c div 10 ^ k" "isdigit ?whole"
    using digits_of_int_value [of "?c div 10 ^ k"] by (simp_all add: pos_imp_zdiv_nonneg_iff)
  have f: "digits_value ?fr = ?c mod 10 ^ k" "length ?fr = k" "list_all is_digit ?fr"
    using fixed_digits_value [of k "?c mod 10 ^ k"] by simp_all
  have "fixed_text k x = ?whole @ CHR ''.'' # ?fr"
    using assms by (simp add: fixed_text_def Let_def)
  moreover have "digits_value (?whole @ ?fr) = ?c"
    by (simp only: digits_value_append w(1) f(1,2) div_mult_mod_eq)
  ultimately show thesis using w(2) f(2,3) that by blast
qed

lemma parse_unsigned_point:
  assumes "isdigit whole" and "list_all is_digit fr"
  shows "parse_unsigned (whole @ CHR ''.'' # fr)
    = Some (of_int (digits_value (whole @ fr)) / 10 ^ length fr)"
proof -
  have dot: "\<not> is_digit CHR ''.''" by code_simp
  have tw: "takeWhile is_digit (whole @ CHR ''.'' # fr) = whole"
    "dropWhile is_digit (whole @ CHR ''.'' # fr) = CHR ''.'' # fr"
    using assms(1) dot by (auto simp: isdigit_def list_all_iff takeWhile_tail dropWhile_append3)
  have tf: "takeWhile is_digit fr = fr" "dropWhile is_digit fr = []"
    using assms(2) by (simp_all add: list_all_iff takeWhile_eq_all_conv dropWhile_eq_Nil_conv)
  have "whole \<noteq> []" using assms(1) by (simp add: isdigit_def)
  then show ?thesis
    unfolding parse_unsigned_def Let_def tw
    by (simp add: tf parse_exponent_def power_int_minus divide_inverse)
qed

lemma py_decimal_fixed_text:
  assumes "on_grid k x" and "0 \<le> x" and "0 < k"
  shows "py_decimal (fixed_text k x) = Some (Fin x)"
    "strip (fixed_text k x) = fixed_text k x" "CHR '','' \<notin> set (fixed_text k x)"
proof -
  from assms(2,3) obtain whole fr where t: "fixed_text k x = whole @ CHR ''.'' # fr"
    and w: "isdigit whole" and f: "list_all is_digit fr" "length fr = k"
    and v: "digits_value (whole @ fr) = \<lfloor>x * 10 ^ k\<rfloor>"
    by (rule fixed_text_parts)
  let ?t = "whole @ CHR ''.'' # fr"
  have all: "\<forall>c\<in>set ?t. amount_char c"
    using w f(1) by (auto simp: amount_char_def isdigit_def list_all_iff)
  have st: "strip ?t = ?t"
    using all amount_char_not by (intro strip_digits) (metis list_all_iff)
  have rm: "remove_char CHR ''_'' ?t = ?t"
    using all amount_char_not by (intro remove_char_none) blast
  have ne: "?t \<noteq> []" "hd ?t \<noteq> CHR ''-''" "hd ?t \<noteq> CHR ''+''"
    using all amount_char_not hd_in_set [of ?t] by auto
  have "of_int \<lfloor>x * 10 ^ k\<rfloor> / 10 ^ k = x * 10 ^ k / 10 ^ k"
    using assms(1) by (simp only: on_grid_def)
  also have "\<dots> = x" by simp
  finally have "of_int \<lfloor>x * 10 ^ k\<rfloor> / 10 ^ k = x" .
  then have "parse_unsigned ?t = Some x" using parse_unsigned_point [OF w f(1)] by (simp only: v f(2))
  then show "py_decimal (fixed_text k x) = Some (Fin x)"
    unfolding t py_decimal_def Let_def st rm using ne by simp
  show "strip (fixed_text k x) = fixed_text k x" unfolding t by (rule st)
  show "CHR '','' \<notin> set (fixed_text k x)" unfolding t using all amount_char_not by blast
qed

section \<open>Laws of parsing and pricing\<close>

lemma parse_amountE:
  assumes "parse_amount raw = Inr a"
  obtains v where "py_decimal (remove_char CHR '','' (strip raw)) = Some (Fin v)" "0 < v"
    "quantize 6 v = Inr a" "0 < a"
  using assms unfolding parse_amount_def
  by (auto split: option.splits decimal.splits sum.splits if_splits)

lemma parse_amount_grid: "parse_amount raw = Inr a \<Longrightarrow> 0 < a \<and> on_grid 6 a \<and> quantize 6 a = Inr a"
  by (auto elim!: parse_amountE simp: quantize_on_grid quantize_fits quantize_id)

text \<open>
  Every amount \<open>parse_amount\<close> lets through is usable: it is positive, has at most six
  decimals, becomes a ledger amount without an exception (so a cash-out is never refused for its
  amount after the money was reserved), and the text the ledger amount carries parses back to
  the same amount.
\<close>

theorem parsed_amount_usable:
  assumes "parse_amount raw = Inr a"
  shows "0 < a \<and> on_grid 6 a
    \<and> uctusd s a = Inr \<lparr>i_currency = xrpl_currency_code s, i_issuer = xrpl_issuer_address s,
                       i_value = fixed_text 6 a\<rparr>
    \<and> parse_amount (fixed_text 6 a) = Inr a"
proof -
  have pos: "0 < a" and g: "on_grid 6 a" and q: "quantize 6 a = Inr a"
    using parse_amount_grid [OF assms] by simp_all
  note rt = py_decimal_fixed_text [OF g less_imp_le [OF pos], simplified]
  have "parse_amount (fixed_text 6 a) = Inr a"
    unfolding parse_amount_def rt(2) remove_char_none [OF rt(3)] rt(1) using q pos by simp
  then show ?thesis using q pos g by (simp add: uctusd_def)
qed

theorem parsed_amount_usable_witness:
  "parse_amount (fixed_text 6 12.5) = Inr (12.5 :: rat)"
proof -
  have "parse_amount '' 12.50 '' = Inr 12.5" by code_simp
  from parsed_amount_usable [OF this] show ?thesis by simp
qed

section \<open>Laws of a price\<close>

lemma on_grid_mono: "on_grid k x \<Longrightarrow> k \<le> m \<Longrightarrow> on_grid m x"
proof (elim on_gridE)
  fix n assume x: "x = of_int n / 10 ^ k" and le: "k \<le> m"
  have "x = of_int (n * 10 ^ (m - k)) / 10 ^ m"
    using le by (simp add: x power_add [symmetric] field_simps flip: power_add)
  then show "on_grid m x" by (simp only: on_grid_of_int)
qed

lemma get_market_rate_grid:
  assumes "get_market_rate s d c = Inr r"
  shows "on_grid 6 r" "fits 6 r"
  using assms quantize_on_grid quantize_fits
  by (auto simp: get_market_rate_def Let_def quantize_any_Inr split: if_splits option.splits)

lemma cashout_payout_grid: "cashout_payout a fee rate cur = Inr p \<Longrightarrow> on_grid 6 p"
  using on_grid_mono [of 2 p 6] quantize_on_grid
  by (cases cur) (auto simp: cashout_payout_def Let_def)

lemma price_cashoutE:
  assumes "price_cashout s d amount cur = Inr p"
  obtains c where "get_active_fee_config d = Some c"
    "get_market_rate s d (Some c) = Inr (cp_market_rate p)"
    "cashout_fee_usd amount (f_cashout_fee_percentage c) (f_cashout_fee_min_usd c) = Inr (cp_cashout_fee_usd p)"
    "cashout_payout amount (cp_cashout_fee_usd p) (cp_market_rate p) cur = Inr (cp_net_payout p)"
    "0 < cp_net_payout p" "cp_uctusd_amount p = amount" "cp_target_currency p = cur"
  using assms unfolding price_cashout_def
  by (auto split: option.splits)

lemma price_grids:
  assumes "price_cashout s d amount cur = Inr p"
  shows "on_grid 6 (cp_market_rate p)" "on_grid 6 (cp_cashout_fee_usd p)" "on_grid 6 (cp_net_payout p)"
    "0 < cp_net_payout p" "cp_uctusd_amount p = amount"
  using assms
  by (auto elim!: price_cashoutE dest: get_market_rate_grid cashout_fee_usd_Inr(2) cashout_payout_grid)

lemma cashout_pricing_matches_True:
  "cashout_pricing_matches p (Some a) = Inr True \<longleftrightarrow> ap_market_rate a = Fin (cp_market_rate p)
     \<and> ap_cashout_fee_usd a = Fin (cp_cashout_fee_usd p) \<and> ap_net_payout a = Fin (cp_net_payout p)"
proof -
  have "cashout_pricing_matches p (Some a) = Inr True
    \<longleftrightarrow> arith (equals_dec (cp_market_rate p) (ap_market_rate a)) = Inr True
     \<and> arith (equals_dec (cp_cashout_fee_usd p) (ap_cashout_fee_usd a)) = Inr True
     \<and> arith (equals_dec (cp_net_payout p) (ap_net_payout a)) = Inr True"
    unfolding cashout_pricing_matches_def by (auto split: if_splits)
  then show ?thesis by (simp only: equals_dec_True)
qed

lemma request_checksE:
  assumes "request_checks s d w uid amount cur acc = Inr p"
  shows "amount \<le> dec_sub (w_balance_uctusd w) (held_for_requests d uid)"
    "price_cashout s d amount cur = Inr p" "cashout_pricing_matches p acc = Inr True"
  using assms unfolding request_checks_def Let_def by auto

lemma stored_pricingE:
  assumes "stored_pricing p c = Some c'"
  shows "c_uctusd_amount c' = to_grid 6 (cp_uctusd_amount p)" "c_market_rate c' = to_grid 6 (cp_market_rate p)"
    "c_cashout_fee_usd c' = to_grid 6 (cp_cashout_fee_usd p)" "c_net_payout c' = to_grid 6 (cp_net_payout p)"
    "column_value 20 6 (c_uctusd_amount c')"
    "c_recipient_user_id c' = c_recipient_user_id c" "c_status c' = c_status c" "c_id c' = c_id c"
    "c_wallet_id c' = c_wallet_id c" "c_burn_tx_hash c' = c_burn_tx_hash c"
    "c_idempotency_key c' = c_idempotency_key c" "c_target_currency c' = c_target_currency c"
  using assms by (auto simp: stored_pricing_def store_numeric_eq split: option.splits)

lemma create_requestE:
  assumes "create_request s now i k loaded d u amount cur acc = (Inr c, d')"
  obtains w p where "for_update loaded (get_wallet_for_user d (u_id u)) = Some w"
    "request_checks s d w (u_id u) amount cur acc = Inr p"
    "stored_pricing p (new_request now i k (u_id u) (w_id w) cur) = Some c"
    "d' = d\<lparr>cashouts := cashouts d @ [c]\<rparr>"
  using assms unfolding create_request_def by (auto split: option.splits sum.splits)

text \<open>The row of a request, from a six-decimal amount (what \<open>parse_amount\<close> returns).\<close>

lemma requested_row:
  assumes "create_request s now i k loaded d u amount cur acc = (Inr c, d')" and "on_grid 6 amount"
  shows "c_uctusd_amount c = amount \<and> c_status c = Out_requested \<and> c_recipient_user_id c = u_id u
    \<and> c_burn_tx_hash c = None \<and> column_value 20 6 amount \<and> c_id c = i \<and> c_idempotency_key c = k
    \<and> c_target_currency c = cur \<and> 0 < c_net_payout c"
    "acc = Some a \<Longrightarrow> a = \<lparr>ap_market_rate = Fin (c_market_rate c),
       ap_cashout_fee_usd = Fin (c_cashout_fee_usd c), ap_net_payout = Fin (c_net_payout c)\<rparr>"
proof -
  from assms(1) obtain w p where chk: "request_checks s d w (u_id u) amount cur acc = Inr p"
    and st: "stored_pricing p (new_request now i k (u_id u) (w_id w) cur) = Some c"
    by (rule create_requestE)
  note row = stored_pricingE [OF st] and pr = price_grids [OF request_checksE(2) [OF chk]]
  show "c_uctusd_amount c = amount \<and> c_status c = Out_requested \<and> c_recipient_user_id c = u_id u
    \<and> c_burn_tx_hash c = None \<and> column_value 20 6 amount \<and> c_id c = i \<and> c_idempotency_key c = k
    \<and> c_target_currency c = cur \<and> 0 < c_net_payout c"
    using row pr assms(2) by (simp add: to_grid_id new_request_def)
  assume "acc = Some a"
  with request_checksE(3) [OF chk] show "a = \<lparr>ap_market_rate = Fin (c_market_rate c),
       ap_cashout_fee_usd = Fin (c_cashout_fee_usd c), ap_net_payout = Fin (c_net_payout c)\<rparr>"
    using row pr by (simp add: cashout_pricing_matches_True to_grid_id)
qed

text \<open>
  The cash-out the sender's quote predicts is the cash-out the recipient gets (FR-FX-06,
  FR-CO-02): under one fee configuration and rate, pricing the quoted UCTUSD amount succeeds
  exactly when the quote's estimated payout is positive, and then charges the estimated fee and
  pays the estimated payout, to the last digit.
\<close>

theorem quote_estimate_is_price:
  assumes "quote_for s d send cur = Inr q"
  shows "(q_payout_estimate q \<le> 0
      \<longrightarrow> price_cashout s d (q_uctusd_amount q) cur
          = Inl (CashOutError (Payout_not_positive (q_cashout_fee_estimate q))))
    \<and> (0 < q_payout_estimate q
      \<longrightarrow> (\<exists>p. price_cashout s d (q_uctusd_amount q) cur = Inr p
           \<and> cp_cashout_fee_usd p = q_cashout_fee_estimate q \<and> cp_net_payout p = q_payout_estimate q
           \<and> cp_market_rate p = q_market_rate q))"
proof -
  from assms obtain c rate where c: "get_active_fee_config d = Some c"
    and rate: "get_market_rate s d (Some c) = Inr rate"
    and calc: "calculate_quote send rate (f_fixed_fee_zar c) (f_percentage_fee c) (f_fx_margin c)
        (f_cashout_fee_percentage c) (f_cashout_fee_min_usd c) cur = Inr q"
    by (auto simp: quote_for_def split: option.splits)
  from calc show ?thesis
  proof (rule calculate_quoteE)
    assume m: "quantize 6 rate = Inr (q_market_rate q)"
      and est: "cashout_fee_usd (q_uctusd_amount q) (f_cashout_fee_percentage c) (f_cashout_fee_min_usd c)
        = Inr (q_cashout_fee_estimate q)"
      and pay: "cashout_payout (q_uctusd_amount q) (q_cashout_fee_estimate q) (q_market_rate q) cur
        = Inr (q_payout_estimate q)"
    have "rate = q_market_rate q" using m quantize_id [OF get_market_rate_grid [OF rate]] by simp
    then show ?thesis using c rate est pay by (auto simp: price_cashout_def raise_if_def)
  qed
qed

section \<open>What requests hold\<close>

definition requests_ok :: "db \<Rightarrow> bool" where
  "requests_ok d \<longleftrightarrow> (\<forall>c\<in>set (cashouts d). column_value 20 6 (c_uctusd_amount c) \<and> 0 < c_uctusd_amount c)"

text \<open>No recipient has promised more than they have.\<close>

definition covered :: "db \<Rightarrow> bool" where
  "covered d \<longleftrightarrow> (\<forall>uid. held_for_requests d uid \<le> balance_of d uid)"

lemma held_nonneg: "requests_ok d \<Longrightarrow> 0 \<le> held_for_requests d uid"
  unfolding held_for_requests_def requests_ok_def by (rule sum_list_nonneg) (auto intro: less_imp_le)

lemma held_on_grid: "requests_ok d \<Longrightarrow> on_grid 6 (held_for_requests d uid)"
  by (auto simp: held_for_requests_def requests_ok_def column_value_def intro!: on_grid_sum_list)

lemma held_as_sum:
  "held_for_requests d uid
   = (\<Sum>c\<leftarrow>cashouts d. if c_recipient_user_id c = uid \<and> c_status c = Out_requested then c_uctusd_amount c else 0)"
  unfolding held_for_requests_def by (rule sum_list_map_filter')

lemma balance_column: "balances_ok d \<Longrightarrow> column_value 20 6 (balance_of d uid)"
  by (auto simp: balance_of_def balances_ok_def get_wallet_for_user_def dest: by_key_Some split: option.splits)

lemma available_exact:
  assumes "balances_ok d" and "requests_ok d" and "covered d"
  shows "dec_sub (balance_of d uid) (held_for_requests d uid) = balance_of d uid - held_for_requests d uid"
proof -
  have b: "column_value 20 6 (balance_of d uid)" using assms(1) by (rule balance_column)
  have h: "0 \<le> held_for_requests d uid" "on_grid 6 (held_for_requests d uid)"
    "held_for_requests d uid \<le> balance_of d uid"
    using assms held_nonneg held_on_grid by (auto simp: covered_def)
  from h(1,3) have pos: "0 \<le> balance_of d uid" by simp
  have fb: "fits 6 (balance_of d uid)" using b by (rule column_fits) simp_all
  then have fh: "fits 6 (held_for_requests d uid)" using h(1,3) by (simp add: fits_def)
  show ?thesis
    using b h fb fh pos by (intro dec_sub_exact fits_diff) (simp_all add: column_value_def)
qed

text \<open>
  C20. A recipient cannot promise money they do not have, and gets the price they accepted
  (FR-CO-01, FR-CO-02): on a fresh read of the wallet, opening a request that passes stores the
  accepted rate, fee and payout unchanged, a positive payout, and leaves everything requested
  within the balance, for every recipient.
\<close>

theorem request_covered:
  assumes "create_request s now i k None d u amount cur acc = (Inr c, d')"
    and "parse_amount raw = Inr amount"
    and "balances_ok d" and "requests_ok d" and "covered d"
  shows "covered d' \<and> requests_ok d' \<and> c_uctusd_amount c = amount \<and> 0 < c_net_payout c
    \<and> held_for_requests d' (u_id u) = held_for_requests d (u_id u) + amount
    \<and> (\<forall>a. acc = Some a \<longrightarrow> a = \<lparr>ap_market_rate = Fin (c_market_rate c),
         ap_cashout_fee_usd = Fin (c_cashout_fee_usd c), ap_net_payout = Fin (c_net_payout c)\<rparr>)"
proof -
  have g: "on_grid 6 amount" "0 < amount" using parse_amount_grid [OF assms(2)] by simp_all
  note row = requested_row(1) [OF assms(1) g(1)]
  from assms(1) obtain w p where w: "get_wallet_for_user d (u_id u) = Some w"
    and chk: "request_checks s d w (u_id u) amount cur acc = Inr p"
    and d': "d' = d\<lparr>cashouts := cashouts d @ [c]\<rparr>"
    by (rule create_requestE) (simp add: for_update_def split: option.splits)
  have bal: "balance_of d (u_id u) = w_balance_uctusd w" by (simp add: balance_of_def w)
  have held: "held_for_requests d' uid = held_for_requests d uid + (if uid = u_id u then amount else 0)" for uid
    using row by (simp add: held_as_sum d')
  have same: "balance_of d' uid = balance_of d uid" for uid by (rule balance_of_cong) (simp add: d')
  have "held_for_requests d (u_id u) + amount \<le> balance_of d (u_id u)"
    using request_checksE(1) [OF chk] available_exact [OF assms(3-5), of "u_id u"] by (simp add: bal)
  then have "covered d'" using assms(5) by (auto simp: covered_def held same)
  moreover have "requests_ok d'" using assms(4) row g(2) by (auto simp: requests_ok_def d')
  ultimately show ?thesis using row held [of "u_id u"] requested_row(2) [OF assms(1) g(1)] by simp
qed

section \<open>Laws of the reserve\<close>

interpretation out_approve: guarded_change c_id "approved_values now admin" "out_guard i {Out_requested}"
  for now admin i
  by unfold_locales (simp_all add: approved_values_def out_guard_def)

interpretation out_reject: guarded_change c_id "rejected_values now admin why" "out_guard i {Out_requested}"
  for now admin why i
  by unfold_locales (simp_all add: rejected_values_def out_guard_def)

lemma reserveE:
  assumes "reserve now loaded d req admin = (Inr w', d')"
  obtains w c ws where "for_update loaded (by_key w_id (c_wallet_id req) (wallets d)) = Some w"
    "c_uctusd_amount req \<le> w_balance_uctusd w"
    "returning (out_guard (c_id req) {Out_requested}) (cashouts d) = Some c"
    "write_balance now w (dec_sub (w_balance_uctusd w) (c_uctusd_amount req)) (wallets d) = Some ws"
    "w' = set_balance now (dec_sub (w_balance_uctusd w) (c_uctusd_amount req)) w"
    "d' = d\<lparr>cashouts := update_where (out_guard (c_id req) {Out_requested}) (approved_values now admin) (cashouts d),
            wallets := ws\<rparr>"
  using assms unfolding reserve_def Let_def
  by (auto split: option.splits if_splits simp: not_less)

lemma reserve_Inl: "reserve now loaded d req admin = (Inl e, d') \<Longrightarrow> d' = d"
  by (auto simp: reserve_def Let_def split: option.splits if_splits)

text \<open>The debit, from the instance the session works on.\<close>

lemma column_value_minus: "column_value p s (- x) = column_value p s x"
  using on_grid_minus [of s x] on_grid_minus [of s "- x"] by (auto simp: column_value_def)

lemma debit_balance:
  assumes "reserve now loaded d req admin = (Inr w', d')"
    and "unique_wallets (wallets d)" and "by_key w_id (c_wallet_id req) (wallets d) = Some row"
    and "loaded = None \<or> loaded = Some w" and "w_id w = w_id row"
    and "column_value 20 6 (w_balance_uctusd (if loaded = None then row else w))"
    and "column_value 20 6 (c_uctusd_amount req)" and "0 < c_uctusd_amount req"
  shows "balance_of d' uid = (if w_user_id row = uid
     then w_balance_uctusd (if loaded = None then row else w) - c_uctusd_amount req else balance_of d uid)"
    "c_uctusd_amount req \<le> w_balance_uctusd (if loaded = None then row else w)"
proof -
  define inst where "inst = (if loaded = None then row else w)"
  have fu: "for_update loaded (Some row) = Some inst"
    using assms(4,5) by (auto simp: for_update_def inst_def)
  from assms(1) obtain ws where
    ws: "write_balance now inst (dec_sub (w_balance_uctusd inst) (c_uctusd_amount req)) (wallets d) = Some ws"
      "wallets d' = ws" and le: "c_uctusd_amount req \<le> w_balance_uctusd inst"
    by (rule reserveE) (simp add: assms(3) fu)
  have neg: "dec_sub (w_balance_uctusd inst) (c_uctusd_amount req)
      = dec_add (w_balance_uctusd inst) (- c_uctusd_amount req)"
    by (simp add: dec_sub_def dec_add_def)
  have row: "row \<in> set (wallets d)" using assms(3) by (auto dest: by_key_Some)
  have id: "w_id inst = w_id row" using assms(5) by (simp add: inst_def)
  show "c_uctusd_amount req \<le> w_balance_uctusd (if loaded = None then row else w)"
    using le by (simp add: inst_def)
  show "balance_of d' uid = (if w_user_id row = uid
     then w_balance_uctusd (if loaded = None then row else w) - c_uctusd_amount req else balance_of d uid)"
    using write_balance_of [OF ws(1) [unfolded neg] ws(2) assms(2) row id] assms(6-8)
    by (simp add: inst_def column_value_minus)
qed

section \<open>Examples\<close>

definition priced_db :: db where
  "priced_db = settle_db"

lemma priced_ok: "balances_ok priced_db" "requests_ok priced_db" "covered priced_db"
proof -
  show b: "balances_ok priced_db" using settle_db_ok by (simp add: priced_db_def)
  show "requests_ok priced_db"
    by (simp add: requests_ok_def priced_db_def settle_db_def people_example_def limits_example_def empty_db_def)
  have "held_for_requests priced_db uid = 0" for uid
    by (simp add: held_for_requests_def priced_db_def settle_db_def people_example_def limits_example_def empty_db_def)
  moreover have "0 \<le> balance_of priced_db uid" for uid
    by (auto simp: balance_of_def get_wallet_for_user_def by_key_def priced_db_def settle_db_def example_wallet_def)
  ultimately show "covered priced_db" by (simp add: covered_def)
qed

lemma request_example:
  "\<exists>c d'. create_request example_settings 7 90 91 None priced_db example_recipient 4 ZAR None = (Inr c, d')"
proof -
  have fees: "get_active_fee_config priced_db = Some example_fees"
    using example_fees_active
    by (simp add: get_active_fee_config_def priced_db_def settle_db_def people_example_def limits_example_def)
  have w: "get_wallet_for_user priced_db (u_id example_recipient) = Some example_wallet"
    by (simp add: get_wallet_for_user_def by_key_def priced_db_def settle_db_def example_wallet_def example_recipient_def)
  have held: "held_for_requests priced_db (u_id example_recipient) = 0"
    by (simp add: held_for_requests_def priced_db_def settle_db_def people_example_def limits_example_def empty_db_def)
  have fee: "cashout_fee_usd 4 (f_cashout_fee_percentage example_fees) (f_cashout_fee_min_usd example_fees) = Inr 1"
    by code_simp
  have pay: "cashout_payout 4 1 18.5 ZAR = Inr (111 / 2)" by code_simp
  have avail: "dec_sub (w_balance_uctusd example_wallet) 0 = 10" by code_simp
  let ?p = "\<lparr>cp_uctusd_amount = 4, cp_target_currency = ZAR, cp_market_rate = 18.5,
    cp_cashout_fee_percentage = f_cashout_fee_percentage example_fees,
    cp_cashout_fee_min_usd = f_cashout_fee_min_usd example_fees, cp_cashout_fee_usd = 1, cp_net_payout = 111 / 2\<rparr>"
  have price: "price_cashout example_settings priced_db 4 ZAR = Inr ?p"
    using pay by (simp add: price_cashout_def fees example_market_rate fee raise_if_def)
  have chk: "request_checks example_settings priced_db example_wallet (u_id example_recipient) 4 ZAR None = Inr ?p"
    using price by (simp add: request_checks_def held avail raise_if_def cashout_pricing_matches_def)
  have "stored_pricing ?p c \<noteq> None" for c
  proof -
    have "column_value 20 6 4" "column_value 20 6 18.5" "column_value 10 6 (f_cashout_fee_percentage example_fees)"
      "column_value 20 6 (f_cashout_fee_min_usd example_fees)" "column_value 20 6 1" "column_value 20 6 (111 / 2)"
      by (code_simp, code_simp, code_simp, code_simp, code_simp, code_simp)
    note st = this [THEN store_numeric_id]
    show ?thesis unfolding stored_pricing_def using st by simp
  qed
  then obtain c where "stored_pricing ?p (new_request 7 90 91 (u_id example_recipient) (w_id example_wallet) ZAR) = Some c"
    by blast
  with w chk show ?thesis by (simp add: create_request_def for_update_def)
qed

theorem request_covered_witness:
  "\<exists>c d'. create_request example_settings 7 90 91 None priced_db example_recipient 4 ZAR None = (Inr c, d') \<and> covered d'"
proof -
  obtain c d' where run: "create_request example_settings 7 90 91 None priced_db example_recipient 4 ZAR None = (Inr c, d')"
    using request_example by blast
  have "parse_amount ''4.00'' = Inr 4" by code_simp
  from request_covered [OF run this priced_ok] run show ?thesis by blast
qed

theorem quote_estimate_is_price_witness:
  "\<exists>p. price_cashout example_settings priced_db (q_uctusd_amount example_quote) ZAR = Inr p
     \<and> cp_net_payout p = q_payout_estimate example_quote"
proof -
  have "get_active_fee_config priced_db = Some example_fees"
    using example_fees_active
    by (simp add: get_active_fee_config_def priced_db_def settle_db_def people_example_def limits_example_def)
  from quote_estimate_is_price [OF example_quote_for [OF this]] show ?thesis
    by (auto simp: example_quote_def)
qed

end
