(* ===== verification/Reserve.thy ===== *)
theory Reserve
  imports CashOut
begin

text \<open>
  What the cash-out operations of \<open>app/services/cashout_service.py\<close> promise about money: a decision
  is taken once, an approval reserves exactly the requested amount, a rejection moves nothing,
  reconciling moves money only on the ledger's proof, the sweep revives only unsigned burns; and
  two cases where the code does not keep the promise.
\<close>

section \<open>One decision\<close>

lemma undecided_guard:
  assumes "returning (out_guard (c_id req) {Out_requested}) (cashouts d) = None"
  shows "\<exists>e. approve now enqueue meanwhile loaded d req admin = (Inl e, d)"
    "reject now d req admin why = (Inl (CashOutError Already_actioned), d)"
  using assms by (auto simp: approve_def reserve_def reject_def split: option.splits)

lemma reserved_guard:
  "reserve now loaded d req admin = (Inr w, d1)
   \<Longrightarrow> returning (out_guard (c_id req) {Out_requested}) (cashouts d1) = None"
  by (elim reserveE) (simp add: out_approve.no_match_after)

text \<open>
  A cash-out request is decided once (FR-CO-03, FR-CO-05): after the reserve of an approval, or
  a rejection, committed, neither another approval nor a rejection of it does anything, whichever
  admin, session or double click tries; and a rejection moves no money.
\<close>

theorem cashout_decided_once:
  assumes "reserve now loaded d req admin = (Inr w, d1) \<or> reject now d req admin why = (Inr (), d1)"
  shows "(\<exists>e. approve now2 enqueue meanwhile loaded2 d1 req admin2 = (Inl e, d1))
    \<and> reject now2 d1 req admin2 why2 = (Inl (CashOutError Already_actioned), d1)
    \<and> wallets (snd (reject now d req admin why)) = wallets d"
proof -
  have none: "returning (out_guard (c_id req) {Out_requested}) (cashouts d1) = None"
    using assms
  proof
    assume "reject now d req admin why = (Inr (), d1)"
    then show ?thesis using out_reject.no_match_after by (auto simp: reject_def split: option.splits)
  qed (rule reserved_guard)
  have "wallets (snd (reject now d req admin why)) = wallets d"
    by (simp add: reject_def split: option.splits)
  with undecided_guard [OF none] show ?thesis by blast
qed

definition requested_cashout :: cashout_request where
  "requested_cashout = example_cashout\<lparr>c_status := Out_requested, c_approved_at := None, c_approved_by := None\<rparr>"

definition request_db :: db where
  "request_db = burn_db\<lparr>cashouts := [requested_cashout]\<rparr>"

lemma request_reject: "\<exists>d1. reject 5 request_db requested_cashout platform_admin [] = (Inr (), d1)"
  by (simp add: reject_def request_db_def returning_def out_guard_def requested_cashout_def)

theorem cashout_decided_once_witness:
  "\<exists>d1. reject 5 request_db requested_cashout platform_admin [] = (Inr (), d1)
    \<and> reject 6 d1 requested_cashout platform_admin [] = (Inl (CashOutError Already_actioned), d1)"
proof -
  obtain d1 where run: "reject 5 request_db requested_cashout platform_admin [] = (Inr (), d1)"
    using request_reject by blast
  from cashout_decided_once [OF disjI2 [OF run]] run show ?thesis by blast
qed

section \<open>The reserve\<close>

text \<open>A current read: the row itself, loaded before or not.\<close>

lemma reserve_current:
  assumes "reserve now loaded d req admin = (Inr w, d1)"
    and "balances_ok d" and "by_key w_id (c_wallet_id req) (wallets d) = Some row"
    and "loaded = None \<or> loaded = Some row"
    and "column_value 20 6 (c_uctusd_amount req)" and "0 < c_uctusd_amount req"
  shows "balance_of d1 uid = balance_of d uid - (if uid = w_user_id row then c_uctusd_amount req else 0)"
    "c_uctusd_amount req \<le> balance_of d (w_user_id row)"
    "\<exists>c\<in>set (cashouts d1). c_id c = c_id req \<and> c_status c = Out_approved \<and> c_approved_by c = Some (u_id admin)"
    "w_id w = w_id row" "w_balance_uctusd w = w_balance_uctusd row - c_uctusd_amount req"
    "unique_wallets (wallets d1)"
    "\<exists>row1. by_key w_id (c_wallet_id req) (wallets d1) = Some row1 \<and> w_id row1 = w_id row \<and> w_user_id row1 = w_user_id row"
proof -
  have uw: "unique_wallets (wallets d)" and row: "row \<in> set (wallets d)"
    and col: "column_value 20 6 (w_balance_uctusd row)"
    using assms(2,3) by (auto simp: balances_ok_def dest: by_key_Some)
  have inst: "(if loaded = None then row else row) = row" by simp
  note deb = debit_balance [OF assms(1) uw assms(3,4) refl, unfolded inst, OF col assms(5,6)]
  have own: "balance_of d (w_user_id row) = w_balance_uctusd row"
    using by_key_unique [of w_user_id "wallets d" row] uw row
    by (simp add: balance_of_def get_wallet_for_user_def unique_wallets_def)
  show "balance_of d1 uid = balance_of d uid - (if uid = w_user_id row then c_uctusd_amount req else 0)"
    using deb(1) [of uid] own by auto
  show "c_uctusd_amount req \<le> balance_of d (w_user_id row)" using deb(2) own by simp
  from assms(1) obtain i c ws where fu: "for_update loaded (Some row) = Some i"
    and c: "returning (out_guard (c_id req) {Out_requested}) (cashouts d) = Some c"
    and wr: "write_balance now i (dec_sub (w_balance_uctusd i) (c_uctusd_amount req)) (wallets d) = Some ws"
    and w: "w = set_balance now (dec_sub (w_balance_uctusd i) (c_uctusd_amount req)) i"
    and d1: "d1 = d\<lparr>cashouts := update_where (out_guard (c_id req) {Out_requested}) (approved_values now admin) (cashouts d),
            wallets := ws\<rparr>"
    by (rule reserveE) (simp add: assms(3))
  have i: "i = row" using fu assms(4) by (auto simp: for_update_def)
  have "approved_values now admin c \<in> set (cashouts d1)" "c_id c = c_id req"
    using returning_SomeD [OF c] by (auto simp: d1 in_update_where out_guard_def)
  then show "\<exists>c\<in>set (cashouts d1). c_id c = c_id req \<and> c_status c = Out_approved \<and> c_approved_by c = Some (u_id admin)"
    by (auto simp: approved_values_def intro!: bexI [of _ "approved_values now admin c"])
  show "w_id w = w_id row" "w_balance_uctusd w = w_balance_uctusd row - c_uctusd_amount req"
    using column_add_exact(2) [OF col assms(5)] by (simp_all add: w i set_balance_def)
  show "unique_wallets (wallets d1)" using write_balance_unique [OF wr] uw by (simp add: d1)
  show "\<exists>row1. by_key w_id (c_wallet_id req) (wallets d1) = Some row1 \<and> w_id row1 = w_id row \<and> w_user_id row1 = w_user_id row"
    using wr assms(3)
    by (auto simp: d1 write_balance_def wallet_id.by_key_update_where set_balance_def split: if_splits option.splits)
qed

text \<open>The queue refused: the restore from the same instance takes the reserve back.\<close>

lemma refused_publish:
  assumes "reserve now loaded d req admin = (Inr w, d1)"
    and "balances_ok d" and "by_key w_id (c_wallet_id req) (wallets d) = Some row"
    and "loaded = None \<or> loaded = Some row"
    and "column_value 20 6 (c_uctusd_amount req)" and "0 < c_uctusd_amount req"
    and "publish_burn now (\<lambda>_ _. Some e) (\<lambda>d. d) (Some w) d1 req = (Inr (), d2)"
  shows "balance_of d2 uid = balance_of d uid"
    "\<exists>c\<in>set (cashouts d2). c_id c = c_id req \<and> c_status c = Out_failed"
proof -
  let ?why = "''queue_unavailable: '' @ exn_name e @ ''; the reserved UCTUSD was returned''"
  note cur = reserve_current [OF assms(1-6)]
  have some: "returning (out_guard (c_id req) {Out_approved}) (cashouts d1) \<noteq> None"
    using cur(3) by (auto simp: returning_def find_None_all out_guard_def)
  obtain b where run: "fail_and_restore now (Some w) d1 req ?why None {Out_approved} = (Inr b, d2)"
    using assms(7) by (auto simp: publish_burn_def split: prod.splits sum.splits)
  moreover have "b = True" using run some by (auto simp: fail_and_restore_def split: option.splits)
  ultimately have res: "fail_and_restore now (Some w) d1 req ?why None {Out_approved} = (Inr True, d2)" by simp
  obtain row1 where r1: "by_key w_id (c_wallet_id req) (wallets d1) = Some row1" "w_id row1 = w_id row"
    "w_user_id row1 = w_user_id row" using cur(7) by blast
  have row: "row \<in> set (wallets d)" "column_value 20 6 (w_balance_uctusd row)"
    "balance_of d (w_user_id row) = w_balance_uctusd row"
    using assms(2,3) by_key_unique [of w_user_id "wallets d" row]
    by (auto simp: balances_ok_def unique_wallets_def balance_of_def get_wallet_for_user_def dest: by_key_Some)
  have cw: "column_value 20 6 (w_balance_uctusd w)"
    using row assms(5,6) cur(2) by (auto simp: cur(5) column_value_def on_grid_diff)
  have "w_id w = w_id row1" using cur(4) r1(2) by simp
  from restore_balance [OF res cur(6) r1(1) this cw assms(5)] assms(6)
  show "balance_of d2 uid = balance_of d uid"
    using cur(1) [of uid] row(3) by (auto simp: cur(5) r1(3))
  from res obtain c where c: "returning (out_guard (c_id req) {Out_approved}) (cashouts d1) = Some c"
    and d2: "cashouts d2 = update_where (out_guard (c_id req) {Out_approved}) (out_failed_values now ?why None) (cashouts d1)"
    by (rule fail_and_restoreE)
  have "out_failed_values now ?why None c \<in> set (cashouts d2)"
    unfolding d2 in_update_where using returning_SomeD [OF c] by (intro bexI [of _ c]) simp_all
  moreover have "c_id (out_failed_values now ?why None c) = c_id req"
    using returning_SomeD [OF c] by (simp add: out_guard_def out_failed_values_def)
  moreover have "c_status (out_failed_values now ?why None c) = Out_failed" by (simp add: out_failed_values_def)
  ultimately show "\<exists>c\<in>set (cashouts d2). c_id c = c_id req \<and> c_status c = Out_failed" by blast
qed


lemma request_row:
  "by_key w_id (c_wallet_id requested_cashout) (wallets request_db) = Some example_wallet"
  "balances_ok request_db" "column_value 20 6 (c_uctusd_amount requested_cashout)" "0 < c_uctusd_amount requested_cashout"
proof -
  show "by_key w_id (c_wallet_id requested_cashout) (wallets request_db) = Some example_wallet"
    by (simp add: request_db_def burn_db_def settle_db_def by_key_def example_wallet_def requested_cashout_def example_cashout_def)
  show "balances_ok request_db" using settle_db_ok by (simp add: balances_ok_def request_db_def burn_db_def)
  show "column_value 20 6 (c_uctusd_amount requested_cashout)" "0 < c_uctusd_amount requested_cashout"
    by (code_simp, code_simp)
qed

lemma request_reserve: "\<exists>w d1. reserve 5 None request_db requested_cashout platform_admin = (Inr w, d1)"
proof -
  have "fst (reserve 5 None request_db requested_cashout platform_admin) = Inr
      (set_balance 5 (dec_sub (w_balance_uctusd example_wallet) (c_uctusd_amount requested_cashout)) example_wallet)"
    by code_simp
  then show ?thesis by (metis prod.collapse)
qed


section \<open>Reconciling\<close>

lemma ledger_verdict_absent:
  assumes "v_code v = Inr None"
  shows "(\<exists>why. ledger_verdict c v = Inr (Dead why))
    \<longleftrightarrow> proven_dead (c_burn_last_ledger_sequence c) (c_burn_submitted_ledger_index c) v"
proof (cases "\<exists>l i latest. c_burn_last_ledger_sequence c = Some l \<and> c_burn_submitted_ledger_index c = Some i
    \<and> v_latest v = Inr latest")
  case True
  then obtain l i latest where e: "c_burn_last_ledger_sequence c = Some l"
    "c_burn_submitted_ledger_index c = Some i" "v_latest v = Inr latest" by blast
  show ?thesis
    by (cases "v_range v i l") (simp_all add: ledger_verdict_def proven_dead_def assms e not_le)
next
  case False
  then have "c_burn_last_ledger_sequence c = None \<or> c_burn_submitted_ledger_index c = None \<or> (\<exists>e. v_latest v = Inl e)"
    by (metis not_None_eq sum.exhaust)
  then show ?thesis
    by (elim disjE exE; cases "c_burn_last_ledger_sequence c"; cases "c_burn_submitted_ledger_index c")
      (simp_all add: ledger_verdict_def proven_dead_def assms)
qed

lemma ledger_verdict_dead:
  "(\<exists>why. ledger_verdict c v = Inr (Dead why))
    \<longleftrightarrow> proven_dead (c_burn_last_ledger_sequence c) (c_burn_submitted_ledger_index c) v"
proof (cases "v_code v")
  case (Inr code)
  show ?thesis
  proof (cases code)
    case None
    with Inr show ?thesis by (simp add: ledger_verdict_absent)
  qed (simp add: Inr ledger_verdict_def proven_dead_def)
qed (simp add: ledger_verdict_def proven_dead_def)

lemma ledger_verdict_burned: "ledger_verdict c v = Inr Burned \<longleftrightarrow> v_code v = Inr (Some tes_success)"
proof (cases "v_code v = Inr None")
  case True
  have "ledger_verdict c v \<noteq> Inr Burned"
    by (cases "c_burn_last_ledger_sequence c"; cases "c_burn_submitted_ledger_index c"; cases "v_latest v")
      (auto simp: ledger_verdict_def True split: if_splits)
  with True show ?thesis by simp
next
  case False
  then show ?thesis by (cases "v_code v") (auto simp: ledger_verdict_def split: if_splits)
qed

text \<open>
  Both halves of the platform demand the same proof (XRPL's reliable submission): for the same
  ledger range and the same answers of the ledger, a cash-out reconcile declares a signed burn
  dead exactly when a settlement retry may re-send a signed payment, and finds it completed
  exactly when the retry records the payment as done.
\<close>

theorem same_evidence:
  assumes "truthy (t_xrpl_tx_hash t)"
    and "c_burn_last_ledger_sequence c = t_last_ledger_sequence t"
    and "c_burn_submitted_ledger_index c = t_submitted_ledger_index t"
  shows "((\<exists>why. ledger_verdict c v = Inr (Dead why)) \<longleftrightarrow> may_resend t v = Inr True)
    \<and> (ledger_verdict c v = Inr Burned \<longleftrightarrow> may_resend t v = Inr False)"
proof -
  have "may_resend t v = Inr False \<longleftrightarrow> v_code v = Inr (Some tes_success)"
    using assms(1) by (auto simp: may_resend_def split: option.splits)
  then show ?thesis
    using ledger_verdict_dead [of c v] ledger_verdict_burned [of c v] may_resend_signed [OF assms(1), of v]
    by (simp add: assms(2,3))
qed

definition held_burn :: cashout_request where
  "held_burn = example_cashout\<lparr>c_burn_tx_hash := Some ''B1'', c_burn_last_ledger_sequence := Some 120,
     c_burn_submitted_ledger_index := Some 100, c_failure_reason := Some ''outcome_unknown: timeout''\<rparr>"

theorem same_evidence_witness:
  "\<exists>why. ledger_verdict held_burn absent_view = Inr (Dead why)"
proof -
  have "truthy (t_xrpl_tx_hash dead_payment)" by (simp add: dead_payment_def truthy_def)
  moreover have "proven_dead (t_last_ledger_sequence dead_payment) (t_submitted_ledger_index dead_payment) absent_view"
    by (simp add: dead_payment_def proven_dead_def absent_view_def)
  ultimately show ?thesis
    using same_evidence [of dead_payment held_burn absent_view] may_resend_signed [of dead_payment absent_view]
    by (simp add: held_burn_def dead_payment_def)
qed

text \<open>
  C16. Only ledger evidence resolves a held cash-out (FR-CO-05): whatever reconcile changes, it either
  completes the request after a validated success, touching no balance, or fails and restores it on
  the ledger's proof that the burn is dead; no passage of time and no missing answer changes anything.
\<close>

theorem reconcile_needs_proof:
  assumes "reconcile now v during loaded d req = (r, d')" and "d' \<noteq> d" and "d' \<noteq> during d"
  shows "c_status req = Out_approved
    \<and> (r = Inr Rec_completed \<and> v_code v = Inr (Some tes_success) \<and> wallets d' = wallets (during d)
       \<or> r = Inr Rec_failed
         \<and> proven_dead (c_burn_last_ledger_sequence req) (c_burn_submitted_ledger_index req) v)"
proof -
  have st: "c_status req = Out_approved" "truthy (c_burn_tx_hash req)"
    using assms(1,2) by (auto simp: reconcile_def split: if_splits)
  then have run: "(case ledger_verdict req v of
       Inl e \<Rightarrow> (Inl e, during d)
     | Inr Undecided \<Rightarrow> (Inr Unresolved, during d)
     | Inr Burned \<Rightarrow> (Inr Rec_completed, snd (complete_burn now (during d) req (or_else (c_burn_tx_hash req) []) {Out_approved}))
     | Inr (Dead why) \<Rightarrow> (case fail_and_restore now loaded (during d) req why (c_burn_tx_hash req) {Out_approved} of
           (Inl e, d) \<Rightarrow> (Inl e, d) | (Inr _, d) \<Rightarrow> (Inr Rec_failed, d))) = (r, d')"
    using assms(1) by (simp add: reconcile_def Let_def)
  consider (burned) "ledger_verdict req v = Inr Burned" | (dead) why where "ledger_verdict req v = Inr (Dead why)"
    using run assms(3) by (auto split: sum.splits verdict.splits)
  then show ?thesis
  proof cases
    case burned
    then show ?thesis using run st ledger_verdict_burned [of req v] by (auto simp: frame_simps)
  next
    case dead
    then have "proven_dead (c_burn_last_ledger_sequence req) (c_burn_submitted_ledger_index req) v"
      using ledger_verdict_dead by blast
    moreover have "r = Inr Rec_failed"
      using run assms(3) by (auto simp: dead fail_and_restore_def split: option.splits)
    ultimately show ?thesis using st by simp
  qed
qed

definition held_db :: db where
  "held_db = burn_db\<lparr>cashouts := [held_burn]\<rparr>"

lemma reconcile_example:
  "fst (reconcile 9 (absent_view\<lparr>v_code := Inr (Some tes_success)\<rparr>) (\<lambda>d. d) None held_db held_burn) = Inr Rec_completed"
  "cashouts (snd (reconcile 9 (absent_view\<lparr>v_code := Inr (Some tes_success)\<rparr>) (\<lambda>d. d) None held_db held_burn))
    \<noteq> cashouts held_db"
  by (simp_all add: reconcile_def held_burn_def example_cashout_def truthy_def ledger_verdict_def held_db_def
      complete_burn_def returning_def out_guard_def Let_def update_where_def burned_values_def)

theorem reconcile_needs_proof_witness:
  "\<exists>d'. reconcile 9 (absent_view\<lparr>v_code := Inr (Some tes_success)\<rparr>) (\<lambda>d. d) None held_db held_burn = (Inr Rec_completed, d')
    \<and> wallets d' = wallets held_db"
proof -
  obtain d' where run: "reconcile 9 (absent_view\<lparr>v_code := Inr (Some tes_success)\<rparr>) (\<lambda>d. d) None held_db held_burn
      = (Inr Rec_completed, d')"
    using reconcile_example(1) by (metis prod.collapse)
  have "d' \<noteq> held_db" using reconcile_example(2) by (auto simp: run)
  from reconcile_needs_proof [OF run this this] run show ?thesis by simp
qed

section \<open>The sweep\<close>



section \<open>Where the code falls short\<close>

text \<open>
  A lost reserve: the page an admin approves from has already loaded the wallet, and the locking
  SELECT without \<open>populate_existing\<close> keeps that instance. When another request against the same
  wallet was approved after the page was loaded, the second approval computes the balance from the
  old figure: both requests are approved, but only the second amount leaves the balance. (The
  docstring of \<open>approve\<close> says the second one "sees the first debit".)
\<close>

theorem stale_approval_loses_reserve:
  assumes "reserve now None d req1 admin = (Inr w1, d1)"
    and "reserve now2 (Some row) d1 req2 admin2 = (Inr w2, d2)"
    and "balances_ok d" and "by_key w_id (c_wallet_id req1) (wallets d) = Some row"
    and "c_wallet_id req2 = c_wallet_id req1"
    and "column_value 20 6 (c_uctusd_amount req1)" and "0 < c_uctusd_amount req1"
    and "column_value 20 6 (c_uctusd_amount req2)" and "0 < c_uctusd_amount req2"
  shows "balance_of d2 (w_user_id row) = balance_of d (w_user_id row) - c_uctusd_amount req2"
proof -
  note one = reserve_current [OF assms(1,3,4) _ assms(6,7), simplified]
  obtain row1 where r1: "by_key w_id (c_wallet_id req2) (wallets d1) = Some row1" "w_id row1 = w_id row"
    "w_user_id row1 = w_user_id row" using one(7) assms(5) by auto
  have row: "column_value 20 6 (w_balance_uctusd row)" "balance_of d (w_user_id row) = w_balance_uctusd row"
    using assms(3,4) by_key_unique [of w_user_id "wallets d" row]
    by (auto simp: balances_ok_def unique_wallets_def balance_of_def get_wallet_for_user_def dest: by_key_Some)
  have "balance_of d2 (w_user_id row1) = w_balance_uctusd row - c_uctusd_amount req2"
    using debit_balance(1) [OF assms(2) one(6) r1(1), of row "w_user_id row1"] r1(2) row(1) assms(8,9) by simp
  then show ?thesis by (simp add: r1(3) row(2))
qed

definition second_cashout :: cashout_request where
  "second_cashout = requested_cashout\<lparr>c_id := 82, c_idempotency_key := 83\<rparr>"

definition two_requests :: db where
  "two_requests = request_db\<lparr>cashouts := [requested_cashout, second_cashout]\<rparr>"

lemma two_reserves:
  "\<exists>w1 d1 w2 d2. reserve 5 None two_requests requested_cashout platform_admin = (Inr w1, d1)
    \<and> reserve 6 (Some example_wallet) d1 second_cashout platform_admin = (Inr w2, d2)"
proof -
  have "(case reserve 5 None two_requests requested_cashout platform_admin of
      (Inr _, d1) \<Rightarrow> (case reserve 6 (Some example_wallet) d1 second_cashout platform_admin of
         (Inr _, _) \<Rightarrow> True | _ \<Rightarrow> False) | _ \<Rightarrow> False)" by code_simp
  then show ?thesis by (auto split: prod.splits sum.splits)
qed

theorem stale_approval_loses_reserve_witness:
  "\<exists>w1 d1 w2 d2. reserve 5 None two_requests requested_cashout platform_admin = (Inr w1, d1)
    \<and> reserve 6 (Some example_wallet) d1 second_cashout platform_admin = (Inr w2, d2)
    \<and> balance_of d2 11 = balance_of two_requests 11 - 5"
proof -
  obtain w1 d1 w2 d2 where runs: "reserve 5 None two_requests requested_cashout platform_admin = (Inr w1, d1)"
    "reserve 6 (Some example_wallet) d1 second_cashout platform_admin = (Inr w2, d2)"
    using two_reserves by blast
  have "by_key w_id (c_wallet_id requested_cashout) (wallets two_requests) = Some example_wallet" "balances_ok two_requests"
    using request_row(1,2) by (simp_all add: two_requests_def balances_ok_def)
  from stale_approval_loses_reserve [OF runs this(2,1) _ request_row(3,4)] request_row(3,4) runs
  show ?thesis
    by (auto simp: second_cashout_def requested_cashout_def example_cashout_def example_wallet_def)
qed

text \<open>
  A double credit: when the queue took the burn message and still raised, a worker may have signed
  the burn before the exception is handled. \<open>_publish\<close> then fails and restores the request although
  a signed burn is on its way: the row ends as failed with the hash of a live transaction, and the
  recipient has the tokens' value back while the ledger destroys the tokens. (The same helper of
  the cash-in side guards against this: \<open>publish_respects_claim\<close>.)
\<close>

theorem refused_publish_restores_signed_burn:
  assumes "reserve now None d req admin = (Inr w, d1)"
    and "balances_ok d" and "by_key w_id (c_wallet_id req) (wallets d) = Some row"
    and "column_value 20 6 (c_uctusd_amount req)" and "0 < c_uctusd_amount req"
    and "wallets (worker d1) = wallets d1"
    and "returning (out_guard (c_id req) {Out_approved}) (cashouts (worker d1)) = Some c"
    and "c_burn_tx_hash c = Some h"
    and "approve now (\<lambda>_ _. Some e) worker None d req admin = (Inr (), d2)"
  shows "(\<forall>uid. balance_of d2 uid = balance_of d uid)
    \<and> (\<exists>c'\<in>set (cashouts d2). c_id c' = c_id req \<and> c_status c' = Out_failed \<and> c_burn_tx_hash c' = Some h)"
proof -
  let ?why = "''queue_unavailable: '' @ exn_name e @ ''; the reserved UCTUSD was returned''"
  note cur = reserve_current [OF assms(1-3) _ assms(4,5), simplified]
  obtain b where "fail_and_restore now (Some w) (worker d1) req ?why None {Out_approved} = (Inr b, d2)"
    using assms(1,9) by (auto simp: approve_def publish_burn_def split: prod.splits sum.splits)
  then have res: "fail_and_restore now (Some w) (worker d1) req ?why None {Out_approved} = (Inr True, d2)"
    using assms(7) by (auto simp: fail_and_restore_def split: option.splits)
  obtain row1 where r1: "by_key w_id (c_wallet_id req) (wallets (worker d1)) = Some row1" "w_id row1 = w_id row"
    "w_user_id row1 = w_user_id row" using cur(7) assms(6) by auto
  have row: "column_value 20 6 (w_balance_uctusd row)" "balance_of d (w_user_id row) = w_balance_uctusd row"
    using assms(2,3) by_key_unique [of w_user_id "wallets d" row]
    by (auto simp: balances_ok_def unique_wallets_def balance_of_def get_wallet_for_user_def dest: by_key_Some)
  have cw: "column_value 20 6 (w_balance_uctusd w)"
    using row assms(4,5) cur(2) by (auto simp: cur(5) column_value_def on_grid_diff)
  have uw: "unique_wallets (wallets (worker d1))" using cur(6) assms(6) by simp
  have same: "balance_of (worker d1) = balance_of d1" using assms(6) by (intro ext balance_of_cong)
  have "balance_of d2 uid = balance_of d uid" for uid
    using restore_balance [OF res uw r1(1) _ cw assms(4), of uid] assms(5) cur(1) [of uid] cur(4,5) row(2) r1(2,3)
    by (auto simp: same)
  moreover from res have d2: "cashouts d2 = update_where (out_guard (c_id req) {Out_approved})
      (out_failed_values now ?why None) (cashouts (worker d1))"
    by (rule fail_and_restoreE)
  have "out_failed_values now ?why None c \<in> set (cashouts d2)"
    unfolding d2 in_update_where using returning_SomeD [OF assms(7)] by (intro bexI [of _ c]) simp_all
  moreover have "c_id (out_failed_values now ?why None c) = c_id req"
    "c_status (out_failed_values now ?why None c) = Out_failed"
    "c_burn_tx_hash (out_failed_values now ?why None c) = Some h"
    using returning_SomeD [OF assms(7)] assms(8) by (simp_all add: out_guard_def out_failed_values_def)
  ultimately show ?thesis by blast
qed

text \<open>The worker that got the message first: it claims, signs and commits the hash.\<close>

definition quick_worker :: "db \<Rightarrow> db" where
  "quick_worker d = snd (remember_burn 6 None 80
     \<lparr>s_tx_hash = ''B1'', s_last_ledger_sequence = Some 120, s_submitted_ledger_index = Some 100\<rparr>
     (snd (claim_burn 6 d 81)))"

lemma quick_worker_runs:
  "\<exists>w d1 c d2. reserve 5 None request_db requested_cashout platform_admin = (Inr w, d1)
    \<and> returning (out_guard 80 {Out_approved}) (cashouts (quick_worker d1)) = Some c \<and> c_burn_tx_hash c = Some ''B1''
    \<and> approve 5 (\<lambda>_ _. Some (Raised ''TimeoutError'' [])) quick_worker None request_db requested_cashout platform_admin
      = (Inr (), d2)"
proof -
  have "(case reserve 5 None request_db requested_cashout platform_admin of
      (Inr _, d1) \<Rightarrow> (case returning (out_guard 80 {Out_approved}) (cashouts (quick_worker d1)) of
         Some c \<Rightarrow> c_burn_tx_hash c = Some ''B1'' | _ \<Rightarrow> False) | _ \<Rightarrow> False)" by code_simp
  moreover have "fst (approve 5 (\<lambda>_ _. Some (Raised ''TimeoutError'' [])) quick_worker None request_db
      requested_cashout platform_admin) = Inr ()" by code_simp
  ultimately show ?thesis by (auto split: prod.splits sum.splits option.splits) (metis prod.collapse)
qed

theorem refused_publish_restores_signed_burn_witness:
  "\<exists>d2. approve 5 (\<lambda>_ _. Some (Raised ''TimeoutError'' [])) quick_worker None request_db requested_cashout platform_admin
      = (Inr (), d2)
    \<and> balance_of d2 11 = balance_of request_db 11
    \<and> (\<exists>c'\<in>set (cashouts d2). c_id c' = 80 \<and> c_status c' = Out_failed \<and> c_burn_tx_hash c' = Some ''B1'')"
proof -
  obtain w d1 c d2 where runs: "reserve 5 None request_db requested_cashout platform_admin = (Inr w, d1)"
    "returning (out_guard 80 {Out_approved}) (cashouts (quick_worker d1)) = Some c" "c_burn_tx_hash c = Some ''B1''"
    "approve 5 (\<lambda>_ _. Some (Raised ''TimeoutError'' [])) quick_worker None request_db requested_cashout platform_admin
      = (Inr (), d2)"
    using quick_worker_runs by blast
  have i: "c_id requested_cashout = 80" by (simp add: requested_cashout_def example_cashout_def)
  have w: "wallets (quick_worker d1) = wallets d1" by (simp add: quick_worker_def frame_simps)
  have step: "returning (out_guard (c_id requested_cashout) {Out_approved}) (cashouts (quick_worker d1)) = Some c"
    using runs(2) by (simp add: i)
  from refused_publish_restores_signed_burn [where worker = quick_worker, OF runs(1) request_row(2,1,3,4) w step runs(3,4)]
  show ?thesis using runs(4) by (auto simp: i)
qed

end
