(* ===== verification/Ledger.thy ===== *)
theory Ledger
  imports Reserve
begin

text \<open>
  The abstract ledger behind the questions of \<open>app/services/xrpl_service.py\<close>, and what the two
  places that act on its answers (settlement retry and cash-out reconcile) really know. A ledger
  is the fate of each signed transaction: the index of the validated ledger that includes it and
  its code, or never. A server answers from the ledgers it holds up to its validated index, and
  that index grows between two questions.
\<close>

section \<open>The abstract ledger\<close>

type_synonym fate = "string \<Rightarrow> (int \<times> string) option"

text \<open>
  The protocol's promise for a transaction signed after ledger \<open>submitted\<close> with
  LastLedgerSequence \<open>last\<close>: if it is ever included, then in a ledger between the two.
\<close>

definition within_deadline :: "fate \<Rightarrow> string \<Rightarrow> int \<Rightarrow> int \<Rightarrow> bool" where
  "within_deadline fate h submitted last_ledger \<longleftrightarrow>
     (case fate h of None \<Rightarrow> True | Some (i, _) \<Rightarrow> submitted \<le> i \<and> i \<le> last_ledger)"

definition moved_money :: "fate \<Rightarrow> string \<Rightarrow> bool" where
  "moved_money fate h \<longleftrightarrow> (\<exists>i. fate h = Some (i, tes_success))"

text \<open>A server that holds the ledgers \<open>held\<close> and has validated up to \<open>tip\<close>: its Tx reply.\<close>

definition tx_answer :: "fate \<Rightarrow> (int \<times> int) list \<Rightarrow> int \<Rightarrow> string \<Rightarrow> tx_reply" where
  "tx_answer fate held tip h =
     (case fate h of
        Some (i, c) \<Rightarrow>
          if i \<le> tip \<and> list_ex (\<lambda>r. fst r \<le> i \<and> i \<le> snd r) held
          then \<lparr>r_successful = True, r_error = None, r_validated = True, r_code = c\<rparr>
          else \<lparr>r_successful = False, r_error = Some ''txnNotFound'', r_validated = False, r_code = []\<rparr>
      | None \<Rightarrow> \<lparr>r_successful = False, r_error = Some ''txnNotFound'', r_validated = False, r_code = []\<rparr>)"

text \<open>
  The three questions in the order the code asks them: the transaction when \<open>at0\<close> is validated,
  the validated index when it is \<open>at1\<close>, the held ranges last.
\<close>

definition answers :: "fate \<Rightarrow> (int \<times> int) list \<Rightarrow> int \<Rightarrow> int \<Rightarrow> string \<Rightarrow> ledger_view" where
  "answers fate held at0 at1 h =
     \<lparr>v_code = get_transaction_result (tx_answer fate held at0 h), v_latest = Inr at1,
      v_range = (\<lambda>a b. Inr (has_complete_ledger_range (Some (ledgers_text held)) a b))\<rparr>"

section \<open>Laws of the answers\<close>

lemma answers_code:
  "v_code (answers fate held at0 at1 h) =
     Inr (case fate h of None \<Rightarrow> None
          | Some (i, c) \<Rightarrow> if i \<le> at0 \<and> list_ex (\<lambda>r. fst r \<le> i \<and> i \<le> snd r) held then Some c else None)"
  by (auto simp: answers_def tx_answer_def get_transaction_result_def split: option.splits)

lemma answers_range:
  assumes "\<forall>r\<in>set held. 0 \<le> fst r \<and> 0 \<le> snd r"
  shows "v_range (answers fate held at0 at1 h) a b = Inr (\<exists>r\<in>set held. fst r \<le> a \<and> b \<le> snd r)"
  by (simp add: answers_def has_complete_ledger_range_def parse_ledgers_text [OF assms])

section \<open>What the evidence is worth\<close>

text \<open>
  C14. The evidence is sound when the lookup itself is late enough (refinement of the abstract
  ledger): if the transaction was looked up once its LastLedgerSequence was validated, then what
  the code treats as proof of death is the truth about the ledger, the money never moved and never
  will; and a burn it finds completed really burned.
\<close>

theorem evidence_sound_when_late:
  assumes "within_deadline fate h submitted last_ledger" and "\<forall>r\<in>set held. 0 \<le> fst r \<and> 0 \<le> snd r"
    and "last_ledger \<le> at0"
    and "c_burn_last_ledger_sequence c = Some last_ledger" and "c_burn_submitted_ledger_index c = Some submitted"
  shows "(ledger_verdict c (answers fate held at0 at1 h) = Inr (Dead why) \<longrightarrow> \<not> moved_money fate h)
    \<and> (ledger_verdict c (answers fate held at0 at1 h) = Inr Burned \<longrightarrow> moved_money fate h)"
proof -
  let ?v = "answers fate held at0 at1 h"
  have dead: "\<not> moved_money fate h" if d: "proven_dead (Some last_ledger) (Some submitted) ?v"
  proof
    assume "moved_money fate h"
    then obtain i where f: "fate h = Some (i, tes_success)" by (auto simp: moved_money_def)
    then have i: "submitted \<le> i" "i \<le> last_ledger" using assms(1) by (auto simp: within_deadline_def)
    show False
    proof (cases "list_ex (\<lambda>r. fst r \<le> i \<and> i \<le> snd r) held")
      case True
      then have "v_code ?v = Inr (Some tes_success)" using f i(2) assms(3) by (simp add: answers_code)
      with d show False by (simp add: proven_dead_def)
    next
      case False
      then have "v_code ?v = Inr None" using f by (simp add: answers_code)
      with d have "v_range ?v submitted last_ledger = Inr True"
        by (auto simp: proven_dead_def split: sum.splits)
      then obtain r where "r \<in> set held" "fst r \<le> submitted" "last_ledger \<le> snd r"
        by (auto simp: answers_range [OF assms(2)])
      with False i show False unfolding list_ex_iff by force
    qed
  qed
  moreover have "moved_money fate h" if "v_code ?v = Inr (Some tes_success)"
    using that by (auto simp: answers_code moved_money_def split: option.splits if_splits)
  ultimately show ?thesis
    using ledger_verdict_dead [of c ?v] ledger_verdict_burned [of c ?v] assms(4,5) by auto
qed

text \<open>A burn that failed in ledger 110, looked up at 120.\<close>

definition failed_fate :: fate where
  "failed_fate h = (if h = ''B1'' then Some (110, ''tecPATH_DRY'') else None)"

theorem evidence_sound_when_late_witness:
  "\<not> moved_money failed_fate ''B1''"
proof -
  have "v_code (answers failed_fate [(1, 130)] 120 121 ''B1'') = Inr (Some ''tecPATH_DRY'')"
    by (simp add: answers_code failed_fate_def)
  then have "ledger_verdict held_burn (answers failed_fate [(1, 130)] 120 121 ''B1'')
      = Inr (Dead (''tecPATH_DRY'' @ '': burn rejected on-ledger''))"
    by (simp add: ledger_verdict_def tes_success_def)
  then show ?thesis
    using evidence_sound_when_late [of failed_fate "''B1''" 100 120 "[(1, 130)]" 120 held_burn 121]
    by (auto simp: within_deadline_def failed_fate_def held_burn_def)
qed

text \<open>
  The order of the questions leaves a gap: the transaction is looked up first and the validated
  index read afterwards. If the transaction validates between the two questions, and the deadline
  passes before the second one is answered, the code takes the old "not found" as proof: reconcile
  declares a burn dead that destroyed its tokens, and a retry may pay a second time.
\<close>

theorem late_validation_taken_for_dead:
  assumes "fate h = Some (i, tes_success)" and "at0 < i" and "i \<le> last_ledger" and "last_ledger < at1"
    and "\<forall>r\<in>set held. 0 \<le> fst r \<and> 0 \<le> snd r" and "\<exists>r\<in>set held. fst r \<le> submitted \<and> last_ledger \<le> snd r"
    and "c_burn_last_ledger_sequence c = Some last_ledger" and "c_burn_submitted_ledger_index c = Some submitted"
    and "t_last_ledger_sequence t = Some last_ledger" and "t_submitted_ledger_index t = Some submitted"
    and "truthy (t_xrpl_tx_hash t)"
  shows "moved_money fate h
    \<and> (\<exists>why. ledger_verdict c (answers fate held at0 at1 h) = Inr (Dead why))
    \<and> may_resend t (answers fate held at0 at1 h) = Inr True"
proof -
  let ?v = "answers fate held at0 at1 h"
  have "v_code ?v = Inr None" using assms(1,2) by (simp add: answers_code)
  moreover have "v_latest ?v = Inr at1" by (simp add: answers_def)
  moreover have "v_range ?v submitted last_ledger = Inr True" using assms(6) by (simp add: answers_range [OF assms(5)])
  ultimately have "proven_dead (Some last_ledger) (Some submitted) ?v" using assms(4) by (simp add: proven_dead_def)
  then show ?thesis
    using assms ledger_verdict_dead [of c ?v] may_resend_signed [OF assms(11), of ?v]
    by (auto simp: moved_money_def)
qed

definition slow_fate :: fate where
  "slow_fate h = (if h = ''B1'' then Some (120, tes_success) else None)"

theorem late_validation_taken_for_dead_witness:
  "moved_money slow_fate ''B1''
   \<and> (\<exists>why. ledger_verdict held_burn (answers slow_fate [(1, 130)] 119 121 ''B1'') = Inr (Dead why))"
proof -
  have "truthy (t_xrpl_tx_hash dead_payment)" by (simp add: dead_payment_def truthy_def)
  then show ?thesis
    using late_validation_taken_for_dead [of slow_fate "''B1''" 120 119 120 121 "[(1, 130)]" 100 held_burn dead_payment]
    by (simp add: slow_fate_def held_burn_def dead_payment_def)
qed

end
