(* ===== verification/Jobs.thy ===== *)
theory Jobs
  imports Ledger
begin

text \<open>
  The messages between the web application and the workers: \<open>app/services/queue_service.py\<close>, the
  entry points \<open>settle\<close> and \<open>burn\<close> of the workers, the text form of the identifiers the messages
  carry, and the sweeps that \<open>app/main.py\<close> runs at startup and periodically.
\<close>

section \<open>Identifiers as text\<close>

text \<open>\<open>str(uuid)\<close>: the 32 hexadecimal digits in groups of 8, 4, 4, 4 and 12.\<close>

definition uuid_text :: "uuid \<Rightarrow> string" where
  "uuid_text u =
     (let h = uuid_hex u
      in take 8 h @ CHR ''-'' # take 4 (drop 8 h) @ CHR ''-'' # take 4 (drop 12 h)
         @ CHR ''-'' # take 4 (drop 16 h) @ CHR ''-'' # drop 20 h)"

text \<open>\<open>s.replace(pat, '')\<close> for a non-empty \<open>pat\<close>.\<close>

function remove_text :: "string \<Rightarrow> string \<Rightarrow> string" where
  "remove_text pat s =
     (if pat \<noteq> [] \<and> starts_with pat s \<and> s \<noteq> [] then remove_text pat (drop (length pat) s)
      else case s of [] \<Rightarrow> [] | c # cs \<Rightarrow> c # remove_text pat cs)"
  by pat_completeness auto
termination
  by (relation "measure (\<lambda>(pat, s). length s)") auto

declare remove_text.simps [simp del]

definition strip_braces :: "string \<Rightarrow> string" where
  "strip_braces s =
     (let cut = dropWhile (\<lambda>c. c = CHR ''{'' \<or> c = CHR ''}'')
      in rev (cut (rev (cut s))))"

definition hex_val :: "char \<Rightarrow> nat option" where
  "hex_val c =
     (if is_digit c then Some (code c - 48)
      else if 97 \<le> code c \<and> code c \<le> 102 then Some (code c - 87)
      else if 65 \<le> code c \<and> code c \<le> 70 then Some (code c - 55) else None)"

text \<open>\<open>int(s, 16)\<close>: white space, sign, \<open>0x\<close>, digits with single underscores.\<close>

fun hex_number :: "int \<Rightarrow> string \<Rightarrow> int option" where
  "hex_number acc [] = Some acc"
| "hex_number acc (c # cs) =
     (case hex_val c of
        Some v \<Rightarrow> hex_number (16 * acc + int v) cs
      | None \<Rightarrow> if c = CHR ''_'' \<and> cs \<noteq> [] \<and> hex_val (hd cs) \<noteq> None then hex_number acc cs else None)"

definition unsigned_hex :: "string \<Rightarrow> int option" where
  "unsigned_hex s =
     (let prefixed = (take 2 (lower s) = ''0x'');
          body = (if prefixed then drop 2 s else s);
          body = (if prefixed \<and> body \<noteq> [] \<and> hd body = CHR ''_'' then tl body else body)
      in if body \<noteq> [] \<and> hex_val (hd body) \<noteq> None then hex_number 0 body else None)"

definition py_int16 :: "string \<Rightarrow> int option" where
  "py_int16 raw =
     (let s = strip raw
      in if s \<noteq> [] \<and> hd s = CHR ''-'' then map_option uminus (unsigned_hex (tl s))
         else if s \<noteq> [] \<and> hd s = CHR ''+'' then unsigned_hex (tl s)
         else unsigned_hex s)"

text \<open>\<open>uuid.UUID(text)\<close>, or its ValueError.\<close>

definition parse_uuid :: "string \<Rightarrow> uuid option" where
  "parse_uuid raw =
     (let h = remove_char CHR ''-'' (strip_braces (remove_text ''uuid:'' (remove_text ''urn:'' raw)))
      in if length h \<noteq> 32 then None
         else case py_int16 h of
                None \<Rightarrow> None
              | Some n \<Rightarrow> if 0 \<le> n \<and> n < 2 ^ 128 then Some n else None)"

section \<open>Messages\<close>

definition queue_name :: string where
  "queue_name = ''settlement''"

definition settle_job :: string where
  "settle_job = ''app.workers.settlement_worker.settle''"

definition burn_job :: string where
  "burn_job = ''app.workers.cashout_worker.burn''"

definition job_timeout :: int where
  "job_timeout = 300"

definition treasury_lock_timeout :: int where
  "treasury_lock_timeout = job_timeout"

definition treasury_lock_wait :: int where
  "treasury_lock_wait = job_timeout"

record job =
  j_func :: string
  j_arg :: string
  j_delay :: "int option"
  j_timeout :: int
  j_description :: string
  j_transaction_id :: string

definition job_of :: "string \<Rightarrow> int option \<Rightarrow> string \<Rightarrow> string \<Rightarrow> string \<Rightarrow> job" where
  "job_of func delay key row_id what =
     \<lparr>j_func = func, j_arg = key, j_delay = delay, j_timeout = job_timeout,
      j_description = what @ '' '' @ row_id, j_transaction_id = row_id\<rparr>"

definition enqueue_settlement :: "string \<Rightarrow> string \<Rightarrow> job" where
  "enqueue_settlement key row_id = job_of settle_job None key row_id ''settle transaction''"

definition enqueue_settlement_in :: "int \<Rightarrow> string \<Rightarrow> string \<Rightarrow> job" where
  "enqueue_settlement_in delay key row_id = job_of settle_job (Some delay) key row_id ''settle transaction''"

definition enqueue_burn :: "string \<Rightarrow> string \<Rightarrow> job" where
  "enqueue_burn key row_id = job_of burn_job None key row_id ''burn cash-out''"

definition enqueue_burn_in :: "int \<Rightarrow> string \<Rightarrow> string \<Rightarrow> job" where
  "enqueue_burn_in delay key row_id = job_of burn_job (Some delay) key row_id ''burn cash-out''"

section \<open>The entry points of the workers\<close>

definition bad_uuid :: exn where
  "bad_uuid = ValueError ''badly formed hexadecimal UUID string''"

definition settle ::
  "(string \<Rightarrow> string option) \<Rightarrow> settings \<Rightarrow> instant \<Rightarrow> uuid \<Rightarrow> settle_run
     \<Rightarrow> (int \<Rightarrow> uuid \<Rightarrow> uuid \<Rightarrow> exn option) \<Rightarrow> db \<Rightarrow> string \<Rightarrow> (exn + worker_result) \<times> db \<times> string option" where
  "settle derive s now new_id g requeue d key =
     (case parse_uuid key of
        None \<Rightarrow> (Inl bad_uuid, d, None)
      | Some k \<Rightarrow> process_settlement derive s now new_id g requeue d k)"

definition burn ::
  "settings \<Rightarrow> instant \<Rightarrow> burn_run \<Rightarrow> (int \<Rightarrow> uuid \<Rightarrow> uuid \<Rightarrow> exn option) \<Rightarrow> db \<Rightarrow> string
     \<Rightarrow> (exn + worker_result) \<times> db \<times> string option" where
  "burn s now g requeue d key =
     (case parse_uuid key of
        None \<Rightarrow> (Inl bad_uuid, d, None)
      | Some k \<Rightarrow> process_burn s now g requeue d k)"

section \<open>The periodic sweeps\<close>

definition sweep_interval_seconds :: int where
  "sweep_interval_seconds = 120"

text \<open>
  One round of the sweeps of \<open>main.py\<close>: burns are re-published, then stale cash-ins expire. Each
  swallows its own exceptions (\<open>db_down\<close> is whether the session raises), so a failing sweep never
  stops the other or the next round.
\<close>

definition sweep_cashouts :: "instant \<Rightarrow> bool \<Rightarrow> (uuid \<Rightarrow> uuid \<Rightarrow> exn option) \<Rightarrow> db \<Rightarrow> uuid list" where
  "sweep_cashouts now db_down enqueue d =
     (if db_down then [] else sweep_unpublished now publish_grace stuck_after enqueue d)"

definition expire_cashins :: "instant \<Rightarrow> bool \<Rightarrow> db \<Rightarrow> db" where
  "expire_cashins now db_down d = (if db_down then d else snd (expire_stale_cashins now cashin_expiry d))"

definition sweep_round ::
  "instant \<Rightarrow> bool \<Rightarrow> bool \<Rightarrow> (uuid \<Rightarrow> uuid \<Rightarrow> exn option) \<Rightarrow> db \<Rightarrow> uuid list \<times> db" where
  "sweep_round now down1 down2 enqueue d = (sweep_cashouts now down1 enqueue d, expire_cashins now down2 d)"

text \<open>
  The life of the application: a round at startup, then one after each pause, until it is shut down.
  Before each round any requests and jobs may have run (\<open>sw_meanwhile\<close>).
\<close>

record sweep_at =
  sw_now :: instant
  sw_cashouts_down :: bool
  sw_cashins_down :: bool
  sw_enqueue :: "uuid \<Rightarrow> uuid \<Rightarrow> exn option"
  sw_meanwhile :: "db \<Rightarrow> db"

fun lifespan :: "sweep_at list \<Rightarrow> db \<Rightarrow> uuid list \<times> db" where
  "lifespan [] d = ([], d)"
| "lifespan (r # rs) d =
     (let (revived, d) = sweep_round (sw_now r) (sw_cashouts_down r) (sw_cashins_down r) (sw_enqueue r) (sw_meanwhile r d);
          (later, d) = lifespan rs d
      in (revived @ later, d))"

lemma lifespan_append:
  "lifespan (rs @ rs') d = (let (a, d) = lifespan rs d; (b, d) = lifespan rs' d in (a @ b, d))"
  by (induction rs arbitrary: d) (simp_all add: Let_def case_prod_unfold)

text \<open>
  No failure is final: whatever happened in between and whichever rounds failed, a round that reaches the
  database leaves no send pending beyond the expiry time, so no abandoned send holds its allowance longer.
\<close>

lemma abandoned_released:
  assumes "lifespan (rs @ [r]) d = (revived, d')" and "\<not> sw_cashins_down r"
    and "t \<in> set (transactions d')" and "t_cashin_status t = CashIn_pending"
  shows "sw_now r - cashin_expiry \<le> t_created_at t"
proof -
  let ?g = "stale_guard (sw_now r - cashin_expiry)"
  have "transactions d' = update_where ?g (expired_values (sw_now r)) (transactions (sw_meanwhile r (snd (lifespan rs d))))"
    using assms(1,2) by (auto simp: lifespan_append Let_def case_prod_unfold sweep_round_def expire_cashins_def expire_stale_cashins_def)
  then have "\<not> ?g t"
    using cashin_expire.no_match_after [of "sw_now r - cashin_expiry" "sw_now r"] assms(3) by (simp add: returning_def find_None_all)
  then show ?thesis using assms(4) by (simp add: stale_guard_def)
qed

section \<open>Reading an identifier back\<close>

lemma hex_val_hex_char: "d < 16 \<Longrightarrow> hex_val (hex_char d) = Some d"
proof -
  have "\<forall>d\<in>{..<16}. hex_val (''0123456789abcdef'' ! d) = Some d"
    by (simp add: lessThan_nat_numeral lessThan_Suc hex_val_def is_digit_def code_def)
  then show "d < 16 \<Longrightarrow> hex_val (hex_char d) = Some d" by (simp add: hex_char_def)
qed

text \<open>A character of a rendered identifier: a hexadecimal digit.\<close>

definition hex_digit :: "char \<Rightarrow> bool" where
  "hex_digit c \<longleftrightarrow> hex_val c \<noteq> None"

lemma hex_digit_not:
  "hex_digit c \<Longrightarrow> \<not> is_space c \<and> c \<notin> {CHR ''-'', CHR ''+'', CHR ''{'', CHR ''}'', CHR ''_'', CHR ''x'', CHR ''X'', CHR ''u''}"
  by (auto simp: hex_digit_def hex_val_def is_digit_def is_space_def code_def split: if_splits)

lemma hex_number_append:
  "list_all hex_digit xs \<Longrightarrow> hex_number a (xs @ ys)
   = hex_number (foldl (\<lambda>n c. 16 * n + int (the (hex_val c))) a xs) ys"
  by (induction xs arbitrary: a) (auto simp: hex_digit_def)

lemma hex_digits_value:
  "list_all hex_digit (hex_digits k n) \<and> length (hex_digits k n) = k
   \<and> foldl (\<lambda>n c. 16 * n + int (the (hex_val c))) 0 (hex_digits k n) = n mod 16 ^ k"
proof (induction k arbitrary: n)
  case (Suc k)
  have v: "hex_val (hex_char (nat (n mod 16))) = Some (nat (n mod 16))"
    by (rule hex_val_hex_char) (simp add: nat_less_iff)
  have "n mod (16 * 16 ^ k) = 16 * (n div 16 mod 16 ^ k) + n mod 16"
    by (simp add: zmod_zmult2_eq)
  with Suc [of "n div 16"] v show ?case by (simp add: hex_digit_def)
qed simp

lemma remove_text_none: "\<forall>c\<in>set s. c \<noteq> p \<Longrightarrow> remove_text (p # ps) s = s"
proof (induction s)
  case (Cons c cs)
  then have "\<not> starts_with (p # ps) (c # cs)" by (auto simp: starts_with_def)
  with Cons show ?case by (subst remove_text.simps) simp
qed (simp add: remove_text.simps)

lemma strip_braces_none: "\<forall>c\<in>set s. c \<noteq> CHR ''{'' \<and> c \<noteq> CHR ''}'' \<Longrightarrow> strip_braces s = s"
proof -
  assume a: "\<forall>c\<in>set s. c \<noteq> CHR ''{'' \<and> c \<noteq> CHR ''}''"
  have "dropWhile (\<lambda>c. c = CHR ''{'' \<or> c = CHR ''}'') t = t" if "\<forall>c\<in>set t. c \<noteq> CHR ''{'' \<and> c \<noteq> CHR ''}''" for t
    using that by (cases t) auto
  from this [OF a] this [of "rev s"] a show "strip_braces s = s" by (simp add: strip_braces_def)
qed

lemma parse_uuid_text:
  assumes "0 \<le> u" and "u < 2 ^ 128"
  shows "parse_uuid (uuid_text u) = Some u"
proof -
  let ?h = "uuid_hex u" and ?t = "uuid_text u"
  have h: "list_all hex_digit ?h" "length ?h = 32"
    and v: "foldl (\<lambda>n c. 16 * n + int (the (hex_val c))) 0 ?h = u mod 16 ^ 32"
    using hex_digits_value [of 32 u] by (simp_all add: uuid_hex_def)
  have parts: "take 8 ?h @ take 4 (drop 8 ?h) @ take 4 (drop 12 ?h) @ take 4 (drop 16 ?h) @ drop 20 ?h = ?h"
    using append_take_drop_id [of 4 "drop 16 ?h"] append_take_drop_id [of 4 "drop 12 ?h"]
      append_take_drop_id [of 4 "drop 8 ?h"] append_take_drop_id [of 8 ?h] by simp
  have sub: "set (take 8 ?h) \<union> set (take 4 (drop 8 ?h)) \<union> set (take 4 (drop 12 ?h)) \<union> set (take 4 (drop 16 ?h))
      \<union> set (drop 20 ?h) \<subseteq> set ?h"
    by (auto dest: in_set_takeD in_set_dropD)
  have chars: "\<forall>c\<in>set ?t. hex_digit c \<or> c = CHR ''-''"
    using h(1) sub by (auto simp: uuid_text_def Let_def list_all_iff)
  have plain: "\<forall>c\<in>set ?t. c \<noteq> CHR ''u'' \<and> c \<noteq> CHR ''{'' \<and> c \<noteq> CHR ''}''"
  proof
    fix c assume "c \<in> set ?t"
    with chars consider "hex_digit c" | "c = CHR ''-''" by blast
    then show "c \<noteq> CHR ''u'' \<and> c \<noteq> CHR ''{'' \<and> c \<noteq> CHR ''}''"
      using hex_digit_not [of c] by cases auto
  qed
  have clean: "remove_text ''uuid:'' (remove_text ''urn:'' ?t) = ?t" "strip_braces ?t = ?t"
    using plain by (simp_all add: remove_text_none strip_braces_none)
  have keep: "remove_char CHR ''-'' s = s" if "set s \<subseteq> set ?h" for s
    using that h(1) hex_digit_not by (intro remove_char_none) (auto simp: list_all_iff)
  have "remove_char CHR ''-'' ?t = take 8 ?h @ take 4 (drop 8 ?h) @ take 4 (drop 12 ?h) @ take 4 (drop 16 ?h) @ drop 20 ?h"
    using sub keep by (simp add: uuid_text_def Let_def) (simp add: remove_char_def)
  then have dash: "remove_char CHR ''-'' ?t = ?h" by (simp only: parts)
  have st: "strip ?h = ?h" using h(1) hex_digit_not by (intro strip_digits) (auto simp: list_all_iff)
  obtain a b cs where abc: "?h = a # b # cs" using h(2) by (auto simp: numeral_eq_Suc length_Suc_conv)
  have ab: "hex_digit a" "hex_digit b" using h(1) by (simp_all add: abc)
  have "lower_char b \<noteq> CHR ''x''"
  proof
    assume "lower_char b = CHR ''x''"
    then have "code (lower_char b) = 120" by (simp add: code_def)
    then have "code b = 120 \<or> code b = 88" by (auto simp: code_lower_char split: if_splits)
    with ab(2) show False by (auto simp: hex_digit_def hex_val_def is_digit_def split: if_splits)
  qed
  then have "take 2 (lower ?h) \<noteq> ''0x''" by (simp add: abc lower_def)
  then have "unsigned_hex ?h = hex_number 0 ?h"
    using ab(1) by (simp add: unsigned_hex_def abc hex_digit_def)
  also have "\<dots> = Some (u mod 16 ^ 32)" using hex_number_append [OF h(1), of 0 "[]"] v by simp
  also have "u mod 16 ^ 32 = u" using assms by (intro mod_pos_pos_trivial) simp_all
  finally have "py_int16 ?h = Some u"
    using hex_digit_not [OF ab(1)] by (simp add: py_int16_def st [unfolded abc] abc)
  then show ?thesis using assms h(2) by (simp add: parse_uuid_def clean dash Let_def)
qed

text \<open>
  Every message leads back to exactly one row (FR-MQ-03): the worker that takes a published job
  parses the idempotency key it was published with and runs the settlement, or the burn, of that
  key; the job's meta data parses back to the row's id; and both survive the text form in which
  they travel.
\<close>

theorem job_traces_to_row:
  assumes "0 \<le> key" and "key < 2 ^ 128" and "0 \<le> i" and "i < 2 ^ 128"
  shows "settle derive s now new_id g requeue d (j_arg (enqueue_settlement (uuid_text key) (uuid_text i)))
      = process_settlement derive s now new_id g requeue d key
    \<and> burn s now h requeue d (j_arg (enqueue_burn_in delay (uuid_text key) (uuid_text i)))
      = process_burn s now h requeue d key
    \<and> parse_uuid (j_transaction_id (enqueue_settlement (uuid_text key) (uuid_text i))) = Some i
    \<and> parse_uuid (j_transaction_id (enqueue_burn_in delay (uuid_text key) (uuid_text i))) = Some i"
  using assms
  by (simp add: settle_def burn_def enqueue_settlement_def enqueue_burn_in_def job_of_def parse_uuid_text)

theorem job_traces_to_row_witness:
  "parse_uuid (j_transaction_id (enqueue_settlement (uuid_text 51) (uuid_text 50))) = Some 50"
  using job_traces_to_row [of 51 50] by simp

section \<open>Claims and time-outs\<close>

text \<open>
  A live worker keeps its claim: while a job that claimed a row may still be running (the queue
  kills it after \<open>JOB_TIMEOUT\<close>), nothing treats the claim as dead: no other worker can claim the
  burn, the sweep does not re-publish it, and a settlement in processing does not count as stuck.
  The bound holds because both \<open>STUCK_AFTER\<close> windows exceed the job time-out.
\<close>

theorem live_claim_respected:
  assumes "claimed \<le> now" and "now \<le> claimed + seconds job_timeout"
  shows "\<not> burn_claim_guard now key (burn_claim_values claimed c)
    \<and> \<not> sweep_guard now publish_grace stuck_after (burn_claim_values claimed c)
    \<and> \<not> is_stuck now (claim_values claimed t)"
  using assms
  by (simp add: burn_claim_guard_def burn_claim_values_def sweep_guard_def is_stuck_def claim_values_def
      job_timeout_def stuck_after_def settle_stuck_after_def)

theorem live_claim_respected_witness:
  "\<not> burn_claim_guard (seconds 300) 81 (burn_claim_values 0 example_cashout)"
  using live_claim_respected [of 0 "seconds 300" 81 example_cashout undefined] by (simp add: job_timeout_def)

end
