(* ===== verification/Book.thy ===== *)
theory Book
  imports Models
begin

text \<open>
  What the platform promises about recipients' money, as an abstract account book over exact
  rationals: incoming payments that are settled or not, cash-out orders with their state, and
  accounts. \<open>book_step\<close> lists the only movements there are. Theory Commits shows that every commit
  of the program is such a movement or none.
\<close>

record entry =
  e_id :: uuid
  e_amount :: dec
  e_to :: "uuid option"
  e_settled :: bool

record order =
  o_id :: uuid
  o_account :: uuid
  o_owner :: uuid
  o_amount :: dec
  o_status :: cashout_status

record account =
  ac_id :: uuid
  ac_owner :: uuid
  ac_balance :: dec

record book =
  entries :: "entry list"
  orders :: "order list"
  accounts :: "account list"

definition settle_entry :: "entry \<Rightarrow> entry" where
  "settle_entry e = e\<lparr>e_settled := True\<rparr>"

definition move_order :: "cashout_status \<Rightarrow> order \<Rightarrow> order" where
  "move_order st r = r\<lparr>o_status := st\<rparr>"

definition add_balance :: "dec \<Rightarrow> account \<Rightarrow> account" where
  "add_balance x a = a\<lparr>ac_balance := ac_balance a + x\<rparr>"

interpretation entry_change: row_change e_id settle_entry
  by unfold_locales (simp add: settle_entry_def)

interpretation order_change: row_change o_id "move_order st" for st
  by unfold_locales (simp add: move_order_def)

interpretation account_change: row_change ac_id "add_balance x" for x
  by unfold_locales (simp add: add_balance_def)

section \<open>Sums\<close>

definition credited :: "uuid \<Rightarrow> entry \<Rightarrow> dec" where
  "credited uid e = (if e_settled e \<and> e_to e = Some uid then e_amount e else 0)"

definition taken_out :: "uuid \<Rightarrow> order \<Rightarrow> dec" where
  "taken_out uid r = (if o_status r \<in> {Out_approved, Out_completed} \<and> o_owner r = uid then o_amount r else 0)"

definition promised :: "uuid \<Rightarrow> order \<Rightarrow> dec" where
  "promised uid r = (if o_status r = Out_requested \<and> o_owner r = uid then o_amount r else 0)"

definition owned :: "uuid \<Rightarrow> account \<Rightarrow> dec" where
  "owned uid a = (if ac_owner a = uid then ac_balance a else 0)"

definition credits :: "book \<Rightarrow> uuid \<Rightarrow> dec" where
  "credits b uid = (\<Sum>e\<leftarrow>entries b. credited uid e)"

definition debits :: "book \<Rightarrow> uuid \<Rightarrow> dec" where
  "debits b uid = (\<Sum>r\<leftarrow>orders b. taken_out uid r)"

definition pending :: "book \<Rightarrow> uuid \<Rightarrow> dec" where
  "pending b uid = (\<Sum>r\<leftarrow>orders b. promised uid r)"

definition holdings :: "book \<Rightarrow> uuid \<Rightarrow> dec" where
  "holdings b uid = (\<Sum>a\<leftarrow>accounts b. owned uid a)"

section \<open>The movements\<close>

definition with_entry :: "book \<Rightarrow> entry \<Rightarrow> book" where
  "with_entry b e = b\<lparr>entries := update_where (\<lambda>x. e_id x = e_id e) settle_entry (entries b)\<rparr>"

definition with_order :: "book \<Rightarrow> order \<Rightarrow> cashout_status \<Rightarrow> book" where
  "with_order b r st = b\<lparr>orders := update_where (\<lambda>x. o_id x = o_id r) (move_order st) (orders b)\<rparr>"

definition with_balance :: "book \<Rightarrow> account \<Rightarrow> dec \<Rightarrow> book" where
  "with_balance b a x = b\<lparr>accounts := update_where (\<lambda>y. ac_id y = ac_id a) (add_balance x) (accounts b)\<rparr>"

inductive book_step :: "book \<Rightarrow> book \<Rightarrow> bool" where
  Booked: "0 < e_amount e \<Longrightarrow> \<not> e_settled e \<Longrightarrow> e_id e \<notin> e_id ` set (entries b)
    \<Longrightarrow> book_step b (b\<lparr>entries := entries b @ [e]\<rparr>)"
| Opened: "0 < o_amount r \<Longrightarrow> o_status r = Out_requested \<Longrightarrow> o_id r \<notin> o_id ` set (orders b)
    \<Longrightarrow> a \<in> set (accounts b) \<Longrightarrow> ac_id a = o_account r \<Longrightarrow> ac_owner a = o_owner r
    \<Longrightarrow> pending b (o_owner r) + o_amount r \<le> holdings b (o_owner r)
    \<Longrightarrow> book_step b (b\<lparr>orders := orders b @ [r]\<rparr>)"
| Account: "ac_id a \<notin> ac_id ` set (accounts b) \<Longrightarrow> ac_owner a \<notin> ac_owner ` set (accounts b)
    \<Longrightarrow> ac_balance a = 0 \<Longrightarrow> book_step b (b\<lparr>accounts := accounts b @ [a]\<rparr>)"
| Settled: "e \<in> set (entries b) \<Longrightarrow> \<not> e_settled e \<Longrightarrow> a \<in> set (accounts b) \<Longrightarrow> e_to e = Some (ac_owner a)
    \<Longrightarrow> book_step b (with_balance (with_entry b e) a (e_amount e))"
| Reserved: "r \<in> set (orders b) \<Longrightarrow> o_status r = Out_requested \<Longrightarrow> a \<in> set (accounts b) \<Longrightarrow> ac_id a = o_account r
    \<Longrightarrow> book_step b (with_balance (with_order b r Out_approved) a (- o_amount r))"
| Rejected: "r \<in> set (orders b) \<Longrightarrow> o_status r = Out_requested \<Longrightarrow> book_step b (with_order b r Out_failed)"
| Burned: "r \<in> set (orders b) \<Longrightarrow> o_status r = Out_approved \<Longrightarrow> book_step b (with_order b r Out_completed)"
| Restored: "r \<in> set (orders b) \<Longrightarrow> o_status r = Out_approved \<Longrightarrow> a \<in> set (accounts b) \<Longrightarrow> ac_id a = o_account r
    \<Longrightarrow> book_step b (with_balance (with_order b r Out_failed) a (o_amount r))"

definition linked :: "book \<Rightarrow> order \<Rightarrow> bool" where
  "linked b r \<longleftrightarrow> (\<exists>a\<in>set (accounts b). ac_id a = o_account r \<and> ac_owner a = o_owner r)"

definition shaped :: "book \<Rightarrow> bool" where
  "shaped b \<longleftrightarrow> distinct (map e_id (entries b)) \<and> distinct (map o_id (orders b))
     \<and> distinct (map ac_id (accounts b)) \<and> distinct (map ac_owner (accounts b))
     \<and> (\<forall>e\<in>set (entries b). 0 < e_amount e) \<and> (\<forall>r\<in>set (orders b). 0 < o_amount r \<and> linked b r)"

definition balanced :: "book \<Rightarrow> bool" where
  "balanced b \<longleftrightarrow> (\<forall>uid. holdings b uid = credits b uid - debits b uid \<and> pending b uid \<le> holdings b uid)"

section \<open>The movements keep the book\<close>

lemma with_fields [simp]:
  "entries (with_order b r st) = entries b" "accounts (with_order b r st) = accounts b"
  "orders (with_entry b e) = orders b" "accounts (with_entry b e) = accounts b"
  "entries (with_balance b a x) = entries b" "orders (with_balance b a x) = orders b"
  by (simp_all add: with_order_def with_entry_def with_balance_def)

lemma sums_entry:
  assumes "distinct (map e_id (entries b))" and "e \<in> set (entries b)" and "\<not> e_settled e"
  shows "credits (with_entry b e) uid = credits b uid + (if e_to e = Some uid then e_amount e else 0)"
proof -
  have "credited uid (settle_entry e) = (if e_to e = Some uid then e_amount e else 0)" "credited uid e = 0"
    using assms(3) by (simp_all add: credited_def settle_entry_def)
  with entry_change.sum_update_where [OF assms(1,2), of "\<lambda>x. e_id x = e_id e" "credited uid"]
  show ?thesis by (simp add: credits_def with_entry_def)
qed

lemma sums_order:
  assumes "distinct (map o_id (orders b))" and "r \<in> set (orders b)"
  shows "debits (with_order b r st) uid = debits b uid - taken_out uid r + taken_out uid (move_order st r)"
    "pending (with_order b r st) uid = pending b uid - promised uid r + promised uid (move_order st r)"
  unfolding debits_def pending_def with_order_def
  using order_change.sum_update_where [OF assms, of "\<lambda>x. o_id x = o_id r" "taken_out uid" st]
    order_change.sum_update_where [OF assms, of "\<lambda>x. o_id x = o_id r" "promised uid" st]
  by simp_all

lemma sums_balance:
  assumes "distinct (map ac_id (accounts b))" and "a \<in> set (accounts b)"
  shows "holdings (with_balance b a x) uid = holdings b uid + (if ac_owner a = uid then x else 0)"
proof -
  have "owned uid (add_balance x a) = owned uid a + (if ac_owner a = uid then x else 0)"
    by (simp add: owned_def add_balance_def)
  with account_change.sum_update_where [OF assms, of "\<lambda>y. ac_id y = ac_id a" "owned uid" x]
  show ?thesis by (simp add: holdings_def with_balance_def)
qed

lemma sums_kept [simp]:
  "credits (with_order b r st) uid = credits b uid" "holdings (with_order b r st) uid = holdings b uid"
  "debits (with_entry b e) uid = debits b uid" "pending (with_entry b e) uid = pending b uid"
  "holdings (with_entry b e) uid = holdings b uid"
  "credits (with_balance b a x) uid = credits b uid" "debits (with_balance b a x) uid = debits b uid"
  "pending (with_balance b a x) uid = pending b uid"
  by (simp_all add: credits_def debits_def pending_def holdings_def)

lemma key_unique: "distinct (map key xs) \<Longrightarrow> x \<in> set xs \<Longrightarrow> y \<in> set xs \<Longrightarrow> key x = key y \<Longrightarrow> x = y"
  by (auto simp: distinct_map dest: inj_onD)

lemma same_account:
  assumes "shaped b" and "r \<in> set (orders b)" and "a \<in> set (accounts b)" and "ac_id a = o_account r"
  shows "ac_owner a = o_owner r"
proof -
  from assms(1,2) obtain a' where a': "a' \<in> set (accounts b)" "ac_id a' = o_account r" "ac_owner a' = o_owner r"
    unfolding shaped_def linked_def by blast
  have "distinct (map ac_id (accounts b))" using assms(1) by (simp add: shaped_def)
  from key_unique [OF this assms(3) a'(1)] assms(4) a'(2,3) show ?thesis by simp
qed

lemma linked_with:
  "linked (with_entry b e) r = linked b r" "linked (with_order b q st) r = linked b r"
  "linked b r \<Longrightarrow> linked (with_balance b a x) r"
proof -
  show "linked (with_entry b e) r = linked b r" "linked (with_order b q st) r = linked b r"
    by (simp_all add: linked_def)
  assume "linked b r"
  then obtain a' where a': "a' \<in> set (accounts b)" "ac_id a' = o_account r" "ac_owner a' = o_owner r"
    by (auto simp: linked_def)
  let ?a = "if ac_id a' = ac_id a then add_balance x a' else a'"
  have "?a \<in> set (accounts (with_balance b a x))" using a'(1) by (auto simp: with_balance_def in_update_where)
  moreover have "ac_id ?a = o_account r" "ac_owner ?a = o_owner r" using a'(2,3) by (simp_all add: add_balance_def)
  ultimately show "linked (with_balance b a x) r" unfolding linked_def by blast
qed

lemma shaped_with:
  assumes "shaped b"
  shows "shaped (with_entry b e)" "shaped (with_order b r st)" "shaped (with_balance b a x)"
proof -
  have e: "0 < e_amount e'" if "e' \<in> set (update_where P settle_entry (entries b))" for e' P
    using that assms by (auto simp: shaped_def in_update_where settle_entry_def)
  show "shaped (with_entry b e)"
    unfolding shaped_def linked_with
    using assms e by (simp add: shaped_def with_entry_def entry_change.keys_update_where)
  have o: "0 < o_amount r' \<and> linked b r'" if "r' \<in> set (update_where P (move_order st) (orders b))" for r' P
    using that assms by (auto simp: shaped_def in_update_where move_order_def linked_def)
  show "shaped (with_order b r st)"
    unfolding shaped_def linked_with
    using assms o by (simp add: shaped_def with_order_def order_change.keys_update_where)
  have own: "map ac_owner (update_where P (add_balance x) xs) = map ac_owner xs" for P xs
    by (simp add: update_where_def add_balance_def)
  show "shaped (with_balance b a x)"
    using assms linked_with(3) [of b _ a x]
    by (simp add: shaped_def with_balance_def account_change.keys_update_where own)
qed

lemma shaped_step: "book_step b b' \<Longrightarrow> shaped b \<Longrightarrow> shaped b'"
proof (induction rule: book_step.induct)
  case (Opened r b a)
  then show ?case by (auto simp: shaped_def linked_def)
next
  case (Account a b)
  then show ?case by (auto simp: shaped_def linked_def)
qed (auto simp: shaped_with, auto simp: shaped_def linked_def)

lemma balancedD:
  "balanced b \<Longrightarrow> holdings b uid = credits b uid - debits b uid" "balanced b \<Longrightarrow> pending b uid \<le> holdings b uid"
  unfolding balanced_def by blast+

text \<open>The four sums of a changed book, relative to those of a balanced one.\<close>

lemma balanced_moved:
  assumes "balanced b" and "\<And>uid. credits b' uid = credits b uid + dc uid" and "\<And>uid. debits b' uid = debits b uid + dd uid"
    and "\<And>uid. pending b' uid = pending b uid + dp uid" and "\<And>uid. holdings b' uid = holdings b uid + dh uid"
    and "\<And>uid. dh uid = dc uid - dd uid"
    and "\<And>uid. dp uid \<le> dh uid \<or> pending b uid + dp uid \<le> holdings b uid + dh uid"
  shows "balanced b'"
  unfolding balanced_def
proof
  fix uid
  from assms(1) have "holdings b uid = credits b uid - debits b uid" "pending b uid \<le> holdings b uid"
    by (rule balancedD)+
  with assms(2-6) [of uid] assms(7) [of uid]
  show "holdings b' uid = credits b' uid - debits b' uid \<and> pending b' uid \<le> holdings b' uid"
    by linarith
qed

text \<open>A row that counts for nobody yet changes none of the sums.\<close>

lemma balanced_added:
  assumes "balanced b"
  shows "\<not> e_settled e \<Longrightarrow> balanced (b\<lparr>entries := entries b @ [e]\<rparr>)"
    and "ac_balance a = 0 \<Longrightarrow> balanced (b\<lparr>accounts := accounts b @ [a]\<rparr>)"
    and "o_status r = Out_requested \<Longrightarrow> pending b (o_owner r) + o_amount r \<le> holdings b (o_owner r)
      \<Longrightarrow> balanced (b\<lparr>orders := orders b @ [r]\<rparr>)"
  using balancedD [OF assms]
  by (auto simp: balanced_def credits_def debits_def pending_def holdings_def credited_def owned_def taken_out_def promised_def)

text \<open>
  An order that moves on takes the change of what it has taken out from the account of its owner, if there
  is a change, and never promises more than it gives back.
\<close>

lemma balanced_order:
  assumes "shaped b" and "balanced b" and "r \<in> set (orders b)"
    and "x = taken_out (o_owner r) r - taken_out (o_owner r) (move_order st r)"
    and "promised (o_owner r) (move_order st r) - promised (o_owner r) r \<le> x"
    and "b' = with_order b r st \<and> x = 0
      \<or> (\<exists>a\<in>set (accounts b). ac_id a = o_account r \<and> b' = with_balance (with_order b r st) a x)"
  shows "balanced b'"
proof (rule balanced_moved [OF assms(2)])
  have d: "distinct (map o_id (orders b))" "distinct (map ac_id (accounts b))" using assms(1) by (auto simp: shaped_def)
  have own: "a \<in> set (accounts b) \<Longrightarrow> ac_id a = o_account r \<Longrightarrow> ac_owner a = o_owner r" for a
    using same_account [OF assms(1,3)] .
  have other: "o_owner r \<noteq> uid \<Longrightarrow> taken_out uid r = 0 \<and> taken_out uid (move_order st r) = 0
      \<and> promised uid r = 0 \<and> promised uid (move_order st r) = 0" for uid
    by (simp add: taken_out_def promised_def move_order_def)
  fix uid
  show "credits b' uid = credits b uid + 0" using assms(6) by auto
  show "debits b' uid = debits b uid + (taken_out uid (move_order st r) - taken_out uid r)"
    "pending b' uid = pending b uid + (promised uid (move_order st r) - promised uid r)"
    using assms(6) sums_order [OF d(1) assms(3)] by auto
  show "holdings b' uid = holdings b uid + (if o_owner r = uid then x else 0)"
    using assms(6) sums_balance [of "with_order b r st" _ x uid] d(2) own by auto
  show "(if o_owner r = uid then x else 0) = 0 - (taken_out uid (move_order st r) - taken_out uid r)"
    "promised uid (move_order st r) - promised uid r \<le> (if o_owner r = uid then x else 0)
      \<or> pending b uid + (promised uid (move_order st r) - promised uid r) \<le> holdings b uid + (if o_owner r = uid then x else 0)"
    using other [of uid] assms(4,5) by auto
qed

lemma balanced_step: "book_step b b' \<Longrightarrow> shaped b \<Longrightarrow> balanced b \<Longrightarrow> balanced b'"
proof (induction rule: book_step.induct)
  case (Settled e b a)
  then have d: "distinct (map e_id (entries b))" "distinct (map ac_id (accounts b))" "0 < e_amount e"
    by (auto simp: shaped_def)
  let ?d = "\<lambda>uid. if ac_owner a = uid then e_amount e else 0"
  from d Settled.hyps show ?case
    by (intro balanced_moved [OF Settled.prems(2), where dc = ?d and dd = "\<lambda>_. 0" and dp = "\<lambda>_. 0" and dh = ?d])
      (simp_all add: sums_entry sums_balance)
next
  case (Reserved r b a)
  then have "0 < o_amount r" by (auto simp: shaped_def)
  with Reserved show ?case
    by (intro balanced_order [OF Reserved.prems, of r "- o_amount r"])
      (auto simp: taken_out_def promised_def move_order_def)
next
  case (Rejected r b)
  then have "0 < o_amount r" by (auto simp: shaped_def)
  with Rejected show ?case
    by (intro balanced_order [OF Rejected.prems, of r 0]) (auto simp: taken_out_def promised_def move_order_def)
next
  case (Burned r b)
  then show ?case
    by (intro balanced_order [OF Burned.prems, of r 0 Out_completed]) (auto simp: taken_out_def promised_def move_order_def)
next
  case (Restored r b a)
  then have "0 < o_amount r" by (auto simp: shaped_def)
  with Restored show ?case
    by (intro balanced_order [OF Restored.prems, of r "o_amount r"])
      (auto simp: taken_out_def promised_def move_order_def)
qed (auto intro: balanced_added)

section \<open>The order of states\<close>

text \<open>Cash-out orders only move forward, and the two final states stay (FR-CO-03).\<close>

definition forward :: "order list \<Rightarrow> order list \<Rightarrow> bool" where
  "forward rs rs' \<longleftrightarrow> (\<forall>r\<in>set rs. \<exists>r'\<in>set rs'. o_id r' = o_id r \<and> o_status r \<le> o_status r'
     \<and> (o_status r \<in> {Out_completed, Out_failed} \<longrightarrow> r' = r))"

lemma forward_refl: "forward rs rs"
  by (auto simp: forward_def)

lemma forward_trans: "forward a b \<Longrightarrow> forward b c \<Longrightarrow> forward a c"
  unfolding forward_def by (fastforce intro: order_trans)

lemma forward_append: "forward rs (rs @ [r])"
  by (auto simp: forward_def)

lemma forward_move:
  assumes "distinct (map o_id rs)" and "r \<in> set rs" and "o_status r \<le> st" and "o_status r \<notin> {Out_completed, Out_failed}"
  shows "forward rs (update_where (\<lambda>x. o_id x = o_id r) (move_order st) rs)"
  unfolding forward_def
proof
  fix x assume x: "x \<in> set rs"
  let ?x = "if o_id x = o_id r then move_order st x else x"
  have "?x \<in> set (update_where (\<lambda>x. o_id x = o_id r) (move_order st) rs)" using x by (auto simp: in_update_where)
  moreover have "o_id ?x = o_id x \<and> o_status x \<le> o_status ?x
    \<and> (o_status x \<in> {Out_completed, Out_failed} \<longrightarrow> ?x = x)"
  proof (cases "o_id x = o_id r")
    case True
    with key_unique [OF assms(1) x assms(2)] have "x = r" by simp
    with assms(3,4) show ?thesis by (simp add: move_order_def)
  qed simp
  ultimately show "\<exists>r'\<in>set (update_where (\<lambda>x. o_id x = o_id r) (move_order st) rs). o_id r' = o_id x
    \<and> o_status x \<le> o_status r' \<and> (o_status x \<in> {Out_completed, Out_failed} \<longrightarrow> r' = x)" by blast
qed

lemma forward_step: "book_step b b' \<Longrightarrow> shaped b \<Longrightarrow> forward (orders b) (orders b')"
proof (induction rule: book_step.induct)
  case (Opened r b a)
  then show ?case by (simp add: forward_append)
qed (auto simp: forward_refl with_order_def shaped_def less_eq_cashout_status_def intro!: forward_move)

text \<open>Payments are never forgotten, and a settled one stays settled.\<close>

definition remembered :: "entry list \<Rightarrow> entry list \<Rightarrow> bool" where
  "remembered es es' \<longleftrightarrow> (\<forall>e\<in>set es. \<exists>e'\<in>set es'. e' = e \<or> (\<not> e_settled e \<and> e' = settle_entry e))"

lemma remembered_refl: "remembered es es"
  by (auto simp: remembered_def)

lemma remembered_trans: "remembered a b \<Longrightarrow> remembered b c \<Longrightarrow> remembered a c"
  unfolding remembered_def by (metis settle_entry_def entry.select_convs(4) entry.surjective entry.update_convs(4))

lemma remembered_step: "book_step b b' \<Longrightarrow> shaped b \<Longrightarrow> remembered (entries b) (entries b')"
proof (induction rule: book_step.induct)
  case (Settled e b a)
  show ?case
    unfolding remembered_def
  proof
    fix x assume x: "x \<in> set (entries b)"
    let ?x = "if e_id x = e_id e then settle_entry x else x"
    have "?x \<in> set (entries (with_balance (with_entry b e) a (e_amount e)))"
      using x by (auto simp: with_entry_def in_update_where)
    moreover have "e_id x = e_id e \<Longrightarrow> x = e"
      using key_unique [of e_id "entries b" x e] Settled.prems x Settled.hyps(1) by (simp add: shaped_def)
    ultimately show "\<exists>e'\<in>set (entries (with_balance (with_entry b e) a (e_amount e))).
        e' = x \<or> (\<not> e_settled x \<and> e' = settle_entry x)"
      using Settled.hyps(2) by (intro bexI [of _ ?x]) auto
  qed
qed (auto simp: remembered_def)

inductive_cases book_stepE: "book_step b b'"

text \<open>A movement touches one owner's holdings at most.\<close>

lemma one_owner: "book_step b b' \<Longrightarrow> shaped b \<Longrightarrow> \<exists>uid. \<forall>v. v \<noteq> uid \<longrightarrow> holdings b' v = holdings b v"
proof (erule book_stepE)
  fix e a assume s: "shaped b" and a: "a \<in> set (accounts b)" and b': "b' = with_balance (with_entry b e) a (e_amount e)"
  from s have "distinct (map ac_id (accounts (with_entry b e)))" by (simp add: shaped_def)
  with a show ?thesis by (intro exI [of _ "ac_owner a"]) (simp add: b' sums_balance)
next
  fix r a assume s: "shaped b" and a: "a \<in> set (accounts b)" and b': "b' = with_balance (with_order b r Out_approved) a (- o_amount r)"
  from s have "distinct (map ac_id (accounts (with_order b r Out_approved)))" by (simp add: shaped_def)
  with a show ?thesis by (intro exI [of _ "ac_owner a"]) (simp add: b' sums_balance)
next
  fix r a assume s: "shaped b" and a: "a \<in> set (accounts b)" and b': "b' = with_balance (with_order b r Out_failed) a (o_amount r)"
  from s have "distinct (map ac_id (accounts (with_order b r Out_failed)))" by (simp add: shaped_def)
  with a show ?thesis by (intro exI [of _ "ac_owner a"]) (simp add: b' sums_balance)
qed (auto simp: holdings_def owned_def)

end
