(* ===== verification/Commits.thy ===== *)
theory Commits
  imports Jobs Book
begin

text \<open>
  The commits of the program as a step relation on the database, and their refinement of the
  account book. A step is one database transaction of a web request or a worker; steps interleave
  freely, so a run of the platform with any number of concurrent requests and jobs is a sequence of
  them. Operations that work on an instance loaded earlier take it as an argument that agrees with
  the row in its fixed columns; wallet rows are read when they are locked (what a stale instance
  does is shown in theories Settlement and Reserve).
\<close>

definition same_payment :: "transaction \<Rightarrow> transaction \<Rightarrow> bool" where
  "same_payment t r \<longleftrightarrow> t_id t = t_id r \<and> t_uctusd_amount t = t_uctusd_amount r
     \<and> t_recipient_user_id t = t_recipient_user_id r"

definition same_request :: "cashout_request \<Rightarrow> cashout_request \<Rightarrow> bool" where
  "same_request c r \<longleftrightarrow> c_id c = c_id r \<and> c_wallet_id c = c_wallet_id r
     \<and> c_recipient_user_id c = c_recipient_user_id r \<and> c_uctusd_amount c = c_uctusd_amount r"

definition with_transactions :: "db \<Rightarrow> (transaction \<Rightarrow> bool) \<Rightarrow> (transaction \<Rightarrow> transaction) \<Rightarrow> db" where
  "with_transactions d P f = d\<lparr>transactions := update_where P f (transactions d)\<rparr>"

definition open_states :: "settlement_status set" where
  "open_states = {Settle_queued, Settle_processing, Settle_failed}"

inductive commit :: "settings \<Rightarrow> db \<Rightarrow> db \<Rightarrow> bool" for s where
  Booked: "create_remittance s now i k d u bid zar mc acc = (Inr t, d') \<Longrightarrow> i \<notin> t_id ` set (transactions d)
    \<Longrightarrow> commit s d d'"
| Received: "commit s d (with_transactions d (cashin_guard i) (received_values now reviewer))"
| Declined: "commit s d (with_transactions d (cashin_guard i) (cashin_failed_values now reviewer why))"
| Expired: "commit s d (snd (expire_stale_cashins now age d))"
| Claimed: "commit s d (snd (claim now d key))"
| Signed: "commit s d (snd (remember_signed now None i st d))"
| Settled: "r \<in> set (transactions d) \<Longrightarrow> same_payment txn r \<Longrightarrow> recipient_wallet d txn \<noteq> None
    \<Longrightarrow> from \<in> open_states \<Longrightarrow> complete_settlement now None d txn h {from} = (Inr True, d') \<Longrightarrow> commit s d d'"
| Settle_stopped: "from \<in> open_states \<Longrightarrow> commit s d (snd (fail_settlement now d txn why h {from}))"
| Requeued: "commit s d (with_transactions d (settle_guard i {Settle_processing}) (requeued_values now why))"
| Retried: "t_settlement_status seen \<in> open_states
    \<Longrightarrow> commit s d (with_transactions d (retry_guard seen) (retried_values now seen))"
| Flagged: "commit s d (set_aml_flag now d txn flag)"
| Provisioned: "get_wallet_for_user d (u_id u) = None \<Longrightarrow> unique_wallets (wallets d @ [new_wallet now i (u_id u) acc])
    \<Longrightarrow> commit s d (d\<lparr>wallets := wallets d @ [new_wallet now i (u_id u) acc], users := set_can_receive now u (users d)\<rparr>)"
| Trusted: "commit s d (d\<lparr>wallets := update_where (\<lambda>x. w_id x = i) (set_trust now) (wallets d)\<rparr>)"
| Requested: "create_request s now i k None d u amount cur acc = (Inr c, d') \<Longrightarrow> parse_amount raw = Inr amount
    \<Longrightarrow> i \<notin> c_id ` set (cashouts d) \<Longrightarrow> commit s d d'"
| Reserved: "c \<in> set (cashouts d) \<Longrightarrow> same_request req c \<Longrightarrow> reserve now None d req admin = (Inr w, d')
    \<Longrightarrow> commit s d d'"
| Rejected: "commit s d (snd (reject now d req admin why))"
| Burn_claimed: "commit s d (snd (claim_burn now d key))"
| Burn_released: "commit s d (release_claim now d req)"
| Burn_signed: "commit s d (snd (remember_burn now None i st d))"
| Burned: "commit s d (snd (complete_burn now d req h {Out_approved}))"
| Burn_held: "commit s d (hold_unknown now d req why)"
| Restored: "c \<in> set (cashouts d) \<Longrightarrow> same_request req c
    \<Longrightarrow> fail_and_restore now None d req why h {Out_approved} = (Inr True, d') \<Longrightarrow> commit s d d'"
| Elsewhere: "transactions d' = transactions d \<Longrightarrow> wallets d' = wallets d \<Longrightarrow> cashouts d' = cashouts d
    \<Longrightarrow> commit s d d'"

section \<open>The book behind the tables\<close>

definition entry_of :: "transaction \<Rightarrow> entry" where
  "entry_of t = \<lparr>e_id = t_id t, e_amount = t_uctusd_amount t, e_to = t_recipient_user_id t,
     e_settled = (t_settlement_status t = Settle_completed)\<rparr>"

definition order_of :: "cashout_request \<Rightarrow> order" where
  "order_of c = \<lparr>o_id = c_id c, o_account = c_wallet_id c, o_owner = c_recipient_user_id c,
     o_amount = c_uctusd_amount c, o_status = c_status c\<rparr>"

definition account_of :: "wallet \<Rightarrow> account" where
  "account_of w = \<lparr>ac_id = w_id w, ac_owner = w_user_id w, ac_balance = w_balance_uctusd w\<rparr>"

definition book_of :: "db \<Rightarrow> book" where
  "book_of d = \<lparr>entries = map entry_of (transactions d), orders = map order_of (cashouts d),
     accounts = map account_of (wallets d)\<rparr>"

text \<open>Every stored amount fits its column, and the wallet table keeps its unique constraints.\<close>

definition well_typed :: "db \<Rightarrow> bool" where
  "well_typed d \<longleftrightarrow> balances_ok d \<and> (\<forall>t\<in>set (transactions d). column_value 20 6 (t_uctusd_amount t))
     \<and> (\<forall>c\<in>set (cashouts d). column_value 20 6 (c_uctusd_amount c))"

definition sound :: "db \<Rightarrow> bool" where
  "sound d \<longleftrightarrow> well_typed d \<and> shaped (book_of d) \<and> balanced (book_of d)"

lemma map_update_where:
  "(\<And>x. x \<in> set t \<Longrightarrow> P x \<longleftrightarrow> Q (a x)) \<Longrightarrow> (\<And>x. x \<in> set t \<Longrightarrow> P x \<Longrightarrow> a (f x) = g (a x))
   \<Longrightarrow> map a (update_where P f t) = update_where Q g (map a t)"
  by (auto simp: update_where_def)

lemma map_update_same:
  "(\<And>x. x \<in> set t \<Longrightarrow> P x \<Longrightarrow> a (f x) = a x) \<Longrightarrow> map a (update_where P f t) = map a t"
  by (auto simp: update_where_def)

lemma book_ids [simp]:
  "map e_id (entries (book_of d)) = map t_id (transactions d)"
  "map o_id (orders (book_of d)) = map c_id (cashouts d)"
  "map ac_id (accounts (book_of d)) = map w_id (wallets d)"
  "map ac_owner (accounts (book_of d)) = map w_user_id (wallets d)"
  by (simp_all add: book_of_def entry_of_def order_of_def account_of_def)

lemma soundD:
  assumes "sound d"
  shows "distinct (map t_id (transactions d))" "distinct (map c_id (cashouts d))"
    "distinct (map w_id (wallets d))" "distinct (map w_user_id (wallets d))" "unique_wallets (wallets d)"
    "t \<in> set (transactions d) \<Longrightarrow> column_value 20 6 (t_uctusd_amount t) \<and> 0 < t_uctusd_amount t"
    "c \<in> set (cashouts d) \<Longrightarrow> column_value 20 6 (c_uctusd_amount c) \<and> 0 < c_uctusd_amount c"
    "w \<in> set (wallets d) \<Longrightarrow> column_value 20 6 (w_balance_uctusd w)"
    "balances_ok d" "requests_ok d"
proof -
  from assms have sh: "shaped (book_of d)" and ty: "well_typed d" by (simp_all add: sound_def)
  from sh show "distinct (map t_id (transactions d))" "distinct (map c_id (cashouts d))"
    "distinct (map w_id (wallets d))" "distinct (map w_user_id (wallets d))"
    by (simp_all add: shaped_def)
  from ty show "balances_ok d" by (simp add: well_typed_def)
  then show "unique_wallets (wallets d)" "w \<in> set (wallets d) \<Longrightarrow> column_value 20 6 (w_balance_uctusd w)"
    by (simp_all add: balances_ok_def)
  have pos: "0 < c_uctusd_amount c" if "c \<in> set (cashouts d)" for c
    using sh that by (auto simp: shaped_def book_of_def order_of_def)
  with ty show "requests_ok d" by (simp add: requests_ok_def well_typed_def)
  show "c \<in> set (cashouts d) \<Longrightarrow> column_value 20 6 (c_uctusd_amount c) \<and> 0 < c_uctusd_amount c"
    using ty pos by (simp add: well_typed_def)
  show "t \<in> set (transactions d) \<Longrightarrow> column_value 20 6 (t_uctusd_amount t) \<and> 0 < t_uctusd_amount t"
    using sh ty by (auto simp: shaped_def well_typed_def book_of_def entry_of_def)
qed

lemma holdings_balance: "distinct (map w_user_id (wallets d)) \<Longrightarrow> holdings (book_of d) uid = balance_of d uid"
proof -
  have "(\<Sum>w\<leftarrow>ws. if w_user_id w = uid then w_balance_uctusd w else 0)
      = (case by_key w_user_id uid ws of None \<Rightarrow> 0 | Some w \<Rightarrow> w_balance_uctusd w)"
    if "distinct (map w_user_id ws)" for ws
    using that
  proof (induction ws)
    case (Cons w ws)
    show ?case
    proof (cases "w_user_id w = uid")
      case True
      then have "by_key w_user_id uid ws = None" using Cons.prems by (auto simp: by_key_None image_iff)
      with True Cons show ?thesis by (simp add: by_key_def)
    next
      case False
      with Cons show ?thesis by (simp add: by_key_def)
    qed
  qed (simp add: by_key_def)
  moreover assume "distinct (map w_user_id (wallets d))"
  ultimately show ?thesis
    by (simp add: holdings_def owned_def book_of_def account_of_def balance_of_def get_wallet_for_user_def comp_def
        cong: if_cong)
qed

lemma pending_held: "pending (book_of d) uid = held_for_requests d uid"
  by (simp add: pending_def promised_def book_of_def order_of_def held_as_sum comp_def conj_commute cong: if_cong)

section \<open>Commits that move nothing\<close>

lemma quiet_transactions:
  assumes "transactions d' = update_where P f (transactions d)" and "wallets d' = wallets d" and "cashouts d' = cashouts d"
    and "\<And>t. t \<in> set (transactions d) \<Longrightarrow> P t \<Longrightarrow> entry_of (f t) = entry_of t"
  shows "book_of d' = book_of d"
  using assms by (simp add: book_of_def map_update_same)

lemma quiet_cashouts:
  assumes "cashouts d' = update_where P f (cashouts d)" and "wallets d' = wallets d" and "transactions d' = transactions d"
    and "\<And>c. c \<in> set (cashouts d) \<Longrightarrow> P c \<Longrightarrow> order_of (f c) = order_of c"
  shows "book_of d' = book_of d"
  using assms by (simp add: book_of_def map_update_same)

text \<open>With the same book, only the wallets' other columns are left to check.\<close>

lemma quiet_sound:
  assumes "sound d" and "book_of d' = book_of d" and "unique_wallets (wallets d')"
  shows "sound d'"
proof -
  have t: "map t_uctusd_amount (transactions d') = map t_uctusd_amount (transactions d)"
    "map c_uctusd_amount (cashouts d') = map c_uctusd_amount (cashouts d)"
    "map w_balance_uctusd (wallets d') = map w_balance_uctusd (wallets d)"
    using arg_cong [OF assms(2), of "\<lambda>b. map e_amount (entries b)"]
      arg_cong [OF assms(2), of "\<lambda>b. map o_amount (orders b)"]
      arg_cong [OF assms(2), of "\<lambda>b. map ac_balance (accounts b)"]
    by (simp_all add: book_of_def entry_of_def order_of_def account_of_def comp_def)
  have all: "(\<forall>x\<in>set ys. Q (g x)) = (\<forall>x\<in>set xs. Q (g x))" if "map g ys = map g xs" for g :: "'b \<Rightarrow> dec" and Q xs ys
    using arg_cong [OF that, of set] by (metis (no_types, lifting) image_iff set_map)
  show ?thesis
    using assms all [OF t(1), of "column_value 20 6"] all [OF t(2), of "column_value 20 6"]
      all [OF t(3), of "column_value 20 6"]
    by (simp add: sound_def well_typed_def balances_ok_def)
qed

section \<open>Commits that move money\<close>

lemma add_balance_0 [simp]: "add_balance 0 a = a"
  by (simp add: add_balance_def)

text \<open>Writing a changed balance is exact: the decimal context never rounds it.\<close>

lemma write_account:
  assumes "write_balance now w b ws = Some ws'" and "b = w_balance_uctusd w + x" and "w \<in> set ws"
    and "distinct (map w_id ws)" and "on_grid 6 b" and "\<forall>r\<in>set ws. column_value 20 6 (w_balance_uctusd r)"
  shows "map account_of ws' = update_where (\<lambda>a. ac_id a = w_id w) (add_balance x) (map account_of ws)"
    "\<forall>r\<in>set ws'. column_value 20 6 (w_balance_uctusd r)"
proof -
  have "map account_of ws' = update_where (\<lambda>a. ac_id a = w_id w) (add_balance x) (map account_of ws)
    \<and> (\<forall>r\<in>set ws'. column_value 20 6 (w_balance_uctusd r))"
  proof (cases "x = 0")
    case True
    then have "ws' = ws" using assms(1,2) by (simp add: write_balance_def)
    moreover have "update_where (\<lambda>a. ac_id a = w_id w) (add_balance x) as = as" for as
      using True by (simp add: update_where_def map_idI)
    ultimately show ?thesis using assms(6) by simp
  next
    case False
    with assms(1,2) have c: "column_value 20 6 b"
      and ws': "ws' = update_where (\<lambda>r. w_id r = w_id w) (set_balance now b) ws"
      using to_grid_id [OF assms(5)] by (auto simp: write_balance_def store_numeric_eq split: option.splits)
    have "map account_of ws' = update_where (\<lambda>a. ac_id a = w_id w) (add_balance x) (map account_of ws)"
      unfolding ws'
    proof (rule map_update_where)
      fix r assume r: "r \<in> set ws" "w_id r = w_id w"
      then have "r = w" using key_unique [OF assms(4)] assms(3) by blast
      then show "account_of (set_balance now b r) = add_balance x (account_of r)"
        by (simp add: account_of_def set_balance_def add_balance_def assms(2))
    qed (simp add: account_of_def)
    moreover have "\<forall>r\<in>set ws'. column_value 20 6 (w_balance_uctusd r)"
      using assms(6) c by (auto simp: ws' in_update_where set_balance_def)
    ultimately show ?thesis by blast
  qed
  then show "map account_of ws' = update_where (\<lambda>a. ac_id a = w_id w) (add_balance x) (map account_of ws)"
    "\<forall>r\<in>set ws'. column_value 20 6 (w_balance_uctusd r)" by blast+
qed

text \<open>A guarded update of one row, read as a change of the one entry or order behind it.\<close>

lemma guarded_entry:
  assumes "distinct (map t_id ts)" and "r \<in> set ts" and "settle_guard (t_id r) F r" and "\<And>t. entry_of (f t) = settle_entry (entry_of t)"
  shows "map entry_of (update_where (settle_guard (t_id r) F) f ts)
    = update_where (\<lambda>x. e_id x = e_id (entry_of r)) settle_entry (map entry_of ts)"
proof (rule map_update_where)
  fix t assume t: "t \<in> set ts"
  show "settle_guard (t_id r) F t \<longleftrightarrow> e_id (entry_of t) = e_id (entry_of r)"
    using key_unique [OF assms(1) t assms(2)] assms(3) by (auto simp: settle_guard_def entry_of_def)
qed (rule assms(4))

lemma guarded_order:
  assumes "distinct (map c_id cs)" and "r \<in> set cs" and "out_guard (c_id r) F r" and "\<And>c. order_of (f c) = move_order st (order_of c)"
  shows "map order_of (update_where (out_guard (c_id r) F) f cs)
    = update_where (\<lambda>x. o_id x = o_id (order_of r)) (move_order st) (map order_of cs)"
proof (rule map_update_where)
  fix c assume c: "c \<in> set cs"
  show "out_guard (c_id r) F c \<longleftrightarrow> o_id (order_of c) = o_id (order_of r)"
    using key_unique [OF assms(1) c assms(2)] assms(3) by (auto simp: out_guard_def order_of_def)
qed (rule assms(4))

text \<open>The values the transitions write, seen in the book.\<close>

lemma entry_of_values [simp]:
  "entry_of (completed_values now h t) = settle_entry (entry_of t)"
  "entry_of (signed_values now st t) = entry_of t"
  "entry_of (t\<lparr>t_aml_flagged := b, t_updated_at := now\<rparr>) = entry_of t"
  by (simp_all add: entry_of_def completed_values_def settle_entry_def signed_values_def)

lemma order_of_values [simp]:
  "order_of (approved_values now a c) = move_order Out_approved (order_of c)"
  "order_of (rejected_values now a why c) = move_order Out_failed (order_of c)"
  "order_of (burned_values now h ref c) = move_order Out_completed (order_of c)"
  "order_of (out_failed_values now why h' c) = move_order Out_failed (order_of c)"
  "order_of (burn_claim_values now c) = order_of c" "order_of (released_values now c) = order_of c"
  "order_of (held_values now why c) = order_of c" "order_of (burn_signed_values now st c) = order_of c"
  by (simp_all add: order_of_def move_order_def approved_values_def rejected_values_def burned_values_def
      out_failed_values_def burn_claim_values_def released_values_def held_values_def burn_signed_values_def)

lemma mem_book:
  "t \<in> set (transactions d) \<Longrightarrow> entry_of t \<in> set (entries (book_of d))"
  "c \<in> set (cashouts d) \<Longrightarrow> order_of c \<in> set (orders (book_of d))"
  "w \<in> set (wallets d) \<Longrightarrow> account_of w \<in> set (accounts (book_of d))"
  by (simp_all add: book_of_def)

lemma booked_step:
  assumes "create_remittance s now i k d u bid zar mc acc = (Inr t, d')" and "i \<notin> t_id ` set (transactions d)" and "sound d"
  shows "well_typed d'" "book_step (book_of d) (book_of d')"
proof -
  note row = booked_row [OF assms(1)]
  have frame: "wallets d' = wallets d" "cashouts d' = cashouts d"
    using assms(1) by (rule create_remittanceE; simp add: frame_simps)+
  have "0 < t_uctusd_amount t" using booked_figures [OF assms(1)] by auto
  then show "well_typed d'" "book_step (book_of d) (book_of d')"
    using row frame assms(2,3) book_step.Booked [of "entry_of t" "book_of d"]
    by (auto simp: sound_def well_typed_def balances_ok_def book_of_def entry_of_def image_image)
qed

lemma settled_step:
  assumes "complete_settlement now None d txn h {from} = (Inr True, d')" and "from \<in> open_states"
    and "r \<in> set (transactions d)" and "same_payment txn r" and "recipient_wallet d txn \<noteq> None" and "sound d"
  shows "well_typed d'" "book_step (book_of d) (book_of d')"
proof -
  note ok = soundD [OF assms(6)]
  obtain w where w: "recipient_wallet d txn = Some w" using assms(5) by blast
  then have wm: "w \<in> set (wallets d)" "t_recipient_user_id txn = Some (w_user_id w)"
    by (auto simp: recipient_wallet_def get_wallet_for_user_def dest: by_key_Some split: option.splits)
  from assms(1) obtain t ws where t: "returning (settle_guard (t_id txn) {from}) (transactions d) = Some t"
    and tx: "transactions d' = update_where (settle_guard (t_id txn) {from}) (completed_values now h) (transactions d)"
    and ws: "wallets d' = ws" and wr: "case for_update None (recipient_wallet d txn) of None \<Rightarrow> ws = wallets d
     | Some w \<Rightarrow> write_balance now w (dec_add (w_balance_uctusd w) (t_uctusd_amount txn)) (wallets d) = Some ws"
    and co: "cashouts d' = cashouts d"
    by (rule complete_settlementE)
  have tm: "t \<in> set (transactions d)" "settle_guard (t_id txn) {from} t" using returning_SomeD [OF t] by simp_all
  have "t_id t = t_id r" using tm(2) assms(4) by (simp add: settle_guard_def same_payment_def)
  then have tr: "t = r" using key_unique [OF ok(1) tm(1) assms(3)] by simp
  have a: "t_uctusd_amount txn = t_uctusd_amount t" "t_id txn = t_id t" "t_recipient_user_id txn = t_recipient_user_id t"
    using assms(4) by (simp_all add: tr same_payment_def)
  have sum: "dec_add (w_balance_uctusd w) (t_uctusd_amount txn) = w_balance_uctusd w + t_uctusd_amount t"
    using column_add_exact(1) ok(8) [OF wm(1)] ok(6) [OF tm(1)] by (simp add: a(1))
  have grid: "on_grid 6 (w_balance_uctusd w + t_uctusd_amount t)"
    using ok(8) [OF wm(1)] ok(6) [OF tm(1)] by (auto simp: column_value_def intro: on_grid_add)
  have wr': "write_balance now w (w_balance_uctusd w + t_uctusd_amount t) (wallets d) = Some ws"
    using wr w sum by (simp add: for_update_def)
  note acc = write_account [OF wr' refl wm(1) ok(3) grid ballI [OF ok(8)]]
  have ent: "map entry_of (transactions d') = update_where (\<lambda>x. e_id x = e_id (entry_of t)) settle_entry (map entry_of (transactions d))"
    unfolding tx a(2) using tm(2) by (intro guarded_entry [OF ok(1) tm(1)]) (simp_all add: a(2))
  have eq: "book_of d' = with_balance (with_entry (book_of d) (entry_of t)) (account_of w) (e_amount (entry_of t))"
    using ent acc(1) by (simp add: book_of_def with_balance_def with_entry_def ws co account_of_def entry_of_def)
  have "\<not> e_settled (entry_of t)" using tm(2) assms(2) by (auto simp: entry_of_def settle_guard_def open_states_def)
  then show "book_step (book_of d) (book_of d')"
    unfolding eq using mem_book(1) [OF tm(1)] mem_book(3) [OF wm(1)] wm(2) a(3)
    by (intro book_step.Settled) (simp_all add: entry_of_def account_of_def)
  have "\<forall>x\<in>set (transactions d'). column_value 20 6 (t_uctusd_amount x)"
    using ok(6) by (auto simp: tx in_update_where completed_values_def)
  then show "well_typed d'"
    using acc(2) write_balance_unique [OF wr'] ok(5,7) by (simp add: well_typed_def balances_ok_def ws co)
qed

lemma requested_step:
  assumes "create_request s now i k None d u amount cur acc = (Inr c, d')" and "parse_amount raw = Inr amount"
    and "i \<notin> c_id ` set (cashouts d)" and "sound d"
  shows "well_typed d'" "book_step (book_of d) (book_of d')"
proof -
  note ok = soundD [OF assms(4)]
  have g: "on_grid 6 amount" "0 < amount" using parse_amount_grid [OF assms(2)] by simp_all
  note row = requested_row(1) [OF assms(1) g(1)]
  from assms(1) obtain w p where w: "get_wallet_for_user d (u_id u) = Some w"
    and chk: "request_checks s d w (u_id u) amount cur acc = Inr p"
    and st: "stored_pricing p (new_request now i k (u_id u) (w_id w) cur) = Some c"
    and d': "d' = d\<lparr>cashouts := cashouts d @ [c]\<rparr>"
    by (rule create_requestE) (simp add: for_update_def split: option.splits)
  have wm: "w \<in> set (wallets d)" "w_user_id w = u_id u"
    using w by (auto simp: get_wallet_for_user_def dest: by_key_Some)
  have wid: "c_wallet_id c = w_id w"
    using st by (auto simp: stored_pricing_def new_request_def split: option.splits)
  have bal: "balance_of d (u_id u) = w_balance_uctusd w" by (simp add: balance_of_def w)
  have cov: "covered d"
    using assms(4) balancedD(2) [of "book_of d"] by (simp add: covered_def sound_def pending_held holdings_balance ok(4))
  have "\<not> dec_sub (w_balance_uctusd w) (held_for_requests d (u_id u)) < amount"
    using chk by (auto simp: request_checks_def Let_def)
  then have "held_for_requests d (u_id u) + amount \<le> balance_of d (u_id u)"
    using available_exact [OF ok(9,10) cov, of "u_id u"] by (simp add: bal)
  then have room: "pending (book_of d) (o_owner (order_of c)) + o_amount (order_of c) \<le> holdings (book_of d) (o_owner (order_of c))"
    using row by (simp add: order_of_def pending_held holdings_balance ok(4))
  have eq: "book_of d' = book_of d\<lparr>orders := orders (book_of d) @ [order_of c]\<rparr>"
    by (simp add: d' book_of_def)
  have "o_id (order_of c) \<notin> o_id ` set (orders (book_of d))"
    using assms(3) row by (auto simp: order_of_def book_of_def)
  then show "book_step (book_of d) (book_of d')"
    unfolding eq using row g(2) wm wid room
    by (intro book_step.Opened [OF _ _ _ mem_book(3) [OF wm(1)]]) (simp_all add: order_of_def account_of_def)
  show "well_typed d'"
    using assms(4) row by (auto simp: d' sound_def well_typed_def balances_ok_def)
qed

text \<open>The wallet row of a request that agrees with its own.\<close>

lemma request_wallet:
  assumes "c \<in> set (cashouts d)" and "same_request req c" and "sound d"
  obtains w where "by_key w_id (c_wallet_id req) (wallets d) = Some w" "w \<in> set (wallets d)" "w_id w = c_wallet_id c"
    "c_id req = c_id c" "c_uctusd_amount req = c_uctusd_amount c"
proof -
  from mem_book(2) [OF assms(1)] assms(3) have "linked (book_of d) (order_of c)"
    by (auto simp: sound_def shaped_def)
  then obtain w where w: "w \<in> set (wallets d)" "w_id w = c_wallet_id c"
    by (auto simp: linked_def book_of_def account_of_def order_of_def)
  with by_key_unique [OF soundD(3) [OF assms(3)] w(1)] assms(2) that show thesis by (simp add: same_request_def)
qed

lemma guarded_row:
  assumes "returning (out_guard (c_id req) F) (cashouts d) = Some c'" and "c \<in> set (cashouts d)" and "c_id req = c_id c"
    and "distinct (map c_id (cashouts d))"
  shows "out_guard (c_id c) F c"
proof -
  have "c' \<in> set (cashouts d)" "out_guard (c_id c) F c'" using returning_SomeD [OF assms(1)] assms(3) by simp_all
  moreover from this have "c' = c" using key_unique [OF assms(4) _ assms(2)] by (simp add: out_guard_def)
  ultimately show ?thesis by simp
qed

text \<open>A wallet write and a status change together, for both directions.\<close>

lemma moved_order:
  assumes "write_balance now w b (wallets d) = Some ws" and "b = w_balance_uctusd w + x" and "on_grid 6 b"
    and "w \<in> set (wallets d)" and "c \<in> set (cashouts d)" and "out_guard (c_id c) F c" and "sound d"
    and "\<And>c. order_of (f c) = move_order st (order_of c)"
    and "d' = d\<lparr>cashouts := update_where (out_guard (c_id c) F) f (cashouts d), wallets := ws\<rparr>"
  shows "book_of d' = with_balance (with_order (book_of d) (order_of c) st) (account_of w) x" "well_typed d'"
proof -
  note ok = soundD [OF assms(7)]
  note acc = write_account [OF assms(1,2,4) ok(3) assms(3) ballI [OF ok(8)]]
  note ord = guarded_order [OF ok(2) assms(5,6), of f st, OF assms(8)]
  show "book_of d' = with_balance (with_order (book_of d) (order_of c) st) (account_of w) x"
    using acc(1) ord by (simp add: book_of_def with_balance_def with_order_def account_of_def assms(9))
  have "c_uctusd_amount (f y) = c_uctusd_amount y" for y
    using arg_cong [OF assms(8) [of y], of o_amount] by (simp add: order_of_def move_order_def)
  then have "\<forall>x\<in>set (cashouts d'). column_value 20 6 (c_uctusd_amount x)"
    using ok(7) by (auto simp: assms(9) in_update_where)
  then show "well_typed d'"
    using acc(2) write_balance_unique [OF assms(1)] ok(5,6) by (simp add: well_typed_def balances_ok_def assms(9))
qed

lemma reserved_step:
  assumes "reserve now None d req admin = (Inr w', d')" and "c \<in> set (cashouts d)" and "same_request req c" and "sound d"
  shows "well_typed d'" "book_step (book_of d) (book_of d')"
proof -
  note ok = soundD [OF assms(4)]
  obtain w where w: "by_key w_id (c_wallet_id req) (wallets d) = Some w" "w \<in> set (wallets d)" "w_id w = c_wallet_id c"
    and a: "c_id req = c_id c" "c_uctusd_amount req = c_uctusd_amount c"
    using assms(2,3,4) by (rule request_wallet)
  from assms(1) obtain c' ws where c': "returning (out_guard (c_id req) {Out_requested}) (cashouts d) = Some c'"
    and wr: "write_balance now w (dec_sub (w_balance_uctusd w) (c_uctusd_amount req)) (wallets d) = Some ws"
    and d': "d' = d\<lparr>cashouts := update_where (out_guard (c_id req) {Out_requested}) (approved_values now admin) (cashouts d),
            wallets := ws\<rparr>"
    by (rule reserveE) (simp add: w(1) for_update_def)
  note g = guarded_row [OF c' assms(2) a(1) ok(2)]
  have cols: "column_value 20 6 (w_balance_uctusd w)" "column_value 20 6 (c_uctusd_amount c)"
    using ok(8) [OF w(2)] ok(7) [OF assms(2)] by simp_all
  have sub: "dec_sub (w_balance_uctusd w) (c_uctusd_amount req) = w_balance_uctusd w + - c_uctusd_amount c"
    using column_add_exact(2) [OF cols] by (simp add: a(2))
  have grid: "on_grid 6 (w_balance_uctusd w + - c_uctusd_amount c)"
    using cols by (simp add: column_value_def on_grid_diff)
  note m = moved_order [OF wr sub _ w(2) assms(2) g assms(4) order_of_values(1) [of now admin] d' [unfolded a(1)],
      unfolded sub, OF grid]
  show "well_typed d'" by (rule m(2))
  have st: "o_status (order_of c) = Out_requested" using g by (simp add: out_guard_def order_of_def)
  have "book_step (book_of d) (with_balance (with_order (book_of d) (order_of c) Out_approved) (account_of w)
      (- o_amount (order_of c)))"
    using mem_book(2) [OF assms(2)] mem_book(3) [OF w(2)] w(3) st
    by (intro book_step.Reserved) (simp_all add: account_of_def order_of_def)
  then show "book_step (book_of d) (book_of d')" using m(1) by (simp add: order_of_def)
qed

lemma restored_step:
  assumes "fail_and_restore now None d req why h {Out_approved} = (Inr True, d')"
    and "c \<in> set (cashouts d)" and "same_request req c" and "sound d"
  shows "well_typed d'" "book_step (book_of d) (book_of d')"
proof -
  note ok = soundD [OF assms(4)]
  obtain w where w: "by_key w_id (c_wallet_id req) (wallets d) = Some w" "w \<in> set (wallets d)" "w_id w = c_wallet_id c"
    and a: "c_id req = c_id c" "c_uctusd_amount req = c_uctusd_amount c"
    using assms(2,3,4) by (rule request_wallet)
  from assms(1) obtain c' ws where c': "returning (out_guard (c_id req) {Out_approved}) (cashouts d) = Some c'"
    and wr: "write_balance now w (dec_add (w_balance_uctusd w) (c_uctusd_amount req)) (wallets d) = Some ws"
    and d': "d' = d\<lparr>cashouts := update_where (out_guard (c_id req) {Out_approved}) (out_failed_values now why h) (cashouts d),
            wallets := ws\<rparr>"
    unfolding fail_and_restore_def using w(1) by (auto simp: for_update_def split: option.splits)
  note g = guarded_row [OF c' assms(2) a(1) ok(2)]
  have cols: "column_value 20 6 (w_balance_uctusd w)" "column_value 20 6 (c_uctusd_amount c)"
    using ok(8) [OF w(2)] ok(7) [OF assms(2)] by simp_all
  have add: "dec_add (w_balance_uctusd w) (c_uctusd_amount req) = w_balance_uctusd w + c_uctusd_amount c"
    using column_add_exact(1) [OF cols] by (simp add: a(2))
  have grid: "on_grid 6 (w_balance_uctusd w + c_uctusd_amount c)"
    using cols by (simp add: column_value_def on_grid_add)
  note m = moved_order [OF wr add _ w(2) assms(2) g assms(4) order_of_values(4) [of now why h] d' [unfolded a(1)],
      unfolded add, OF grid]
  show "well_typed d'" by (rule m(2))
  have st: "o_status (order_of c) = Out_approved" using g by (simp add: out_guard_def order_of_def)
  have "book_step (book_of d) (with_balance (with_order (book_of d) (order_of c) Out_failed) (account_of w)
      (o_amount (order_of c)))"
    using mem_book(2) [OF assms(2)] mem_book(3) [OF w(2)] w(3) st
    by (intro book_step.Restored) (simp_all add: account_of_def order_of_def)
  then show "book_step (book_of d) (book_of d')" using m(1) by (simp add: order_of_def)
qed

text \<open>A status change alone.\<close>

lemma status_step:
  assumes "cashouts d' = update_where (out_guard i {from}) f (cashouts d)" and "wallets d' = wallets d"
    and "transactions d' = transactions d" and "returning (out_guard i {from}) (cashouts d) = Some c"
    and "\<And>c. order_of (f c) = move_order st (order_of c)"
    and "(from, st) \<in> {(Out_requested, Out_failed), (Out_approved, Out_completed)}" and "sound d"
  shows "well_typed d'" "book_step (book_of d) (book_of d')"
proof -
  note ok = soundD [OF assms(7)]
  have c: "c \<in> set (cashouts d)" "out_guard (c_id c) {from} c" "i = c_id c"
    using returning_SomeD [OF assms(4)] by (auto simp: out_guard_def)
  have eq: "book_of d' = with_order (book_of d) (order_of c) st"
    using guarded_order [OF ok(2) c(1,2) assms(5)] assms(1-3) by (simp add: book_of_def with_order_def c(3))
  have st: "o_status (order_of c) = from" using c(2) by (simp add: out_guard_def order_of_def)
  then show "book_step (book_of d) (book_of d')"
    unfolding eq using assms(6) mem_book(2) [OF c(1)] by (auto intro: book_step.Rejected book_step.Burned)
  have "c_uctusd_amount (f y) = c_uctusd_amount y" for y
    using arg_cong [OF assms(5) [of y], of o_amount] by (simp add: order_of_def move_order_def)
  then have "\<forall>x\<in>set (cashouts d'). column_value 20 6 (c_uctusd_amount x)"
    using ok(7) by (auto simp: assms(1) in_update_where)
  then show "well_typed d'"
    using ok(6,9) by (simp add: well_typed_def balances_ok_def assms(2,3))
qed

lemma provisioned_step:
  assumes "get_wallet_for_user d uid = None" and "unique_wallets (wallets d @ [new_wallet now i uid acc])"
    and "d' = d\<lparr>wallets := wallets d @ [new_wallet now i uid acc], users := us\<rparr>" and "sound d"
  shows "well_typed d'" "book_step (book_of d) (book_of d')"
proof -
  let ?w = "new_wallet now i uid acc"
  have f: "w_id ?w = i" "w_user_id ?w = uid" "w_balance_uctusd ?w = 0"
    by (simp_all add: new_wallet_def split: prod.splits)
  have new: "i \<notin> w_id ` set (wallets d)" "uid \<notin> w_user_id ` set (wallets d)"
    using assms(2) f by (auto simp: unique_wallets_def)
  have eq: "book_of d' = book_of d\<lparr>accounts := accounts (book_of d) @ [account_of ?w]\<rparr>"
    by (simp add: assms(3) book_of_def)
  show "book_step (book_of d) (book_of d')"
    unfolding eq using new f by (intro book_step.Account) (auto simp: account_of_def book_of_def)
  show "well_typed d'"
    using assms(2,4) f(3) by (simp add: assms(3) sound_def well_typed_def balances_ok_def column_value_def on_grid_def)
qed

text \<open>A commit is sound as soon as its book is unchanged or moved by one movement.\<close>

definition tracks :: "db \<Rightarrow> db \<Rightarrow> bool" where
  "tracks d d' \<longleftrightarrow> well_typed d' \<and> (book_of d' = book_of d \<or> book_step (book_of d) (book_of d'))"

lemma tracks_quiet: "sound d \<Longrightarrow> book_of d' = book_of d \<Longrightarrow> unique_wallets (wallets d') \<Longrightarrow> tracks d d'"
  using quiet_sound by (simp add: tracks_def sound_def)

lemma tracks_self: "sound d \<Longrightarrow> tracks d d"
  by (simp add: tracks_def sound_def)

lemma tracks_transactions:
  assumes "sound d" and "transactions d' = update_where P f (transactions d)" and "wallets d' = wallets d"
    and "cashouts d' = cashouts d" and "\<And>t. P t \<Longrightarrow> entry_of (f t) = entry_of t"
  shows "tracks d d'"
  using tracks_quiet [OF assms(1) quiet_transactions [OF assms(2-4)]] assms(3,5) soundD(5) [OF assms(1)] by simp

lemma tracks_cashouts:
  assumes "sound d" and "cashouts d' = update_where P f (cashouts d)" and "wallets d' = wallets d"
    and "transactions d' = transactions d" and "\<And>c. P c \<Longrightarrow> order_of (f c) = order_of c"
  shows "tracks d d'"
  using tracks_quiet [OF assms(1) quiet_cashouts [OF assms(2-4)]] assms(3,5) soundD(5) [OF assms(1)] by simp

text \<open>Settlement starts only after the card payment came in.\<close>

definition paid_first :: "db \<Rightarrow> bool" where
  "paid_first d \<longleftrightarrow> (\<forall>t\<in>set (transactions d). t_settlement_status t \<noteq> Settle_not_queued
     \<longrightarrow> t_cashin_status t = CashIn_received)"

lemma paid_first_update:
  assumes "paid_first d" and "transactions d' = update_where P f (transactions d)"
    and "\<And>t. P t \<Longrightarrow> t_settlement_status t \<noteq> Settle_not_queued \<longrightarrow> t_cashin_status t = CashIn_received
          \<Longrightarrow> t_settlement_status (f t) \<noteq> Settle_not_queued \<Longrightarrow> t_cashin_status (f t) = CashIn_received"
  shows "paid_first d'"
  using assms(1,3) by (auto simp: paid_first_def assms(2) in_update_where)

lemma paid_first_cong: "transactions d' = transactions d \<Longrightarrow> paid_first d \<Longrightarrow> paid_first d'"
  by (simp add: paid_first_def)

lemma complete_settlement_transactions:
  "complete_settlement now loaded d txn h F = (Inr True, d')
   \<Longrightarrow> transactions d' = update_where (settle_guard (t_id txn) F) (completed_values now h) (transactions d)"
  by (erule complete_settlementE)

lemmas payment_transitions =
  with_transactions_def cashin_guard_def settle_guard_def retry_guard_def open_states_def in_update_where
  received_values_def cashin_failed_values_def requeued_values_def retried_values_def

lemma commit_paid_first:
  assumes "commit s d d'" and "paid_first d"
  shows "paid_first d'"
  using assms
proof cases
  case (Booked i k u bid zar mc acc now t)
  with assms(2) show ?thesis using booked_row [OF Booked(1)] by (auto simp: paid_first_def)
next
  case (Expired now age)
  with assms(2) show ?thesis
    by (auto simp: paid_first_def expire_stale_cashins_def expired_values_def stale_guard_def in_update_where)
next
  case (Claimed now key)
  with assms(2) show ?thesis by (auto simp: paid_first_def claim_def claim_values_def claim_guard_def in_update_where)
next
  case (Signed now i st)
  with assms(2) show ?thesis by (auto simp: paid_first_def remember_signed_def signed_values_def in_update_where split: if_splits)
next
  case (Settled r txn "from" now h)
  with assms(2) show ?thesis
    by (intro paid_first_update [OF _ complete_settlement_transactions [OF Settled(5)]])
      (auto simp: completed_values_def settle_guard_def open_states_def)
next
  case (Settle_stopped "from" now txn why h)
  with assms(2) show ?thesis
    using paid_first_update [of d "snd (fail_settlement now d txn why h {from})" "settle_guard (t_id txn) {from}"
        "failed_values now why h"]
    by (auto simp: fail_settlement_def failed_values_def settle_guard_def open_states_def split: option.splits)
next
  case (Flagged now txn flag)
  with assms(2) show ?thesis by (auto simp: paid_first_def set_aml_flag_def in_update_where split: if_splits)
next
  case (Requested now i k u amount cur acc c raw)
  with assms(2) show ?thesis by (auto elim!: create_requestE intro: paid_first_cong)
next
  case (Reserved c req now admin w)
  with assms(2) show ?thesis by (auto elim!: reserveE intro: paid_first_cong)
next
  case (Rejected now req admin why)
  with assms(2) show ?thesis by (auto simp: reject_def intro: paid_first_cong split: option.splits)
next
  case (Restored c req now why h)
  with assms(2) show ?thesis by (auto elim!: fail_and_restoreE intro: paid_first_cong)
qed (use assms(2) in \<open>auto simp: paid_first_def payment_transitions frame_simps\<close>)

text \<open>The commits on one payment that move no money.\<close>

lemma received_tracks:
  assumes "sound d" and "paid_first d"
  shows "tracks d (with_transactions d (cashin_guard i) (received_values now reviewer))"
proof -
  have "entry_of (received_values now reviewer t) = entry_of t" if "t \<in> set (transactions d)" "cashin_guard i t" for t
    using assms(2) that by (auto simp: paid_first_def cashin_guard_def received_values_def entry_of_def)
  then show ?thesis
    using tracks_quiet [OF assms(1) quiet_transactions [of _ "cashin_guard i" "received_values now reviewer"]]
      soundD(5) [OF assms(1)]
    by (simp add: with_transactions_def)
qed

lemma declined_tracks:
  "sound d \<Longrightarrow> tracks d (with_transactions d (cashin_guard i) (cashin_failed_values now reviewer why))"
  by (intro tracks_transactions [of d _ "cashin_guard i" "cashin_failed_values now reviewer why"])
    (simp_all add: with_transactions_def cashin_failed_values_def entry_of_def)

lemma expired_tracks: "sound d \<Longrightarrow> tracks d (snd (expire_stale_cashins now age d))"
  by (intro tracks_transactions [of d _ "stale_guard (now - age)" "expired_values now"])
    (simp_all add: expire_stale_cashins_def expired_values_def entry_of_def)

lemma claimed_tracks: "sound d \<Longrightarrow> tracks d (snd (claim now d key))"
  by (intro tracks_transactions [of d _ "claim_guard key" "claim_values now"])
    (simp_all add: claim_def claim_guard_def claim_values_def entry_of_def)

lemma signed_tracks: "sound d \<Longrightarrow> tracks d (snd (remember_signed now None i st d))"
  by (intro tracks_transactions [of d _ "\<lambda>t. t_id t = i" "signed_values now st"])
    (simp_all add: remember_signed_def)

lemma stopped_tracks:
  "from \<in> open_states \<Longrightarrow> sound d \<Longrightarrow> tracks d (snd (fail_settlement now d txn why h {from}))"
  using tracks_transactions [of d "snd (fail_settlement now d txn why h {from})" "settle_guard (t_id txn) {from}"
      "failed_values now why h"] tracks_self
  by (auto simp: fail_settlement_def failed_values_def settle_guard_def entry_of_def open_states_def split: option.splits)

lemma requeued_tracks:
  "sound d \<Longrightarrow> tracks d (with_transactions d (settle_guard i {Settle_processing}) (requeued_values now why))"
  by (intro tracks_transactions [of d _ "settle_guard i {Settle_processing}" "requeued_values now why"])
    (auto simp: with_transactions_def requeued_values_def settle_guard_def entry_of_def)

lemma retried_tracks:
  "t_settlement_status seen \<in> open_states \<Longrightarrow> sound d
   \<Longrightarrow> tracks d (with_transactions d (retry_guard seen) (retried_values now seen))"
  by (intro tracks_transactions [of d _ "retry_guard seen" "retried_values now seen"])
    (auto simp: with_transactions_def retried_values_def retry_guard_def entry_of_def open_states_def)

lemma flagged_tracks: "sound d \<Longrightarrow> tracks d (set_aml_flag now d txn flag)"
  using tracks_transactions [of d "set_aml_flag now d txn flag" "\<lambda>t. t_id t = t_id txn"
      "\<lambda>t. t\<lparr>t_aml_flagged := flag, t_updated_at := now\<rparr>"] tracks_self
  by (cases "t_aml_flagged txn = flag") (simp_all add: set_aml_flag_def)

lemma trusted_tracks:
  assumes "sound d"
  shows "tracks d (d\<lparr>wallets := update_where (\<lambda>x. w_id x = i) (set_trust now) (wallets d)\<rparr>)"
proof -
  let ?d = "d\<lparr>wallets := update_where (\<lambda>x. w_id x = i) (set_trust now) (wallets d)\<rparr>"
  have "unique_wallets (wallets ?d) = unique_wallets (wallets d)"
    by (rule unique_wallets_map) (simp add: update_where_def set_trust_def)
  moreover have "book_of ?d = book_of d"
    by (simp add: book_of_def map_update_same account_of_def set_trust_def)
  ultimately show ?thesis using tracks_quiet soundD(5) assms by simp
qed

text \<open>The commits on one cash-out: its final states are movements, the rest of a burn is quiet.\<close>

lemma rejected_tracks: "sound d \<Longrightarrow> tracks d (snd (reject now d req admin why))"
  using status_step [of "snd (reject now d req admin why)" "c_id req" Out_requested "rejected_values now admin why" d _ Out_failed]
    tracks_self
  by (auto simp: reject_def tracks_def split: option.splits)

lemma burned_tracks: "sound d \<Longrightarrow> tracks d (snd (complete_burn now d req h {Out_approved}))"
  using status_step [of "snd (complete_burn now d req h {Out_approved})" "c_id req" Out_approved
      "burned_values now h (payout_reference req)" d _ Out_completed] tracks_self
  by (auto simp: complete_burn_def tracks_def split: option.splits)

lemma burn_claimed_tracks: "sound d \<Longrightarrow> tracks d (snd (claim_burn now d key))"
  by (intro tracks_cashouts [of d _ "burn_claim_guard now key" "burn_claim_values now"]) (simp_all add: claim_burn_def)

lemma burn_released_tracks: "sound d \<Longrightarrow> tracks d (release_claim now d req)"
  using tracks_cashouts [of d "release_claim now d req" "\<lambda>c. c_id c = c_id req" "released_values now"] tracks_self
  by (cases "c_burn_started_at req") (simp_all add: release_claim_def)

lemma burn_signed_tracks: "sound d \<Longrightarrow> tracks d (snd (remember_burn now None i st d))"
  by (intro tracks_cashouts [of d _ "\<lambda>c. c_id c = i" "burn_signed_values now st"]) (simp_all add: remember_burn_def)

lemma burn_held_tracks: "sound d \<Longrightarrow> tracks d (hold_unknown now d req why)"
  by (intro tracks_cashouts [of d _ "out_guard (c_id req) {Out_approved}" "held_values now why"])
    (simp_all add: hold_unknown_def)

lemmas quiet_tracks =
  received_tracks declined_tracks expired_tracks claimed_tracks signed_tracks stopped_tracks requeued_tracks
  retried_tracks flagged_tracks trusted_tracks burn_claimed_tracks burn_released_tracks burn_signed_tracks
  burn_held_tracks

lemma commit_tracks:
  assumes "commit s d d'" and "sound d" and "paid_first d"
  shows "tracks d d'"
  using assms
proof cases
  case (Booked i k u bid zar mc acc now t)
  with assms(2) show ?thesis using booked_step by (simp add: tracks_def)
next
  case (Settled r txn "from" now h)
  with assms(2) show ?thesis using settled_step by (simp add: tracks_def)
next
  case (Provisioned u now i acc)
  with assms(2) show ?thesis using provisioned_step [OF Provisioned(2,3) refl] by (simp add: tracks_def)
next
  case (Requested now i k u amount cur acc c raw)
  with assms(2) show ?thesis using requested_step by (simp add: tracks_def)
next
  case (Reserved c req now admin w)
  with assms(2) show ?thesis using reserved_step by (simp add: tracks_def)
next
  case (Restored c req now why h)
  with assms(2) show ?thesis using restored_step by (simp add: tracks_def)
next
  case Elsewhere
  with assms(2) show ?thesis by (intro tracks_quiet) (simp_all add: book_of_def soundD)
qed (simp_all only: quiet_tracks rejected_tracks burned_tracks assms(2,3))

lemma commit_sound: "commit s d d' \<Longrightarrow> sound d \<Longrightarrow> paid_first d \<Longrightarrow> sound d'"
  using commit_tracks shaped_step balanced_step by (fastforce simp: tracks_def sound_def)

end
