(* ===== verification/Runs.thy ===== *)
theory Runs
  imports Commits
begin

text \<open>
  The jobs of the two workers are runs of commits: whatever a settlement or a burn job does to the
  database, branch by branch, is a sequence of steps of theory Commits. The invariants of the step
  relation therefore hold after every job. The attempt counter bounds the retries.
\<close>

abbreviation run :: "settings \<Rightarrow> db \<Rightarrow> db \<Rightarrow> bool" where
  "run s \<equiv> (commit s)\<^sup>*\<^sup>*"

lemma run_one: "commit s d d' \<Longrightarrow> run s d d'"
  by (rule r_into_rtranclp)

lemma run_sound: "run s d d' \<Longrightarrow> sound d \<Longrightarrow> paid_first d \<Longrightarrow> sound d' \<and> paid_first d'"
  by (induction rule: rtranclp_induct) (auto intro: commit_sound commit_paid_first)

section \<open>Frames of one settlement job\<close>

text \<open>What identifies a payment and counts its attempts, row by row.\<close>

definition payment_key :: "transaction \<Rightarrow> uuid \<times> dec \<times> uuid option \<times> uuid \<times> int" where
  "payment_key t = (t_id t, t_uctusd_amount t, t_recipient_user_id t, t_idempotency_key t, t_settlement_attempts t)"

definition payment_keys :: "db \<Rightarrow> (uuid \<times> dec \<times> uuid option \<times> uuid \<times> int) list" where
  "payment_keys d = map payment_key (transactions d)"

lemma payment_keys_update:
  "transactions d' = update_where P f (transactions d) \<Longrightarrow> (\<And>t. payment_key (f t) = payment_key t)
   \<Longrightarrow> payment_keys d' = payment_keys d"
  by (simp add: payment_keys_def map_update_same)

lemma same_payment_keys:
  assumes "payment_keys d' = payment_keys d" and "r \<in> set (transactions d)" and "same_payment txn r"
  shows "\<exists>r'\<in>set (transactions d'). same_payment txn r'"
proof -
  have "payment_key r \<in> set (payment_keys d')" using assms(1,2) by (simp add: payment_keys_def)
  then obtain r' where "r' \<in> set (transactions d')" "payment_key r' = payment_key r"
    by (auto simp: payment_keys_def)
  with assms(3) show ?thesis by (intro bexI [of _ r']) (auto simp: same_payment_def payment_key_def)
qed

lemma provision_run:
  assumes "provision_wallet now i f r (\<lambda>d. d) (\<lambda>d. d) d u = (res, d')"
  shows "run s d d' \<and> transactions d' = transactions d"
proof -
  have trust: "run s d1 d2 \<and> transactions d2 = transactions d1"
    if "ensure_trust_line now r (\<lambda>d. d) d1 w = (res2, d2)" for d1 d2 w res2
    using that
    by (auto simp: ensure_trust_line_def Let_def split: if_splits sum.splits prod.splits
        intro!: run_one commit.Trusted)
  show ?thesis
  proof (cases "get_wallet_for_user d (u_id u)")
    case (Some w)
    obtain res2 d2 where e: "ensure_trust_line now r (\<lambda>d. d) d w = (res2, d2)" by fastforce
    with assms Some have "d' = d2" by (auto simp: provision_wallet_def split: sum.splits)
    with trust [OF e] show ?thesis by simp
  next
    case None
    show ?thesis
    proof (cases "\<exists>acc. f = Inr acc \<and> unique_wallets (wallets d @ [new_wallet now i (u_id u) acc])")
      case True
      then obtain acc where acc: "f = Inr acc" "unique_wallets (wallets d @ [new_wallet now i (u_id u) acc])" by blast
      define d1 where "d1 = d\<lparr>wallets := wallets d @ [new_wallet now i (u_id u) acc], users := set_can_receive now u (users d)\<rparr>"
      have c: "commit s d d1" unfolding d1_def using None acc(2) by (rule commit.Provisioned)
      obtain res2 d2 where e: "ensure_trust_line now r (\<lambda>d. d) d1 (new_wallet now i (u_id u) acc) = (res2, d2)" by fastforce
      with assms None acc have "d' = d2"
        by (auto simp: provision_wallet_def Let_def d1_def split: sum.splits)
      with trust [OF e] c show ?thesis by (auto simp: d1_def intro: converse_rtranclp_into_rtranclp)
    next
      case False
      with assms None have "d' = d" by (auto simp: provision_wallet_def Let_def split: sum.splits if_splits)
      then show ?thesis by simp
    qed
  qed
qed

lemma pay_run:
  assumes "pay_under_lock derive s now g txn d = (res, d', sent)" and "undisturbed g"
  shows "run s d d' \<and> payment_keys d' = payment_keys d \<and> wallets d' = wallets d"
proof (cases "g_lock_enter g")
  case None
  let ?cb = "remember_signed now (g_persist g) (t_id txn)"
  obtain res1 where
    "send_from_treasury derive s (g_payment g) (t_uctusd_amount txn) None (Some ?cb) d = (res1, d', sent)"
    using assms None by (auto simp: pay_under_lock_def undisturbed_def split: prod.splits)
  then have "d' = d \<or> (\<exists>st. d' = snd (?cb st d))" by (cases rule: send_resultE) auto
  then show ?thesis
  proof
    assume "\<exists>st. d' = snd (?cb st d)"
    then obtain st where d': "d' = snd (?cb st d)" by blast
    show ?thesis
    proof (cases "g_persist g")
      case None
      then have "payment_keys d' = payment_keys d"
        by (intro payment_keys_update [where P = "\<lambda>t. t_id t = t_id txn" and f = "signed_values now st"])
          (simp_all add: d' remember_signed_def payment_key_def signed_values_def)
      with None show ?thesis by (auto simp: d' frame_simps intro: run_one commit.Signed)
    qed (simp add: d' remember_signed_def)
  qed simp
qed (use assms in \<open>auto simp: pay_under_lock_def undisturbed_def\<close>)

lemma stop_run: "from \<in> open_states \<Longrightarrow> run s d (snd (fail_settlement now d txn why h {from}))"
  by (intro run_one commit.Settle_stopped)

lemma retry_run: "run s d (snd (retry_or_fail now d txn why rq))"
proof (cases "max_attempts \<le> t_settlement_attempts txn \<or> returning (settle_guard (t_id txn) {Settle_processing}) (transactions d) = None")
  case True
  then show ?thesis by (auto simp: retry_or_fail_def open_states_def intro: stop_run)
next
  case False
  then have "snd (retry_or_fail now d txn why rq)
    = with_transactions d (settle_guard (t_id txn) {Settle_processing}) (requeued_values now why)"
    by (auto simp: retry_or_fail_def with_transactions_def)
  then show ?thesis by (simp add: run_one commit.Requeued)
qed

lemma after_exception_run: "run s d (snd (after_exception now g rq txn sent e d))"
proof (cases "g_session_lost g")
  case None
  then show ?thesis
    by (cases e; cases sent) (simp_all add: after_exception_def retry_run stop_run open_states_def)
qed (simp add: after_exception_def)

lemma after_result_run:
  assumes "r \<in> set (transactions d)" and "same_payment txn r" and "recipient_wallet d txn = Some w"
  shows "run s d (snd (after_result now rq txn (Some w) x d))"
proof (cases "resolution_of x")
  case Succeeded
  let ?h = "or_else (x_tx_hash x) []"
  have "for_update (Some w) (recipient_wallet d txn) = for_update None (recipient_wallet d txn)"
    using assms(3) by (simp add: for_update_def)
  then have none: "complete_settlement now (Some w) d txn ?h {Settle_processing}
      = complete_settlement now None d txn ?h {Settle_processing}"
    by (simp only: complete_settlement_def)
  obtain b d1 where c: "complete_settlement now None d txn ?h {Settle_processing} = (b, d1)" by fastforce
  have "d1 = d" if "b \<noteq> Inr True"
    using c that by (auto simp: complete_settlement_def Let_def split: option.splits)
  moreover have "commit s d d1" if "b = Inr True"
    using c that assms by (intro commit.Settled [of r d txn Settle_processing]) (simp_all add: open_states_def)
  ultimately have "run s d d1" by (cases "b = Inr True") (auto intro: run_one)
  then show ?thesis
    using Succeeded c by (cases b) (simp_all add: after_result_def none)
qed (simp_all add: after_result_def retry_run stop_run open_states_def)

section \<open>A settlement job\<close>

lemma attempt_run:
  assumes "attempt_payment derive s now i g txn u d = (res, d', sent, loaded)" and "undisturbed g" and "balances_ok d"
    and "t_recipient_user_id txn = Some (u_id u)"
  shows "run s d d' \<and> payment_keys d' = payment_keys d
    \<and> (\<forall>x. res = Inr x \<longrightarrow> (\<exists>w. loaded = Some w \<and> recipient_wallet d' txn = Some w))"
proof -
  obtain res1 d1 where pr: "provision_wallet now i (g_faucet g) (g_trust g) (\<lambda>d. d) (\<lambda>d. d) d u = (res1, d1)" by fastforce
  note run1 = provision_run [OF pr, of s] and ok = provision_wallet_ok [OF pr assms(3)]
  have keys: "payment_keys d1 = payment_keys d" using run1 by (simp add: payment_keys_def)
  show ?thesis
  proof (cases "\<exists>w. res1 = Inr w \<and> w_trust_set_complete w")
    case True
    then obtain w where w: "res1 = Inr w" "w_trust_set_complete w" by blast
    obtain res2 d2 sent2 where pay: "pay_under_lock derive s now g txn d1 = (res2, d2, sent2)" by (metis prod_cases3)
    with assms(1,2) pr w have eq: "res = res2" "d' = d2" "loaded = Some w"
      by (auto simp: attempt_payment_def undisturbed_def)
    have "get_wallet_for_user d1 (u_id u) = Some w" using ok w(1) by blast
    then have "recipient_wallet d2 txn = Some w"
      using pay_run [OF pay assms(2)] assms(4) by (simp add: recipient_wallet_def get_wallet_for_user_def)
    then show ?thesis
      using run1 pay_run [OF pay assms(2)] keys eq by (auto intro: rtranclp_trans)
  next
    case False
    with assms(1,2) pr have "d' = d1 \<and> (\<exists>e. res = Inl e)"
      by (auto simp: attempt_payment_def undisturbed_def split: sum.splits)
    with run1 keys show ?thesis by auto
  qed
qed

text \<open>The branches of a job that claimed its row.\<close>

lemma process_settlementE:
  assumes "process_settlement derive s now i g rq d key = (res, d', sent)" and "undisturbed g"
  obtains (skipped) "res = Inr Skipped" "d' = d"
  | (unknown_recipient) t where "returning (claim_guard key) (transactions d) = Some t" "res = Inr Job_failed"
      "d' = snd (fail_settlement now (snd (claim now d key)) (claim_values now t)
         ''recipient_not_registered: no platform user to receive funds'' None {Settle_processing})"
  | (tried) t u out d1 loaded where "returning (claim_guard key) (transactions d) = Some t"
      "t_recipient_user_id t = Some (u_id u)"
      "attempt_payment derive s now i g (claim_values now t) u (snd (claim now d key)) = (out, d1, sent, loaded)"
      "(res, d') = (case out of Inl e \<Rightarrow> after_exception now g rq (claim_values now t) sent e d1
                    | Inr x \<Rightarrow> after_result now rq (claim_values now t) loaded x d1)"
proof (cases "returning (claim_guard key) (transactions d)")
  case None
  then have "claim now d key = (None, d)" by (simp add: claim_def returning_None_noop)
  with assms(1) show thesis by (intro skipped) (simp_all add: process_settlement_def)
next
  case (Some t)
  then have cl: "fst (claim now d key) = Some (claim_values now t)" by (simp add: claim_def)
  have rec: "t_recipient_user_id (claim_values now t) = t_recipient_user_id t" by (simp add: claim_values_def)
  obtain c1 dc where c: "claim now d key = (c1, dc)" by fastforce
  let ?u = "case t_recipient_user_id t of None \<Rightarrow> None | Some uid \<Rightarrow> by_key u_id uid (users dc)"
  show thesis
  proof (cases ?u)
    case None
    with assms(1) c cl show thesis
      by (intro unknown_recipient [OF Some]) (auto simp: process_settlement_def rec)
  next
    case u: (Some u)
    then have own: "t_recipient_user_id t = Some (u_id u)" by (auto split: option.splits dest: by_key_Some)
    obtain out d1 sent1 loaded where a: "attempt_payment derive s now i g (claim_values now t) u (snd (claim now d key))
      = (out, d1, sent1, loaded)" by (metis prod_cases4)
    have "(res, d', sent) = (let done = (case out of Inl e \<Rightarrow> after_exception now g rq (claim_values now t) sent1 e d1
        | Inr x \<Rightarrow> after_result now rq (claim_values now t) loaded x d1) in (fst done, snd done, sent1))"
      using assms c cl u a by (simp add: process_settlement_def rec undisturbed_def Let_def)
    then show thesis using a by (intro tried [OF Some own]) (auto simp: Let_def)
  qed
qed

lemma settlement_run:
  assumes "process_settlement derive s now i g rq d key = (res, d', sent)" and "undisturbed g" and "balances_ok d"
  shows "run s d d'"
  using assms(1,2)
proof (cases rule: process_settlementE)
  case skipped
  then show ?thesis by simp
next
  case (unknown_recipient t)
  have "run s (snd (claim now d key)) d'" unfolding unknown_recipient(3) by (rule stop_run) (simp add: open_states_def)
  then show ?thesis by (rule converse_rtranclp_into_rtranclp [of "commit s", OF commit.Claimed])
next
  case (tried t u out d1 loaded)
  let ?t = "claim_values now t" and ?d = "snd (claim now d key)"
  have bal: "balances_ok ?d" using assms(3) by (simp add: balances_ok_def frame_simps)
  have own: "t_recipient_user_id ?t = Some (u_id u)" using tried(2) by (simp add: claim_values_def)
  note a = attempt_run [OF tried(3) assms(2) bal own]
  have "?t \<in> set (transactions ?d)"
    using returning_SomeD [OF tried(1)] by (auto simp: claim_def in_update_where)
  then have "\<exists>r\<in>set (transactions d1). same_payment ?t r"
    using a same_payment_keys [of d1 ?d ?t ?t] by (auto simp: same_payment_def)
  then obtain r where r: "r \<in> set (transactions d1)" "same_payment ?t r" by blast
  have "run s d1 d'"
  proof (cases out)
    case (Inl e)
    with tried(4) have "d' = snd (after_exception now g rq ?t sent e d1)" by (metis old.sum.simps(5) snd_conv)
    then show ?thesis by (simp add: after_exception_run)
  next
    case (Inr x)
    then obtain w where w: "loaded = Some w" "recipient_wallet d1 ?t = Some w" using a by blast
    with tried(4) Inr have "d' = snd (after_result now rq ?t (Some w) x d1)" by (metis old.sum.simps(6) snd_conv)
    then show ?thesis by (simp add: after_result_run [OF r w(2)])
  qed
  with a show ?thesis by (meson commit.Claimed converse_rtranclp_into_rtranclp rtranclp_trans)
qed

section \<open>A burn job\<close>

text \<open>A burn job that no other session disturbs while it waits.\<close>

definition calm :: "burn_run \<Rightarrow> bool" where
  "calm g \<longleftrightarrow> h_before_sign g = (\<lambda>d. d) \<and> h_during_send g = (\<lambda>d. d)"

text \<open>The row of the request, and the wallet the job loaded, as they are in the database.\<close>

definition current :: "cashout_request \<Rightarrow> wallet \<Rightarrow> db \<Rightarrow> bool" where
  "current req w d \<longleftrightarrow> (\<exists>c\<in>set (cashouts d). same_request req c) \<and> by_key w_id (c_wallet_id req) (wallets d) = Some w"

lemma current_update:
  assumes "current req w d" and "cashouts d' = update_where P f (cashouts d)" and "wallets d' = wallets d"
    and "\<And>c. same_request req c \<Longrightarrow> same_request req (f c)"
  shows "current req w d'"
proof -
  from assms(1) obtain c where c: "c \<in> set (cashouts d)" "same_request req c" by (auto simp: current_def)
  let ?c = "if P c then f c else c"
  have "?c \<in> set (cashouts d')" "same_request req ?c" using c assms(4) by (auto simp: assms(2) in_update_where)
  with assms(1,3) show ?thesis unfolding current_def by (metis)
qed

lemma restore_run:
  assumes "current req w d"
  shows "run s d (snd (finish_failed (fail_and_restore now (Some w) d req why h {Out_approved})))"
proof -
  from assms obtain c where c: "c \<in> set (cashouts d)" "same_request req c"
    and w: "by_key w_id (c_wallet_id req) (wallets d) = Some w" by (auto simp: current_def)
  have "for_update (Some w) (by_key w_id (c_wallet_id req) (wallets d)) = for_update None (by_key w_id (c_wallet_id req) (wallets d))"
    by (simp add: w for_update_def)
  then have none: "fail_and_restore now (Some w) d req why h {Out_approved} = fail_and_restore now None d req why h {Out_approved}"
    by (simp only: fail_and_restore_def)
  obtain b d1 where r: "fail_and_restore now None d req why h {Out_approved} = (b, d1)" by fastforce
  have "run s d d1"
  proof (cases "b = Inr True")
    case True
    with r c show ?thesis by (intro run_one commit.Restored [OF c]) simp
  next
    case False
    with fail_and_restore_noop [OF r] show ?thesis by simp
  qed
  then show ?thesis by (simp add: none r finish_failed_db)
qed

lemma burn_retry_run:
  assumes "current req w d"
  shows "run s d (snd (burn_retry_or_fail now (Some w) d req why rq))"
  using restore_run [OF assms] by (simp add: burn_retry_or_fail_def run_one commit.Burn_released)

lemma burn_exception_run:
  assumes "current req w d"
  shows "run s d (snd (burn_exception now g rq req w sent e d))"
proof (cases "h_session_lost g")
  case None
  then show ?thesis
    using restore_run [OF assms] burn_retry_run [OF assms]
    by (cases e; cases sent) (simp_all add: burn_exception_def run_one commit.Burn_held)
qed (simp add: burn_exception_def)

lemma burn_result_run:
  assumes "current req w d"
  shows "run s d (snd (burn_result now rq req w x d))"
  using restore_run [OF assms] burn_retry_run [OF assms]
  by (cases "resolution_of x") (simp_all add: burn_result_def run_one commit.Burn_held commit.Burned)

lemma remember_burn_run:
  assumes "current req w d"
  shows "run s d (snd (remember_burn now p i st d)) \<and> current req w (snd (remember_burn now p i st d))"
proof (cases p)
  case None
  have "current req w (snd (remember_burn now p i st d))"
    by (rule current_update [OF assms, of _ "\<lambda>c. c_id c = i" "burn_signed_values now st"])
      (simp_all add: None remember_burn_def same_request_def burn_signed_values_def)
  then show ?thesis by (simp add: None run_one commit.Burn_signed)
qed (simp add: remember_burn_def assms)

lemma burn_send_run:
  assumes "burn_to_issuer s r a (Some (remember_burn now p i)) d = (res, d', sent)" and "current req w d"
  shows "run s d d' \<and> current req w d'"
  using assms(1)
proof (cases rule: burn_to_issuerE)
  case (1 e)
  with assms(2) show ?thesis by simp
next
  case (2 n)
  then have "d' = d \<or> (\<exists>st. d' = snd (remember_burn now p i st d))"
    by (auto simp: submit_def split: sign_outcome.splits prod.splits option.splits) (metis snd_conv)+
  then show ?thesis using remember_burn_run [OF assms(2)] assms(2) by blast
qed

lemma burn_run_commits:
  assumes "process_burn s now g rq d key = (res, d', sent)" and "calm g"
  shows "run s d d'"
proof (cases "returning (burn_claim_guard now key) (cashouts d)")
  case None
  then have "claim_burn now d key = (None, d)" by (simp add: claim_burn_def returning_None_noop)
  with assms(1) show ?thesis by (simp add: process_burn_def)
next
  case (Some c)
  let ?req = "burn_claim_values now c"
  obtain c1 dc where cl: "claim_burn now d key = (c1, dc)" by fastforce
  then have c1: "c1 = Some ?req" and dc: "dc = snd (claim_burn now d key)" using Some by (auto simp: claim_burn_def)
  have first: "commit s d dc" unfolding dc by (rule commit.Burn_claimed)
  have row: "?req \<in> set (cashouts dc)" using returning_SomeD [OF Some] by (auto simp: dc claim_burn_def in_update_where)
  show ?thesis
  proof (cases "by_key w_id (c_wallet_id ?req) (wallets dc)")
    case None
    then have "d' = dc"
      using assms(1) cl c1 by (auto simp: process_burn_def Let_def finish_failed_def fail_and_restore_def
          for_update_def split: option.splits)
    with first show ?thesis by (simp add: run_one)
  next
    case w: (Some w)
    have cur: "current ?req w dc" using row w by (auto simp: current_def same_request_def)
    obtain out d1 sent1 where b: "burn_to_issuer s (h_payment g) (c_uctusd_amount ?req)
        (Some (remember_burn now (h_persist g) (c_id ?req))) dc = (out, d1, sent1)" by (metis prod_cases3)
    note send = burn_send_run [OF b cur]
    have "d' = snd (case out of Inl e \<Rightarrow> burn_exception now g rq ?req w sent1 e d1 | Inr x \<Rightarrow> burn_result now rq ?req w x d1)"
      using assms cl c1 w b by (cases out) (auto simp: process_burn_def calm_def Let_def)
    then have "run s d1 d'" using burn_exception_run burn_result_run send by (cases out) simp_all
    with first send show ?thesis by (meson converse_rtranclp_into_rtranclp rtranclp_trans)
  qed
qed

section \<open>Retries end\<close>

text \<open>The attempts counted on the row of a message.\<close>

definition attempts_of :: "uuid \<Rightarrow> db \<Rightarrow> int" where
  "attempts_of key d =
     (case find (\<lambda>(_, _, _, k, _). k = key) (payment_keys d) of
        None \<Rightarrow> max_attempts | Some (_, _, _, _, n) \<Rightarrow> n)"

definition message_keys :: "db \<Rightarrow> uuid list" where
  "message_keys d = map (\<lambda>(_, _, _, k, _). k) (payment_keys d)"

lemma attempts_of_row:
  assumes "distinct (message_keys d)" and "t \<in> set (transactions d)"
  shows "attempts_of (t_idempotency_key t) d = t_settlement_attempts t"
proof -
  have "find (\<lambda>(_, _, _, k, _). k = t_idempotency_key t) (map payment_key ts) = Some (payment_key t)"
    if "distinct (map (\<lambda>(_, _, _, k, _). k) (map payment_key ts))" "t \<in> set ts" for ts
    using that by (induction ts) (auto simp: payment_key_def)
  from this [of "transactions d"] show ?thesis
    using assms by (simp add: attempts_of_def payment_keys_def message_keys_def) (simp add: payment_key_def)
qed

lemma claim_counts:
  assumes "distinct (message_keys d)" and "returning (claim_guard key) (transactions d) = Some t"
  shows "attempts_of key (snd (claim now d key)) = attempts_of key d + 1"
    "message_keys (snd (claim now d key)) = message_keys d"
    "attempts_of key d = t_settlement_attempts t"
proof -
  let ?d = "snd (claim now d key)"
  show m: "message_keys ?d = message_keys d"
    by (simp add: message_keys_def payment_keys_def payment_key_def claim_def update_where_def claim_values_def comp_def
        if_distrib cong: if_cong)
  have t: "t \<in> set (transactions d)" "t_idempotency_key t = key" "claim_guard key t"
    using returning_SomeD [OF assms(2)] by (simp_all add: claim_guard_def)
  show n: "attempts_of key d = t_settlement_attempts t" using attempts_of_row [OF assms(1) t(1)] t(2) by simp
  have "claim_values now t \<in> set (transactions ?d)" using t(1,3) by (auto simp: claim_def in_update_where)
  from attempts_of_row [OF _ this] show "attempts_of key ?d = attempts_of key d + 1"
    using assms(1) m t(2) n by (simp add: claim_values_def)
qed

text \<open>Only \<open>retry_or_fail\<close> puts a message back, and only below the bound.\<close>

lemma retry_requeues:
  assumes "fst (retry_or_fail now d txn why rq) = Inr Requeued"
  shows "t_settlement_attempts txn < max_attempts \<and> payment_keys (snd (retry_or_fail now d txn why rq)) = payment_keys d"
proof -
  have "payment_keys (d\<lparr>transactions := update_where P (requeued_values now why) (transactions d)\<rparr>) = payment_keys d" for P
    by (rule payment_keys_update [where P = P and f = "requeued_values now why"])
      (simp_all add: payment_key_def requeued_values_def)
  with assms show ?thesis by (auto simp: retry_or_fail_def split: if_splits option.splits)
qed

lemma exception_requeues:
  assumes "fst (after_exception now g rq txn sent e d) = Inr Requeued"
  shows "t_settlement_attempts txn < max_attempts \<and> payment_keys (snd (after_exception now g rq txn sent e d)) = payment_keys d"
proof (cases "g_session_lost g")
  case None
  then show ?thesis
    using assms retry_requeues [of now d txn "described e" rq]
    by (cases e; cases sent) (simp_all add: after_exception_def)
qed (use assms in \<open>simp add: after_exception_def\<close>)

lemma result_requeues:
  assumes "fst (after_result now rq txn loaded x d) = Inr Requeued"
  shows "t_settlement_attempts txn < max_attempts \<and> payment_keys (snd (after_result now rq txn loaded x d)) = payment_keys d"
  using assms retry_requeues [of now d txn "reason_of x" rq]
  by (cases "resolution_of x") (auto simp: after_result_def split: prod.splits sum.splits)

lemma attempt_keys:
  assumes "attempt_payment derive s now i g txn u d = (res, d', sent, loaded)" and "undisturbed g"
  shows "payment_keys d' = payment_keys d"
proof -
  obtain res1 d1 where pr: "provision_wallet now i (g_faucet g) (g_trust g) (\<lambda>d. d) (\<lambda>d. d) d u = (res1, d1)" by fastforce
  have keys: "payment_keys d1 = payment_keys d" using provision_run [OF pr] by (simp add: payment_keys_def)
  show ?thesis
  proof (cases "\<exists>w. res1 = Inr w \<and> w_trust_set_complete w")
    case True
    obtain res2 d2 sent2 where pay: "pay_under_lock derive s now g txn d1 = (res2, d2, sent2)" by (metis prod_cases3)
    with True assms pr have "d' = d2" by (auto simp: attempt_payment_def undisturbed_def)
    then show ?thesis using pay_run [OF pay assms(2)] keys by simp
  next
    case False
    with assms pr have "d' = d1" by (auto simp: attempt_payment_def undisturbed_def split: sum.splits if_splits)
    with keys show ?thesis by simp
  qed
qed

lemma requeue_counts:
  assumes "process_settlement derive s now i g rq d key = (Inr Requeued, d', sent)" and "undisturbed g"
    and "distinct (message_keys d)"
  shows "attempts_of key d' = attempts_of key d + 1" "attempts_of key d' < max_attempts"
    "message_keys d' = message_keys d"
proof -
  from assms(1,2) obtain t u out d1 loaded where t: "returning (claim_guard key) (transactions d) = Some t"
    and a: "attempt_payment derive s now i g (claim_values now t) u (snd (claim now d key)) = (out, d1, sent, loaded)"
    and r: "(Inr Requeued, d') = (case out of Inl e \<Rightarrow> after_exception now g rq (claim_values now t) sent e d1
                    | Inr x \<Rightarrow> after_result now rq (claim_values now t) loaded x d1)"
    by (cases rule: process_settlementE) simp_all
  have "t_settlement_attempts (claim_values now t) < max_attempts \<and> payment_keys d' = payment_keys d1"
  proof (cases out)
    case (Inl e)
    with r show ?thesis using exception_requeues [of now g rq "claim_values now t" sent e d1]
      by (metis fst_conv snd_conv old.sum.simps(5))
  next
    case (Inr x)
    with r show ?thesis using result_requeues [of now rq "claim_values now t" loaded x d1]
      by (metis fst_conv snd_conv old.sum.simps(6))
  qed
  with attempt_keys [OF a assms(2)] have k: "payment_keys d' = payment_keys (snd (claim now d key))"
    and n: "t_settlement_attempts t + 1 < max_attempts" by (simp_all add: claim_values_def)
  from k have same: "attempts_of key d' = attempts_of key (snd (claim now d key))" "message_keys d' = message_keys (snd (claim now d key))"
    by (simp_all add: attempts_of_def message_keys_def)
  note c = claim_counts(1,2) [OF assms(3) t, of now] claim_counts(3) [OF assms(3) t]
  show "attempts_of key d' = attempts_of key d + 1" "attempts_of key d' < max_attempts" "message_keys d' = message_keys d"
    using same c n by simp_all
qed

section \<open>Properties of the jobs\<close>

lemma run_book:
  assumes "run s d d'" and "sound d" and "paid_first d"
  shows "book_step\<^sup>*\<^sup>* (book_of d) (book_of d')"
  using assms(1)
proof (induction rule: rtranclp_induct)
  case (step d1 d2)
  have "sound d1" "paid_first d1" using run_sound [OF step.hyps(1) assms(2,3)] by simp_all
  from commit_tracks [OF step.hyps(2) this] step.IH show ?case
    by (auto simp: tracks_def intro: rtranclp.rtrancl_into_rtrancl)
qed simp



text \<open>
  C19. Retries end (FR-MQ-05): a settlement message is put back at most twice. Whatever fails in each
  delivery, a chain of deliveries that each re-queue the message has length two at most, so the
  third attempt is the last and ends in a final state of the row or an exception.
\<close>

theorem settlement_retries_end:
  assumes "\<And>k. k < n \<Longrightarrow> \<exists>now i g rq sent. undisturbed g
      \<and> process_settlement derive s now i g rq (ds k) key = (Inr Requeued, ds (Suc k), sent)"
    and "distinct (message_keys (ds 0))" and "0 \<le> attempts_of key (ds 0)"
  shows "n \<le> 2"
proof -
  have "distinct (message_keys (ds k)) \<and> attempts_of key (ds k) = attempts_of key (ds 0) + int k
    \<and> (0 < k \<longrightarrow> attempts_of key (ds k) < max_attempts)" if "k \<le> n" for k
    using that
  proof (induction k)
    case (Suc k)
    from Suc.prems have "k < n" "k \<le> n" by simp_all
    from Suc.IH [OF this(2)] have IH: "distinct (message_keys (ds k))"
      "attempts_of key (ds k) = attempts_of key (ds 0) + int k" by simp_all
    from assms(1) [OF \<open>k < n\<close>] obtain now i g rq sent where u: "undisturbed g"
      and p: "process_settlement derive s now i g rq (ds k) key = (Inr Requeued, ds (Suc k), sent)" by blast
    from requeue_counts [OF p u IH(1)] IH show ?case by simp
  qed (simp add: assms(2))
  from this [of n] assms(3) show ?thesis by (cases n) (simp_all add: max_attempts_def)
qed

section \<open>A platform with a history\<close>

text \<open>One settled payment of 15 and one approved cash-out of 5; the next payment is queued.\<close>

definition earlier_txn :: transaction where
  "earlier_txn = example_txn\<lparr>t_id := 49, t_idempotency_key := 48, t_uctusd_amount := 15,
     t_settlement_status := Settle_completed, t_xrpl_tx_hash := Some ''P0'', t_settlement_attempts := 1\<rparr>"

definition books_db :: db where
  "books_db = burn_db\<lparr>transactions := [earlier_txn, example_txn]\<rparr>"

lemma books_tables:
  "transactions books_db = [earlier_txn, example_txn]" "wallets books_db = [example_wallet]"
  "cashouts books_db = [example_cashout]"
  by (simp_all add: books_db_def burn_db_def settle_db_def)

lemma books_sound: "sound books_db"
proof -
  have amounts: "column_value 20 6 15" "column_value 20 6 50.874404" "column_value 20 6 5" "column_value 20 6 10"
    "(0 :: rat) < 50.874404"
    by (code_simp, code_simp, code_simp, code_simp, code_simp)
  have b: "balances_ok books_db" using settle_db_ok by (simp add: balances_ok_def books_tables settle_db_def)
  have ty: "well_typed books_db"
    using b amounts(1,2,3) by (simp add: well_typed_def books_tables earlier_txn_def example_txn_def example_cashout_def)
  have sh: "shaped (book_of books_db)"
    using amounts(5) by (simp add: shaped_def linked_def book_of_def books_tables entry_of_def order_of_def account_of_def
        earlier_txn_def example_txn_def example_cashout_def example_wallet_def)
  have "balanced (book_of books_db)"
    unfolding balanced_def credits_def debits_def pending_def holdings_def
    by (simp add: credited_def taken_out_def promised_def owned_def book_of_def books_tables entry_of_def order_of_def
        account_of_def earlier_txn_def example_txn_def example_cashout_def example_wallet_def)
  with ty sh show ?thesis by (simp add: sound_def)
qed

lemma books_paid: "paid_first books_db"
  by (simp add: paid_first_def books_tables earlier_txn_def example_txn_def)



text \<open>The lock of the treasury cannot be taken: the first delivery puts the message back.\<close>

definition locked_out :: settle_run where
  "locked_out = paying_run\<lparr>g_lock_enter := Some (Raised ''LockError'' ''busy'')\<rparr>"

lemma locked_out_requeues:
  "\<exists>d' sent. process_settlement derive_platform example_settings 5 70 locked_out (\<lambda>_ _ _. None) books_db 51
     = (Inr Requeued, d', sent)"
proof -
  have "fst (process_settlement derive_platform example_settings 5 70 locked_out (\<lambda>_ _ _. None) books_db 51) = Inr Requeued"
    by code_simp
  then show ?thesis by (metis prod.collapse)
qed

theorem settlement_retries_end_witness:
  "\<exists>d' sent. process_settlement derive_platform example_settings 5 70 locked_out (\<lambda>_ _ _. None) books_db 51
     = (Inr Requeued, d', sent) \<and> (1 :: nat) \<le> 2"
proof -
  obtain d' sent where p: "process_settlement derive_platform example_settings 5 70 locked_out (\<lambda>_ _ _. None) books_db 51
     = (Inr Requeued, d', sent)" using locked_out_requeues by blast
  let ?ds = "\<lambda>k :: nat. if k = 0 then books_db else d'"
  have u: "undisturbed locked_out" by (simp add: undisturbed_def locked_out_def paying_run_def)
  have "\<exists>now i g rq sent. undisturbed g
      \<and> process_settlement derive_platform example_settings now i g rq books_db 51 = (Inr Requeued, d', sent)"
    using p u by blast
  then have "\<exists>now i g rq sent. undisturbed g
      \<and> process_settlement derive_platform example_settings now i g rq (?ds k) 51 = (Inr Requeued, ?ds (Suc k), sent)" if "k < 1" for k
    using that by simp
  moreover have "distinct (message_keys (?ds 0))" "0 \<le> attempts_of 51 (?ds 0)"
    by (simp_all add: message_keys_def attempts_of_def payment_keys_def payment_key_def books_tables earlier_txn_def example_txn_def)
  ultimately have "(1 :: nat) \<le> 2" by (rule settlement_retries_end [where ds = ?ds])
  with p show ?thesis by blast
qed

end
