(* ===== verification/Progress.thy ===== *)
theory Progress
  imports Runs
begin

text \<open>
  What the platform delivers when nothing fails: the other theories show that no run does anything
  wrong, this one that the intended run exists. A confirmed remittance is paid and credited by the job
  its message starts; an approved cash-out is burned and completed by the job its message starts.
  The conditions are those on the outside world: the ledger validates, the lock is free, the commits
  go through.
\<close>

section \<open>A transaction that goes through\<close>

definition goes_through :: "payment_run \<Rightarrow> string \<Rightarrow> bool" where
  "goes_through r h \<longleftrightarrow> (\<exists>i l. p_latest r = Inr i \<and> p_prepare r = Inr () \<and> p_sign r = Signed h l)
     \<and> p_submit r = Validated tes_success"

text \<open>The result of a validated payment.\<close>

abbreviation validated_result :: "string \<Rightarrow> xrpl_result" where
  "validated_result h \<equiv> \<lparr>x_success = True, x_result_code = tes_success, x_tx_hash = Some h, x_message = [],
     x_outcome = Some Succeeded\<rparr>"

lemma validated_resolution [simp]: "resolution_of (validated_result h) = Succeeded"
  by (simp add: resolution_of_def)

text \<open>An amount a column holds is an amount the ledger takes.\<close>

lemma uctusd_usable: "column_value 20 6 a \<Longrightarrow> 0 < a \<Longrightarrow> \<exists>i. uctusd s a = Inr i"
  using quantize_id [of 6 a] column_fits [of 20 6 a] by (simp add: uctusd_def column_value_def)

lemma treasury_goes_through:
  assumes "load_treasury derive s = Inr address" and "goes_through r h" and "column_value 20 6 a" and "0 < a"
  shows "\<exists>st. s_tx_hash st = h
    \<and> send_from_treasury derive s r a None (Some (remember_signed now None i)) d
      = (Inr (validated_result h), snd (remember_signed now None i st d), Some h)"
proof -
  obtain n l where r: "p_latest r = Inr n" "p_prepare r = Inr ()" "p_sign r = Signed h l" "p_submit r = Validated tes_success"
    using assms(2) by (auto simp: goes_through_def)
  obtain x where "uctusd s a = Inr x" using uctusd_usable [OF assms(3,4)] by blast
  then have "send_from_treasury derive s r a None (Some (remember_signed now None i)) d
    = (Inr (validated_result h), snd (remember_signed now None i
        \<lparr>s_tx_hash = h, s_last_ledger_sequence = l, s_submitted_ledger_index = Some n\<rparr> d), Some h)"
    by (simp add: send_from_treasury_def assms(1) read_index_def r submit_def submitted_result_def remember_signed_def)
  then show ?thesis by (intro exI [of _ "\<lparr>s_tx_hash = h, s_last_ledger_sequence = l, s_submitted_ledger_index = Some n\<rparr>"]) simp
qed

section \<open>A recipient who can hold tokens\<close>

text \<open>A wallet with its trust line, or what is missing of it goes through in this run.\<close>

definition can_hold :: "instant \<Rightarrow> uuid \<Rightarrow> settle_run \<Rightarrow> db \<Rightarrow> uuid \<Rightarrow> bool" where
  "can_hold now i g d uid \<longleftrightarrow>
     (case get_wallet_for_user d uid of
        Some w \<Rightarrow> w_trust_set_complete w \<or> (\<exists>h. goes_through (g_trust g) h)
      | None \<Rightarrow> (\<exists>acc. g_faucet g = Inr acc \<and> unique_wallets (wallets d @ [new_wallet now i uid acc]))
          \<and> (\<exists>h. goes_through (g_trust g) h))"

lemma trust_line_set:
  assumes "w_trust_set_complete w \<or> goes_through r h"
  shows "\<exists>x w' d'. ensure_trust_line now r (\<lambda>d. d) d w = (Inr (x, w'), d') \<and> w_trust_set_complete w'"
  using assms
  by (cases "w_trust_set_complete w")
    (auto simp: ensure_trust_line_def goes_through_def submit_def submitted_result_def set_trust_def)

lemma provision_set:
  assumes "can_hold now i g d (u_id u)"
  shows "\<exists>w d'. provision_wallet now i (g_faucet g) (g_trust g) (\<lambda>d. d) (\<lambda>d. d) d u = (Inr w, d') \<and> w_trust_set_complete w"
proof (cases "get_wallet_for_user d (u_id u)")
  case (Some w)
  then have "w_trust_set_complete w \<or> (\<exists>h. goes_through (g_trust g) h)" using assms by (simp add: can_hold_def)
  then obtain x w' d' where "ensure_trust_line now (g_trust g) (\<lambda>d. d) d w = (Inr (x, w'), d')" "w_trust_set_complete w'"
    using trust_line_set by blast
  with Some show ?thesis by (simp add: provision_wallet_def)
next
  case None
  let ?w = "new_wallet now i (u_id u)"
  let ?d = "\<lambda>acc. d\<lparr>wallets := wallets d @ [?w acc], users := set_can_receive now u (users d)\<rparr>"
  from None assms obtain acc h where acc: "g_faucet g = Inr acc" "unique_wallets (wallets d @ [?w acc])"
    and "goes_through (g_trust g) h" by (auto simp: can_hold_def)
  then obtain x w' d' where "ensure_trust_line now (g_trust g) (\<lambda>d. d) (?d acc) (?w acc) = (Inr (x, w'), d')"
    "w_trust_set_complete w'" using trust_line_set by blast
  with None acc show ?thesis by (simp add: provision_wallet_def Let_def)
qed

section \<open>A settlement job that completes\<close>

definition smooth_settlement :: "(string \<Rightarrow> string option) \<Rightarrow> settings \<Rightarrow> settle_run \<Rightarrow> string \<Rightarrow> bool" where
  "smooth_settlement derive s g h \<longleftrightarrow> undisturbed g \<and> g_lock_enter g = None \<and> g_lock_exit g = None \<and> g_persist g = None
     \<and> (\<exists>address. load_treasury derive s = Inr address) \<and> goes_through (g_payment g) h"

lemma smooth_attempt:
  assumes "smooth_settlement derive s g h" and "can_hold now i g d (u_id u)"
    and "column_value 20 6 (t_uctusd_amount txn)" and "0 < t_uctusd_amount txn"
  shows "\<exists>d' w. attempt_payment derive s now i g txn u d = (Inr (validated_result h), d', Some h, Some w)"
proof -
  obtain w d1 where prov: "provision_wallet now i (g_faucet g) (g_trust g) (\<lambda>d. d) (\<lambda>d. d) d u = (Inr w, d1)"
    "w_trust_set_complete w" using provision_set [OF assms(2)] by blast
  obtain address where "load_treasury derive s = Inr address" using assms(1) by (auto simp: smooth_settlement_def)
  from treasury_goes_through [OF this _ assms(3,4), of "g_payment g" h now "t_id txn" d1] assms(1)
  have "\<exists>d'. pay_under_lock derive s now g txn d1 = (Inr (validated_result h), d', Some h)"
    by (auto simp: smooth_settlement_def pay_under_lock_def undisturbed_def)
  with prov assms(1) show ?thesis by (auto simp: attempt_payment_def smooth_settlement_def undisturbed_def)
qed

text \<open>The credit is written whenever the new balance fits its column.\<close>

lemma credit_written:
  assumes "column_value 20 6 (w_balance_uctusd w)" and "column_value 20 6 a"
    and "\<bar>w_balance_uctusd w + a\<bar> < 10 ^ 14"
  shows "\<exists>ws'. write_balance now w (dec_add (w_balance_uctusd w) a) ws = Some ws'"
proof -
  have "dec_add (w_balance_uctusd w) a = w_balance_uctusd w + a" using column_add_exact(1) assms(1,2) by simp
  moreover have "column_value 20 6 (w_balance_uctusd w + a)"
    using assms on_grid_add by (auto simp: column_value_def)
  ultimately show ?thesis by (simp add: write_balance_def store_numeric_id)
qed

lemma settlement_completed:
  assumes "in_processing (t_id txn) d" and "recipient_wallet d txn = Some w" and "column_value 20 6 (w_balance_uctusd w)"
    and "column_value 20 6 (t_uctusd_amount txn)" and "\<bar>w_balance_uctusd w + t_uctusd_amount txn\<bar> < 10 ^ 14"
  shows "\<exists>d'. after_result now rq txn (Some w) (validated_result h) d = (Inr Completed, d')
    \<and> transactions d' = update_where (settle_guard (t_id txn) {Settle_processing}) (completed_values now h) (transactions d)"
proof -
  obtain ws where ws: "write_balance now w (dec_add (w_balance_uctusd w) (t_uctusd_amount txn)) (wallets d) = Some ws"
    using credit_written [OF assms(3-5)] by blast
  obtain r where "returning (settle_guard (t_id txn) {Settle_processing}) (transactions d) = Some r"
    using assms(1) by (auto simp: in_processing_returning)
  then show ?thesis
    using ws by (simp add: after_result_def complete_settlement_def assms(2) for_update_def or_else_def)
qed

lemma settle_job_completes:
  assumes "smooth_settlement derive s g h" and "returning (claim_guard key) (transactions d) = Some t"
    and "by_key u_id uid (users d) = Some u" and "t_recipient_user_id t = Some uid"
    and "can_hold now i g d uid" and "balances_ok d"
    and "column_value 20 6 (t_uctusd_amount t)" and "0 < t_uctusd_amount t"
    and "\<bar>balance_of d uid + t_uctusd_amount t\<bar> < 10 ^ 14"
  shows "\<exists>d'. process_settlement derive s now i g rq d key = (Inr Completed, d', Some h)
    \<and> balance_of d' uid = balance_of d uid + t_uctusd_amount t
    \<and> (\<exists>t'\<in>set (transactions d'). t_id t' = t_id t \<and> t_settlement_status t' = Settle_completed \<and> t_xrpl_tx_hash t' = Some h)"
proof -
  let ?txn = "claim_values now t"
  obtain d1 where cl: "claim now d key = (Some ?txn, d1)" and sn: "d1 = snd (claim now d key)"
    using assms(2) by (simp add: claim_def)
  have txn: "t_uctusd_amount ?txn = t_uctusd_amount t" "t_recipient_user_id ?txn = Some uid" "t_id ?txn = t_id t"
    by (simp_all add: claim_values_def assms(4))
  have uid: "u_id u = uid" using by_key_Some [OF assms(3)] by simp
  have same: "wallets d1 = wallets d" "users d1 = users d" by (simp_all add: sn frame_simps)
  have b1: "balance_of d1 = balance_of d" "balances_ok d1"
    using assms(6) by (auto simp: balances_ok_def same intro!: ext balance_of_cong)
  have hold: "can_hold now i g d1 (u_id u)"
    using assms(5) by (simp add: can_hold_def get_wallet_for_user_def same uid cong: option.case_cong)
  have pr: "in_processing (t_id ?txn) d1"
    using claimed_in_processing [OF assms(2), of now] by (simp add: sn txn)
  obtain d2 w where att: "attempt_payment derive s now i g ?txn u d1 = (Inr (validated_result h), d2, Some h, Some w)"
    using smooth_attempt [OF assms(1) hold, of ?txn] assms(7,8) by (auto simp: txn)
  have und: "undisturbed g" using assms(1) by (simp add: smooth_settlement_def)
  note ok = attempt_ok [OF att und b1(2) pr]
  have rw: "recipient_wallet d2 ?txn = Some w" "balances_ok d2" "in_processing (t_id ?txn) d2" "balance_of d2 = balance_of d"
    using ok by (simp_all add: txn uid b1(1))
  have w: "column_value 20 6 (w_balance_uctusd w)" "w_balance_uctusd w = balance_of d2 uid"
    using rw(1,2) by (auto simp: balances_ok_def recipient_wallet_def get_wallet_for_user_def balance_of_def txn dest: by_key_Some)
  obtain d' where fin: "after_result now rq ?txn (Some w) (validated_result h) d2 = (Inr Completed, d')"
    and rows: "transactions d' = update_where (settle_guard (t_id ?txn) {Settle_processing}) (completed_values now h) (transactions d2)"
    using settlement_completed [OF rw(3,1) w(1), of now rq h] assms(7,9) by (auto simp: txn w(2) rw(4))
  have "process_settlement derive s now i g rq d key = (Inr Completed, d', Some h)"
    using cl att fin und by (simp add: process_settlement_def txn assms(3) same Let_def undisturbed_def)
  moreover have "balance_of d' uid = balance_of d uid + t_uctusd_amount t"
    using after_result_balance [OF fin rw(2,1,3)] assms(7,8) by (simp add: txn rw(4))
  moreover have "\<exists>t'\<in>set (transactions d'). t_id t' = t_id t \<and> t_settlement_status t' = Settle_completed \<and> t_xrpl_tx_hash t' = Some h"
  proof -
    obtain r where r: "r \<in> set (transactions d2)" "settle_guard (t_id t) {Settle_processing} r"
      using rw(3) by (auto simp: in_processing_def txn)
    then have "completed_values now h r \<in> set (transactions d')" by (auto simp: rows in_update_where txn)
    with r(2) show ?thesis
      by (intro bexI [of _ "completed_values now h r"]) (simp_all add: completed_values_def settle_guard_def)
  qed
  ultimately show ?thesis by blast
qed

section \<open>From the confirmed payment to the credit\<close>

text \<open>The message of a confirmed cash-in finds its row.\<close>

lemma confirmed_is_claimable:
  assumes "t \<in> set (transactions d)" and "distinct (map t_id (transactions d))"
    and "distinct (map t_idempotency_key (transactions d))"
    and "t_cashin_status t = CashIn_pending" and "t_xrpl_tx_hash t = None"
    and "transactions d1 = update_where (cashin_guard (t_id t)) (received_values now reviewer) (transactions d)"
  shows "returning (claim_guard (t_idempotency_key t)) (transactions d1) = Some (received_values now reviewer t)"
proof -
  have key: "t_idempotency_key (received_values now reviewer r) = t_idempotency_key r" for r by (simp add: received_values_def)
  have row: "received_values now reviewer t \<in> set (transactions d1)"
    using assms(1,4) by (auto simp: assms(6) in_update_where cashin_guard_def)
  have "distinct (map t_idempotency_key (transactions d1))"
    using assms(3) by (simp add: assms(6) update_where_def key comp_def cong: if_cong) (simp add: if_distrib key cong: if_cong)
  from by_key_unique [OF this row]
  have found: "by_key t_idempotency_key (t_idempotency_key t) (transactions d1) = Some (received_values now reviewer t)"
    by (simp add: key)
  have "claim_guard (t_idempotency_key t) (received_values now reviewer t)"
    using assms(5) by (simp add: claim_guard_def received_values_def)
  with found show ?thesis
    unfolding returning_def by_key_def by (rule find_stronger) (simp add: claim_guard_def)
qed

text \<open>
  C12. A confirmed remittance is delivered: when an admin confirms a pending cash-in, the queue takes its
  message, and in the run of the worker the lock is free, the recipient's wallet exists or is created,
  and the ledger validates the payment, then the job reports completion, the row carries the hash of
  the payment as completed, and the recipient's balance has grown by exactly the amount.
\<close>

theorem remittance_delivered:
  assumes "t \<in> set (transactions d)" and "sound d" and "distinct (map t_idempotency_key (transactions d))"
    and "t_cashin_status t = CashIn_pending" and "t_xrpl_tx_hash t = None"
    and "by_key u_id uid (users d) = Some u" and "t_recipient_user_id t = Some uid"
    and "smooth_settlement derive s g h" and "can_hold later i g d uid"
    and "\<bar>balance_of d uid + t_uctusd_amount t\<bar> < 10 ^ 14"
  shows "\<exists>d1 d'. mark_cashin_received now (\<lambda>_ _. None) (\<lambda>d. d) d t reviewer = (Inr (), d1)
    \<and> process_settlement derive s later i g rq d1 (t_idempotency_key t) = (Inr Completed, d', Some h)
    \<and> balance_of d' uid = balance_of d uid + t_uctusd_amount t
    \<and> (\<exists>t'\<in>set (transactions d'). t_id t' = t_id t \<and> t_settlement_status t' = Settle_completed \<and> t_xrpl_tx_hash t' = Some h)"
proof -
  define d1 where "d1 = with_transactions d (cashin_guard (t_id t)) (received_values now reviewer)"
  have same: "wallets d1 = wallets d" "users d1 = users d"
    and rows: "transactions d1 = update_where (cashin_guard (t_id t)) (received_values now reviewer) (transactions d)"
    by (simp_all add: d1_def with_transactions_def)
  have "returning (cashin_guard (t_id t)) (transactions d) \<noteq> None"
    using assms(1,4) by (auto simp: returning_def find_None_all cashin_guard_def)
  then have received: "mark_cashin_received now (\<lambda>_ _. None) (\<lambda>d. d) d t reviewer = (Inr (), d1)"
    by (auto simp: mark_cashin_received_def publish_def d1_def with_transactions_def)
  have bal: "balance_of d1 uid = balance_of d uid" using same(1) by (rule balance_of_cong)
  have hold: "can_hold later i g d1 uid"
    using assms(9) by (simp add: can_hold_def get_wallet_for_user_def same cong: option.case_cong)
  have "\<exists>d'. process_settlement derive s later i g rq d1 (t_idempotency_key t) = (Inr Completed, d', Some h)
    \<and> balance_of d' uid = balance_of d1 uid + t_uctusd_amount (received_values now reviewer t)
    \<and> (\<exists>t'\<in>set (transactions d'). t_id t' = t_id (received_values now reviewer t)
        \<and> t_settlement_status t' = Settle_completed \<and> t_xrpl_tx_hash t' = Some h)"
    using soundD(6) [OF assms(2,1)] soundD(9) [OF assms(2)] assms(6,7,10)
    by (intro settle_job_completes [OF assms(8)
          confirmed_is_claimable [OF assms(1) soundD(1) [OF assms(2)] assms(3-5) rows] _ _ hold])
      (simp_all add: same bal received_values_def balances_ok_def)
  with received bal show ?thesis by (auto simp: received_values_def)
qed

section \<open>A burn job that completes\<close>

definition smooth_burn :: "burn_run \<Rightarrow> string \<Rightarrow> bool" where
  "smooth_burn g h \<longleftrightarrow> h_before_sign g = (\<lambda>d. d) \<and> h_during_send g = (\<lambda>d. d) \<and> h_persist g = None
     \<and> goes_through (h_payment g) h"

lemma burn_goes_through:
  assumes "smooth_burn g h" and "column_value 20 6 a" and "0 < a"
  shows "\<exists>st. s_tx_hash st = h
    \<and> burn_to_issuer s (h_payment g) a (Some (remember_burn now None i)) d
      = (Inr (validated_result h), d\<lparr>cashouts := update_where (\<lambda>c. c_id c = i) (burn_signed_values now st) (cashouts d)\<rparr>, Some h)"
proof -
  obtain n l where r: "p_latest (h_payment g) = Inr n" "p_prepare (h_payment g) = Inr ()"
      "p_sign (h_payment g) = Signed h l" "p_submit (h_payment g) = Validated tes_success" and p: "h_persist g = None"
    using assms(1) by (auto simp: goes_through_def smooth_burn_def)
  obtain x where "uctusd s a = Inr x" using uctusd_usable [OF assms(2,3)] by blast
  then show ?thesis
    by (intro exI [of _ "\<lparr>s_tx_hash = h, s_last_ledger_sequence = l, s_submitted_ledger_index = Some n\<rparr>"])
      (simp add: burn_to_issuer_def read_index_def r p submit_def submitted_result_def remember_burn_def)
qed

lemma burn_job_completes:
  assumes "smooth_burn g h" and "returning (burn_claim_guard now key) (cashouts d) = Some c"
    and "by_key w_id (c_wallet_id c) (wallets d) = Some w"
    and "column_value 20 6 (c_uctusd_amount c)" and "0 < c_uctusd_amount c"
  shows "\<exists>d'. process_burn s now g rq d key = (Inr Completed, d', Some h) \<and> wallets d' = wallets d
    \<and> (\<exists>c'\<in>set (cashouts d'). c_id c' = c_id c \<and> c_status c' = Out_completed \<and> c_burn_tx_hash c' = Some h
        \<and> c_fiat_payout_reference c' = Some (payout_reference c))"
proof -
  let ?c = "burn_claim_values now c"
  obtain d1 where cl: "claim_burn now d key = (Some ?c, d1)" and sn: "d1 = snd (claim_burn now d key)"
    using assms(2) by (simp add: claim_burn_def)
  have c: "c_uctusd_amount ?c = c_uctusd_amount c" "c_id ?c = c_id c" "c_wallet_id ?c = c_wallet_id c" "c_status ?c = c_status c"
    by (simp_all add: burn_claim_values_def)
  have w1: "wallets d1 = wallets d" by (simp add: sn frame_simps)
  obtain st where st: "s_tx_hash st = h"
    and sent: "burn_to_issuer s (h_payment g) (c_uctusd_amount ?c) (Some (remember_burn now None (c_id ?c))) d1
      = (Inr (validated_result h), d1\<lparr>cashouts := update_where (\<lambda>r. c_id r = c_id ?c) (burn_signed_values now st) (cashouts d1)\<rparr>, Some h)"
    using burn_goes_through [OF assms(1)] assms(4,5) unfolding c by blast
  let ?d2 = "d1\<lparr>cashouts := update_where (\<lambda>r. c_id r = c_id ?c) (burn_signed_values now st) (cashouts d1)\<rparr>"
  let ?r = "burn_signed_values now st ?c"
  have "?c \<in> set (cashouts d1)"
    using changed_in [of c "cashouts d" "burn_claim_guard now key" "burn_claim_values now"] returning_SomeD [OF assms(2)]
    by (simp add: sn claim_burn_def)
  from changed_in [OF this, of "\<lambda>r. c_id r = c_id ?c" "burn_signed_values now st"]
  have row: "?r \<in> set (cashouts ?d2)" by simp
  have guard: "out_guard (c_id ?c) {Out_approved} ?r"
    using returning_SomeD [OF assms(2)]
    by (simp add: burn_claim_guard_def out_guard_def burn_signed_values_def burn_claim_values_def)
  obtain r where "returning (out_guard (c_id ?c) {Out_approved}) (cashouts ?d2) = Some r"
    using row guard by (metis returning_def find_None_all not_None_eq)
  define d' where "d' = snd (complete_burn now ?d2 ?c h {Out_approved})"
  have "burn_result now rq ?c w (validated_result h) ?d2 = (Inr Completed, d')"
    by (simp add: burn_result_def d'_def or_else_def)
  then have "process_burn s now g rq d key = (Inr Completed, d', Some h)"
    using assms(1,3) by (simp add: process_burn_def cl c(3) w1 smooth_burn_def sent [unfolded c(2)] Let_def c(2))
  moreover have "wallets d' = wallets d" by (simp add: d'_def frame_simps w1)
  moreover have "burned_values now h (payout_reference ?c) ?r \<in> set (cashouts d')"
    using changed_in [where P = "out_guard (c_id ?c) {Out_approved}" and f = "burned_values now h (payout_reference ?c)", OF row guard]
      \<open>returning _ _ = Some r\<close>
    by (simp add: d'_def complete_burn_def)
  ultimately show ?thesis
    by (intro exI [of _ d'] conjI bexI [of _ "burned_values now h (payout_reference ?c) ?r"])
      (simp_all add: burned_values_def burn_signed_values_def c payout_reference_def)
qed

section \<open>From the approval to the payout\<close>

lemma reserve_succeeds:
  assumes "balances_ok d" and "by_key w_id (c_wallet_id req) (wallets d) = Some w"
    and "req \<in> set (cashouts d)" and "c_status req = Out_requested"
    and "column_value 20 6 (c_uctusd_amount req)" and "0 < c_uctusd_amount req" and "c_uctusd_amount req \<le> w_balance_uctusd w"
  shows "\<exists>w' d'. reserve now None d req admin = (Inr w', d')"
proof -
  have col: "column_value 20 6 (w_balance_uctusd w)"
    using assms(1,2) by (auto simp: balances_ok_def dest: by_key_Some)
  have "dec_sub (w_balance_uctusd w) (c_uctusd_amount req) = w_balance_uctusd w - c_uctusd_amount req"
    using column_add_exact(2) [OF col assms(5)] .
  moreover have "column_value 20 6 (w_balance_uctusd w - c_uctusd_amount req)"
    using col assms(5-7) on_grid_diff by (auto simp: column_value_def)
  moreover obtain c where "returning (out_guard (c_id req) {Out_requested}) (cashouts d) = Some c"
    using assms(3,4) by (metis (mono_tags) returning_def find_None_all not_None_eq out_guard_def singletonI)
  ultimately show ?thesis
    using assms(2,7) by (simp add: reserve_def for_update_def write_balance_def store_numeric_id Let_def)
qed

lemma approved_is_claimable:
  assumes "req \<in> set (cashouts d)" and "distinct (map c_idempotency_key (cashouts d))"
    and "c_status req = Out_requested" and "c_burn_tx_hash req = None" and "c_burn_started_at req = None"
    and "cashouts d1 = update_where (out_guard (c_id req) {Out_requested}) (approved_values now admin) (cashouts d)"
  shows "returning (burn_claim_guard later (c_idempotency_key req)) (cashouts d1) = Some (approved_values now admin req)"
proof -
  have key: "c_idempotency_key (approved_values now admin r) = c_idempotency_key r" for r by (simp add: approved_values_def)
  have row: "approved_values now admin req \<in> set (cashouts d1)"
    unfolding assms(6) by (rule changed_in [OF assms(1)]) (simp add: out_guard_def assms(3))
  have "distinct (map c_idempotency_key (cashouts d1))"
    using assms(2) map_update_same [of "cashouts d" _ c_idempotency_key "approved_values now admin"] by (simp add: assms(6) key)
  from by_key_unique [OF this row]
  have "by_key c_idempotency_key (c_idempotency_key req) (cashouts d1) = Some (approved_values now admin req)" by (simp add: key)
  moreover have "burn_claim_guard later (c_idempotency_key req) (approved_values now admin req)"
    using assms(4,5) by (simp add: burn_claim_guard_def approved_values_def)
  ultimately show ?thesis
    unfolding returning_def by_key_def by (rule find_stronger) (simp add: burn_claim_guard_def)
qed

text \<open>
  C13. An approved cash-out is paid out: when an admin approves a request the balance covers, the queue
  takes its message, and in the run of the worker the ledger validates the burn, then the job reports
  completion, the request is completed with the hash of the burn and its payout reference, and the
  recipient's balance is down by exactly the amount.
\<close>

theorem cashout_delivered:
  assumes "req \<in> set (cashouts d)" and "sound d" and "distinct (map c_idempotency_key (cashouts d))"
    and "c_status req = Out_requested" and "c_burn_tx_hash req = None" and "c_burn_started_at req = None"
    and "by_key w_id (c_wallet_id req) (wallets d) = Some w" and "c_uctusd_amount req \<le> w_balance_uctusd w"
    and "smooth_burn g h"
  shows "\<exists>d1 d'. approve now (\<lambda>_ _. None) (\<lambda>d. d) None d req admin = (Inr (), d1)
    \<and> process_burn s later g rq d1 (c_idempotency_key req) = (Inr Completed, d', Some h)
    \<and> balance_of d' (w_user_id w) = balance_of d (w_user_id w) - c_uctusd_amount req
    \<and> (\<exists>c\<in>set (cashouts d'). c_id c = c_id req \<and> c_status c = Out_completed \<and> c_burn_tx_hash c = Some h
        \<and> c_fiat_payout_reference c = Some (payout_reference req))"
proof -
  have amount: "column_value 20 6 (c_uctusd_amount req)" "0 < c_uctusd_amount req" using soundD(7) [OF assms(2,1)] by simp_all
  note ok = soundD(9) [OF assms(2)]
  obtain w' d1 where res: "reserve now None d req admin = (Inr w', d1)"
    using reserve_succeeds [OF ok assms(7,1,4) amount assms(8)] by blast
  then have approved: "approve now (\<lambda>_ _. None) (\<lambda>d. d) None d req admin = (Inr (), d1)"
    by (simp add: approve_def publish_burn_def)
  have rows: "cashouts d1 = update_where (out_guard (c_id req) {Out_requested}) (approved_values now admin) (cashouts d)"
    using res by (rule reserveE) simp
  note after = reserve_current [OF res ok assms(7) _ amount]
  obtain w1 where "by_key w_id (c_wallet_id req) (wallets d1) = Some w1" using after(7) by auto
  then have w1: "by_key w_id (c_wallet_id (approved_values now admin req)) (wallets d1) = Some w1"
    by (simp add: approved_values_def)
  obtain d' where run: "process_burn s later g rq d1 (c_idempotency_key req) = (Inr Completed, d', Some h)"
    and same: "wallets d' = wallets d1"
    and final: "\<exists>c'\<in>set (cashouts d'). c_id c' = c_id (approved_values now admin req) \<and> c_status c' = Out_completed
        \<and> c_burn_tx_hash c' = Some h \<and> c_fiat_payout_reference c' = Some (payout_reference (approved_values now admin req))"
    using burn_job_completes [OF assms(9) approved_is_claimable [OF assms(1,3-6) rows] w1, where s = s and rq = rq and now = later] amount
    by (auto simp: approved_values_def)
  have "balance_of d' (w_user_id w) = balance_of d (w_user_id w) - c_uctusd_amount req"
    using after(1) [of "w_user_id w"] balance_of_cong [OF same] by simp
  with approved run final show ?thesis by (auto simp: approved_values_def payout_reference_def)
qed

section \<open>Concrete deliveries\<close>

text \<open>The platform of theory Runs, with its second payment not yet confirmed.\<close>

definition pending_txn :: transaction where
  "pending_txn = example_txn\<lparr>t_cashin_status := CashIn_pending, t_settlement_status := Settle_not_queued\<rparr>"

definition deliver_db :: db where
  "deliver_db = books_db\<lparr>transactions := [earlier_txn, pending_txn]\<rparr>"

lemma deliver_sound: "sound deliver_db"
  using books_sound
  by (simp add: sound_def well_typed_def balances_ok_def shaped_def linked_def balanced_def credits_def debits_def
      pending_def holdings_def credited_def taken_out_def promised_def owned_def book_of_def entry_of_def order_of_def
      account_of_def deliver_db_def books_tables pending_txn_def earlier_txn_def example_txn_def example_cashout_def example_wallet_def)

lemma paying_smooth: "smooth_settlement derive_platform example_settings paying_run ''P1''"
proof -
  have "load_treasury derive_platform example_settings = Inr ''rPlatform''" by code_simp
  then show ?thesis by (auto simp: smooth_settlement_def undisturbed_def goes_through_def paying_run_def)
qed

theorem remittance_delivered_witness:
  "\<exists>d1 d'. mark_cashin_received 3 (\<lambda>_ _. None) (\<lambda>d. d) deliver_db pending_txn (Some platform_admin) = (Inr (), d1)
    \<and> process_settlement derive_platform example_settings 5 70 paying_run (\<lambda>_ _ _. None) d1 51 = (Inr Completed, d', Some ''P1'')
    \<and> balance_of d' 11 = 60.874404"
proof -
  have rows: "pending_txn \<in> set (transactions deliver_db)" "distinct (map t_idempotency_key (transactions deliver_db))"
    by (simp_all add: deliver_db_def pending_txn_def earlier_txn_def example_txn_def)
  have fields: "t_cashin_status pending_txn = CashIn_pending" "t_xrpl_tx_hash pending_txn = None"
    "t_recipient_user_id pending_txn = Some 11" "t_idempotency_key pending_txn = 51" "t_uctusd_amount pending_txn = 50.874404"
    by (simp_all add: pending_txn_def example_txn_def)
  have bal: "balance_of deliver_db 11 = 10"
    by (simp add: balance_of_def get_wallet_for_user_def by_key_def deliver_db_def books_db_def burn_db_def settle_db_def example_wallet_def)
  have user: "by_key u_id 11 (users deliver_db) = Some example_recipient"
    using settle_user by (simp add: deliver_db_def books_db_def burn_db_def)
  have hold: "can_hold 5 70 paying_run deliver_db 11"
    by (simp add: can_hold_def get_wallet_for_user_def by_key_def deliver_db_def books_db_def burn_db_def settle_db_def example_wallet_def)
  have "\<bar>balance_of deliver_db 11 + t_uctusd_amount pending_txn\<bar> < 10 ^ 14" by (simp add: bal fields)
  from remittance_delivered [OF rows(1) deliver_sound rows(2) fields(1,2) user fields(3) paying_smooth hold this,
      of 3 "Some platform_admin" "\<lambda>_ _ _. None"]
  show ?thesis unfolding bal fields by auto
qed

text \<open>The request not yet approved: its amount is still in the balance.\<close>

definition payout_db :: db where
  "payout_db = books_db\<lparr>cashouts := [requested_cashout], wallets := [example_wallet\<lparr>w_balance_uctusd := 15\<rparr>]\<rparr>"

definition burning_run :: burn_run where
  "burning_run = timeout_burn\<lparr>h_payment := g_payment paying_run\<rparr>"

lemma burning_smooth: "smooth_burn burning_run ''P1''"
  by (auto simp: smooth_burn_def burning_run_def timeout_burn_def goes_through_def paying_run_def)

lemma payout_sound: "sound payout_db"
proof -
  have "column_value 20 6 15" by code_simp
  with books_sound show ?thesis
    by (simp add: sound_def well_typed_def balances_ok_def unique_wallets_def shaped_def linked_def balanced_def credits_def
        debits_def pending_def holdings_def credited_def taken_out_def promised_def owned_def book_of_def entry_of_def
        order_of_def account_of_def payout_db_def requested_cashout_def example_cashout_def books_tables
        earlier_txn_def example_txn_def example_wallet_def)
qed

theorem cashout_delivered_witness:
  "\<exists>d1 d'. approve 3 (\<lambda>_ _. None) (\<lambda>d. d) None payout_db requested_cashout platform_admin = (Inr (), d1)
    \<and> process_burn example_settings 5 burning_run (\<lambda>_ _ _. None) d1 81 = (Inr Completed, d', Some ''P1'')
    \<and> balance_of d' 11 = 10"
proof -
  have rows: "requested_cashout \<in> set (cashouts payout_db)" "distinct (map c_idempotency_key (cashouts payout_db))"
    by (simp_all add: payout_db_def)
  have fields: "c_status requested_cashout = Out_requested" "c_burn_tx_hash requested_cashout = None"
    "c_burn_started_at requested_cashout = None" "c_wallet_id requested_cashout = 60"
    "c_idempotency_key requested_cashout = 81" "c_uctusd_amount requested_cashout = 5"
    by (simp_all add: requested_cashout_def example_cashout_def)
  let ?w = "example_wallet\<lparr>w_balance_uctusd := 15\<rparr>"
  have wallet: "by_key w_id (c_wallet_id requested_cashout) (wallets payout_db) = Some ?w" "w_user_id ?w = 11"
    by (simp_all add: fields by_key_def payout_db_def example_wallet_def)
  have bal: "balance_of payout_db 11 = 15"
    by (simp add: balance_of_def get_wallet_for_user_def by_key_def payout_db_def example_wallet_def)
  have "c_uctusd_amount requested_cashout \<le> w_balance_uctusd ?w" by (simp add: fields)
  from cashout_delivered [OF rows(1) payout_sound rows(2) fields(1-3) wallet(1) this burning_smooth,
      of 3 platform_admin example_settings 5 "\<lambda>_ _ _. None"]
  show ?thesis unfolding wallet(2) bal fields by auto
qed

end
