(* ===== verification/Locks.thy ===== *)
theory Locks
  imports Jobs
begin

text \<open>
  The treasury lock: \<open>queue_service.treasury_lock\<close> around the payment of \<open>settlement_worker.py\<close>.
  Every settlement is signed by one account, whose next sequence number is read while the payment is
  prepared; two workers between that read and their submission would take the same number. The
  lock is a lease in Redis that expires by itself, so the program relies on the lease outliving the
  job that holds it. Theory Settlement models one job and takes what entering and leaving the lock
  did as an argument; here any number of workers run against one lock and one clock.
\<close>

section \<open>Workers, the lease and the clock\<close>

text \<open>
  Times are in seconds. \<open>k_alarm\<close> holds the running jobs with the time at which the queue interrupts
  them (\<open>job_timeout\<close> of the message), \<open>k_inside\<close> those between entering and leaving the \<open>with\<close>
  block, \<open>k_lease\<close> the job whose token is stored and when Redis drops it, \<open>k_filled\<close> the sequence number
  a job has read but not yet used, \<open>k_sequence\<close> the account's next one, and \<open>k_refused\<close> the jobs whose
  submission used a number already taken (tefPAST_SEQ).
\<close>

record lock_state =
  k_now :: int
  k_alarm :: "nat \<Rightarrow> int option"
  k_lease :: "(nat \<times> int) option"
  k_inside :: "nat set"
  k_filled :: "nat \<Rightarrow> nat option"
  k_sequence :: nat
  k_refused :: "nat set"

definition idle :: lock_state where
  "idle = \<lparr>k_now = 0, k_alarm = (\<lambda>_. None), k_lease = None, k_inside = {}, k_filled = (\<lambda>_. None),
     k_sequence = 1, k_refused = {}\<rparr>"

text \<open>Redis drops a key once the time is past its expiry.\<close>

definition lease_at :: "int \<Rightarrow> (nat \<times> int) option \<Rightarrow> (nat \<times> int) option" where
  "lease_at n lease = (case lease of None \<Rightarrow> None | Some (w, e) \<Rightarrow> if e < n then None else Some (w, e))"

text \<open>Releasing compares the token: a lease somebody else holds by now stays.\<close>

definition released :: "nat \<Rightarrow> (nat \<times> int) option \<Rightarrow> (nat \<times> int) option" where
  "released w lease = (case lease of None \<Rightarrow> None | Some (v, e) \<Rightarrow> if v = w then None else Some (v, e))"

definition leave :: "nat \<Rightarrow> lock_state \<Rightarrow> lock_state" where
  "leave w k = k\<lparr>k_inside := k_inside k - {w}, k_filled := (k_filled k)(w := None)\<rparr>"

definition submit_next :: "nat \<Rightarrow> nat \<Rightarrow> lock_state \<Rightarrow> lock_state" where
  "submit_next w n k =
     (if n = k_sequence k then k\<lparr>k_sequence := n + 1, k_filled := (k_filled k)(w := None)\<rparr>
      else k\<lparr>k_refused := insert w (k_refused k), k_filled := (k_filled k)(w := None)\<rparr>)"

text \<open>
  One step of some worker or of the clock, for a lease of \<open>ttl\<close> seconds and jobs of at most \<open>limit\<close>.
  Time passes no further than the alarm of a job that is inside the block: the alarm raises there and
  the block is left. A killed worker leaves nothing but its lease behind.
\<close>

inductive lock_step :: "int \<Rightarrow> int \<Rightarrow> lock_state \<Rightarrow> lock_state \<Rightarrow> bool" for ttl limit where
  Started: "k_alarm k w = None
    \<Longrightarrow> lock_step ttl limit k (k\<lparr>k_alarm := (k_alarm k)(w := Some (k_now k + limit))\<rparr>)"
| Passed: "k_now k \<le> n \<Longrightarrow> \<forall>w\<in>k_inside k. \<forall>a. k_alarm k w = Some a \<longrightarrow> n \<le> a
    \<Longrightarrow> lock_step ttl limit k (k\<lparr>k_now := n, k_lease := lease_at n (k_lease k)\<rparr>)"
| Acquired: "k_alarm k w = Some a \<Longrightarrow> k_now k \<le> a \<Longrightarrow> k_lease k = None \<Longrightarrow> w \<notin> k_inside k
    \<Longrightarrow> lock_step ttl limit k (k\<lparr>k_lease := Some (w, k_now k + ttl), k_inside := insert w (k_inside k)\<rparr>)"
| Filled: "w \<in> k_inside k \<Longrightarrow> lock_step ttl limit k (k\<lparr>k_filled := (k_filled k)(w := Some (k_sequence k))\<rparr>)"
| Submitted: "w \<in> k_inside k \<Longrightarrow> k_filled k w = Some n \<Longrightarrow> lock_step ttl limit k (submit_next w n k)"
| Left: "w \<in> k_inside k \<Longrightarrow> lock_step ttl limit k (leave w k\<lparr>k_lease := released w (k_lease k)\<rparr>)"
| Ended: "w \<notin> k_inside k \<Longrightarrow> lock_step ttl limit k (k\<lparr>k_alarm := (k_alarm k)(w := None)\<rparr>)"
| Killed: "lock_step ttl limit k (leave w k\<lparr>k_alarm := (k_alarm k)(w := None)\<rparr>)"

definition treasury_run :: "lock_state \<Rightarrow> bool" where
  "treasury_run k \<longleftrightarrow> (lock_step treasury_lock_timeout job_timeout)\<^sup>*\<^sup>* idle k"

section \<open>A lease that outlives its jobs excludes\<close>

text \<open>
  Whoever is inside holds the lease, which lasts at least until their alarm; a number that was read
  is still the account's next one; and nobody was ever refused.
\<close>

definition held_alone :: "int \<Rightarrow> int \<Rightarrow> lock_state \<Rightarrow> bool" where
  "held_alone ttl limit k \<longleftrightarrow>
     (\<forall>w\<in>k_inside k. \<exists>a e. k_alarm k w = Some a \<and> k_lease k = Some (w, e) \<and> k_now k \<le> a \<and> a \<le> e)
     \<and> (\<forall>w a. k_alarm k w = Some a \<longrightarrow> a \<le> k_now k + limit)
     \<and> (\<forall>w n. k_filled k w = Some n \<longrightarrow> w \<in> k_inside k \<and> n = k_sequence k)
     \<and> (\<forall>w e. k_lease k = Some (w, e) \<longrightarrow> k_now k \<le> e \<and> e \<le> k_now k + ttl)
     \<and> k_refused k = {}"

lemma held_aloneD:
  assumes "held_alone ttl limit k"
  shows "w \<in> k_inside k \<Longrightarrow> \<exists>a e. k_alarm k w = Some a \<and> k_lease k = Some (w, e) \<and> k_now k \<le> a \<and> a \<le> e"
    "k_alarm k w = Some a \<Longrightarrow> a \<le> k_now k + limit"
    "k_filled k w = Some n \<Longrightarrow> w \<in> k_inside k \<and> n = k_sequence k"
    "k_lease k = Some (w, e) \<Longrightarrow> k_now k \<le> e \<and> e \<le> k_now k + ttl"
    "k_refused k = {}"
  using assms by (auto simp: held_alone_def)

lemma only_one: "held_alone ttl limit k \<Longrightarrow> v \<in> k_inside k \<Longrightarrow> w \<in> k_inside k \<Longrightarrow> v = w"
  using held_aloneD(1) [of ttl limit k v] held_aloneD(1) [of ttl limit k w] by auto

lemma idle_alone: "0 \<le> ttl \<Longrightarrow> held_alone ttl limit idle"
  by (simp add: held_alone_def idle_def)

locale lease =
  fixes ttl limit :: int
  assumes outlives: "limit \<le> ttl" and runs: "0 \<le> limit"
begin

lemma step_alone: "lock_step ttl limit k k' \<Longrightarrow> held_alone ttl limit k \<Longrightarrow> held_alone ttl limit k'"
proof (induction rule: lock_step.induct)
  case (Started k w)
  then show ?case using runs by (auto simp: held_alone_def)
next
  case (Passed k n)
  then show ?case by (fastforce simp: held_alone_def lease_at_def split: option.splits)
next
  case (Acquired k w a)
  then show ?case using outlives runs by (fastforce simp: held_alone_def)
next
  case (Submitted w k n)
  then show ?case using only_one [OF Submitted.prems] by (auto simp: held_alone_def submit_next_def)
next
  case (Left w k)
  then show ?case using only_one [OF Left.prems] by (auto simp: held_alone_def leave_def released_def split: option.splits)
next
  case (Killed k w)
  then show ?case by (auto simp: held_alone_def leave_def)
qed (auto simp: held_alone_def)

lemma run_alone: "(lock_step ttl limit)\<^sup>*\<^sup>* idle k \<Longrightarrow> held_alone ttl limit k"
  by (induction rule: rtranclp_induct) (use outlives runs idle_alone step_alone in auto)

end

interpretation treasury: lease treasury_lock_timeout job_timeout
  by unfold_locales (simp_all add: treasury_lock_timeout_def job_timeout_def)


text \<open>A worker that was killed with a number read, and the one that gets the lease after it.\<close>

definition killed_once :: lock_state where
  "killed_once = idle\<lparr>k_now := 100, k_alarm := (\<lambda>_. None)(1 := Some 300), k_lease := Some (0, 400)\<rparr>"

lemma killed_once_run: "treasury_run killed_once"
proof -
  let ?s = "lock_step treasury_lock_timeout job_timeout" and ?n = "\<lambda>_ :: nat. None"
  note t = treasury_lock_timeout_def job_timeout_def
  let ?k1 = "idle\<lparr>k_alarm := ?n(0 := Some 300)\<rparr>"
  let ?k2 = "idle\<lparr>k_alarm := ?n(0 := Some 300, 1 := Some 300)\<rparr>"
  let ?k3 = "?k2\<lparr>k_now := 100\<rparr>"
  let ?k4 = "?k3\<lparr>k_lease := Some (0, 400), k_inside := {0}\<rparr>"
  let ?k5 = "?k4\<lparr>k_filled := ?n(0 := Some 1)\<rparr>"
  have "?s idle ?k1" using lock_step.Started [of idle 0 treasury_lock_timeout job_timeout] by (simp add: idle_def t)
  moreover have "?s ?k1 ?k2"
    using lock_step.Started [of ?k1 1 treasury_lock_timeout job_timeout] by (simp add: idle_def t)
  moreover have "?s ?k2 ?k3"
    using lock_step.Passed [of ?k2 100 treasury_lock_timeout job_timeout] by (simp add: idle_def lease_at_def)
  moreover have "?s ?k3 ?k4"
    using lock_step.Acquired [of ?k3 0 300 treasury_lock_timeout job_timeout] by (simp add: idle_def t)
  moreover have "?s ?k4 ?k5"
    using lock_step.Filled [of 0 ?k4 treasury_lock_timeout job_timeout] by (simp add: idle_def)
  moreover have "?s ?k5 killed_once"
    using lock_step.Killed [of treasury_lock_timeout job_timeout ?k5 0]
    by (simp add: idle_def killed_once_def leave_def fun_upd_twist)
  ultimately show ?thesis unfolding treasury_run_def by (meson rtranclp.rtrancl_into_rtrancl rtranclp.rtrancl_refl)
qed


end
