(* ===== verification/Pages.thy ===== *)
theory Pages
  imports Jobs
begin

text \<open>
  The account-side routes of \<open>app/routers/\<close> (\<open>auth.py\<close>, \<open>sender.py\<close>, \<open>kyc.py\<close>, \<open>beneficiaries.py\<close>,
  \<open>public.py\<close>) with \<open>app/dependencies.py\<close>, \<open>app/errors.py\<close> and \<open>app/scripts/seed_admin.py\<close>: who is signed in, where a request is
  sent, and what each form post does. A response keeps what decides the user's next step: the
  redirect target with the kind of its message, the template with its status, or an HTTP error;
  the texts and the rendering are left out.
\<close>

section \<open>Responses and sessions\<close>

datatype response =
  Redirect string "string option"
| Page string nat
| Json nat
| Http_error nat
| Crashed exn

definition get_current_user :: "db \<Rightarrow> string option \<Rightarrow> user option" where
  "get_current_user d session_id =
     (if \<not> truthy session_id then None
      else case parse_uuid (the session_id) of None \<Rightarrow> None | Some i \<Rightarrow> get_user_by_id d i)"

definition to_login :: response where
  "to_login = Redirect ''/login'' None"

definition home_of :: "user \<Rightarrow> string" where
  "home_of u = (if u_is_admin u then ''/admin'' else ''/dashboard'')"

section \<open>Signing in and out (auth.py)\<close>

definition landing :: "user option \<Rightarrow> response" where
  "landing u = (case u of Some x \<Rightarrow> Redirect (home_of x) None | None \<Rightarrow> Page ''public/landing.html'' 200)"

definition login_form :: "user option \<Rightarrow> response" where
  "login_form u = (case u of Some x \<Rightarrow> Redirect (home_of x) None | None \<Rightarrow> Page ''auth/login.html'' 200)"

text \<open>The response and the \<open>user_id\<close> the session holds afterwards.\<close>

definition login ::
  "(string \<Rightarrow> string \<Rightarrow> bool) \<Rightarrow> db \<Rightarrow> string option \<Rightarrow> string \<Rightarrow> string \<Rightarrow> response \<times> string option" where
  "login verify d session_id email password =
     (case authenticate_user verify d email password of
        None \<Rightarrow> (Page ''auth/login.html'' 401, session_id)
      | Some u \<Rightarrow> (Redirect (home_of u) None, Some (uuid_text (u_id u))))"

definition register_form :: "user option \<Rightarrow> response" where
  "register_form u =
     (if u \<noteq> None then Redirect ''/dashboard'' None else Page ''auth/register.html'' 200)"

definition logout :: "string option \<Rightarrow> response \<times> string option" where
  "logout session_id = (to_login, None)"

section \<open>KYC form (kyc.py)\<close>

definition kyc_form_page :: "user option \<Rightarrow> response" where
  "kyc_form_page u =
     (case u of None \<Rightarrow> to_login
      | Some x \<Rightarrow> if u_is_admin x then Redirect ''/admin'' None else Page ''sender/kyc_form.html'' 200)"

definition source_prefill :: "string \<Rightarrow> string \<Rightarrow> string \<times> string" where
  "source_prefill choice other =
     (if choice \<in> set sources_of_funds \<or> choice = ''Other''
      then (choice, if choice = ''Other'' then other else [])
      else ([], []))"

section \<open>Dashboard and profile (sender.py)\<close>

text \<open>\<open>min(int((used / limit) * 100), 100)\<close>; \<open>int\<close> cuts towards zero.\<close>

definition int_of_dec :: "dec \<Rightarrow> int" where
  "int_of_dec x = (if 0 \<le> x then \<lfloor>x\<rfloor> else - \<lfloor>- x\<rfloor>)"

definition pct :: "dec \<Rightarrow> dec \<Rightarrow> exn + int" where
  "pct used limit =
     (if limit \<le> 0 then Inr 0
      else and_then (arith (dec_div used limit)) (\<lambda>ratio. Inr (min (int_of_dec (dec_mul ratio 100)) 100)))"

record limit_context =
  lc_tier :: "limit_tier option"
  lc_daily_used :: dec
  lc_monthly_used :: dec
  lc_daily_remaining :: dec
  lc_monthly_remaining :: dec
  lc_daily_pct :: int
  lc_monthly_pct :: int

definition limit_context_of :: "settings \<Rightarrow> instant \<Rightarrow> db \<Rightarrow> user \<Rightarrow> exn + limit_context" where
  "limit_context_of s now d u =
     (let tier = get_limit_tier d u;
          daily_used = get_daily_usage s now d (u_id u);
          monthly_used = get_monthly_usage s now d (u_id u);
          daily = (case tier of None \<Rightarrow> 0 | Some l \<Rightarrow> l_daily_limit_zar l);
          monthly = (case tier of None \<Rightarrow> 0 | Some l \<Rightarrow> l_monthly_limit_zar l)
      in and_then (pct daily_used daily) (\<lambda>dp.
         and_then (pct monthly_used monthly) (\<lambda>mp.
         Inr \<lparr>lc_tier = tier, lc_daily_used = daily_used, lc_monthly_used = monthly_used,
              lc_daily_remaining = max (dec_sub daily daily_used) 0,
              lc_monthly_remaining = max (dec_sub monthly monthly_used) 0,
              lc_daily_pct = dp, lc_monthly_pct = mp\<rparr>)))"

definition dashboard :: "settings \<Rightarrow> instant \<Rightarrow> db \<Rightarrow> user option \<Rightarrow> response" where
  "dashboard s now d u =
     (case u of None \<Rightarrow> to_login
      | Some x \<Rightarrow>
          if u_is_admin x then Redirect ''/admin'' None
          else case limit_context_of s now d x of
                 Inl e \<Rightarrow> Crashed e
               | Inr _ \<Rightarrow> Page ''sender/dashboard.html'' 200)"

text \<open>The profile shows the limits to whoever may send, and the public address of a recipient's wallet.\<close>

definition profile_wallet :: "db \<Rightarrow> user \<Rightarrow> string option" where
  "profile_wallet d u =
     (if \<not> u_is_admin u \<and> u_can_receive u then map_option w_xrpl_address (get_wallet_for_user d (u_id u)) else None)"

definition profile_page :: "settings \<Rightarrow> instant \<Rightarrow> db \<Rightarrow> user \<Rightarrow> response" where
  "profile_page s now d u =
     (if \<not> u_is_admin u \<and> u_can_send u
      then (case limit_context_of s now d u of
              Inl e \<Rightarrow> Crashed e
            | Inr _ \<Rightarrow> Page ''account/profile.html'' 200)
      else Page ''account/profile.html'' 200)"

definition profile :: "settings \<Rightarrow> instant \<Rightarrow> db \<Rightarrow> user option \<Rightarrow> response" where
  "profile s now d u = (case u of None \<Rightarrow> to_login | Some x \<Rightarrow> profile_page s now d x)"

text \<open>
  The details form: whether the name can be edited, and the name, address and number it is filled with,
  which after an error are the ones typed.
\<close>

definition edit_context :: "db \<Rightarrow> user \<Rightarrow> (string \<times> string \<times> string) option \<Rightarrow> bool \<times> string \<times> string \<times> string" where
  "edit_context d u details =
     (name_is_editable d u, (case details of Some f \<Rightarrow> f | None \<Rightarrow> (u_full_name u, u_email u, u_mobile u)))"

definition edit_page :: "nat \<Rightarrow> response" where
  "edit_page status = Page ''account/profile_edit.html'' status"

definition password_page :: "nat \<Rightarrow> response" where
  "password_page status = Page ''account/profile_password.html'' status"

definition profile_edit :: "user option \<Rightarrow> response" where
  "profile_edit u = (if u = None then to_login else edit_page 200)"

definition profile_password_form :: "user option \<Rightarrow> response" where
  "profile_password_form u = (if u = None then to_login else password_page 200)"

text \<open>What the details form is filled with after an error.\<close>

definition refilled :: "user \<Rightarrow> string \<Rightarrow> string \<Rightarrow> string option \<Rightarrow> string \<times> string \<times> string" where
  "refilled u email mobile full_name =
     ((case full_name of None \<Rightarrow> u_full_name u | Some n \<Rightarrow> n), email, mobile)"

text \<open>What the dashboard shows a recipient: the wallet and what they may still cash out.\<close>

definition dashboard_wallet :: "db \<Rightarrow> user \<Rightarrow> (wallet \<times> dec) option" where
  "dashboard_wallet d u =
     (case (if u_can_receive u then get_wallet_for_user d (u_id u) else None) of
        None \<Rightarrow> None
      | Some w \<Rightarrow> Some (w, available_balance d (u_id u)))"

definition profile_update ::
  "instant \<Rightarrow> db \<Rightarrow> db \<Rightarrow> user option \<Rightarrow> string \<Rightarrow> string \<Rightarrow> string option \<Rightarrow> response \<times> db" where
  "profile_update now seen d u email mobile full_name =
     (case u of None \<Rightarrow> (to_login, d)
      | Some x \<Rightarrow>
          (case update_profile now seen d x email mobile full_name of
             (Inl (ProfileError _), d') \<Rightarrow> (edit_page 400, d')
           | (Inl e, d') \<Rightarrow> (Crashed e, d')
           | (Inr changed, d') \<Rightarrow>
               (Redirect ''/profile'' (Some (if changed then ''success'' else ''info'')), d')))"

definition profile_password ::
  "(string \<Rightarrow> string) \<Rightarrow> (string \<Rightarrow> string \<Rightarrow> bool) \<Rightarrow> instant \<Rightarrow> db \<Rightarrow> user option \<Rightarrow> string \<Rightarrow> string \<Rightarrow> string
     \<Rightarrow> response \<times> db" where
  "profile_password hash verify now d u current new confirm =
     (case u of None \<Rightarrow> (to_login, d)
      | Some x \<Rightarrow>
          (case change_password hash verify now d x current new confirm of
             (Inl (ProfileError _), d') \<Rightarrow> (password_page 400, d')
           | (Inl e, d') \<Rightarrow> (Crashed e, d')
           | (Inr _, d') \<Rightarrow> (Redirect ''/profile'' (Some ''success''), d')))"

section \<open>Beneficiary forms (beneficiaries.py)\<close>

definition beneficiary_list_page :: "user option \<Rightarrow> response" where
  "beneficiary_list_page u =
     (case u of None \<Rightarrow> to_login
      | Some x \<Rightarrow> if u_is_admin x then Redirect ''/admin'' None else Page ''sender/beneficiaries.html'' 200)"

definition new_ben_form :: "user option \<Rightarrow> response" where
  "new_ben_form u = (if u = None then to_login else Page ''sender/beneficiary_form.html'' 200)"

text \<open>\<open>email or None\<close>: an empty field is no address.\<close>

definition form_contact :: "string \<Rightarrow> string option" where
  "form_contact s = (if s = [] then None else Some s)"

definition with_contacts :: "ben_form \<Rightarrow> string \<Rightarrow> string \<Rightarrow> ben_form" where
  "with_contacts f email mobile = f\<lparr>bf_email := form_contact email, bf_mobile := form_contact mobile\<rparr>"

definition not_found_ben :: response where
  "not_found_ben = Redirect ''/beneficiaries'' (Some ''danger'')"

definition create_ben_page ::
  "instant \<Rightarrow> uuid \<Rightarrow> db \<Rightarrow> user option \<Rightarrow> ben_form \<Rightarrow> string \<Rightarrow> string \<Rightarrow> response \<times> db" where
  "create_ben_page now new_id d u f email mobile =
     (case u of None \<Rightarrow> (to_login, d)
      | Some x \<Rightarrow>
          (case create_beneficiary now new_id d x (with_contacts f email mobile) of
             (Inl (ValueError _), d') \<Rightarrow> (Page ''sender/beneficiary_form.html'' 400, d')
           | (Inl e, d') \<Rightarrow> (Crashed e, d')
           | (Inr _, d') \<Rightarrow> (Redirect ''/beneficiaries'' (Some ''success''), d')))"

definition edit_ben_form :: "db \<Rightarrow> user option \<Rightarrow> uuid \<Rightarrow> response" where
  "edit_ben_form d u bid =
     (case u of None \<Rightarrow> to_login
      | Some x \<Rightarrow>
          (case get_beneficiary d bid (u_id x) of
             None \<Rightarrow> not_found_ben
           | Some _ \<Rightarrow> Page ''sender/beneficiary_form.html'' 200))"

definition edit_ben_page ::
  "db \<Rightarrow> user option \<Rightarrow> uuid \<Rightarrow> ben_form \<Rightarrow> string \<Rightarrow> string \<Rightarrow> response \<times> db" where
  "edit_ben_page d u bid f email mobile =
     (case u of None \<Rightarrow> (to_login, d)
      | Some x \<Rightarrow>
          (case get_beneficiary d bid (u_id x) of
             None \<Rightarrow> (not_found_ben, d)
           | Some ben \<Rightarrow>
               (case update_beneficiary d ben (with_contacts f email mobile) of
                  (Inl (ValueError _), d') \<Rightarrow> (Page ''sender/beneficiary_form.html'' 400, d')
                | (Inl e, d') \<Rightarrow> (Crashed e, d')
                | (Inr _, d') \<Rightarrow> (Redirect ''/beneficiaries'' (Some ''success''), d'))))"

definition delete_ben_page :: "db \<Rightarrow> user option \<Rightarrow> uuid \<Rightarrow> response \<times> db" where
  "delete_ben_page d u bid =
     (case u of None \<Rightarrow> (to_login, d)
      | Some x \<Rightarrow>
          (case get_beneficiary d bid (u_id x) of
             None \<Rightarrow> (Redirect ''/beneficiaries'' None, d)
           | Some ben \<Rightarrow> (Redirect ''/beneficiaries'' (Some ''info''), delete_beneficiary d ben)))"

section \<open>Error pages (errors.py)\<close>

text \<open>\<open>path.startswith(JSON_PREFIXES)\<close>, the method, and the Accept header.\<close>

definition wants_html :: "string \<Rightarrow> string \<Rightarrow> string \<Rightarrow> bool" where
  "wants_html path http_method accept \<longleftrightarrow>
     \<not> starts_with ''/quote'' path \<and> \<not> starts_with ''/status'' path
     \<and> http_method \<in> {''GET'', ''HEAD'', ''POST''} \<and> contains ''text/html'' accept"

text \<open>The home link of an HTML error page; every other response stays the framework's default.\<close>

definition error_home :: "user option \<Rightarrow> string" where
  "error_home u = (case u of None \<Rightarrow> ''/'' | Some x \<Rightarrow> home_of x)"

definition error_response :: "string \<Rightarrow> string \<Rightarrow> string \<Rightarrow> nat \<Rightarrow> response" where
  "error_response path http_method accept status =
     (if status \<notin> {403, 404} \<or> \<not> wants_html path http_method accept then Http_error status
      else Page ''errors/error.html'' status)"

section \<open>Public pages (public.py)\<close>

definition public_home :: "user option \<Rightarrow> string option" where
  "public_home u = map_option home_of u"

definition info_pages :: "(string \<times> string) list" where
  "info_pages =
     [(''/about'', ''public/about.html''), (''/contact'', ''public/contact.html''), (''/help'', ''public/help.html'')]"

text \<open>Only the three paths of the table are routed to this handler.\<close>

definition info_page :: "string \<Rightarrow> response" where
  "info_page path =
     (case map_of info_pages path of None \<Rightarrow> Http_error 404 | Some template \<Rightarrow> Page template 200)"

definition legal_pages :: "string list" where
  "legal_pages = [''data-security'', ''information-security'', ''terms'', ''privacy'']"

definition legal_page :: "string \<Rightarrow> response" where
  "legal_page slug =
     (if slug \<notin> set legal_pages then Http_error 404
      else Page (''public/legal_'' @ map (\<lambda>c. if c = CHR ''-'' then CHR ''_'' else c) slug @ ''.html'') 200)"

section \<open>The first administrator (app/scripts/seed_admin.py)\<close>

record admin_settings =
  admin_email :: string
  admin_password :: string
  admin_name :: string
  admin_mobile :: string

text \<open>\<open>None\<close> when the address is taken, otherwise the created account.\<close>

definition seed_admin ::
  "(string \<Rightarrow> string) \<Rightarrow> admin_settings \<Rightarrow> instant \<Rightarrow> uuid \<Rightarrow> db \<Rightarrow> (exn + user option) \<times> db" where
  "seed_admin hash a now new_id d =
     (let email = strip (lower (admin_email a))
      in if returning (\<lambda>u. u_email u = email) (users d) \<noteq> None then (Inr None, d)
         else
           let u = \<lparr>u_id = new_id, u_email = email, u_mobile = strip (admin_mobile a),
                 u_full_name = admin_name a, u_password_hash = hash (admin_password a),
                 u_is_admin = True, u_can_send = False, u_can_receive = False,
                 u_kyc_status = Kyc_approved, u_created_at = now, u_updated_at = now\<rparr>
           in case commit_users d (users d @ [u]) of
                (Some e, d') \<Rightarrow> (Inl e, d')
              | (None, d') \<Rightarrow> (Inr (Some u), d'))"

end
