(* ===== verification/Flows.thy ===== *)
theory Flows
  imports Pages
begin

text \<open>
  The sender's money-side routes, \<open>app/routers/transactions.py\<close>: quotes, the send flow, history
  and the payment callback. Form fields arrive as text, ids of a path as
  UUIDs the framework has checked.
\<close>

section \<open>Who may ask for a quote\<close>

definition require_approved_sender :: "user option \<Rightarrow> response + user" where
  "require_approved_sender u =
     (case u of None \<Rightarrow> Inl (Http_error 401)
      | Some x \<Rightarrow> if \<not> u_can_send x then Inl (Http_error 403)
                  else if u_kyc_status x \<noteq> Kyc_approved then Inl (Http_error 403) else Inr x)"

definition sender_redirect :: "user option \<Rightarrow> response option" where
  "sender_redirect u =
     (case u of None \<Rightarrow> Some to_login
      | Some x \<Rightarrow>
          if u_is_admin x then Some (Redirect ''/admin'' None)
          else if \<not> u_can_send x \<or> u_kyc_status x \<noteq> Kyc_approved
          then Some (Redirect ''/dashboard'' (Some ''warning'')) else None)"

text \<open>\<open>except (FXConfigError, ArithmeticError)\<close>\<close>

fun quotes_down :: "exn \<Rightarrow> bool" where
  "quotes_down FXConfigError = True"
| "quotes_down (ArithmeticError _) = True"
| "quotes_down _ = False"

record quote_response =
  qr_beneficiary_id :: uuid
  qr_beneficiary_name :: string
  qr_quote :: quote
  qr_limit :: limit_check

definition get_quote ::
  "settings \<Rightarrow> instant \<Rightarrow> db \<Rightarrow> user option \<Rightarrow> uuid \<Rightarrow> decimal \<Rightarrow> response + quote_response" where
  "get_quote s now d u bid zar_amount =
     and_then (require_approved_sender u) (\<lambda>x.
       case get_beneficiary d bid (u_id x) of
         None \<Rightarrow> Inl (Http_error 404)
       | Some ben \<Rightarrow>
           (case quote_for s d zar_amount (b_payout_currency ben) of
              Inl (AmountTooSmall _) \<Rightarrow> Inl (Http_error 400)
            | Inl e \<Rightarrow> Inl (if quotes_down e then Http_error 503 else Crashed e)
            | Inr q \<Rightarrow>
                Inr \<lparr>qr_beneficiary_id = b_id ben, qr_beneficiary_name = b_full_name ben, qr_quote = q,
                     qr_limit = check_limit s now d x (q_zar_amount q)\<rparr>))"

section \<open>Reading the send form\<close>

definition parse_decimal :: "string \<Rightarrow> decimal option" where
  "parse_decimal raw = py_decimal (strip (remove_char CHR '','' raw))"

text \<open>\<open>_parse_amount\<close>: the comparison \<open>amount > 0\<close> raises on a NaN.\<close>

definition parse_positive :: "string \<Rightarrow> exn + decimal option" where
  "parse_positive raw =
     (case parse_decimal raw of
        None \<Rightarrow> Inr None
      | Some a \<Rightarrow> and_then (arith (gt_zero a)) (\<lambda>pos. Inr (if pos then Some a else None)))"

datatype send_error =
  Bad_amount
| Choose_beneficiary
| Quote_error exn
| Limit_error "limit_reason option"
| No_account string

record send_context =
  sc_beneficiary :: beneficiary
  sc_quote :: quote
  sc_limit :: limit_check
  sc_error :: "send_error option"

text \<open>\<open>Inl\<close> is a dictionary with only an error, \<open>Inr\<close> one with a quote.\<close>

definition quote_context ::
  "settings \<Rightarrow> instant \<Rightarrow> db \<Rightarrow> user \<Rightarrow> string \<Rightarrow> string \<Rightarrow> exn + (send_error + send_context)" where
  "quote_context s now d u beneficiary_id zar_amount =
     and_then (parse_positive zar_amount) (\<lambda>amount.
       case amount of
         None \<Rightarrow> Inr (Inl Bad_amount)
       | Some a \<Rightarrow>
           (case (case parse_uuid beneficiary_id of None \<Rightarrow> None | Some i \<Rightarrow> get_beneficiary d i (u_id u)) of
              None \<Rightarrow> Inr (Inl Choose_beneficiary)
            | Some ben \<Rightarrow>
                (case quote_for s d a (b_payout_currency ben) of
                   Inl (AmountTooSmall x) \<Rightarrow> Inr (Inl (Quote_error (AmountTooSmall x)))
                 | Inl e \<Rightarrow> if quotes_down e then Inr (Inl (Quote_error e)) else Inl e
                 | Inr q \<Rightarrow>
                     (let limit = check_limit s now d u (q_zar_amount q)
                      in Inr (Inr \<lparr>sc_beneficiary = ben, sc_quote = q, sc_limit = limit,
                           sc_error = (if \<not> allowed limit then Some (Limit_error (reason limit))
                                       else if find_recipient_user_id d ben = None
                                       then Some (No_account (b_full_name ben)) else None)\<rparr>)))))"

text \<open>The price the sender agrees to; \<open>None\<close> when a figure is unreadable or out of range.\<close>

definition accepted_price :: "string \<Rightarrow> string \<Rightarrow> string \<Rightarrow> exn + accepted_quote option" where
  "accepted_price exchange_rate transaction_fee uctusd_amount =
     and_then (parse_positive exchange_rate) (\<lambda>rate.
     let fee = parse_decimal transaction_fee in
     and_then (parse_positive uctusd_amount) (\<lambda>uctusd.
       case (rate, fee) of
         (Some r, Some f) \<Rightarrow>
           and_then (arith (lt_zero f)) (\<lambda>neg.
             Inr (case uctusd of
                    Some a \<Rightarrow> if neg then None
                      else Some \<lparr>aq_exchange_rate = r, aq_transaction_fee = f, aq_uctusd_amount = a\<rparr>
                  | None \<Rightarrow> None))
       | _ \<Rightarrow> Inr None))"

text \<open>\<open>urllib.parse.quote_plus\<close> of one value.\<close>

definition upper_hex :: "nat \<Rightarrow> char" where
  "upper_hex n = ''0123456789ABCDEF'' ! n"

definition percent :: "nat \<Rightarrow> string" where
  "percent b = [CHR ''%'', upper_hex (b div 16), upper_hex (b mod 16)]"

definition url_quote_char :: "char \<Rightarrow> string" where
  "url_quote_char c =
     (if is_alpha c \<or> is_digit c \<or> c \<in> set ''_.-~'' then [c]
      else if c = CHR '' '' then ''+''
      else if code c < 128 then percent (code c)
      else percent (192 + code c div 64) @ percent (128 + code c mod 64))"

definition url_quote :: "string \<Rightarrow> string" where
  "url_quote v = concat (map url_quote_char v)"

definition back_to_send :: "string \<Rightarrow> string \<Rightarrow> string option \<Rightarrow> response" where
  "back_to_send beneficiary_id zar_amount kind =
     Redirect (''/send?beneficiary_id='' @ url_quote beneficiary_id @ ''&zar_amount='' @ url_quote zar_amount) kind"

section \<open>The send pages\<close>

definition pay_page :: response where
  "pay_page = Page ''sender/send_pay.html'' 200"

definition send_start :: "user option \<Rightarrow> response" where
  "send_start u = (case sender_redirect u of Some r \<Rightarrow> r | None \<Rightarrow> Page ''sender/send_amount.html'' 200)"

definition send_review ::
  "settings \<Rightarrow> instant \<Rightarrow> db \<Rightarrow> user option \<Rightarrow> string \<Rightarrow> string \<Rightarrow> response" where
  "send_review s now d u beneficiary_id zar_amount =
     (case sender_redirect u of
        Some r \<Rightarrow> r
      | None \<Rightarrow>
          (case quote_context s now d (the u) beneficiary_id zar_amount of
             Inl e \<Rightarrow> Crashed e
           | Inr (Inl _) \<Rightarrow> back_to_send beneficiary_id zar_amount (Some ''danger'')
           | Inr (Inr _) \<Rightarrow> Page ''sender/send_review.html'' 200))"

definition send_pay ::
  "settings \<Rightarrow> instant \<Rightarrow> db \<Rightarrow> user option \<Rightarrow> string \<Rightarrow> string \<Rightarrow> response" where
  "send_pay s now d u beneficiary_id zar_amount =
     (case sender_redirect u of
        Some r \<Rightarrow> r
      | None \<Rightarrow>
          (case quote_context s now d (the u) beneficiary_id zar_amount of
             Inl e \<Rightarrow> Crashed e
           | Inr (Inl _) \<Rightarrow> back_to_send beneficiary_id zar_amount (Some ''danger'')
           | Inr (Inr c) \<Rightarrow>
               if sc_error c \<noteq> None then back_to_send beneficiary_id zar_amount (Some ''danger'') else pay_page))"

text \<open>The send form: the amount, the recipient, the price lock and the card.\<close>

record send_form =
  sf_beneficiary_id :: string
  sf_zar_amount :: string
  sf_exchange_rate :: string
  sf_transaction_fee :: string
  sf_uctusd_amount :: string
  sf_card :: mock_card

text \<open>What a refused booking answers: the pay page again when there still is a quote.\<close>

definition refused_remittance ::
  "settings \<Rightarrow> instant \<Rightarrow> db \<Rightarrow> user \<Rightarrow> send_form \<Rightarrow> response" where
  "refused_remittance s now d u f =
     (case quote_context s now d u (sf_beneficiary_id f) (sf_zar_amount f) of
        Inl e \<Rightarrow> Crashed e
      | Inr (Inl _) \<Rightarrow> Redirect ''/send'' (Some ''danger'')
      | Inr (Inr _) \<Rightarrow> pay_page)"

definition book_remittance ::
  "settings \<Rightarrow> instant \<Rightarrow> uuid \<Rightarrow> uuid \<Rightarrow> db \<Rightarrow> user \<Rightarrow> send_form \<Rightarrow> uuid \<Rightarrow> decimal \<Rightarrow> accepted_quote
     \<Rightarrow> response \<times> db" where
  "book_remittance s now new_id new_key d u f ben_uuid amount accepted =
     (case create_remittance s now new_id new_key d u ben_uuid amount (sf_card f) accepted of
        (Inl (RemittanceError _), d') \<Rightarrow> (refused_remittance s now d' u f, d')
      | (Inl e, d') \<Rightarrow>
          (if quotes_down e then back_to_send (sf_beneficiary_id f) (sf_zar_amount f) (Some ''danger'')
           else Crashed e, d')
      | (Inr txn, d') \<Rightarrow>
          (Redirect (''/transactions/'' @ uuid_text (t_id txn))
             (Some (if t_cashin_status txn = CashIn_failed then ''danger'' else ''success'')), d'))"

definition post_remittance ::
  "settings \<Rightarrow> instant \<Rightarrow> uuid \<Rightarrow> uuid \<Rightarrow> db \<Rightarrow> user option \<Rightarrow> send_form \<Rightarrow> response \<times> db" where
  "post_remittance s now new_id new_key d u f =
     (case sender_redirect u of
        Some r \<Rightarrow> (r, d)
      | None \<Rightarrow>
          (case parse_positive (sf_zar_amount f) of
             Inl e \<Rightarrow> (Crashed e, d)
           | Inr amount \<Rightarrow>
               (case (amount, parse_uuid (sf_beneficiary_id f)) of
                  (Some a, Some bid) \<Rightarrow>
                    (case accepted_price (sf_exchange_rate f) (sf_transaction_fee f) (sf_uctusd_amount f) of
                       Inl e \<Rightarrow> (Crashed e, d)
                     | Inr None \<Rightarrow> (back_to_send (sf_beneficiary_id f) (sf_zar_amount f) (Some ''danger''), d)
                     | Inr (Some accepted) \<Rightarrow>
                         book_remittance s now new_id new_key d (the u) f bid a accepted)
                | _ \<Rightarrow> (Redirect ''/send'' (Some ''danger''), d))))"

section \<open>History\<close>

datatype history_group = In_progress | Settled | Group_failed

definition history_groups :: "(string \<times> history_group) list" where
  "history_groups = [(''in_progress'', In_progress), (''settled'', Settled), (''failed'', Group_failed)]"

definition history_group_of :: "transaction \<Rightarrow> history_group" where
  "history_group_of t =
     (if t_cashin_status t = CashIn_failed \<or> t_settlement_status t = Settle_failed then Group_failed
      else if t_settlement_status t = Settle_completed then Settled else In_progress)"

record history_page =
  hp_transactions :: "transaction list"
  hp_total :: nat
  hp_counts :: "(string \<times> nat) list"

definition transaction_history :: "db \<Rightarrow> user option \<Rightarrow> string \<Rightarrow> response + history_page" where
  "transaction_history d u status =
     (case u of None \<Rightarrow> Inl to_login
      | Some x \<Rightarrow>
          if u_is_admin x then Inl (Redirect ''/admin/cashin'' None)
          else
            let txns = list_for_sender d (u_id x) None
            in Inr \<lparr>hp_transactions =
                      (case map_of history_groups status of
                         None \<Rightarrow> txns
                       | Some g \<Rightarrow> filter (\<lambda>t. history_group_of t = g) txns),
                    hp_total = length txns,
                    hp_counts = map (\<lambda>(name, g). (name, length (filter (\<lambda>t. history_group_of t = g) txns)))
                                  history_groups\<rparr>)"

definition transaction_detail :: "db \<Rightarrow> user option \<Rightarrow> uuid \<Rightarrow> response + transaction" where
  "transaction_detail d u i =
     (case u of None \<Rightarrow> Inl to_login
      | Some x \<Rightarrow>
          (case get_transaction d i of
             None \<Rightarrow> Inl (Redirect ''/transactions'' (Some ''danger''))
           | Some t \<Rightarrow>
               if u_is_admin x \<or> u_id x = t_sender_id t \<or> t_recipient_user_id t = Some (u_id x)
               then Inr t else Inl (Redirect ''/transactions'' (Some ''danger''))))"

section \<open>The payment service's callback\<close>

text \<open>A route behind \<open>require_admin\<close>: nothing of it runs for anyone else.\<close>

definition as_admin :: "db \<Rightarrow> user option \<Rightarrow> (user \<Rightarrow> response \<times> db) \<Rightarrow> response \<times> db" where
  "as_admin d u route =
     (case require_admin u of
        To_login \<Rightarrow> (to_login, d)
      | Forbidden \<Rightarrow> (Http_error 403, d)
      | Admitted admin \<Rightarrow> route admin)"

text \<open>The body of the PATCH, with the reason of a failure.\<close>

datatype cashin_update = Mark_received | Mark_failed string

definition update_cashin ::
  "instant \<Rightarrow> (uuid \<Rightarrow> uuid \<Rightarrow> exn option) \<Rightarrow> (db \<Rightarrow> db) \<Rightarrow> db \<Rightarrow> user option \<Rightarrow> uuid \<Rightarrow> cashin_update
     \<Rightarrow> response \<times> db" where
  "update_cashin now enqueue meanwhile d u i body =
     as_admin d u (\<lambda>admin.
       case get_transaction d i of
         None \<Rightarrow> (Http_error 404, d)
       | Some txn \<Rightarrow>
           (case (case body of
                    Mark_received \<Rightarrow> mark_cashin_received now enqueue meanwhile d txn (Some admin)
                  | Mark_failed why \<Rightarrow> mark_cashin_failed now d txn (Some admin) why) of
              (Inl (RemittanceError _), d') \<Rightarrow> (Http_error 409, d')
            | (Inl e, d') \<Rightarrow> (Crashed e, d')
            | (Inr _, d') \<Rightarrow> (Json 200, d')))"

section \<open>An amount that is not a number\<close>

lemma nan_positive: "parse_positive ''NaN'' = Inl (ArithmeticError InvalidOperation)"
  by code_simp

text \<open>
  \<open>NaN\<close> typed as an amount is a server error: the decimal module parses it, and the comparison
  \<open>amount > 0\<close> of \<open>_parse_amount\<close> then raises InvalidOperation outside every handler. For any sender
  who may send, the review page, the pay page and the booking itself all answer with a crash in
  place of "Enter an amount greater than zero"; nothing is booked.
\<close>

theorem nan_amount_crashes:
  assumes "sender_redirect (Some x) = None" and "sf_zar_amount f = ''NaN''"
  shows "send_review s now d (Some x) bid ''NaN'' = Crashed (ArithmeticError InvalidOperation)
    \<and> send_pay s now d (Some x) bid ''NaN'' = Crashed (ArithmeticError InvalidOperation)
    \<and> post_remittance s now i k d (Some x) f = (Crashed (ArithmeticError InvalidOperation), d)"
  using assms nan_positive
  by (simp add: send_review_def send_pay_def quote_context_def post_remittance_def)

definition nan_form :: send_form where
  "nan_form = \<lparr>sf_beneficiary_id = ''40'', sf_zar_amount = ''NaN'', sf_exchange_rate = ''18.87'',
     sf_transaction_fee = ''40'', sf_uctusd_amount = ''50.874404'', sf_card = shop_card\<rparr>"

theorem nan_amount_crashes_witness:
  "post_remittance example_settings 0 100 101 shop_db (Some example_sender) nan_form
     = (Crashed (ArithmeticError InvalidOperation), shop_db)"
proof -
  have "sender_redirect (Some example_sender) = None" by (simp add: sender_redirect_def example_sender_def)
  moreover have "sf_zar_amount nan_form = ''NaN''" by (simp add: nan_form_def)
  ultimately show ?thesis by (rule nan_amount_crashes [THEN conjunct2, THEN conjunct2])
qed

end
