(* ===== verification/Tracking.thy ===== *)
theory Tracking
  imports Flows
begin

text \<open>
  The recipient's routes and the polled status: cash-out preview, request and pages
  (\<open>app/routers/cashout.py\<close>), the wallet page with its activity list (\<open>wallet.py\<close>) and
  \<open>GET /status\<close> (\<open>status.py\<close>).
\<close>

section \<open>Cash-out pages\<close>

definition require_recipient :: "user option \<Rightarrow> response option" where
  "require_recipient u =
     (case u of None \<Rightarrow> Some to_login
      | Some x \<Rightarrow>
          if u_is_admin x then Some (Redirect ''/admin/cashout'' None)
          else if \<not> u_can_receive x then Some (Redirect ''/dashboard'' None) else None)"

record cashout_context =
  cx_wallet :: "wallet option"
  cx_available :: dec
  cx_held :: dec

definition form_context :: "db \<Rightarrow> user \<Rightarrow> cashout_context" where
  "form_context d u =
     \<lparr>cx_wallet = get_wallet_for_user d (u_id u), cx_available = available_balance d (u_id u),
      cx_held = held_for_requests d (u_id u)\<rparr>"

definition cashout_form :: "user option \<Rightarrow> response" where
  "cashout_form u =
     (case require_recipient u of Some r \<Rightarrow> r | None \<Rightarrow> Page ''recipient/cashout_form.html'' 200)"

definition priced_preview :: "settings \<Rightarrow> db \<Rightarrow> user \<Rightarrow> string \<Rightarrow> string \<Rightarrow> exn + cashout_pricing" where
  "priced_preview s d u uctusd_amount target_currency =
     and_then (parse_amount uctusd_amount) (\<lambda>amount.
     and_then (parse_currency target_currency) (\<lambda>currency.
     let available = available_balance d (u_id u) in
     and_then (raise_if (available < amount) (CashOutError (Over_available available))) (\<lambda>_.
     price_cashout s d amount currency)))"

definition cashout_preview ::
  "settings \<Rightarrow> db \<Rightarrow> user option \<Rightarrow> string \<Rightarrow> string \<Rightarrow> response" where
  "cashout_preview s d u uctusd_amount target_currency =
     (case require_recipient u of
        Some r \<Rightarrow> r
      | None \<Rightarrow>
          (case priced_preview s d (the u) uctusd_amount target_currency of
             Inl (CashOutError _) \<Rightarrow> Page ''recipient/cashout_form.html'' 400
           | Inl e \<Rightarrow> Crashed e
           | Inr _ \<Rightarrow> Page ''recipient/cashout_review.html'' 200))"

text \<open>\<open>Decimal(text)\<close>: InvalidOperation on anything that is not a number.\<close>

definition decimal_of :: "string \<Rightarrow> exn + decimal" where
  "decimal_of raw = (case py_decimal raw of None \<Rightarrow> Inl (ArithmeticError InvalidOperation) | Some v \<Rightarrow> Inr v)"

record cashout_post =
  co_uctusd_amount :: string
  co_target_currency :: string
  co_market_rate :: string
  co_cashout_fee_usd :: string
  co_net_payout :: string

definition posted_request :: "cashout_post \<Rightarrow> exn + (dec \<times> payout_currency \<times> accepted_pricing)" where
  "posted_request f =
     and_then (parse_amount (co_uctusd_amount f)) (\<lambda>amount.
     and_then (parse_currency (co_target_currency f)) (\<lambda>currency.
     and_then (decimal_of (co_market_rate f)) (\<lambda>rate.
     and_then (decimal_of (co_cashout_fee_usd f)) (\<lambda>fee.
     and_then (decimal_of (co_net_payout f)) (\<lambda>payout.
     Inr (amount, currency, \<lparr>ap_market_rate = rate, ap_cashout_fee_usd = fee, ap_net_payout = payout\<rparr>))))))"

text \<open>\<open>except (CashOutError, ArithmeticError, ValueError)\<close>\<close>

fun bad_details :: "exn \<Rightarrow> bool" where
  "bad_details (CashOutError _) = True"
| "bad_details (ArithmeticError _) = True"
| "bad_details (ValueError _) = True"
| "bad_details (InvalidAmountError _) = True"
| "bad_details _ = False"

definition cashout_refused :: "exn \<Rightarrow> response" where
  "cashout_refused e =
     (if e = PricingChanged then Redirect ''/cashout'' (Some ''warning'')
      else if bad_details e then Redirect ''/cashout'' (Some ''danger'') else Crashed e)"

definition cashout_create ::
  "settings \<Rightarrow> instant \<Rightarrow> uuid \<Rightarrow> uuid \<Rightarrow> wallet option \<Rightarrow> db \<Rightarrow> user option \<Rightarrow> cashout_post \<Rightarrow> response \<times> db" where
  "cashout_create s now new_id new_key loaded d u f =
     (case require_recipient u of
        Some r \<Rightarrow> (r, d)
      | None \<Rightarrow>
          (case posted_request f of
             Inl e \<Rightarrow> (cashout_refused e, d)
           | Inr (amount, currency, accepted) \<Rightarrow>
               (case create_request s now new_id new_key loaded d (the u) amount currency (Some accepted) of
                  (Inl e, d') \<Rightarrow> (cashout_refused e, d')
                | (Inr req, d') \<Rightarrow>
                    (Redirect (''/cashout/'' @ uuid_text (c_id req)) (Some ''success''), d'))))"

definition cashout_history :: "db \<Rightarrow> user option \<Rightarrow> response + cashout_request list" where
  "cashout_history d u =
     (case require_recipient u of Some r \<Rightarrow> Inl r | None \<Rightarrow> Inr (list_for_recipient d (u_id (the u))))"

definition cashout_detail :: "db \<Rightarrow> user option \<Rightarrow> uuid \<Rightarrow> response + cashout_request" where
  "cashout_detail d u i =
     (case require_recipient u of
        Some r \<Rightarrow> Inl r
      | None \<Rightarrow>
          (case get_request d i (Some (u_id (the u))) of
             None \<Rightarrow> Inl (Redirect ''/cashout/history'' (Some ''danger''))
           | Some req \<Rightarrow> Inr req))"

section \<open>The wallet page\<close>

datatype activity = Money_in transaction | Money_out cashout_request

primrec activity_at :: "activity \<Rightarrow> instant" where
  "activity_at (Money_in t) = t_created_at t"
| "activity_at (Money_out c) = c_created_at c"

text \<open>\<open>sorted(xs, key=f, reverse=True)\<close> keeps the order of equal keys.\<close>

definition sorted_reverse :: "('a \<Rightarrow> 'k::linorder) \<Rightarrow> 'a list \<Rightarrow> 'a list" where
  "sorted_reverse f xs = rev (sort_key f (rev xs))"

record wallet_view =
  wv_wallet :: "wallet option"
  wv_ledger_balance :: "dec option"
  wv_activity :: "activity list"

definition wallet_page :: "(string \<Rightarrow> exn + dec) \<Rightarrow> db \<Rightarrow> user option \<Rightarrow> response + wallet_view" where
  "wallet_page ledger d u =
     (case u of None \<Rightarrow> Inl to_login
      | Some x \<Rightarrow>
          if u_is_admin x then Inl (Redirect ''/admin'' None)
          else
            let wallet = get_wallet_for_user d (u_id x)
            in Inr \<lparr>wv_wallet = wallet,
                    wv_ledger_balance =
                      (case wallet of None \<Rightarrow> None
                       | Some w \<Rightarrow> (case ledger (w_xrpl_address w) of Inl _ \<Rightarrow> None | Inr b \<Rightarrow> Some b)),
                    wv_activity =
                      sorted_reverse activity_at
                        (map Money_in (list_incoming d (u_id x))
                         @ map Money_out (list_for_recipient d (u_id x)))\<rparr>)"

section \<open>Polling\<close>

definition max_ids :: nat where
  "max_ids = 50"

text \<open>
  One of the two lists of raw ids: \<open>used\<close> is what the other list took, \<open>out\<close> what this one has
  so far. A kind's own ids are the only ones that can repeat in it.
\<close>

fun take_ids :: "nat \<Rightarrow> uuid list \<Rightarrow> string list \<Rightarrow> uuid list" where
  "take_ids used out [] = out"
| "take_ids used out (raw # raws) =
     (if max_ids \<le> used + length out then out
      else case parse_uuid raw of
             None \<Rightarrow> take_ids used out raws
           | Some v \<Rightarrow> if v \<in> set out then take_ids used out raws else take_ids used (out @ [v]) raws)"

definition parse_ids :: "string list \<Rightarrow> string list \<Rightarrow> uuid list \<times> uuid list" where
  "parse_ids t c = (let txn_ids = take_ids 0 [] t in (txn_ids, take_ids (length txn_ids) [] c))"

record txn_state =
  ts_cashin_status :: cashin_status
  ts_settlement_status :: settlement_status
  ts_final :: bool
  ts_hash :: "string option"
  ts_failure_reason :: "string option"

definition transaction_state :: "transaction \<Rightarrow> txn_state" where
  "transaction_state t =
     \<lparr>ts_cashin_status = t_cashin_status t, ts_settlement_status = t_settlement_status t,
      ts_final = (t_cashin_status t = CashIn_failed
        \<or> t_settlement_status t \<in> {Settle_completed, Settle_failed}),
      ts_hash = t_xrpl_tx_hash t, ts_failure_reason = txn_failure_reason t\<rparr>"

record out_state =
  os_status :: cashout_status
  os_awaiting_ledger :: bool
  os_final :: bool
  os_hash :: "string option"
  os_failure_reason :: "string option"

definition cashout_state :: "cashout_request \<Rightarrow> out_state" where
  "cashout_state c =
     \<lparr>os_status = c_status c, os_awaiting_ledger = awaiting_ledger_confirmation c,
      os_final = (c_status c \<in> {Out_completed, Out_failed}), os_hash = c_burn_tx_hash c,
      os_failure_reason = (if awaiting_ledger_confirmation c then None else c_failure_reason c)\<rparr>"

record status_answer =
  sa_transactions :: "(uuid \<times> txn_state) list"
  sa_cashouts :: "(uuid \<times> out_state) list"
  sa_wallet_balance :: "dec option"
  sa_all_final :: bool

definition may_see_transaction :: "user \<Rightarrow> transaction \<Rightarrow> bool" where
  "may_see_transaction u t \<longleftrightarrow> u_is_admin u \<or> t_sender_id t = u_id u \<or> t_recipient_user_id t = Some (u_id u)"

definition may_see_cashout :: "user \<Rightarrow> cashout_request \<Rightarrow> bool" where
  "may_see_cashout u c \<longleftrightarrow> u_is_admin u \<or> c_recipient_user_id c = u_id u"

definition live_status :: "db \<Rightarrow> user option \<Rightarrow> string list \<Rightarrow> string list \<Rightarrow> response + status_answer" where
  "live_status d u t c =
     (case u of None \<Rightarrow> Inl (Json 401)
      | Some x \<Rightarrow>
          (case parse_ids t c of
             (txn_ids, cashout_ids) \<Rightarrow>
               (let txns = map (\<lambda>r. (t_id r, transaction_state r))
                      (filter (\<lambda>r. t_id r \<in> set txn_ids \<and> may_see_transaction x r) (transactions d));
                    outs = map (\<lambda>r. (c_id r, cashout_state r))
                      (filter (\<lambda>r. c_id r \<in> set cashout_ids \<and> may_see_cashout x r) (cashouts d))
                in Inr \<lparr>sa_transactions = txns, sa_cashouts = outs,
                        sa_wallet_balance =
                          (if u_is_admin x then None
                           else map_option w_balance_uctusd (get_wallet_for_user d (u_id x))),
                        sa_all_final = (list_all (ts_final \<circ> snd) txns \<and> list_all (os_final \<circ> snd) outs)\<rparr>)))"

section \<open>What a poll may reveal\<close>

lemma take_ids_bound: "length (take_ids used out raws) \<le> max (length out) (max_ids - used)"
  by (induction used out raws rule: take_ids.induct) (auto split: option.splits)

lemma parse_ids_bound: "length (fst (parse_ids t c)) + length (snd (parse_ids t c)) \<le> max_ids"
  using take_ids_bound [of 0 "[]" t] take_ids_bound [of "length (take_ids 0 [] t)" "[]" c]
  by (simp add: parse_ids_def Let_def)

lemma take_ids_distinct: "distinct out \<Longrightarrow> distinct (take_ids used out raws)"
  by (induction used out raws rule: take_ids.induct) (auto split: option.splits)

lemma take_ids_sound: "v \<in> set (take_ids used out raws) \<Longrightarrow> v \<in> set out \<or> (\<exists>raw\<in>set raws. parse_uuid raw = Some v)"
  by (induction used out raws rule: take_ids.induct) (auto split: option.splits if_splits)



end
