(* ===== verification/AdminPages.thy ===== *)
theory AdminPages
  imports Tracking
begin

text \<open>
  The admin routes, \<open>app/routers/admin.py\<close>: the overview, KYC reviews, fee and limit
  configuration, the cash-in queue, the settlement monitor, the cash-out queue, the transaction
  monitor with its filters, and the AML flag. Every route runs behind \<open>require_admin\<close>; a missing
  row, a refusal and a success all end in a redirect with a message.
\<close>

section \<open>Overview\<close>

record overview =
  ov_pending_kyc :: nat
  ov_pending_cashins :: nat
  ov_cashouts :: "nat \<times> nat"
  ov_failed_settlements :: nat
  ov_settled_today :: nat
  ov_issues :: "transaction list"
  ov_issue_count :: nat

definition overview_of :: "settings \<Rightarrow> instant \<Rightarrow> db \<Rightarrow> overview" where
  "overview_of s now d =
     (let issues = list_settlement_issues now d
      in \<lparr>ov_pending_kyc = count_pending_submissions d, ov_pending_cashins = count_pending_cashins d,
          ov_cashouts = count_open d, ov_failed_settlements = count_failed_settlements d,
          ov_settled_today = count_settled_since d (day_start_utc s (display_today s now)),
          ov_issues = take 5 issues, ov_issue_count = length issues\<rparr>)"

text \<open>A read-only page behind \<open>require_admin\<close>: the refusal, or what the page lists.\<close>

definition admin_view :: "user option \<Rightarrow> 'a \<Rightarrow> response + 'a" where
  "admin_view u content =
     (case require_admin u of
        To_login \<Rightarrow> Inl to_login
      | Forbidden \<Rightarrow> Inl (Http_error 403)
      | Admitted _ \<Rightarrow> Inr content)"

definition overview_page :: "settings \<Rightarrow> instant \<Rightarrow> db \<Rightarrow> user option \<Rightarrow> response + overview" where
  "overview_page s now d u = admin_view u (overview_of s now d)"

definition kyc_queue :: "db \<Rightarrow> user option \<Rightarrow> response + kyc_submission list" where
  "kyc_queue d u = admin_view u (get_pending_submissions d)"

section \<open>KYC reviews\<close>

definition submission_not_found :: response where
  "submission_not_found = Redirect ''/admin/kyc'' (Some ''danger'')"

definition kyc_detail :: "db \<Rightarrow> user option \<Rightarrow> uuid \<Rightarrow> response" where
  "kyc_detail d u i =
     fst (as_admin d u (\<lambda>_.
       (case get_submission_by_id d i of
          None \<Rightarrow> submission_not_found
        | Some _ \<Rightarrow> Page ''admin/kyc_detail.html'' 200, d)))"

definition kyc_approve :: "instant \<Rightarrow> db \<Rightarrow> user option \<Rightarrow> uuid \<Rightarrow> response \<times> db" where
  "kyc_approve now d u i =
     as_admin d u (\<lambda>admin.
       case get_submission_by_id d i of
         None \<Rightarrow> (submission_not_found, d)
       | Some sub \<Rightarrow>
           (case approve_kyc now d sub admin of
              (Inl KYCReviewError, d') \<Rightarrow> (Redirect ''/admin/kyc'' (Some ''warning''), d')
            | (Inl e, d') \<Rightarrow> (Crashed e, d')
            | (Inr _, d') \<Rightarrow> (Redirect ''/admin/kyc'' (Some ''success''), d')))"

definition kyc_reject :: "instant \<Rightarrow> db \<Rightarrow> user option \<Rightarrow> uuid \<Rightarrow> string \<Rightarrow> response \<times> db" where
  "kyc_reject now d u i why =
     as_admin d u (\<lambda>admin.
       case get_submission_by_id d i of
         None \<Rightarrow> (submission_not_found, d)
       | Some sub \<Rightarrow>
           (case reject_kyc now d sub admin why of
              (Inl KYCReviewError, d') \<Rightarrow> (Redirect ''/admin/kyc'' (Some ''warning''), d')
            | (Inl (ValueError _), d') \<Rightarrow> (Redirect (''/admin/kyc/'' @ uuid_text i) (Some ''danger''), d')
            | (Inl e, d') \<Rightarrow> (Crashed e, d')
            | (Inr _, d') \<Rightarrow> (Redirect ''/admin/kyc'' (Some ''warning''), d')))"

section \<open>Fees and limits\<close>

definition config_redirect :: "string \<Rightarrow> response" where
  "config_redirect kind = Redirect ''/admin/config'' (Some kind)"

text \<open>The order of \<open>tier_name\<close> is the database's collation.\<close>

definition get_all_tiers :: "(string \<Rightarrow> 'k::linorder) \<Rightarrow> db \<Rightarrow> limit_tier list" where
  "get_all_tiers collation d = ordered_by (\<lambda>l. collation (l_tier_name l)) (tiers d)"

definition config_page ::
  "(string \<Rightarrow> 'k::linorder) \<Rightarrow> db \<Rightarrow> user option \<Rightarrow> response + (limit_tier list \<times> fee_config option)" where
  "config_page collation d u = admin_view u (get_all_tiers collation d, get_active_fee_config d)"

definition decimal_field :: "string \<Rightarrow> string \<Rightarrow> exn + dec" where
  "decimal_field label raw =
     (case py_decimal (strip raw) of
        Some (Fin v) \<Rightarrow> if v < 0 then Inl (ValueError (label @ '' cannot be negative.'')) else Inr v
      | _ \<Rightarrow> Inl (ValueError (label @ '' must be a number.'')))"

definition tier_values :: "string \<Rightarrow> string \<Rightarrow> exn + (dec \<times> dec)" where
  "tier_values daily_limit_zar monthly_limit_zar =
     and_then (decimal_field ''Daily limit'' daily_limit_zar) (\<lambda>daily.
     and_then (decimal_field ''Monthly limit'' monthly_limit_zar) (\<lambda>monthly.
     and_then (raise_if (10 ^ 18 \<le> max daily monthly)
       (ValueError ''Limits must be less than R1,000,000,000,000,000,000.'')) (\<lambda>_.
     and_then (raise_if (monthly < daily)
       (ValueError ''Daily limit cannot be greater than the monthly limit.'')) (\<lambda>_.
     Inr (daily, monthly)))))"

definition update_tier_limits :: "db \<Rightarrow> user option \<Rightarrow> uuid \<Rightarrow> string \<Rightarrow> string \<Rightarrow> response \<times> db" where
  "update_tier_limits d u tier_id daily_limit_zar monthly_limit_zar =
     as_admin d u (\<lambda>_.
       case tier_values daily_limit_zar monthly_limit_zar of
         Inl _ \<Rightarrow> (config_redirect ''danger'', d)
       | Inr (daily, monthly) \<Rightarrow>
           (case get_tier_by_id d tier_id of
              None \<Rightarrow> (config_redirect ''danger'', d)
            | Some tier \<Rightarrow>
                (case update_tier d tier daily monthly of
                   (Inl e, d') \<Rightarrow> (Crashed e, d')
                 | (Inr _, d') \<Rightarrow> (config_redirect ''success'', d'))))"

record fee_form =
  ff_fixed_fee_zar :: string
  ff_percentage_fee :: string
  ff_fx_margin :: string
  ff_cashout_fee_percentage :: string
  ff_cashout_fee_min_usd :: string
  ff_market_rate_zar_per_usd :: string
  ff_min_send_zar :: string

text \<open>The fields are parsed in the order of the dictionary; the first bad one is reported.\<close>

definition fee_fields :: "fee_form \<Rightarrow> exn + fee_values" where
  "fee_fields f =
     and_then (decimal_field ''Fixed fee'' (ff_fixed_fee_zar f)) (\<lambda>fixed.
     and_then (decimal_field ''Percentage fee'' (ff_percentage_fee f)) (\<lambda>pct.
     and_then (decimal_field ''FX margin'' (ff_fx_margin f)) (\<lambda>margin.
     and_then (decimal_field ''Cash-out fee'' (ff_cashout_fee_percentage f)) (\<lambda>cpct.
     and_then (decimal_field ''Minimum cash-out fee'' (ff_cashout_fee_min_usd f)) (\<lambda>cmin.
     and_then (decimal_field ''Mock market rate'' (ff_market_rate_zar_per_usd f)) (\<lambda>market.
     and_then (decimal_field ''Minimum send amount'' (ff_min_send_zar f)) (\<lambda>minimum.
     Inr \<lparr>v_fixed_fee_zar = fixed, v_percentage_fee = pct, v_fx_margin = margin,
          v_cashout_fee_percentage = cpct, v_cashout_fee_min_usd = cmin,
          v_market_rate_zar_per_usd = market, v_min_send_zar = minimum\<rparr>)))))))"

definition update_fees :: "db \<Rightarrow> user option \<Rightarrow> fee_form \<Rightarrow> response \<times> db" where
  "update_fees d u f =
     as_admin d u (\<lambda>_.
       case fee_fields f of
         Inl _ \<Rightarrow> (config_redirect ''danger'', d)
       | Inr v \<Rightarrow>
           if v_market_rate_zar_per_usd v \<le> 0 then (config_redirect ''danger'', d)
           else if v_min_send_zar v \<le> v_fixed_fee_zar v then (config_redirect ''danger'', d)
           else case get_active_fee_config d of
                  None \<Rightarrow> (config_redirect ''danger'', d)
                | Some cfg \<Rightarrow>
                    (case update_fee_config d cfg v of
                       (Inl e, d') \<Rightarrow> (Crashed e, d')
                     | (Inr _, d') \<Rightarrow> (config_redirect ''success'', d')))"

section \<open>Cash-in queue and settlement monitor\<close>

definition cashin_redirect :: "string \<Rightarrow> response" where
  "cashin_redirect kind = Redirect ''/admin/cashin'' (Some kind)"

definition cashin_queue :: "db \<Rightarrow> user option \<Rightarrow> response + transaction list" where
  "cashin_queue d u = admin_view u (list_pending_cashins d)"

definition settlement_monitor :: "instant \<Rightarrow> db \<Rightarrow> user option \<Rightarrow> response + transaction list" where
  "settlement_monitor now d u = admin_view u (list_settlement_issues now d)"

definition settlements_redirect :: "string \<Rightarrow> response" where
  "settlements_redirect kind = Redirect ''/admin/settlements'' (Some kind)"

text \<open>The message was refused and the row says so: the reloaded instance reads \<open>failed\<close>.\<close>

definition queue_refused :: "(uuid \<Rightarrow> uuid \<Rightarrow> exn option) \<Rightarrow> transaction \<Rightarrow> db \<Rightarrow> bool" where
  "queue_refused enqueue txn d \<longleftrightarrow>
     enqueue (t_idempotency_key txn) (t_id txn) \<noteq> None
     \<and> (case get_transaction d (t_id txn) of None \<Rightarrow> False | Some t \<Rightarrow> t_settlement_status t = Settle_failed)"

definition cashin_received ::
  "instant \<Rightarrow> (uuid \<Rightarrow> uuid \<Rightarrow> exn option) \<Rightarrow> (db \<Rightarrow> db) \<Rightarrow> db \<Rightarrow> user option \<Rightarrow> uuid \<Rightarrow> response \<times> db" where
  "cashin_received now enqueue meanwhile d u i =
     as_admin d u (\<lambda>admin.
       case get_transaction d i of
         None \<Rightarrow> (cashin_redirect ''danger'', d)
       | Some txn \<Rightarrow>
           (case mark_cashin_received now enqueue meanwhile d txn (Some admin) of
              (Inl (RemittanceError _), d') \<Rightarrow> (cashin_redirect ''warning'', d')
            | (Inl e, d') \<Rightarrow> (Crashed e, d')
            | (Inr _, d') \<Rightarrow>
                (cashin_redirect (if queue_refused enqueue txn d' then ''danger'' else ''success''), d')))"

definition cashin_failed :: "instant \<Rightarrow> db \<Rightarrow> user option \<Rightarrow> uuid \<Rightarrow> string \<Rightarrow> response \<times> db" where
  "cashin_failed now d u i why =
     as_admin d u (\<lambda>admin.
       case get_transaction d i of
         None \<Rightarrow> (cashin_redirect ''danger'', d)
       | Some txn \<Rightarrow>
           (case mark_cashin_failed now d txn (Some admin) why of
              (Inl (RemittanceError _), d') \<Rightarrow> (cashin_redirect ''warning'', d')
            | (Inl e, d') \<Rightarrow> (Crashed e, d')
            | (Inr _, d') \<Rightarrow> (cashin_redirect ''warning'', d')))"

definition settlement_retry ::
  "instant \<Rightarrow> (uuid \<Rightarrow> uuid \<Rightarrow> exn option) \<Rightarrow> ledger_view \<Rightarrow> (db \<Rightarrow> db) \<Rightarrow> (db \<Rightarrow> db) \<Rightarrow> db \<Rightarrow> user option \<Rightarrow> uuid
     \<Rightarrow> response \<times> db" where
  "settlement_retry now enqueue v during_lookup meanwhile d u i =
     as_admin d u (\<lambda>_.
       case get_transaction d i of
         None \<Rightarrow> (settlements_redirect ''danger'', d)
       | Some txn \<Rightarrow>
           (case (if t_settlement_status txn = Settle_queued
                  then (case requeue_stuck now enqueue meanwhile d txn of
                          (Inl e, d') \<Rightarrow> (Inl e, d') | (Inr _, d') \<Rightarrow> (Inr Retry_requeued, d'))
                  else retry_settlement now enqueue v during_lookup meanwhile d txn) of
              (Inl (RemittanceError _), d') \<Rightarrow> (settlements_redirect ''warning'', d')
            | (Inl _, d') \<Rightarrow> (settlements_redirect ''danger'', d')
            | (Inr Retry_reconciled, d') \<Rightarrow> (settlements_redirect ''success'', d')
            | (Inr Retry_requeued, d') \<Rightarrow>
                (settlements_redirect (if queue_refused enqueue txn d' then ''danger'' else ''success''), d')))"

section \<open>Cash-out queue\<close>

definition cashout_redirect :: "string \<Rightarrow> response" where
  "cashout_redirect kind = Redirect ''/admin/cashout'' (Some kind)"

definition cashout_queue :: "db \<Rightarrow> user option \<Rightarrow> response + cashout_request list" where
  "cashout_queue d u = admin_view u (list_open d)"

definition admin_cashout_detail :: "db \<Rightarrow> user option \<Rightarrow> uuid \<Rightarrow> response" where
  "admin_cashout_detail d u i =
     fst (as_admin d u (\<lambda>_.
       (case get_request d i None of
          None \<Rightarrow> cashout_redirect ''danger''
        | Some _ \<Rightarrow> Page ''admin/cashout_detail.html'' 200, d)))"

text \<open>
  \<open>get_request\<close> also loads the wallet (selectinload), and the session keeps that instance;
  \<open>between\<close> is what other sessions commit before the service locks the wallet row.
\<close>

definition loaded_wallet :: "db \<Rightarrow> cashout_request \<Rightarrow> wallet option" where
  "loaded_wallet d req = by_key w_id (c_wallet_id req) (wallets d)"

definition burn_refused :: "(uuid \<Rightarrow> uuid \<Rightarrow> exn option) \<Rightarrow> cashout_request \<Rightarrow> db \<Rightarrow> bool" where
  "burn_refused enqueue req d \<longleftrightarrow>
     enqueue (c_idempotency_key req) (c_id req) \<noteq> None
     \<and> (case get_request d (c_id req) None of None \<Rightarrow> False | Some c \<Rightarrow> c_status c = Out_failed)"

definition cashout_approve ::
  "instant \<Rightarrow> (uuid \<Rightarrow> uuid \<Rightarrow> exn option) \<Rightarrow> (db \<Rightarrow> db) \<Rightarrow> (db \<Rightarrow> db) \<Rightarrow> db \<Rightarrow> user option \<Rightarrow> uuid
     \<Rightarrow> response \<times> db" where
  "cashout_approve now enqueue between meanwhile d u i =
     as_admin d u (\<lambda>admin.
       case get_request d i None of
         None \<Rightarrow> (cashout_redirect ''danger'', d)
       | Some req \<Rightarrow>
           (case approve now enqueue meanwhile (loaded_wallet d req) (between d) req admin of
              (Inl (CashOutError _), d') \<Rightarrow> (cashout_redirect ''warning'', d')
            | (Inl e, d') \<Rightarrow> (Crashed e, d')
            | (Inr _, d') \<Rightarrow>
                (cashout_redirect (if burn_refused enqueue req d' then ''danger'' else ''success''), d')))"

definition cashout_reject :: "instant \<Rightarrow> db \<Rightarrow> user option \<Rightarrow> uuid \<Rightarrow> string \<Rightarrow> response \<times> db" where
  "cashout_reject now d u i why =
     as_admin d u (\<lambda>admin.
       case get_request d i None of
         None \<Rightarrow> (cashout_redirect ''danger'', d)
       | Some req \<Rightarrow>
           (case reject now d req admin why of
              (Inl (CashOutError _), d') \<Rightarrow> (cashout_redirect ''warning'', d')
            | (Inl e, d') \<Rightarrow> (Crashed e, d')
            | (Inr _, d') \<Rightarrow> (cashout_redirect ''warning'', d')))"

fun outcome_kind :: "reconcile_result \<Rightarrow> string" where
  "outcome_kind Rec_completed = ''success''"
| "outcome_kind Rec_failed = ''warning''"
| "outcome_kind Unresolved = ''info''"

definition cashout_reconcile ::
  "instant \<Rightarrow> ledger_view \<Rightarrow> (db \<Rightarrow> db) \<Rightarrow> db \<Rightarrow> user option \<Rightarrow> uuid \<Rightarrow> response \<times> db" where
  "cashout_reconcile now v during_lookup d u i =
     as_admin d u (\<lambda>_.
       case get_request d i None of
         None \<Rightarrow> (cashout_redirect ''danger'', d)
       | Some req \<Rightarrow>
           (case reconcile now v during_lookup (loaded_wallet d req) d req of
              (Inl (CashOutError _), d') \<Rightarrow> (cashout_redirect ''warning'', d')
            | (Inl _, d') \<Rightarrow> (cashout_redirect ''danger'', d')
            | (Inr outcome, d') \<Rightarrow> (cashout_redirect (outcome_kind outcome), d')))"

section \<open>Filters of the transaction monitor\<close>

fun cashin_value :: "cashin_status \<Rightarrow> string" where
  "cashin_value CashIn_pending = ''pending''"
| "cashin_value CashIn_received = ''received''"
| "cashin_value CashIn_failed = ''failed''"

fun settlement_value :: "settlement_status \<Rightarrow> string" where
  "settlement_value Settle_not_queued = ''not_queued''"
| "settlement_value Settle_queued = ''queued''"
| "settlement_value Settle_processing = ''processing''"
| "settlement_value Settle_completed = ''completed''"
| "settlement_value Settle_failed = ''failed''"

definition cashin_statuses :: "cashin_status list" where
  "cashin_statuses = [CashIn_pending, CashIn_received, CashIn_failed]"

definition settlement_statuses :: "settlement_status list" where
  "settlement_statuses = [Settle_not_queued, Settle_queued, Settle_processing, Settle_completed, Settle_failed]"

text \<open>\<open>enum_cls(raw)\<close>, the member with this value; an unknown value is no constraint.\<close>

definition enum_filter :: "('e \<Rightarrow> string) \<Rightarrow> 'e list \<Rightarrow> string option \<Rightarrow> 'e option" where
  "enum_filter value_of members raw =
     (if \<not> truthy raw then None else find (\<lambda>m. value_of m = the raw) members)"

text \<open>
  \<open>date.fromisoformat\<close> (Python 3.11): calendar dates and week dates, with or without dashes, in
  texts of 7, 8 or 10 characters; \<open>digits n\<close> reads \<open>n\<close> digits off the front.
\<close>

definition digits :: "nat \<Rightarrow> string \<Rightarrow> (int \<times> string) option" where
  "digits n s =
     (if n \<le> length s \<and> list_all is_digit (take n s) then Some (digits_value (take n s), drop n s) else None)"

definition dash :: "bool \<Rightarrow> string \<Rightarrow> string option" where
  "dash wanted s = (if wanted then (case s of [] \<Rightarrow> None | c # r \<Rightarrow> if c = CHR ''-'' then Some r else None) else Some s)"

text \<open>The ordinal of the Monday of week 1, the week with the year's first Thursday.\<close>

definition week1_monday :: "int \<Rightarrow> int" where
  "week1_monday y =
     (let first = days_before_year y + 1;
          weekday = (first + 6) mod 7;
          monday = first - weekday
      in if 3 < weekday then monday + 7 else monday)"

definition weeks_in_year :: "int \<Rightarrow> int" where
  "weeks_in_year y = (week1_monday (y + 1) - week1_monday y) div 7"

definition week_date :: "int \<Rightarrow> int \<Rightarrow> int \<Rightarrow> date option" where
  "week_date y w wd =
     (let n = week1_monday y + (w - 1) * 7 + wd - 1
      in if 1 \<le> y \<and> 1 \<le> w \<and> w \<le> weeks_in_year y \<and> 1 \<le> wd \<and> wd \<le> 7 \<and> 1 \<le> n \<and> n \<le> last_day
         then Some (ord_ymd n) else None)"

definition calendar_date :: "int \<Rightarrow> int \<Rightarrow> int \<Rightarrow> date option" where
  "calendar_date y m dd =
     (if 1 \<le> y \<and> 1 \<le> m \<and> m \<le> 12 \<and> 1 \<le> dd \<and> dd \<le> days_in_month (is_leap y) m then Some (y, m, dd) else None)"

definition parse_week :: "int \<Rightarrow> bool \<Rightarrow> string \<Rightarrow> date option" where
  "parse_week y sep s =
     (case digits 2 s of
        None \<Rightarrow> None
      | Some (w, []) \<Rightarrow> week_date y w 1
      | Some (w, r) \<Rightarrow>
          (case dash sep r of
             None \<Rightarrow> None
           | Some r \<Rightarrow> (case digits 1 r of None \<Rightarrow> None | Some (wd, _) \<Rightarrow> week_date y w wd)))"

definition parse_month_day :: "int \<Rightarrow> bool \<Rightarrow> string \<Rightarrow> date option" where
  "parse_month_day y sep s =
     (case digits 2 s of
        None \<Rightarrow> None
      | Some (m, r) \<Rightarrow>
          (case dash sep r of
             None \<Rightarrow> None
           | Some r \<Rightarrow> (case digits 2 r of Some (dd, []) \<Rightarrow> calendar_date y m dd | _ \<Rightarrow> None)))"

definition fromisoformat :: "string \<Rightarrow> date option" where
  "fromisoformat s =
     (if length s \<notin> {7, 8, 10} then None
      else case digits 4 s of
             None \<Rightarrow> None
           | Some (y, r) \<Rightarrow>
               (let sep = (hd r = CHR ''-''); r = (if sep then tl r else r)
                in if r \<noteq> [] \<and> hd r = CHR ''W'' then parse_week y sep (tl r) else parse_month_day y sep r))"

definition date_filter :: "string option \<Rightarrow> date option" where
  "date_filter raw = (if \<not> truthy raw then None else fromisoformat (strip (the raw)))"

definition aml_filter :: "string option \<Rightarrow> bool option" where
  "aml_filter raw =
     map_of [(''1'', True), (''flagged'', True), (''0'', False), (''clear'', False)]
       (lower (strip (or_else raw [])))"

record monitor_query =
  mq_cashin :: "string option"
  mq_settlement :: "string option"
  mq_date_from :: "string option"
  mq_date_to :: "string option"
  mq_q :: "string option"
  mq_aml :: "string option"

definition filters_of :: "monitor_query \<Rightarrow> monitor_filter" where
  "filters_of r =
     \<lparr>m_cashin = enum_filter cashin_value cashin_statuses (mq_cashin r),
      m_settlement = enum_filter settlement_value settlement_statuses (mq_settlement r),
      m_date_from = date_filter (mq_date_from r), m_date_to = date_filter (mq_date_to r),
      m_user_query = (let term = strip (or_else (mq_q r) []) in if term = [] then None else Some term),
      m_aml = aml_filter (mq_aml r)\<rparr>"

text \<open>The rows shown and whether the page says it is cut off.\<close>

definition transaction_monitor ::
  "settings \<Rightarrow> db \<Rightarrow> user option \<Rightarrow> monitor_query \<Rightarrow> response + (transaction list \<times> bool)" where
  "transaction_monitor s d u r =
     (case require_admin u of
        To_login \<Rightarrow> Inl to_login
      | Forbidden \<Rightarrow> Inl (Http_error 403)
      | Admitted _ \<Rightarrow>
          (case list_transactions s d (filters_of r) monitor_limit of
             Inl e \<Rightarrow> Inl (Crashed e)
           | Inr rows \<Rightarrow> Inr (rows, monitor_limit \<le> length rows)))"

text \<open>Whether the detail page offers to re-queue.\<close>

definition offers_recovery :: "instant \<Rightarrow> transaction \<Rightarrow> bool" where
  "offers_recovery now t \<longleftrightarrow>
     t_settlement_status t \<in> {Settle_queued, Settle_processing} \<and> settle_stuck_after \<le> now - t_updated_at t"

definition admin_transaction_detail ::
  "instant \<Rightarrow> db \<Rightarrow> user option \<Rightarrow> uuid \<Rightarrow> response + (transaction \<times> bool)" where
  "admin_transaction_detail now d u i =
     (case require_admin u of
        To_login \<Rightarrow> Inl to_login
      | Forbidden \<Rightarrow> Inl (Http_error 403)
      | Admitted _ \<Rightarrow>
          (case get_transaction d i of
             None \<Rightarrow> Inl (Redirect ''/admin/transactions'' (Some ''danger''))
           | Some txn \<Rightarrow> Inr (txn, offers_recovery now txn)))"

definition aml_on :: "string \<Rightarrow> bool" where
  "aml_on flagged \<longleftrightarrow> lower (strip flagged) \<in> {''1'', ''true'', ''yes'', ''on''}"

definition transaction_set_aml :: "instant \<Rightarrow> db \<Rightarrow> user option \<Rightarrow> uuid \<Rightarrow> string \<Rightarrow> response \<times> db" where
  "transaction_set_aml now d u i flagged =
     as_admin d u (\<lambda>_.
       case get_transaction d i of
         None \<Rightarrow> (Redirect ''/admin/transactions'' (Some ''danger''), d)
       | Some txn \<Rightarrow>
           (Redirect (''/admin/transactions/'' @ uuid_text i)
              (Some (if aml_on flagged then ''warning'' else ''success'')),
            set_aml_flag now d txn (aml_on flagged)))"

section \<open>Who may act\<close>



section \<open>The days of the monitor\<close>

text \<open>The admin's filter in the admin's own terms: days of the display zone, both ends included.\<close>

definition on_local_days :: "settings \<Rightarrow> monitor_filter \<Rightarrow> transaction \<Rightarrow> bool" where
  "on_local_days s f t \<longleftrightarrow>
     (let day = ymd_ord (local_date (display_utc_offset s) (t_created_at t))
      in (case m_date_from f of None \<Rightarrow> True | Some a \<Rightarrow> ymd_ord a \<le> day)
         \<and> (case m_date_to f of None \<Rightarrow> True | Some b \<Rightarrow> day \<le> ymd_ord b))"

lemma local_day: "ymd_ord (local_date z t) = (t + z) div day_length + 1"
  using ord_ymd_day by (simp add: local_date_def)

lemma mult_le_div:
  assumes "0 < (n :: int)"
  shows "a * n \<le> x \<longleftrightarrow> a \<le> x div n"
proof
  assume "a * n \<le> x"
  then show "a \<le> x div n" using zdiv_mono1 [of "a * n" x n] assms by simp
next
  assume "a \<le> x div n"
  then have "a * n \<le> x div n * n" using assms by simp
  also have "\<dots> \<le> x" using assms by (simp add: minus_mod_eq_div_mult [symmetric])
  finally show "a * n \<le> x" .
qed

lemma midnight_le: "local_midnight z day \<le> t \<longleftrightarrow> ymd_ord day \<le> ymd_ord (local_date z t)"
proof -
  have "local_midnight z day \<le> t \<longleftrightarrow> (ymd_ord day - 1) * day_length \<le> t + z"
    unfolding local_midnight_def by linarith
  also have "\<dots> \<longleftrightarrow> ymd_ord day - 1 \<le> (t + z) div day_length" by (rule mult_le_div) simp
  also have "\<dots> \<longleftrightarrow> ymd_ord day \<le> ymd_ord (local_date z t)" unfolding local_day by linarith
  finally show ?thesis .
qed

text \<open>
  The monitor filters by the days the admin reads (FR-ADM-04): the rows it lists are exactly the
  newest of those whose creation time, shown in the display zone, falls on a day from the first to
  the last day of the filter, both included, and which pass the other filters; the comparison with
  UTC instants in the query loses or adds nothing at either end.
\<close>

theorem monitor_days_inclusive:
  assumes "list_transactions s d f n = Inr rows"
  shows "rows = take n (newest_first t_created_at
    (filter (\<lambda>t. on_local_days s f t \<and> monitor_matches d f None None t) (transactions d)))"
proof -
  let ?z = "display_utc_offset s"
  from assms obtain lo hi where lo: "optional_bound (day_bounds s) (m_date_from f) = Inr lo"
    and hi: "optional_bound (after_day s) (m_date_to f) = Inr hi"
    and rows: "rows = take n (newest_first t_created_at (filter (monitor_matches d f lo hi) (transactions d)))"
    by (auto simp: list_transactions_def)
  have l: "(case lo of None \<Rightarrow> True | Some x \<Rightarrow> x \<le> t_created_at t)
    \<longleftrightarrow> (case m_date_from f of None \<Rightarrow> True | Some a \<Rightarrow> ymd_ord a \<le> ymd_ord (local_date ?z (t_created_at t)))" for t
    using lo by (cases "m_date_from f")
      (auto simp: optional_bound_def day_bounds_def day_start_utc_def midnight_le Let_def split: if_splits)
  have h: "(case hi of None \<Rightarrow> True | Some x \<Rightarrow> t_created_at t < x)
    \<longleftrightarrow> (case m_date_to f of None \<Rightarrow> True | Some b \<Rightarrow> ymd_ord (local_date ?z (t_created_at t)) \<le> ymd_ord b)" for t
  proof (cases "m_date_to f")
    case (Some b)
    with hi have "hi = Some (local_midnight ?z (date_plus_days b 1))"
      by (auto simp: optional_bound_def after_day_def day_bounds_def day_start_utc_def Let_def split: if_splits)
    moreover have "ymd_ord (date_plus_days b 1) = ymd_ord b + 1" using ord_ymd_day by (simp add: date_plus_days_def)
    ultimately show ?thesis using Some midnight_le [of ?z "date_plus_days b 1" "t_created_at t"] by auto
  qed (use hi in \<open>simp add: optional_bound_def\<close>)
  have "monitor_matches d f lo hi = (\<lambda>t. on_local_days s f t \<and> monitor_matches d f None None t)"
    unfolding monitor_matches_def l h on_local_days_def Let_def by (rule ext) auto
  then show ?thesis by (simp only: rows)
qed

text \<open>A filter for the second day of the calendar, in the example database.\<close>

definition day_filter :: monitor_filter where
  "day_filter = \<lparr>m_cashin = None, m_settlement = None, m_date_from = Some (1, 1, 2), m_date_to = Some (1, 1, 2),
     m_user_query = None, m_aml = None\<rparr>"

theorem monitor_days_inclusive_witness:
  "\<exists>rows. list_transactions example_settings settle_db day_filter 5 = Inr rows
     \<and> rows = take 5 (newest_first t_created_at
         (filter (\<lambda>t. on_local_days example_settings day_filter t \<and> monitor_matches settle_db day_filter None None t)
            (transactions settle_db)))"
proof -
  have "optional_bound (day_bounds example_settings) (Some (1, 1, 2)) = Inr (Some (hours 22))"
    "optional_bound (after_day example_settings) (Some (1, 1, 2)) = Inr (Some (hours 46))"
    by (code_simp, code_simp)
  then obtain rows where "list_transactions example_settings settle_db day_filter 5 = Inr rows"
    by (simp add: list_transactions_def day_filter_def)
  from monitor_days_inclusive [OF this] this show ?thesis by blast
qed

section \<open>The fee guards\<close>

text \<open>The form a careless admin may send.\<close>

definition close_fees :: fee_form where
  "close_fees = \<lparr>ff_fixed_fee_zar = ''10.001'', ff_percentage_fee = ''0.015'', ff_fx_margin = ''0.02'',
     ff_cashout_fee_percentage = ''0.01'', ff_cashout_fee_min_usd = ''1'',
     ff_market_rate_zar_per_usd = ''0.0000001'', ff_min_send_zar = ''10.002''\<rparr>"

definition close_saved :: fee_config where
  "close_saved = \<lparr>f_id = 1, f_fixed_fee_zar = 10, f_percentage_fee = 0.015, f_fx_margin = 0.02,
     f_cashout_fee_percentage = 0.01, f_cashout_fee_min_usd = 1, f_min_send_zar = 10,
     f_market_rate_zar_per_usd = 0, f_is_active = True, f_created_at = 0\<rparr>"

lemma close_fields:
  "fee_fields close_fees = Inr \<lparr>v_fixed_fee_zar = 10001 / 1000, v_percentage_fee = 0.015, v_fx_margin = 0.02,
     v_cashout_fee_percentage = 0.01, v_cashout_fee_min_usd = 1, v_market_rate_zar_per_usd = 1 / 10000000,
     v_min_send_zar = 10002 / 1000\<rparr>"
  by code_simp

lemma close_stored:
  "stored_fees \<lparr>v_fixed_fee_zar = 10001 / 1000, v_percentage_fee = 0.015, v_fx_margin = 0.02,
     v_cashout_fee_percentage = 0.01, v_cashout_fee_min_usd = 1, v_market_rate_zar_per_usd = 1 / 10000000,
     v_min_send_zar = 10002 / 1000\<rparr> example_fees = Some close_saved"
  by code_simp

text \<open>
  The guards of the fee form look at the typed figures, the columns store rounded ones: a form
  with a minimum send just above the fixed fee and a tiny positive rate passes both guards and is
  saved, but the saved row has a minimum equal to the fixed fee and a market rate of zero, the two
  states the guards exist to refuse, and every quote then fails with a division by zero.
\<close>

theorem fee_guards_before_rounding:
  "\<exists>d' c. update_fees limits_example (Some platform_admin) close_fees = (config_redirect ''success'', d')
     \<and> get_active_fee_config d' = Some c \<and> f_min_send_zar c = f_fixed_fee_zar c \<and> f_market_rate_zar_per_usd c = 0
     \<and> quote_for example_settings d' (Fin 1000) ZAR = Inl (ArithmeticError DivisionByZero)"
proof -
  let ?d = "limits_example\<lparr>fee_configs := [close_saved]\<rparr>"
  have "u_is_admin platform_admin" by (simp add: platform_admin_def)
  moreover have "update_where (\<lambda>r. f_id r = f_id example_fees) (\<lambda>_. close_saved) (fee_configs limits_example) = [close_saved]"
    by (simp add: limits_example_def update_where_def)
  ultimately have u: "update_fees limits_example (Some platform_admin) close_fees = (config_redirect ''success'', ?d)"
    using example_fees_active close_stored
    by (simp add: update_fees_def as_admin_def require_admin_def close_fields update_fee_config_def
        get_active_fee_config_def limits_example_def)
  have c: "get_active_fee_config ?d = Some close_saved"
    by (simp add: get_active_fee_config_def close_saved_def newest_first_def first_row_def)
  have "quote_for example_settings ?d (Fin 1000) ZAR = Inl (ArithmeticError DivisionByZero)"
    by code_simp
  with u c show ?thesis by (intro exI [of _ ?d] exI [of _ close_saved]) (simp add: close_saved_def)
qed

end
