(* ===== verification/LoadTest.thy ===== *)
theory LoadTest
  imports CashIn
begin

text \<open>
  The load-test programs of \<open>perf/\<close> that touch the database: the synthetic accounts of
  \<open>seed_data.py\<close> and their removal, the worker of \<open>perf_worker.py\<close> whose two ledger calls are simulated,
  the backlog of \<open>backlog.py\<close>, the counts of \<open>sampler.py\<close>, and how \<open>locustfile.py\<close> hands out accounts.
  The generator of fake names is an argument.
\<close>

section \<open>SQL patterns\<close>

text \<open>\<open>LIKE\<close>: \<open>%\<close> matches any run of characters, \<open>_\<close> any one.\<close>

fun sql_like :: "string \<Rightarrow> string \<Rightarrow> bool" where
  "sql_like [] s = (s = [])"
| "sql_like (p # ps) s = (case s of
     [] \<Rightarrow> p = CHR ''%'' \<and> sql_like ps []
   | c # t \<Rightarrow> if p = CHR ''%'' then sql_like ps (c # t) \<or> sql_like (p # ps) t
       else (p = CHR ''_'' \<or> p = c) \<and> sql_like ps t)"

definition seed_pattern :: string where
  "seed_pattern = ''perf.%@loadtest.local''"

definition is_seeded :: "user \<Rightarrow> bool" where
  "is_seeded u \<longleftrightarrow> sql_like seed_pattern (u_email u)"

lemma like_literal: "c \<noteq> CHR ''%'' \<Longrightarrow> c \<noteq> CHR ''_'' \<Longrightarrow> sql_like (c # ps) (c # s) = sql_like ps s"
  by simp

lemma like_run: "sql_like ps s \<Longrightarrow> sql_like (CHR ''%'' # ps) (m @ s)"
proof (induction m)
  case Nil
  then show ?case by (cases s) simp_all
qed simp

lemma seeded_email: "sql_like seed_pattern (''perf.'' @ m @ ''@loadtest.local'')"
proof -
  have "sql_like (''perf.'' @ ps) (''perf.'' @ s) = sql_like ps s" for ps s by simp
  moreover have "seed_pattern = ''perf.'' @ CHR ''%'' # ''@loadtest.local''" by (simp add: seed_pattern_def)
  moreover have "sql_like ''@loadtest.local'' ''@loadtest.local''" by simp
  ultimately show ?thesis using like_run by metis
qed

section \<open>Synthetic accounts\<close>

definition seed_mobile :: "int \<Rightarrow> string" where
  "seed_mobile n = (let ds = digits_of_int n in ''+2765'' @ replicate (7 - length ds) CHR ''0'' @ ds)"

definition seed_email :: "string \<Rightarrow> nat \<Rightarrow> string" where
  "seed_email role i = ''perf.'' @ role @ digits_of_int (int i) @ ''@loadtest.local''"

text \<open>What Faker made up for each pair.\<close>

record faker =
  fk_sender_name :: "nat \<Rightarrow> string"
  fk_recipient_name :: "nat \<Rightarrow> string"
  fk_id_number :: "nat \<Rightarrow> string"
  fk_address :: "nat \<Rightarrow> string"
  fk_country :: "nat \<Rightarrow> string"
  fk_currency :: "nat \<Rightarrow> payout_currency"
  fk_relation :: "nat \<Rightarrow> string"

text \<open>The generated keys, four for each pair.\<close>

definition seed_sender :: "string \<Rightarrow> instant \<Rightarrow> (nat \<Rightarrow> uuid) \<Rightarrow> faker \<Rightarrow> nat \<Rightarrow> user" where
  "seed_sender hashed now ids fk i = \<lparr>u_id = ids (4 * i), u_email = seed_email ''sender'' i,
     u_mobile = seed_mobile (int i * 2), u_full_name = fk_sender_name fk i, u_password_hash = hashed, u_is_admin = False,
     u_can_send = True, u_can_receive = False, u_kyc_status = Kyc_approved, u_created_at = now, u_updated_at = now\<rparr>"

definition seed_recipient :: "string \<Rightarrow> instant \<Rightarrow> (nat \<Rightarrow> uuid) \<Rightarrow> faker \<Rightarrow> nat \<Rightarrow> user" where
  "seed_recipient hashed now ids fk i = \<lparr>u_id = ids (4 * i + 1), u_email = seed_email ''recipient'' i,
     u_mobile = seed_mobile (int i * 2 + 1), u_full_name = fk_recipient_name fk i, u_password_hash = hashed, u_is_admin = False,
     u_can_send = False, u_can_receive = False, u_kyc_status = Kyc_not_submitted, u_created_at = now, u_updated_at = now\<rparr>"

definition seed_submission :: "instant \<Rightarrow> (nat \<Rightarrow> uuid) \<Rightarrow> faker \<Rightarrow> nat \<Rightarrow> kyc_submission" where
  "seed_submission now ids fk i = \<lparr>k_id = ids (4 * i + 2), k_user_id = ids (4 * i), k_full_name = fk_sender_name fk i,
     k_date_of_birth = (1990, 1, 1), k_nationality = ''South African'', k_id_number = fk_id_number fk i,
     k_residential_address = concat (map (\<lambda>c. if c = CHR 0x0A then '', '' else [c]) (fk_address fk i)),
     k_mobile = seed_mobile (int i * 2), k_email = seed_email ''sender'' i, k_source_of_funds = ''Salary'',
     k_status = Sub_approved, k_rejection_reason = None, k_reviewed_by = None, k_reviewed_at = Some now,
     k_submitted_at = now\<rparr>"

definition seed_beneficiary :: "instant \<Rightarrow> (nat \<Rightarrow> uuid) \<Rightarrow> faker \<Rightarrow> nat \<Rightarrow> beneficiary" where
  "seed_beneficiary now ids fk i = \<lparr>b_id = ids (4 * i + 3), b_sender_id = ids (4 * i),
     b_recipient_user_id = Some (ids (4 * i + 1)), b_full_name = fk_recipient_name fk i,
     b_email = Some (seed_email ''recipient'' i), b_mobile = Some (seed_mobile (int i * 2 + 1)),
     b_country = fk_country fk i, b_payout_currency = fk_currency fk i, b_relation_type = fk_relation fk i,
     b_is_active = True, b_created_at = now\<rparr>"

text \<open>\<open>None\<close> when there are seeded accounts already, else the number of pairs; all rows in one commit.\<close>

definition seed :: "string \<Rightarrow> instant \<Rightarrow> (nat \<Rightarrow> uuid) \<Rightarrow> faker \<Rightarrow> nat \<Rightarrow> db \<Rightarrow> (exn + nat option) \<times> db" where
  "seed hashed now ids fk pairs d =
     (if filter is_seeded (users d) \<noteq> [] then (Inr None, d)
      else case commit_users d (users d @ map (seed_sender hashed now ids fk) [0..<pairs]
               @ map (seed_recipient hashed now ids fk) [0..<pairs]) of
             (Some e, d) \<Rightarrow> (Inl e, d)
           | (None, d) \<Rightarrow> (Inr (Some pairs),
               d\<lparr>submissions := submissions d @ map (seed_submission now ids fk) [0..<pairs],
                 beneficiaries := beneficiaries d @ map (seed_beneficiary now ids fk) [0..<pairs]\<rparr>))"

section \<open>Removing them\<close>

definition opt_in :: "uuid option \<Rightarrow> uuid set \<Rightarrow> bool" where
  "opt_in x s \<longleftrightarrow> (case x of None \<Rightarrow> True | Some i \<Rightarrow> i \<in> s)"

text \<open>The foreign keys of the schema, as PostgreSQL keeps them.\<close>

definition references_ok :: "db \<Rightarrow> bool" where
  "references_ok d \<longleftrightarrow>
     (\<forall>k\<in>set (submissions d). k_user_id k \<in> u_id ` set (users d) \<and> opt_in (k_reviewed_by k) (u_id ` set (users d)))
   \<and> (\<forall>b\<in>set (beneficiaries d). b_sender_id b \<in> u_id ` set (users d) \<and> opt_in (b_recipient_user_id b) (u_id ` set (users d)))
   \<and> (\<forall>t\<in>set (transactions d). t_sender_id t \<in> u_id ` set (users d) \<and> t_beneficiary_id t \<in> b_id ` set (beneficiaries d)
        \<and> opt_in (t_recipient_user_id t) (u_id ` set (users d)) \<and> opt_in (t_cashin_reviewed_by t) (u_id ` set (users d)))
   \<and> (\<forall>w\<in>set (wallets d). w_user_id w \<in> u_id ` set (users d))
   \<and> (\<forall>c\<in>set (cashouts d). c_recipient_user_id c \<in> u_id ` set (users d) \<and> c_wallet_id c \<in> w_id ` set (wallets d)
        \<and> opt_in (c_approved_by c) (u_id ` set (users d)))"

definition without_users :: "uuid set \<Rightarrow> db \<Rightarrow> db" where
  "without_users ids d = d\<lparr>cashouts := filter (\<lambda>c. c_recipient_user_id c \<notin> ids) (cashouts d),
     transactions := filter (\<lambda>t. t_sender_id t \<notin> ids \<and> \<not> (case t_recipient_user_id t of None \<Rightarrow> False | Some r \<Rightarrow> r \<in> ids))
       (transactions d),
     wallets := filter (\<lambda>w. w_user_id w \<notin> ids) (wallets d),
     beneficiaries := filter (\<lambda>b. b_sender_id b \<notin> ids) (beneficiaries d),
     submissions := filter (\<lambda>k. k_user_id k \<notin> ids) (submissions d),
     users := filter (\<lambda>u. u_id u \<notin> ids) (users d)\<rparr>"

text \<open>
  The deletes run in one transaction, children first; one that would leave a row pointing at a
  deleted one raises and the transaction is rolled back.
\<close>

definition purge :: "db \<Rightarrow> (exn + nat) \<times> db" where
  "purge d =
     (let ids = map u_id (filter is_seeded (users d))
      in if ids = [] then (Inr 0, d)
         else if references_ok (without_users (set ids) d) then (Inr (length ids), without_users (set ids) d)
         else (Inl (Raised ''IntegrityError'' []), d))"

text \<open>The command line: \<open>--purge\<close> anywhere, or the first argument that is a number of pairs.\<close>

definition seed_main :: "string \<Rightarrow> instant \<Rightarrow> (nat \<Rightarrow> uuid) \<Rightarrow> faker \<Rightarrow> string list \<Rightarrow> db \<Rightarrow> (exn + unit) \<times> db" where
  "seed_main hashed now ids fk argv d =
     (if ''--purge'' \<in> set argv then (case purge d of (Inl e, d) \<Rightarrow> (Inl e, d) | (Inr _, d) \<Rightarrow> (Inr (), d))
      else case seed hashed now ids fk (case find isdigit (tl argv) of None \<Rightarrow> 200 | Some a \<Rightarrow> nat (digits_value a)) d of
             (Inl e, d) \<Rightarrow> (Inl e, d) | (Inr _, d) \<Rightarrow> (Inr (), d))"

section \<open>Purging undoes seeding\<close>

lemma seed_is_seeded: "is_seeded (seed_sender hashed now ids fk i)" "is_seeded (seed_recipient hashed now ids fk i)"
proof -
  have "sql_like seed_pattern (seed_email role i)" for role
    using seeded_email [of "role @ digits_of_int (int i)"] by (simp only: seed_email_def append_assoc)
  then show "is_seeded (seed_sender hashed now ids fk i)" "is_seeded (seed_recipient hashed now ids fk i)"
    by (simp_all add: is_seeded_def seed_sender_def seed_recipient_def)
qed

text \<open>Nothing refers to a user who is not there, so removing the rows of strangers changes nothing.\<close>

lemma references_strangers:
  assumes "references_ok d" and "\<forall>u\<in>set (users d). u_id u \<notin> ids"
  shows "without_users ids d = d"
proof -
  have out: "i \<in> u_id ` set (users d) \<Longrightarrow> i \<notin> ids" for i using assms(2) by auto
  have "filter (\<lambda>c. c_recipient_user_id c \<notin> ids) (cashouts d) = cashouts d"
    using assms(1) out by (intro filter_True) (auto simp: references_ok_def)
  moreover have "filter (\<lambda>w. w_user_id w \<notin> ids) (wallets d) = wallets d"
    using assms(1) out by (intro filter_True) (auto simp: references_ok_def)
  moreover have "filter (\<lambda>b. b_sender_id b \<notin> ids) (beneficiaries d) = beneficiaries d"
    using assms(1) out by (intro filter_True) (auto simp: references_ok_def)
  moreover have "filter (\<lambda>k. k_user_id k \<notin> ids) (submissions d) = submissions d"
    using assms(1) out by (intro filter_True) (auto simp: references_ok_def)
  moreover have "filter (\<lambda>u. u_id u \<notin> ids) (users d) = users d"
    using assms(2) by (intro filter_True) auto
  moreover have "filter (\<lambda>t. t_sender_id t \<notin> ids \<and> \<not> (case t_recipient_user_id t of None \<Rightarrow> False | Some r \<Rightarrow> r \<in> ids))
      (transactions d) = transactions d"
    using assms(1) out by (intro filter_True) (fastforce simp: references_ok_def opt_in_def split: option.splits)
  ultimately show ?thesis by (simp add: without_users_def)
qed

text \<open>
  Purging undoes seeding: when the synthetic accounts were added to a database that keeps its
  foreign keys, under keys no user had, the purge succeeds, reports every one of them and leaves
  exactly the database there was before; their addresses all match the pattern it deletes by.
\<close>

theorem purge_undoes_seed:
  assumes "seed hashed now ids fk pairs d = (Inr (Some n), d')" and "references_ok d"
    and "\<forall>u\<in>set (users d). u_id u \<notin> range ids"
  shows "purge d' = (Inr (2 * n), d)"
proof -
  let ?ss = "map (seed_sender hashed now ids fk) [0..<pairs]" and ?rs = "map (seed_recipient hashed now ids fk) [0..<pairs]"
  from assms(1) have none: "filter is_seeded (users d) = []" and n: "n = pairs"
    and d': "d' = d\<lparr>users := users d @ ?ss @ ?rs, submissions := submissions d @ map (seed_submission now ids fk) [0..<pairs],
      beneficiaries := beneficiaries d @ map (seed_beneficiary now ids fk) [0..<pairs]\<rparr>"
    by (auto simp: seed_def commit_users_def split: if_splits)
  have "filter is_seeded (?ss @ ?rs) = ?ss @ ?rs" by (intro filter_True) (auto simp: seed_is_seeded)
  then have new: "map u_id (filter is_seeded (users d')) = map u_id (?ss @ ?rs)" using none by (simp add: d')
  let ?ids = "u_id ` set (?ss @ ?rs)"
  have sub: "?ids \<subseteq> range ids" by (auto simp: seed_sender_def seed_recipient_def)
  have old: "\<forall>u\<in>set (users d). u_id u \<notin> ?ids" using assms(3) sub by blast
  have own: "ids (4 * i) \<in> ?ids" if "i < pairs" for i
    using that by (intro image_eqI [of _ _ "seed_sender hashed now ids fk i"]) (auto simp: seed_sender_def)
  have "filter (\<lambda>u. u_id u \<notin> ?ids) (?ss @ ?rs) = []" by (intro filter_none) blast
  moreover have "filter (\<lambda>k. k_user_id k \<notin> ?ids) (map (seed_submission now ids fk) [0..<pairs]) = []"
    "filter (\<lambda>b. b_sender_id b \<notin> ?ids) (map (seed_beneficiary now ids fk) [0..<pairs]) = []"
    using own by (auto intro!: filter_none simp: seed_submission_def seed_beneficiary_def simp del: set_append map_append)
  ultimately have "without_users ?ids d' = without_users ?ids d"
    by (simp add: d' without_users_def del: map_append set_append)
  then have undone: "without_users ?ids d' = d" using references_strangers [OF assms(2) old] by simp
  show ?thesis
  proof (cases "pairs = 0")
    case True
    then have "d' = d" by (simp add: d')
    then show ?thesis using none True by (simp add: purge_def n)
  next
    case False
    have "set (map u_id (filter is_seeded (users d'))) = ?ids" unfolding new by (simp only: set_map)
    then show ?thesis using False undone assms(2) new by (simp add: purge_def Let_def n)
  qed
qed

definition plain_faker :: faker where
  "plain_faker = \<lparr>fk_sender_name = (\<lambda>_. ''Sipho''), fk_recipient_name = (\<lambda>_. ''Rudo''), fk_id_number = (\<lambda>_. ''9001015800087''),
     fk_address = (\<lambda>_. ''1 Main Rd''), fk_country = (\<lambda>_. ''Kenya''), fk_currency = (\<lambda>_. USD), fk_relation = (\<lambda>_. ''Friend'')\<rparr>"

theorem purge_undoes_seed_witness:
  "\<exists>d'. seed ''h'' 0 int plain_faker 2 empty_db = (Inr (Some 2), d') \<and> length (users d') = 4 \<and> purge d' = (Inr 4, empty_db)"
proof -
  have "fst (seed ''h'' 0 int plain_faker 2 empty_db) = Inr (Some 2) \<and> length (users (snd (seed ''h'' 0 int plain_faker 2 empty_db))) = 4"
    by code_simp
  then obtain d' where s: "seed ''h'' 0 int plain_faker 2 empty_db = (Inr (Some 2), d')" "length (users d') = 4"
    by (metis prod.collapse)
  from purge_undoes_seed [OF s(1)] s show ?thesis by (simp add: references_ok_def empty_db_def)
qed

text \<open>
  The deletes leave the recipient side of other people's beneficiaries out: once a real sender has
  linked a synthetic recipient, the purge raises and deletes nothing.
\<close>

lemma purge_blocked:
  assumes "b \<in> set (beneficiaries d)" and "b_recipient_user_id b = Some (u_id r)" and "r \<in> set (users d)" and "is_seeded r"
    and "\<forall>u\<in>set (users d). is_seeded u \<longrightarrow> u_id u \<noteq> b_sender_id b"
  shows "purge d = (Inl (Raised ''IntegrityError'' []), d)"
proof -
  let ?ids = "set (map u_id (filter is_seeded (users d)))"
  have r: "u_id r \<in> ?ids" using assms(3,4) by auto
  have "b \<in> set (beneficiaries (without_users ?ids d))" using assms(1,5) by (auto simp: without_users_def)
  moreover have "u_id r \<notin> u_id ` set (users (without_users ?ids d))" using r by (auto simp: without_users_def)
  moreover have "references_ok e \<Longrightarrow> b \<in> set (beneficiaries e) \<Longrightarrow> opt_in (b_recipient_user_id b) (u_id ` set (users e))" for e
    by (simp add: references_ok_def)
  ultimately have "\<not> references_ok (without_users ?ids d)" using assms(2) unfolding opt_in_def by force
  moreover have "map u_id (filter is_seeded (users d)) \<noteq> []" using assms(3,4) by (auto simp: filter_empty_conv)
  ultimately show ?thesis unfolding purge_def Let_def by simp
qed

section \<open>The worker with a simulated ledger\<close>

text \<open>
  \<open>fake_provision_wallet\<close>: the row of the real provisioner without faucet and TrustSet; the account
  is a made-up address, the sealed dummy seed and the key's identifier.
\<close>

definition fake_provision_wallet :: "instant \<Rightarrow> uuid \<Rightarrow> string \<times> string \<times> string \<Rightarrow> db \<Rightarrow> user \<Rightarrow> (exn + wallet) \<times> db" where
  "fake_provision_wallet now new_id acc d u =
     (case get_wallet_for_user d (u_id u) of
        None \<Rightarrow>
          (let w = (new_wallet now new_id (u_id u) acc)\<lparr>w_trust_set_complete := True\<rparr>
           in if unique_wallets (wallets d @ [w])
              then (Inr w, d\<lparr>wallets := wallets d @ [w], users := set_can_receive now u (users d)\<rparr>)
              else (Inl (Raised ''IntegrityError'' []), d))
      | Some w \<Rightarrow>
          if w_trust_set_complete w then (Inr w, d)
          else (Inr (set_trust now w), d\<lparr>wallets := update_where (\<lambda>x. w_id x = w_id w) (set_trust now) (wallets d)\<rparr>))"

text \<open>\<open>fake_send_from_treasury\<close>: both callbacks run with the made-up hash, then the payment succeeded.\<close>

definition fake_send_from_treasury ::
  "string \<Rightarrow> (string \<Rightarrow> 's callback) option \<Rightarrow> (signed_tx \<Rightarrow> 's callback) option \<Rightarrow> 's
     \<Rightarrow> (exn + xrpl_result) \<times> 's \<times> string option" where
  "fake_send_from_treasury h on_signed on_signed_tx st =
     (case run_callback on_signed h st of
        (Some e, st) \<Rightarrow> (Inl e, st, None)
      | (None, st) \<Rightarrow>
          (case run_callback on_signed_tx \<lparr>s_tx_hash = h, s_last_ledger_sequence = None, s_submitted_ledger_index = None\<rparr> st of
             (Some e, st) \<Rightarrow> (Inl e, st, None)
           | (None, st) \<Rightarrow> (Inr \<lparr>x_success = True, x_result_code = tes_success, x_tx_hash = Some h, x_message = [],
                 x_outcome = None\<rparr>, st, Some h)))"



section \<open>The backlog of the drain measurement\<close>

definition backlog_card :: mock_card where
  "backlog_card = \<lparr>card_number = ''4242 4242 4242 4242'', card_expiry = ''12/30'', card_cvv = ''123'', card_name = ''Load Test''\<rparr>"

text \<open>\<open>scalar_one()\<close>: exactly one row, or an exception.\<close>

definition scalar_one :: "'r list \<Rightarrow> exn + 'r" where
  "scalar_one rows = (case rows of [] \<Rightarrow> Inl NoResultFound | [r] \<Rightarrow> Inr r | _ \<Rightarrow> Inl (Raised ''MultipleResultsFound'' []))"

definition price_of :: "quote \<Rightarrow> accepted_quote" where
  "price_of q = \<lparr>aq_exchange_rate = Fin (q_exchange_rate q), aq_transaction_fee = Fin (q_transaction_fee q),
     aq_uctusd_amount = Fin (q_uctusd_amount q)\<rparr>"

text \<open>One send of R100 by the \<open>i\<close>-th seeded sender, confirmed by the admin.\<close>

definition book_one ::
  "settings \<Rightarrow> instant \<Rightarrow> (uuid \<Rightarrow> uuid \<Rightarrow> exn option) \<Rightarrow> uuid \<Rightarrow> uuid \<Rightarrow> user \<Rightarrow> nat \<Rightarrow> db \<Rightarrow> (exn + unit) \<times> db" where
  "book_one s now enqueue new_id new_key admin i d =
     (case and_then (scalar_one (filter (\<lambda>u. u_email u = seed_email ''sender'' i) (users d))) (\<lambda>sender.
           and_then (scalar_one (filter (\<lambda>b. b_sender_id b = u_id sender) (beneficiaries d))) (\<lambda>ben.
           and_then (quote_for s d (Fin 100) (b_payout_currency ben)) (\<lambda>q. Inr (sender, ben, q)))) of
        Inl e \<Rightarrow> (Inl e, d)
      | Inr (sender, ben, q) \<Rightarrow>
          (case create_remittance s now new_id new_key d sender (b_id ben) (Fin 100) backlog_card (price_of q) of
             (Inl e, d) \<Rightarrow> (Inl e, d)
           | (Inr txn, d) \<Rightarrow> mark_cashin_received now enqueue (\<lambda>d. d) d txn (Some admin)))"

fun book_all ::
  "settings \<Rightarrow> instant \<Rightarrow> (uuid \<Rightarrow> uuid \<Rightarrow> exn option) \<Rightarrow> (nat \<Rightarrow> uuid) \<Rightarrow> user \<Rightarrow> nat list \<Rightarrow> db \<Rightarrow> (exn + unit) \<times> db" where
  "book_all s now enqueue ids admin [] d = (Inr (), d)"
| "book_all s now enqueue ids admin (i # is) d =
     (case book_one s now enqueue (ids (2 * i)) (ids (2 * i + 1)) admin i d of
        (Inl e, d) \<Rightarrow> (Inl e, d)
      | (Inr _, d) \<Rightarrow> book_all s now enqueue ids admin is d)"

definition backlog ::
  "settings \<Rightarrow> string \<Rightarrow> instant \<Rightarrow> (uuid \<Rightarrow> uuid \<Rightarrow> exn option) \<Rightarrow> (nat \<Rightarrow> uuid) \<Rightarrow> nat \<Rightarrow> db \<Rightarrow> (exn + unit) \<times> db" where
  "backlog s admin_email now enqueue ids n d =
     (case scalar_one (filter (\<lambda>u. u_email u = strip (lower admin_email)) (users d)) of
        Inl e \<Rightarrow> (Inl e, d)
      | Inr admin \<Rightarrow> book_all s now enqueue ids admin [0..<n] d)"

section \<open>Sampling and handing out accounts\<close>

text \<open>One count for each settlement state, zero for those without rows.\<close>

definition sample_db :: "db \<Rightarrow> settlement_status \<Rightarrow> nat" where
  "sample_db d st = length (filter (\<lambda>t. t_settlement_status t = st) (transactions d))"

lemma sample_total:
  "sample_db d Settle_not_queued + sample_db d Settle_queued + sample_db d Settle_processing
     + sample_db d Settle_completed + sample_db d Settle_failed = length (transactions d)"
proof -
  have "length (filter (\<lambda>t. t_settlement_status t = Settle_not_queued) ts) + length (filter (\<lambda>t. t_settlement_status t = Settle_queued) ts)
    + length (filter (\<lambda>t. t_settlement_status t = Settle_processing) ts) + length (filter (\<lambda>t. t_settlement_status t = Settle_completed) ts)
    + length (filter (\<lambda>t. t_settlement_status t = Settle_failed) ts) = length ts" for ts
  proof (induction ts)
    case (Cons t ts)
    then show ?case by (cases "t_settlement_status t") simp_all
  qed simp
  then show ?thesis by (simp add: sample_db_def)
qed

text \<open>\<open>_claim\<close>: the index handed out and the counter after it.\<close>

definition claim_account :: "nat \<Rightarrow> nat \<Rightarrow> nat \<times> nat" where
  "claim_account pairs next_index = (next_index mod pairs, next_index + 1)"

fun claim_accounts :: "nat \<Rightarrow> nat \<Rightarrow> nat \<Rightarrow> nat list" where
  "claim_accounts pairs next_index 0 = []"
| "claim_accounts pairs next_index (Suc k) =
     (case claim_account pairs next_index of (i, n) \<Rightarrow> i # claim_accounts pairs n k)"

lemma claim_accounts_eq: "claim_accounts pairs n k = map (\<lambda>i. i mod pairs) [n..<n + k]"
proof (induction k arbitrary: n)
  case (Suc k)
  have "[n..<n + Suc k] = n # [Suc n..<n + Suc k]" by (simp add: upt_rec)
  then show ?case using Suc.IH [of "Suc n"] by (simp add: claim_account_def del: upt_Suc)
qed simp

text \<open>Users of one kind get accounts of their own as long as there are as many pairs.\<close>

lemma claims_distinct: "k \<le> pairs \<Longrightarrow> distinct (claim_accounts pairs 0 k)"
  by (simp add: claim_accounts_eq distinct_map inj_on_def)

end
