(* ===== verification/Checkout.thy ===== *)
theory Checkout
  imports AdminPages LoadTest
begin

text \<open>
  From the page to the post: the hidden fields of the pay page and of the cash-out review
  (\<open>frontend/templates/sender/send_pay.html\<close>, \<open>recipient/cashout_review.html\<close>) and what becomes of them when
  they are sent back, and the simulated users of \<open>perf/locustfile.py\<close>, who read them off the page.
\<close>

section \<open>The forms the pages carry\<close>

text \<open>The fields hold \<open>str\<close> of the decimals: two places for rands, six for rates and tokens.\<close>

definition pay_form :: "send_context \<Rightarrow> mock_card \<Rightarrow> send_form" where
  "pay_form c mc =
     (let q = sc_quote c
      in \<lparr>sf_beneficiary_id = uuid_text (b_id (sc_beneficiary c)), sf_zar_amount = fixed_text 2 (q_zar_amount q),
          sf_exchange_rate = fixed_text 6 (q_exchange_rate q), sf_transaction_fee = fixed_text 2 (q_transaction_fee q),
          sf_uctusd_amount = fixed_text 6 (q_uctusd_amount q), sf_card = mc\<rparr>)"

fun currency_value :: "payout_currency \<Rightarrow> string" where
  "currency_value USD = ''USD''"
| "currency_value ZAR = ''ZAR''"

fun payout_places :: "payout_currency \<Rightarrow> nat" where
  "payout_places USD = 6"
| "payout_places ZAR = 2"

definition review_form :: "cashout_pricing \<Rightarrow> cashout_post" where
  "review_form p =
     \<lparr>co_uctusd_amount = fixed_text 6 (cp_uctusd_amount p), co_target_currency = currency_value (cp_target_currency p),
      co_market_rate = fixed_text 6 (cp_market_rate p), co_cashout_fee_usd = fixed_text 6 (cp_cashout_fee_usd p),
      co_net_payout = fixed_text (payout_places (cp_target_currency p)) (cp_net_payout p)\<rparr>"

section \<open>Texts and quotes\<close>

lemma parse_fixed:
  assumes "on_grid k x" and "0 \<le> x" and "0 < k"
  shows "parse_decimal (fixed_text k x) = Some (Fin x)" "decimal_of (fixed_text k x) = Inr (Fin x)"
    "0 < x \<Longrightarrow> parse_positive (fixed_text k x) = Inr (Some (Fin x))"
  using py_decimal_fixed_text [OF assms]
  by (simp_all add: parse_decimal_def decimal_of_def parse_positive_def remove_char_none)

lemma quote_for_cong: "fee_configs d = fee_configs d' \<Longrightarrow> quote_for s d a cur = quote_for s d' a cur"
proof -
  assume same: "fee_configs d = fee_configs d'"
  then have fees: "get_active_fee_config d = get_active_fee_config d'" by (simp add: get_active_fee_config_def)
  then have "get_market_rate s d = get_market_rate s d'" by (simp only: fun_eq_iff get_market_rate_def simp_thms)
  with fees show ?thesis by (simp only: quote_for_def)
qed

text \<open>A quote depends on the amount only through its cents.\<close>

lemma quote_for_same_cents: "quantize_any 2 a = quantize_any 2 b \<Longrightarrow> quote_for s d a cur = quote_for s d b cur"
  unfolding quote_for_def by (cases "get_active_fee_config d") (simp_all add: calculate_quote_def)

lemma quoted_figures:
  assumes "quote_for s d a cur = Inr q"
  shows "quote_for s d (Fin (q_zar_amount q)) cur = Inr q"
    "on_grid 2 (q_zar_amount q)" "on_grid 2 (q_transaction_fee q)" "on_grid 6 (q_exchange_rate q)" "on_grid 6 (q_uctusd_amount q)"
    "0 < q_uctusd_amount q" "0 < q_exchange_rate q" "0 \<le> q_transaction_fee q \<Longrightarrow> 0 < q_zar_amount q"
proof -
  obtain c :: fee_config and rate where c: "calculate_quote a rate (f_fixed_fee_zar c) (f_percentage_fee c) (f_fx_margin c)
      (f_cashout_fee_percentage c) (f_cashout_fee_min_usd c) cur = Inr q" using assms by (metis quote_forE)
  note zar = quote_for_zar [OF assms]
  then have "quantize_any 2 (Fin (q_zar_amount q)) = Inr (q_zar_amount q)"
    by (auto simp: quantize_any_Inr quantize_on_grid quantize_fits quantize_id)
  with zar have "quantize_any 2 (Fin (q_zar_amount q)) = quantize_any 2 a" by simp
  from quote_for_same_cents [OF this] show "quote_for s d (Fin (q_zar_amount q)) cur = Inr q" using assms by simp
  show "on_grid 2 (q_zar_amount q)" "on_grid 6 (q_exchange_rate q)" "on_grid 6 (q_uctusd_amount q)" "0 < q_uctusd_amount q"
    using quote_positive [OF c] by simp_all
  show "0 < q_exchange_rate q" by (rule quote_rate_positive [OF c])
  show "on_grid 2 (q_transaction_fee q)" using c by (elim calculate_quoteE) (simp add: quantize_on_grid)
  assume fee: "0 \<le> q_transaction_fee q"
  show "0 < q_zar_amount q"
    using c
  proof (rule calculate_quoteE)
    assume net: "quantize 2 (dec_sub (q_zar_amount q) (q_transaction_fee q)) = Inr (q_net_zar_converted q)" "0 < q_net_zar_converted q"
    show ?thesis
    proof (rule ccontr)
      assume "\<not> 0 < q_zar_amount q"
      then have "dec_sub (q_zar_amount q) (q_transaction_fee q) \<le> 0"
        using fee ctx_mono [of "q_zar_amount q - q_transaction_fee q" 0] by (simp add: dec_sub_def)
      moreover have "quantize 2 0 = Inr 0" by code_simp
      ultimately show False using quantize_mono net by fastforce
    qed
  qed
qed

text \<open>The shown figures, sent back, are the price the quote is compared with.\<close>

lemma accepted_shown:
  assumes "quote_for s d a cur = Inr q" and "0 \<le> q_transaction_fee q"
  shows "accepted_price (fixed_text 6 (q_exchange_rate q)) (fixed_text 2 (q_transaction_fee q)) (fixed_text 6 (q_uctusd_amount q))
    = Inr (Some (price_of q))"
proof -
  note f = quoted_figures [OF assms(1)]
  have "parse_positive (fixed_text 6 (q_exchange_rate q)) = Inr (Some (Fin (q_exchange_rate q)))"
    "parse_positive (fixed_text 6 (q_uctusd_amount q)) = Inr (Some (Fin (q_uctusd_amount q)))"
    "parse_decimal (fixed_text 2 (q_transaction_fee q)) = Some (Fin (q_transaction_fee q))"
    using f assms(2) by (simp_all add: parse_fixed)
  then show ?thesis using assms(2) by (simp add: accepted_price_def price_of_def)
qed

section \<open>What is shown is what is booked\<close>

text \<open>The columns of the row hold the figures.\<close>

definition storable :: "quote \<Rightarrow> bool" where
  "storable q \<longleftrightarrow> store_numeric 20 2 (q_zar_amount q) \<noteq> None \<and> store_numeric 20 2 (q_transaction_fee q) \<noteq> None
     \<and> store_numeric 20 2 (q_net_zar_converted q) \<noteq> None \<and> store_numeric 20 6 (q_market_rate q) \<noteq> None
     \<and> store_numeric 20 6 (q_exchange_rate q) \<noteq> None \<and> store_numeric 10 6 (q_fx_margin q) \<noteq> None
     \<and> store_numeric 20 6 (q_uctusd_amount q) \<noteq> None"

lemma storable_stored: "storable q \<Longrightarrow> \<exists>t'. stored_quote q t = Some t'"
  by (auto simp: storable_def stored_quote_def)

text \<open>The booking of a context without an error, at its price and with a valid card.\<close>

lemma context_books:
  assumes "quote_for s d a (b_payout_currency ben) = Inr (sc_quote c)" and "get_beneficiary d bid (u_id u) = Some ben"
    and "sc_beneficiary c = ben" and "allowed (check_limit s now d u (q_zar_amount (sc_quote c)))"
    and "find_recipient_user_id d ben \<noteq> None" and "u_can_send u" and "u_kyc_status u = Kyc_approved"
    and "validate_mock_card now mc = Inr last4" and "storable (sc_quote c)"
  shows "\<exists>t d'. create_remittance s now i k d u bid a mc (price_of (sc_quote c)) = (Inr t, d') \<and> t_id t = i
    \<and> transactions d' = transactions d @ [t] \<and> t_uctusd_amount t = q_uctusd_amount (sc_quote c)
    \<and> t_exchange_rate t = q_exchange_rate (sc_quote c) \<and> t_transaction_fee t = q_transaction_fee (sc_quote c)
    \<and> t_zar_amount t = q_zar_amount (sc_quote c)
    \<and> t_cashin_status t = (if card_digits mc = declined_test_card then CashIn_failed else CashIn_pending)"
proof -
  let ?q = "sc_quote c"
  obtain rid where rid: "find_recipient_user_id d ben = Some rid" using assms(5) by blast
  obtain linked where link: "refresh_recipient_link d ben = (Some rid, linked)"
    using refresh_recipient_eq [of d ben] rid by (metis prod.collapse)
  then have kept: "tiers linked = tiers d" "fee_configs linked = fee_configs d" "transactions linked = transactions d"
    using refresh_frame [of d ben] by simp_all
  have "allowed (check_limit s now linked u (q_zar_amount ?q))"
    using assms(4) check_limit_cong [OF kept(1,3)] by simp
  moreover have "quote_for s linked a (b_payout_currency ben) = Inr ?q" using assms(1) quote_for_cong [OF kept(2)] by simp
  moreover have "pricing_matches ?q (price_of ?q) = Inr True" by (simp add: pricing_matches_True price_of_def)
  ultimately have "remittance_checks s now linked u ben a mc (price_of ?q) = Inr (?q, last4)"
    using assms(8) by (simp add: remittance_checks_def raise_if_def)
  moreover obtain t0 where t0: "stored_quote ?q (new_transaction now i k (u_id u) (b_id ben) rid last4) = Some t0"
    using storable_stored [OF assms(9)] by blast
  note row = stored_quoteE [OF t0]
  note figs = quoted_figures [OF assms(1)]
  have grid: "to_grid 2 (q_zar_amount ?q) = q_zar_amount ?q" "to_grid 2 (q_transaction_fee ?q) = q_transaction_fee ?q"
    "to_grid 6 (q_exchange_rate ?q) = q_exchange_rate ?q" "to_grid 6 (q_uctusd_amount ?q) = q_uctusd_amount ?q"
    using figs by (simp_all add: to_grid_id)
  ultimately have "create_remittance s now i k d u bid a mc (price_of ?q)
      = (Inr (if card_digits mc = declined_test_card then decline now t0 else t0),
         linked\<lparr>transactions := transactions d @ [if card_digits mc = declined_test_card then decline now t0 else t0]\<rparr>)"
    using assms(2,6,7) link t0 by (simp add: create_remittance_def kept Let_def)
  then show ?thesis using row grid by (auto simp: decline_def new_transaction_def)
qed

text \<open>What a context without an error says about the state.\<close>

lemma quote_contextE:
  assumes "quote_context s now d u bid amount = Inr (Inr c)" and "sc_error c = None"
  obtains a where "parse_positive amount = Inr (Some a)" "parse_uuid bid = Some (b_id (sc_beneficiary c))"
    "get_beneficiary d (b_id (sc_beneficiary c)) (u_id u) = Some (sc_beneficiary c)"
    "quote_for s d a (b_payout_currency (sc_beneficiary c)) = Inr (sc_quote c)"
    "allowed (check_limit s now d u (q_zar_amount (sc_quote c)))" "find_recipient_user_id d (sc_beneficiary c) \<noteq> None"
proof -
  from assms(1) obtain a where a: "parse_positive amount = Inr (Some a)"
    by (auto simp: quote_context_def split: option.splits)
  moreover from assms(1) a obtain j ben where j: "parse_uuid bid = Some j" "get_beneficiary d j (u_id u) = Some ben"
    by (auto simp: quote_context_def split: option.splits)
  moreover have "b_id ben = j" using j(2) find_Some_iff_mem by (fastforce simp: get_beneficiary_def returning_def)
  moreover from assms(1) a j obtain q where q: "quote_for s d a (b_payout_currency ben) = Inr q"
    by (auto simp: quote_context_def split: sum.splits exn.splits if_splits)
  ultimately show thesis
    using assms that by (auto simp: quote_context_def Let_def split: if_splits)
qed

text \<open>
  C22. The price a sender was shown is the price they get (requirements.md, 382): when the pay page is shown, sending
  its hidden fields back in the same state with a valid card passes every check of the booking, whatever
  text the amount was first typed as; it answers with the page of the new transaction, and exactly one
  row is added, with the amount, fee, rate and UCTUSD of the page (failed for the declined test card, else
  waiting for the payment).
\<close>

theorem pay_page_books:
  assumes "quote_context s now d u bid amount = Inr (Inr c)" and "sc_error c = None" and "sender_redirect (Some u) = None"
    and "0 \<le> b_id (sc_beneficiary c)" and "b_id (sc_beneficiary c) < 2 ^ 128" and "0 \<le> q_transaction_fee (sc_quote c)"
    and "storable (sc_quote c)" and "validate_mock_card now mc = Inr last4"
  shows "send_pay s now d (Some u) bid amount = pay_page
    \<and> (\<exists>t d'. post_remittance s now i k d (Some u) (pay_form c mc)
          = (Redirect (''/transactions/'' @ uuid_text i)
               (Some (if card_digits mc = declined_test_card then ''danger'' else ''success'')), d')
        \<and> transactions d' = transactions d @ [t] \<and> t_zar_amount t = q_zar_amount (sc_quote c)
        \<and> t_transaction_fee t = q_transaction_fee (sc_quote c) \<and> t_exchange_rate t = q_exchange_rate (sc_quote c)
        \<and> t_uctusd_amount t = q_uctusd_amount (sc_quote c)
        \<and> t_cashin_status t = (if card_digits mc = declined_test_card then CashIn_failed else CashIn_pending))"
proof -
  let ?q = "sc_quote c" and ?b = "sc_beneficiary c"
  obtain a where ctx: "parse_positive amount = Inr (Some a)" "parse_uuid bid = Some (b_id ?b)"
    "get_beneficiary d (b_id ?b) (u_id u) = Some ?b" "quote_for s d a (b_payout_currency ?b) = Inr ?q"
    "allowed (check_limit s now d u (q_zar_amount ?q))" "find_recipient_user_id d ?b \<noteq> None"
    using quote_contextE [OF assms(1,2)] .
  note f = quoted_figures [OF ctx(4)]
  have user: "u_can_send u" "u_kyc_status u = Kyc_approved" using assms(3) by (auto simp: sender_redirect_def split: if_splits)
  obtain t d' where t: "create_remittance s now i k d u (b_id ?b) (Fin (q_zar_amount ?q)) mc (price_of ?q) = (Inr t, d')"
    "t_id t = i" "transactions d' = transactions d @ [t]" "t_uctusd_amount t = q_uctusd_amount ?q" "t_exchange_rate t = q_exchange_rate ?q"
    "t_transaction_fee t = q_transaction_fee ?q" "t_zar_amount t = q_zar_amount ?q"
    "t_cashin_status t = (if card_digits mc = declined_test_card then CashIn_failed else CashIn_pending)"
    using context_books [OF f(1) ctx(3) refl ctx(5,6) user assms(8,7)] by blast
  have "parse_positive (fixed_text 2 (q_zar_amount ?q)) = Inr (Some (Fin (q_zar_amount ?q)))"
    using f assms(6) by (simp add: parse_fixed)
  then have "post_remittance s now i k d (Some u) (pay_form c mc)
    = book_remittance s now i k d u (pay_form c mc) (b_id ?b) (Fin (q_zar_amount ?q)) (price_of ?q)"
    using accepted_shown [OF ctx(4) assms(6)] assms(3) parse_uuid_text [OF assms(4,5)]
    by (simp add: post_remittance_def pay_form_def Let_def)
  then have "post_remittance s now i k d (Some u) (pay_form c mc)
    = (Redirect (''/transactions/'' @ uuid_text i) (Some (if card_digits mc = declined_test_card then ''danger'' else ''success'')), d')"
    using t(1,2,8) by (simp add: book_remittance_def pay_form_def Let_def)
  moreover have "send_pay s now d (Some u) bid amount = pay_page" using assms(1-3) by (simp add: send_pay_def)
  ultimately show ?thesis using t by blast
qed

text \<open>The amount was typed with a thousands separator; the page posts it back with its cents.\<close>

definition shop_context :: send_context where
  "shop_context = \<lparr>sc_beneficiary = shop_beneficiary, sc_quote = example_quote,
     sc_limit = check_limit example_settings 0 shop_db example_sender 1000, sc_error = None\<rparr>"

lemma shop_context_shown: "quote_context example_settings 0 shop_db example_sender (uuid_text 40) ''1,000'' = Inr (Inr shop_context)"
proof -
  have "get_active_fee_config shop_db = Some example_fees"
    using example_fees_active by (simp add: get_active_fee_config_def shop_db_def people_example_def limits_example_def)
  note quoted = example_quote_for [OF this]
  have "parse_positive ''1,000'' = Inr (Some (Fin 1000))" by code_simp
  moreover have "get_beneficiary shop_db 40 (u_id example_sender) = Some shop_beneficiary"
    by (simp add: get_beneficiary_def shop_db_def shop_beneficiary_def returning_def example_sender_def)
  moreover have "b_payout_currency shop_beneficiary = ZAR" "find_recipient_user_id shop_db shop_beneficiary = Some 11"
    by (simp_all add: shop_beneficiary_def find_recipient_user_id_def)
  moreover have "q_zar_amount example_quote = 1000" by (simp add: example_quote_def)
  ultimately show ?thesis
    using quoted shop_limit parse_uuid_text [of 40] by (simp add: quote_context_def shop_context_def)
qed

lemma shop_storable: "storable example_quote"
proof -
  have "column_value 20 2 1000" "column_value 20 2 40" "column_value 20 2 960" "column_value 20 6 18.5"
    "column_value 20 6 18.87" "column_value 10 6 0.02" "column_value 20 6 50.874404"
    by (code_simp, code_simp, code_simp, code_simp, code_simp, code_simp, code_simp)
  from this [THEN store_numeric_id] show ?thesis by (simp add: storable_def example_quote_def)
qed

theorem pay_page_books_witness:
  "send_pay example_settings 0 shop_db (Some example_sender) (uuid_text 40) ''1,000'' = pay_page
   \<and> (\<exists>d'. post_remittance example_settings 0 100 101 shop_db (Some example_sender) (pay_form shop_context shop_card)
        = (Redirect (''/transactions/'' @ uuid_text 100) (Some ''success''), d'))"
proof -
  have c: "sc_error shop_context = None" "0 \<le> b_id (sc_beneficiary shop_context)" "b_id (sc_beneficiary shop_context) < 2 ^ 128"
    "0 \<le> q_transaction_fee (sc_quote shop_context)" "storable (sc_quote shop_context)"
    using shop_storable by (simp_all add: shop_context_def shop_beneficiary_def example_quote_def)
  have u: "sender_redirect (Some example_sender) = None" by (simp add: sender_redirect_def example_sender_def)
  have v: "validate_mock_card 0 shop_card = Inr ''4242''" by code_simp
  have "card_digits shop_card \<noteq> declined_test_card" by code_simp
  with pay_page_books [OF shop_context_shown c(1) u c(2-5) v, of 100 101] show ?thesis by auto
qed

section \<open>A cash-out as it was reviewed\<close>

lemma parse_shown_amount:
  assumes "on_grid 6 a" and "0 < a" and "quantize 6 a = Inr a"
  shows "parse_amount (fixed_text 6 a) = Inr a"
  using py_decimal_fixed_text [OF assms(1) less_imp_le [OF assms(2)]] assms
  by (simp add: parse_amount_def remove_char_none)

lemma parse_shown_currency: "parse_currency (currency_value cur) = Inr cur"
proof -
  have "parse_currency ''USD'' = Inr USD" "parse_currency ''ZAR'' = Inr ZAR" by (code_simp, code_simp)
  then show ?thesis by (cases cur) simp_all
qed

lemma payout_grid: "cashout_payout a fee rate cur = Inr p \<Longrightarrow> on_grid (payout_places cur) p"
  using quantize_on_grid by (cases cur) (auto simp: cashout_payout_def Let_def)

text \<open>
  C23. A reviewed cash-out is the one requested (FR-CO-02): when the review page is shown, confirming it in the same state
  passes the checks of the request, and exactly one open request is added, for the amount and currency
  reviewed, at the market rate, fee and payout that were shown.
\<close>

theorem reviewed_cashout_requested:
  assumes "priced_preview s d u typed cur = Inr p" and "require_recipient (Some u) = None"
    and "0 \<le> cp_market_rate p" and "0 \<le> cp_cashout_fee_usd p"
    and "\<forall>c. stored_pricing p c \<noteq> None"
  shows "cashout_preview s d (Some u) typed cur = Page ''recipient/cashout_review.html'' 200
    \<and> (\<exists>r d'. cashout_create s now i k None d (Some u) (review_form p) = (Redirect (''/cashout/'' @ uuid_text i) (Some ''success''), d')
        \<and> cashouts d' = cashouts d @ [r] \<and> c_status r = Out_requested \<and> c_recipient_user_id r = u_id u
        \<and> c_uctusd_amount r = cp_uctusd_amount p \<and> c_target_currency r = cp_target_currency p
        \<and> c_market_rate r = cp_market_rate p \<and> c_cashout_fee_usd r = cp_cashout_fee_usd p \<and> c_net_payout r = cp_net_payout p)"
proof -
  from assms(1) obtain amount c where parts: "parse_amount typed = Inr amount" "parse_currency cur = Inr c"
      "\<not> available_balance d (u_id u) < amount" "price_cashout s d amount c = Inr p"
    by (auto simp: priced_preview_def Let_def)
  note a = parse_amount_grid [OF parts(1)]
  note g = price_grids [OF parts(4)]
  have c: "cp_target_currency p = c" "on_grid (payout_places c) (cp_net_payout p)"
    using parts(4) by (auto elim!: price_cashoutE dest: payout_grid)
  have places: "0 < payout_places c" by (cases c) simp_all
  let ?shown = "\<lparr>ap_market_rate = Fin (cp_market_rate p), ap_cashout_fee_usd = Fin (cp_cashout_fee_usd p), ap_net_payout = Fin (cp_net_payout p)\<rparr>"
  have posted: "posted_request (review_form p) = Inr (amount, c, ?shown)"
    using a g assms(3,4) parse_fixed(2) [OF c(2) less_imp_le [OF g(4)] places]
    by (simp add: posted_request_def review_form_def parse_shown_amount parse_shown_currency parse_fixed c(1))
  obtain w where w: "get_wallet_for_user d (u_id u) = Some w"
    using parts(3) a by (cases "get_wallet_for_user d (u_id u)") (simp_all add: available_balance_def)
  have "cashout_pricing_matches p (Some ?shown) = Inr True" by (simp add: cashout_pricing_matches_True)
  then have checks: "request_checks s d w (u_id u) amount c (Some ?shown) = Inr p"
    using parts(3,4) w by (simp add: request_checks_def available_balance_def Let_def raise_if_def)
  obtain r where r: "stored_pricing p (new_request now i k (u_id u) (w_id w) c) = Some r" using assms(5) by blast
  then have made: "create_request s now i k None d u amount c (Some ?shown) = (Inr r, d\<lparr>cashouts := cashouts d @ [r]\<rparr>)"
    by (simp add: create_request_def for_update_def w checks)
  have "cashout_preview s d (Some u) typed cur = Page ''recipient/cashout_review.html'' 200"
    using assms(1,2) by (simp add: cashout_preview_def)
  moreover have "c_id r = i \<and> c_status r = Out_requested \<and> c_recipient_user_id r = u_id u \<and> c_target_currency r = c"
    "c_uctusd_amount r = cp_uctusd_amount p \<and> c_market_rate r = cp_market_rate p \<and> c_cashout_fee_usd r = cp_cashout_fee_usd p
       \<and> c_net_payout r = cp_net_payout p"
    using stored_pricingE [OF r] g a by (simp_all add: new_request_def to_grid_id)
  ultimately show ?thesis using posted made assms(2) c(1) by (simp add: cashout_create_def)
qed

lemma stored_pricing_any: "stored_pricing p c \<noteq> None \<Longrightarrow> stored_pricing p c' \<noteq> None"
  by (auto simp: stored_pricing_def split: option.splits)

theorem reviewed_cashout_requested_witness:
  "\<exists>p r d'. priced_preview example_settings priced_db example_recipient ''4.00'' '' zar '' = Inr p
    \<and> cashout_create example_settings 7 90 91 None priced_db (Some example_recipient) (review_form p)
        = (Redirect (''/cashout/'' @ uuid_text 90) (Some ''success''), d')
    \<and> cashouts d' = cashouts priced_db @ [r] \<and> c_uctusd_amount r = cp_uctusd_amount p"
proof -
  obtain c d' where "create_request example_settings 7 90 91 None priced_db example_recipient 4 ZAR None = (Inr c, d')"
    using request_example by blast
  then obtain w p where w: "get_wallet_for_user priced_db (u_id example_recipient) = Some w"
    and p: "request_checks example_settings priced_db w (u_id example_recipient) 4 ZAR None = Inr p"
      "stored_pricing p (new_request 7 90 91 (u_id example_recipient) (w_id w) ZAR) = Some c"
    by (auto simp: create_request_def for_update_def split: option.splits sum.splits)
  have fees: "get_active_fee_config priced_db = Some example_fees"
    using example_fees_active
    by (simp add: get_active_fee_config_def priced_db_def settle_db_def people_example_def limits_example_def)
  have price: "price_cashout example_settings priced_db 4 ZAR = Inr p" "\<not> available_balance priced_db (u_id example_recipient) < 4"
    using p(1) w by (auto simp: request_checks_def available_balance_def Let_def)
  have fee: "cashout_fee_usd 4 (f_cashout_fee_percentage example_fees) (f_cashout_fee_min_usd example_fees) = Inr 1"
    by code_simp
  have pos: "0 \<le> cp_market_rate p" "0 \<le> cp_cashout_fee_usd p"
    using price(1) fees fee example_market_rate by (auto elim!: price_cashoutE)
  have "parse_amount ''4.00'' = Inr 4" "parse_currency '' zar '' = Inr ZAR" by (code_simp, code_simp)
  then have shown: "priced_preview example_settings priced_db example_recipient ''4.00'' '' zar '' = Inr p"
    using price by (simp add: priced_preview_def Let_def raise_if_def)
  have user: "require_recipient (Some example_recipient) = None"
    by (simp add: require_recipient_def example_recipient_def example_sender_def)
  have "\<forall>c. stored_pricing p c \<noteq> None" using stored_pricing_any p(2) by blast
  from reviewed_cashout_requested [OF shown user pos this, of 7 90 91] shown show ?thesis by blast
qed

section \<open>Simulated users (locustfile.py)\<close>

definition load_card :: mock_card where
  "load_card = \<lparr>card_number = ''4242 4242 4242 4242'', card_expiry = ''12/30'', card_cvv = ''123'', card_name = ''Load Test''\<rparr>"

definition load_declined_card :: mock_card where
  "load_declined_card = load_card\<lparr>card_number := ''4000000000000002''\<rparr>"

text \<open>One group of the regular expressions, \<open>[\d.]+\<close>.\<close>

definition is_figure :: "string \<Rightarrow> bool" where
  "is_figure s \<longleftrightarrow> s \<noteq> [] \<and> list_all (\<lambda>c. is_digit c \<or> c = CHR ''.'') s"

definition price_lock_fields :: "send_form \<Rightarrow> (string \<times> string \<times> string) option" where
  "price_lock_fields f =
     (if is_figure (sf_exchange_rate f) \<and> is_figure (sf_transaction_fee f) \<and> is_figure (sf_uctusd_amount f)
      then Some (sf_exchange_rate f, sf_transaction_fee f, sf_uctusd_amount f) else None)"

definition cashout_fields :: "cashout_post \<Rightarrow> (string \<times> string \<times> string) option" where
  "cashout_fields f =
     (if is_figure (co_market_rate f) \<and> is_figure (co_cashout_fee_usd f) \<and> is_figure (co_net_payout f)
      then Some (co_market_rate f, co_cashout_fee_usd f, co_net_payout f) else None)"

text \<open>What the search finds in the answer to \<open>GET /send/pay\<close>: only the pay page carries the fields.\<close>

definition searched_pay_page :: "settings \<Rightarrow> instant \<Rightarrow> db \<Rightarrow> user \<Rightarrow> string \<Rightarrow> string \<Rightarrow> (string \<times> string \<times> string) option" where
  "searched_pay_page s now d u bid amount =
     (if send_pay s now d (Some u) bid amount \<noteq> pay_page then None
      else case quote_context s now d u bid amount of
             Inr (Inr c) \<Rightarrow> price_lock_fields (pay_form c load_card)
           | _ \<Rightarrow> None)"

text \<open>A task ends without a request to make, without the fields it looked for, or with the answer to its post.\<close>

datatype task_result = Nothing_to_do | Not_on_page | Answer response

text \<open>The signed-in sender's \<open>send_money\<close> and \<open>send_money_declined\<close>: review, pay page, post with the captured figures.\<close>

definition send_task ::
  "mock_card \<Rightarrow> settings \<Rightarrow> instant \<Rightarrow> uuid \<Rightarrow> uuid \<Rightarrow> db \<Rightarrow> user \<Rightarrow> string option \<Rightarrow> int \<Rightarrow> task_result \<times> db" where
  "send_task mc s now new_id new_key d u beneficiary amount =
     (case beneficiary of
        None \<Rightarrow> (Nothing_to_do, d)
      | Some bid \<Rightarrow>
          (case searched_pay_page s now d u bid (digits_of_int amount) of
             None \<Rightarrow> (Not_on_page, d)
           | Some (rate, fee, tokens) \<Rightarrow>
               (case post_remittance s now new_id new_key d (Some u)
                       \<lparr>sf_beneficiary_id = bid, sf_zar_amount = digits_of_int amount, sf_exchange_rate = rate,
                        sf_transaction_fee = fee, sf_uctusd_amount = tokens, sf_card = mc\<rparr> of
                  (r, d') \<Rightarrow> (Answer r, d'))))"

definition send_money ::
  "settings \<Rightarrow> instant \<Rightarrow> uuid \<Rightarrow> uuid \<Rightarrow> db \<Rightarrow> user \<Rightarrow> string option \<Rightarrow> int \<Rightarrow> task_result \<times> db" where
  "send_money = send_task load_card"

definition send_money_declined ::
  "settings \<Rightarrow> instant \<Rightarrow> uuid \<Rightarrow> uuid \<Rightarrow> db \<Rightarrow> user \<Rightarrow> string option \<Rightarrow> int \<Rightarrow> task_result \<times> db" where
  "send_money_declined = send_task load_declined_card"

text \<open>The recipient's \<open>request_cashout\<close>: one token, priced and then requested if the preview has a price.\<close>

definition request_cashout ::
  "settings \<Rightarrow> instant \<Rightarrow> uuid \<Rightarrow> uuid \<Rightarrow> db \<Rightarrow> user \<Rightarrow> string \<Rightarrow> task_result \<times> db" where
  "request_cashout s now new_id new_key d u currency =
     (if cashout_preview s d (Some u) ''1'' currency \<noteq> Page ''recipient/cashout_review.html'' 200 then (Nothing_to_do, d)
      else case priced_preview s d u ''1'' currency of
             Inl _ \<Rightarrow> (Nothing_to_do, d)
           | Inr p \<Rightarrow>
               (case cashout_fields (review_form p) of
                  None \<Rightarrow> (Nothing_to_do, d)
                | Some (rate, fee, net) \<Rightarrow>
                    (case cashout_create s now new_id new_key None d (Some u)
                            \<lparr>co_uctusd_amount = ''1'', co_target_currency = currency, co_market_rate = rate,
                             co_cashout_fee_usd = fee, co_net_payout = net\<rparr> of
                       (r, d') \<Rightarrow> (Answer r, d'))))"

text \<open>The admin's \<open>confirm_cashins\<close>: the first ten rows of the queue page, one request each.\<close>

fun confirm_each ::
  "instant \<Rightarrow> (uuid \<Rightarrow> uuid \<Rightarrow> exn option) \<Rightarrow> user \<Rightarrow> uuid list \<Rightarrow> db \<Rightarrow> db" where
  "confirm_each now enqueue admin [] d = d"
| "confirm_each now enqueue admin (i # is) d =
     confirm_each now enqueue admin is (snd (cashin_received now enqueue (\<lambda>d. d) d (Some admin) i))"

definition confirm_cashins :: "instant \<Rightarrow> (uuid \<Rightarrow> uuid \<Rightarrow> exn option) \<Rightarrow> user \<Rightarrow> db \<Rightarrow> db" where
  "confirm_cashins now enqueue admin d = confirm_each now enqueue admin (take 10 (map t_id (list_pending_cashins d))) d"

lemma figure_text: "0 \<le> x \<Longrightarrow> 0 < k \<Longrightarrow> is_figure (fixed_text k x)"
  by (auto elim!: fixed_text_parts [of x k] simp: is_figure_def isdigit_def list_all_iff)

text \<open>A simulated send whose amount the sender may send is booked at the price on the page.\<close>

lemma simulated_send_booked:
  assumes "quote_context s now d u bid (digits_of_int amount) = Inr (Inr c)" and "sc_error c = None"
    and "sender_redirect (Some u) = None" and "0 \<le> q_transaction_fee (sc_quote c)" and "storable (sc_quote c)"
    and "validate_mock_card now mc = Inr last4"
  shows "\<exists>t d'. send_task mc s now i k d u (Some bid) amount
      = (Answer (Redirect (''/transactions/'' @ uuid_text i)
           (Some (if card_digits mc = declined_test_card then ''danger'' else ''success''))), d')
    \<and> transactions d' = transactions d @ [t] \<and> t_uctusd_amount t = q_uctusd_amount (sc_quote c)"
proof -
  let ?q = "sc_quote c" and ?b = "sc_beneficiary c"
  obtain a where ctx: "parse_positive (digits_of_int amount) = Inr (Some a)" "parse_uuid bid = Some (b_id ?b)"
    "get_beneficiary d (b_id ?b) (u_id u) = Some ?b" "quote_for s d a (b_payout_currency ?b) = Inr ?q"
    "allowed (check_limit s now d u (q_zar_amount ?q))" "find_recipient_user_id d ?b \<noteq> None"
    using quote_contextE [OF assms(1,2)] .
  note f = quoted_figures [OF ctx(4)]
  have user: "u_can_send u" "u_kyc_status u = Kyc_approved" using assms(3) by (auto simp: sender_redirect_def split: if_splits)
  obtain t d' where t: "create_remittance s now i k d u (b_id ?b) a mc (price_of ?q) = (Inr t, d')"
    "t_id t = i" "transactions d' = transactions d @ [t]" "t_uctusd_amount t = q_uctusd_amount ?q"
    "t_cashin_status t = (if card_digits mc = declined_test_card then CashIn_failed else CashIn_pending)"
    using context_books [OF ctx(4,3) refl ctx(5,6) user assms(6,5)] by blast
  have "searched_pay_page s now d u bid (digits_of_int amount)
    = Some (fixed_text 6 (q_exchange_rate ?q), fixed_text 2 (q_transaction_fee ?q), fixed_text 6 (q_uctusd_amount ?q))"
    using assms(1-4) f by (simp add: searched_pay_page_def send_pay_def price_lock_fields_def pay_form_def figure_text Let_def)
  then show ?thesis
    using accepted_shown [OF ctx(4) assms(4)] assms(3) ctx(1,2) t
    by (simp add: send_task_def post_remittance_def book_remittance_def)
qed

text \<open>A declined card gives the failed answer the profile looks for, and never money to settle.\<close>

lemma load_cards:
  assumes "fst (local_date 0 now) < 2030"
  shows "validate_mock_card now load_card = Inr ''4242''" "card_digits load_card \<noteq> declined_test_card"
    "validate_mock_card now load_declined_card = Inr ''0002''" "card_digits load_declined_card = declined_test_card"
proof -
  have "isdigit (card_digits mc) \<and> length (card_digits mc) = 16 \<and> luhn_ok (card_digits mc)
    \<and> parse_expiry (card_expiry mc) = Some (2030, 12) \<and> isdigit (card_cvv mc) \<and> length (card_cvv mc) = 3 \<and> strip (card_name mc) \<noteq> []"
    if "mc \<in> {load_card, load_declined_card}" for mc
    using that by (elim insertE emptyE; hypsubst; code_simp)
  then have "validate_mock_card now mc = Inr (last_chars 4 (card_digits mc))" if "mc \<in> {load_card, load_declined_card}" for mc
    using assms that by (cases "local_date 0 now") (simp add: validate_mock_card_def Let_def)
  moreover have "last_chars 4 (card_digits load_card) = ''4242''" "last_chars 4 (card_digits load_declined_card) = ''0002''"
    by (code_simp, code_simp)
  ultimately show "validate_mock_card now load_card = Inr ''4242''" "validate_mock_card now load_declined_card = Inr ''0002''" by auto
  show "card_digits load_card \<noteq> declined_test_card" "card_digits load_declined_card = declined_test_card" by (code_simp, code_simp)
qed

end
