(* ===== verification/Schema.thy ===== *)
theory Schema
  imports Tables
begin

text \<open>
  The data definition language the migrations use, as PostgreSQL executes it: a schema is the
  enumeration types and the tables with their columns, constraints, indexes and rows; an operation
  either changes it or fails (\<open>None\<close>), and one revision is a list of operations. The migrations
  run in one transaction (\<open>migrations/env.py\<close>), so a failing operation leaves the database as it was.
\<close>

section \<open>Schemas\<close>

datatype column_type = Uuid_column | Varchar nat | Text_column | Boolean_column | Integer_column
  | Date_column | Timestamptz | Numeric nat nat | Enum_column string | Jsonb_column

datatype sql_value = Null | Generated nat | Number dec | Boolean bool | Str string | Now

record column =
  cl_name :: string
  cl_type :: column_type
  cl_nullable :: bool
  cl_default :: "sql_value option"
  cl_refs :: "(string \<times> string) option"
  cl_primary :: bool

record table_def =
  tb_name :: string
  tb_columns :: "column list"
  tb_unique :: "(string \<times> string list) list"
  tb_indexes :: "(string \<times> string list) list"
  tb_rows :: "(string \<times> sql_value) list list"

record schema =
  sc_types :: "(string \<times> string list) list"
  sc_tables :: "table_def list"

definition required :: "string \<Rightarrow> column_type \<Rightarrow> column" where
  "required n ty = \<lparr>cl_name = n, cl_type = ty, cl_nullable = False, cl_default = None, cl_refs = None, cl_primary = False\<rparr>"

definition optional :: "string \<Rightarrow> column_type \<Rightarrow> column" where
  "optional n ty = (required n ty)\<lparr>cl_nullable := True\<rparr>"

definition defaulting :: "string \<Rightarrow> column_type \<Rightarrow> sql_value \<Rightarrow> column" where
  "defaulting n ty v = (required n ty)\<lparr>cl_default := Some v\<rparr>"

definition referring :: "string \<Rightarrow> column \<Rightarrow> column" where
  "referring target c = c\<lparr>cl_refs := Some (target, ''id'')\<rparr>"

definition primary_id :: column where
  "primary_id = (required ''id'' Uuid_column)\<lparr>cl_primary := True\<rparr>"

abbreviation column_names :: "table_def \<Rightarrow> string list" where
  "column_names t \<equiv> map cl_name (tb_columns t)"

section \<open>What the server checks\<close>

fun type_known :: "schema \<Rightarrow> column_type \<Rightarrow> bool" where
  "type_known s (Enum_column n) = (n \<in> set (map fst (sc_types s)))"
| "type_known s _ = True"

definition ref_known :: "table_def list \<Rightarrow> (string \<times> string) option \<Rightarrow> bool" where
  "ref_known ts r = (case r of None \<Rightarrow> True
     | Some (target, c) \<Rightarrow> list_ex (\<lambda>t. tb_name t = target \<and> c \<in> set (column_names t)) ts)"

definition table_ok :: "schema \<Rightarrow> table_def \<Rightarrow> bool" where
  "table_ok s t \<longleftrightarrow> distinct (column_names t)
     \<and> list_all (\<lambda>c. type_known s (cl_type c) \<and> ref_known (sc_tables s) (cl_refs c)) (tb_columns t)
     \<and> list_all (\<lambda>i. set (snd i) \<subseteq> set (column_names t)) (tb_unique t @ tb_indexes t)
     \<and> list_all (\<lambda>r. map fst r = column_names t) (tb_rows t)"

text \<open>Tables, constraints and indexes share one name space.\<close>

definition relation_names :: "schema \<Rightarrow> string list" where
  "relation_names s = concat (map (\<lambda>t. tb_name t # map fst (tb_unique t @ tb_indexes t)) (sc_tables s))"

definition table_named :: "string \<Rightarrow> schema \<Rightarrow> table_def option" where
  "table_named n s = find (\<lambda>t. tb_name t = n) (sc_tables s)"

definition type_used :: "string \<Rightarrow> schema \<Rightarrow> bool" where
  "type_used n s \<longleftrightarrow> list_ex (\<lambda>t. list_ex (\<lambda>c. cl_type c = Enum_column n) (tb_columns t)) (sc_tables s)"

definition referred_to :: "string \<Rightarrow> (string \<Rightarrow> bool) \<Rightarrow> table_def list \<Rightarrow> bool" where
  "referred_to n P ts \<longleftrightarrow> list_ex (\<lambda>t. list_ex (\<lambda>c. case cl_refs c of None \<Rightarrow> False
     | Some (target, column) \<Rightarrow> target = n \<and> P column) (tb_columns t)) ts"

text \<open>An inserted row gets the defaults of the columns it leaves out.\<close>

definition full_row :: "column list \<Rightarrow> (string \<times> sql_value) list \<Rightarrow> (string \<times> sql_value) list" where
  "full_row cs given = map (\<lambda>c. (cl_name c, case map_of given (cl_name c) of Some v \<Rightarrow> v
     | None \<Rightarrow> (case cl_default c of Some v \<Rightarrow> v | None \<Rightarrow> Null))) cs"

definition row_fits :: "column list \<Rightarrow> (string \<times> sql_value) list \<Rightarrow> bool" where
  "row_fits cs given \<longleftrightarrow> set (map fst given) \<subseteq> set (map cl_name cs)
     \<and> list_all (\<lambda>c. cl_nullable c \<or> map_of (full_row cs given) (cl_name c) \<noteq> Some Null) cs"

definition keys_unique :: "table_def \<Rightarrow> bool" where
  "keys_unique t \<longleftrightarrow> list_all (\<lambda>key. distinct (map (\<lambda>r. map (map_of r) key) (tb_rows t)))
     (map cl_name (filter cl_primary (tb_columns t)) # map snd (tb_unique t))"

section \<open>Operations\<close>

datatype ddl = Create_type string "string list" | Drop_type string
  | Create_table string "column list" "(string \<times> string list) list" | Drop_table string
  | Create_index string string "string list" | Drop_index string string
  | Add_column string column | Drop_column string string
  | Insert_into string "(string \<times> sql_value) list list"

definition on_table :: "string \<Rightarrow> (table_def \<Rightarrow> table_def) \<Rightarrow> schema \<Rightarrow> schema" where
  "on_table n f s = s\<lparr>sc_tables := update_where (\<lambda>t. tb_name t = n) f (sc_tables s)\<rparr>"

definition with_index :: "string \<Rightarrow> string list \<Rightarrow> table_def \<Rightarrow> table_def" where
  "with_index i cs t = t\<lparr>tb_indexes := tb_indexes t @ [(i, cs)]\<rparr>"

definition without_index :: "string \<Rightarrow> table_def \<Rightarrow> table_def" where
  "without_index i t = t\<lparr>tb_indexes := filter (\<lambda>x. fst x \<noteq> i) (tb_indexes t)\<rparr>"

text \<open>Rows that exist when a column is added get its default.\<close>

definition with_column :: "column \<Rightarrow> table_def \<Rightarrow> table_def" where
  "with_column c t = t\<lparr>tb_columns := tb_columns t @ [c],
     tb_rows := map (\<lambda>r. r @ [(cl_name c, case cl_default c of Some v \<Rightarrow> v | None \<Rightarrow> Null)]) (tb_rows t)\<rparr>"

text \<open>Dropping a column drops the indexes and constraints over it.\<close>

definition without_column :: "string \<Rightarrow> table_def \<Rightarrow> table_def" where
  "without_column n t = t\<lparr>tb_columns := filter (\<lambda>c. cl_name c \<noteq> n) (tb_columns t),
     tb_unique := filter (\<lambda>x. n \<notin> set (snd x)) (tb_unique t),
     tb_indexes := filter (\<lambda>x. n \<notin> set (snd x)) (tb_indexes t),
     tb_rows := map (filter (\<lambda>v. fst v \<noteq> n)) (tb_rows t)\<rparr>"

definition with_rows :: "(string \<times> sql_value) list list \<Rightarrow> table_def \<Rightarrow> table_def" where
  "with_rows rows t = t\<lparr>tb_rows := tb_rows t @ map (full_row (tb_columns t)) rows\<rparr>"

fun apply_ddl :: "ddl \<Rightarrow> schema \<Rightarrow> schema option" where
  "apply_ddl (Create_type n vs) s =
     (if n \<in> set (map fst (sc_types s)) then None else Some (s\<lparr>sc_types := sc_types s @ [(n, vs)]\<rparr>))"
| "apply_ddl (Drop_type n) s =
     (if n \<notin> set (map fst (sc_types s)) \<or> type_used n s then None
      else Some (s\<lparr>sc_types := filter (\<lambda>x. fst x \<noteq> n) (sc_types s)\<rparr>))"
| "apply_ddl (Create_table n cs us) s =
     (let t = \<lparr>tb_name = n, tb_columns = cs, tb_unique = us, tb_indexes = [], tb_rows = []\<rparr>;
          s' = s\<lparr>sc_tables := sc_tables s @ [t]\<rparr>
      in if distinct (relation_names s') \<and> table_ok s' t then Some s' else None)"
| "apply_ddl (Drop_table n) s =
     (if table_named n s = None \<or> referred_to n (\<lambda>_. True) (filter (\<lambda>t. tb_name t \<noteq> n) (sc_tables s)) then None
      else Some (s\<lparr>sc_tables := filter (\<lambda>t. tb_name t \<noteq> n) (sc_tables s)\<rparr>))"
| "apply_ddl (Create_index i n cs) s = (case table_named n s of None \<Rightarrow> None
     | Some t \<Rightarrow> if i \<in> set (relation_names s) \<or> \<not> set cs \<subseteq> set (column_names t) then None
         else Some (on_table n (with_index i cs) s))"
| "apply_ddl (Drop_index i n) s = (case table_named n s of None \<Rightarrow> None
     | Some t \<Rightarrow> if i \<notin> set (map fst (tb_indexes t)) then None else Some (on_table n (without_index i) s))"
| "apply_ddl (Add_column n c) s = (case table_named n s of None \<Rightarrow> None
     | Some t \<Rightarrow> if cl_name c \<in> set (column_names t) \<or> \<not> type_known s (cl_type c) \<or> \<not> ref_known (sc_tables s) (cl_refs c)
           \<or> tb_rows t \<noteq> [] \<and> \<not> cl_nullable c \<and> cl_default c = None then None
         else Some (on_table n (with_column c) s))"
| "apply_ddl (Drop_column n c) s = (case table_named n s of None \<Rightarrow> None
     | Some t \<Rightarrow> if c \<notin> set (column_names t) \<or> referred_to n (\<lambda>x. x = c) (sc_tables s) then None
         else Some (on_table n (without_column c) s))"
| "apply_ddl (Insert_into n rows) s = (case table_named n s of None \<Rightarrow> None
     | Some t \<Rightarrow> if list_all (row_fits (tb_columns t)) rows \<and> keys_unique (with_rows rows t)
         then Some (on_table n (with_rows rows) s) else None)"

text \<open>One transaction: all operations, or none.\<close>

fun run_ddl :: "ddl list \<Rightarrow> schema \<Rightarrow> schema option" where
  "run_ddl [] s = Some s"
| "run_ddl (x # xs) s = (case apply_ddl x s of None \<Rightarrow> None | Some s' \<Rightarrow> run_ddl xs s')"

lemma run_ddl_append: "run_ddl (xs @ ys) s = (case run_ddl xs s of None \<Rightarrow> None | Some s' \<Rightarrow> run_ddl ys s')"
  by (induction xs arbitrary: s) (auto split: option.splits)

section \<open>Well-formed schemas\<close>

definition schema_ok :: "schema \<Rightarrow> bool" where
  "schema_ok s \<longleftrightarrow> distinct (map fst (sc_types s)) \<and> distinct (map tb_name (sc_tables s))
     \<and> list_all (table_ok s) (sc_tables s)"

text \<open>A list of operations that another list undoes, from every well-formed schema it succeeds on.\<close>

definition undone_by :: "ddl list \<Rightarrow> ddl list \<Rightarrow> bool" where
  "undone_by ups downs \<longleftrightarrow> (\<forall>s s'. schema_ok s \<longrightarrow> run_ddl ups s = Some s' \<longrightarrow> schema_ok s' \<and> run_ddl downs s' = Some s)"

lemma undone_Nil [simp]: "undone_by [] []"
  by (simp add: undone_by_def)

lemma undone_byD:
  "undone_by a b \<Longrightarrow> schema_ok s \<Longrightarrow> run_ddl a s = Some s' \<Longrightarrow> schema_ok s' \<and> run_ddl b s' = Some s"
  unfolding undone_by_def by blast

lemma undone_append:
  assumes "undone_by a b" and "undone_by a' b'"
  shows "undone_by (a @ a') (b' @ b)"
  unfolding undone_by_def
proof (intro allI impI)
  fix s s' assume s: "schema_ok s" and r: "run_ddl (a @ a') s = Some s'"
  from r obtain s1 where s1: "run_ddl a s = Some s1" "run_ddl a' s1 = Some s'"
    by (auto simp: run_ddl_append split: option.splits)
  note 1 = undone_byD [OF assms(1) s s1(1)]
  from undone_byD [OF assms(2) conjunct1 [OF 1] s1(2)] 1 show "schema_ok s' \<and> run_ddl (b' @ b) s' = Some s"
    by (simp add: run_ddl_append)
qed

lemma undone_single:
  assumes "\<And>s s'. schema_ok s \<Longrightarrow> apply_ddl x s = Some s' \<Longrightarrow> schema_ok s' \<and> apply_ddl y s' = Some s"
  shows "undone_by [x] [y]"
  unfolding undone_by_def
proof (intro allI impI)
  fix s s' assume s: "schema_ok s" and "run_ddl [x] s = Some s'"
  then have "apply_ddl x s = Some s'" by (simp split: option.splits)
  from assms [OF s this] show "schema_ok s' \<and> run_ddl [y] s' = Some s" by simp
qed

section \<open>Operations that undo each other\<close>

lemma ref_known_more: "ref_known ts r \<Longrightarrow> ref_known (ts @ us) r"
  by (auto simp: ref_known_def split: option.splits)

lemma schema_okD:
  assumes "schema_ok s"
  shows "distinct (map fst (sc_types s))" "distinct (map tb_name (sc_tables s))"
    "t \<in> set (sc_tables s) \<Longrightarrow> table_ok s t"
  using assms by (auto simp: schema_ok_def list_all_iff)

lemma table_okD:
  assumes "table_ok s t"
  shows "distinct (column_names t)" "c \<in> set (tb_columns t) \<Longrightarrow> type_known s (cl_type c)"
    "c \<in> set (tb_columns t) \<Longrightarrow> ref_known (sc_tables s) (cl_refs c)"
    "(i, cs) \<in> set (tb_unique t) \<union> set (tb_indexes t) \<Longrightarrow> set cs \<subseteq> set (column_names t)"
    "r \<in> set (tb_rows t) \<Longrightarrow> map fst r = column_names t"
proof -
  show "distinct (column_names t)" "c \<in> set (tb_columns t) \<Longrightarrow> type_known s (cl_type c)"
    "c \<in> set (tb_columns t) \<Longrightarrow> ref_known (sc_tables s) (cl_refs c)"
    using assms by (auto simp: table_ok_def list_all_iff)
  have "\<forall>i\<in>set (tb_unique t @ tb_indexes t). set (snd i) \<subseteq> set (column_names t)"
    using assms unfolding table_ok_def list_all_iff by blast
  from bspec [OF this, of "(i, cs)"]
  show "set cs \<subseteq> set (column_names t)" if "(i, cs) \<in> set (tb_unique t) \<union> set (tb_indexes t)"
    using that unfolding set_append snd_conv by blast
  have "\<forall>r\<in>set (tb_rows t). map fst r = column_names t"
    using assms unfolding table_ok_def list_all_iff by blast
  then show "r \<in> set (tb_rows t) \<Longrightarrow> map fst r = column_names t" by blast
qed

lemma type_undone: "undone_by [Create_type n vs] [Drop_type n]"
proof (rule undone_single)
  fix s s' assume ok: "schema_ok s" and a: "apply_ddl (Create_type n vs) s = Some s'"
  then have new: "n \<notin> set (map fst (sc_types s))" and s': "s' = s\<lparr>sc_types := sc_types s @ [(n, vs)]\<rparr>"
    by (simp_all split: if_splits)
  have "type_known s' ty" if "type_known s ty" for ty using that by (cases ty) (simp_all add: s')
  then have "table_ok s' t" if "table_ok s t" for t using that by (auto simp: table_ok_def list_all_iff s')
  then have "schema_ok s'" using ok new by (auto simp: schema_ok_def list_all_iff s')
  moreover have "\<not> type_used n s'"
    using ok new by (fastforce simp: type_used_def list_ex_iff s' dest: schema_okD(3) table_okD(2))
  moreover have "filter (\<lambda>x. fst x \<noteq> n) (sc_types s) = sc_types s" using new by (intro filter_True) force
  ultimately show "schema_ok s' \<and> apply_ddl (Drop_type n) s' = Some s" by (simp add: s')
qed

lemma table_namedD:
  assumes "schema_ok s" and "table_named n s = Some t"
  shows "t \<in> set (sc_tables s)" "tb_name t = n" "u \<in> set (sc_tables s) \<Longrightarrow> tb_name u = n \<Longrightarrow> u = t"
    "table_ok s t"
proof -
  show t: "t \<in> set (sc_tables s)" and n: "tb_name t = n"
    using assms(2) by (auto simp: table_named_def dest: find_Some_iff_mem)
  show "u \<in> set (sc_tables s) \<Longrightarrow> tb_name u = n \<Longrightarrow> u = t"
    using t n schema_okD(2) [OF assms(1)] by (auto simp: distinct_map dest: inj_onD)
  show "table_ok s t" by (rule schema_okD(3) [OF assms(1) t])
qed

lemma on_table_back:
  assumes "schema_ok s" and "table_named n s = Some t" and "tb_name (f t) = n" and "g (f t) = t"
  shows "on_table n g (on_table n f s) = s"
proof -
  have "(if tb_name (if tb_name u = n then f u else u) = n then g (if tb_name u = n then f u else u)
      else if tb_name u = n then f u else u) = u" if u: "u \<in> set (sc_tables s)" for u
    using table_namedD(3) [OF assms(1,2) u] assms(3,4) by (cases "tb_name u = n") auto
  then have "update_where (\<lambda>t. tb_name t = n) g (update_where (\<lambda>t. tb_name t = n) f (sc_tables s)) = sc_tables s"
    by (simp add: update_where_def map_idI)
  then show ?thesis by (simp add: on_table_def)
qed

lemma on_table_named:
  assumes "table_named n s = Some t" and "\<And>u. tb_name (f u) = tb_name u"
  shows "table_named n (on_table n f s) = Some (f t)"
proof -
  have "find (\<lambda>u. tb_name u = n) ts = Some t
    \<Longrightarrow> find (\<lambda>u. tb_name u = n) (update_where (\<lambda>u. tb_name u = n) f ts) = Some (f t)" for ts
    by (induction ts) (auto simp: update_where_def assms(2) split: if_splits)
  with assms(1) show ?thesis by (simp add: table_named_def on_table_def)
qed

text \<open>A change of one table that keeps its name and its columns leaves the others as good as before.\<close>

lemma ref_kept:
  assumes "schema_ok s" and "table_named n s = Some t" and "\<And>u. tb_name (f u) = tb_name u"
    and "set (column_names t) \<subseteq> set (column_names (f t))" and "ref_known (sc_tables s) r"
  shows "ref_known (sc_tables (on_table n f s)) r"
proof (cases r)
  case (Some p)
  obtain target c where p: "p = (target, c)" by (cases p)
  with assms(5) Some obtain v where v: "v \<in> set (sc_tables s)" "tb_name v = target" "c \<in> set (column_names v)"
    by (auto simp: ref_known_def list_ex_iff)
  let ?v = "if tb_name v = n then f v else v"
  have "c \<in> set (column_names ?v)" using v(3) assms(4) table_namedD(3) [OF assms(1,2) v(1)] by auto
  moreover have "?v \<in> set (sc_tables (on_table n f s))" using v(1) by (auto simp: on_table_def in_update_where)
  moreover have "tb_name ?v = target" using v(2) assms(3) by simp
  ultimately show ?thesis unfolding ref_known_def Some p list_ex_iff by auto
qed (simp add: ref_known_def)

lemma table_ok_kept:
  assumes "schema_ok s" and "table_named n s = Some t" and "\<And>u. tb_name (f u) = tb_name u"
    and "set (column_names t) \<subseteq> set (column_names (f t))" and "table_ok s v"
  shows "table_ok (on_table n f s) v"
proof -
  have "type_known (on_table n f s) ty = type_known s ty" for ty by (cases ty) (simp_all add: on_table_def)
  with assms(5) ref_kept [OF assms(1-4)] show ?thesis by (auto simp: table_ok_def list_all_iff)
qed

lemma on_table_ok:
  assumes "schema_ok s" and "table_named n s = Some t" and "\<And>u. tb_name (f u) = tb_name u"
    and "set (column_names t) \<subseteq> set (column_names (f t))" and "table_ok s (f t)"
  shows "schema_ok (on_table n f s)"
proof -
  note kept = table_ok_kept [OF assms(1-4)]
  have "table_ok (on_table n f s) v'" if "v' \<in> set (sc_tables (on_table n f s))" for v'
  proof -
    from that obtain v where v: "v \<in> set (sc_tables s)" "v' = (if tb_name v = n then f v else v)"
      by (auto simp: on_table_def in_update_where)
    then show ?thesis
      using table_namedD(3) [OF assms(1,2) v(1)] kept [OF assms(5)] kept [OF schema_okD(3) [OF assms(1) v(1)]]
      by (cases "tb_name v = n") auto
  qed
  moreover have "map tb_name (sc_tables (on_table n f s)) = map tb_name (sc_tables s)"
    by (simp add: on_table_def update_where_def assms(3))
  ultimately show ?thesis using assms(1) by (simp add: schema_ok_def list_all_iff on_table_def)
qed

lemma named_relation: "t \<in> set (sc_tables s) \<Longrightarrow> tb_name t \<in> set (relation_names s)"
    "t \<in> set (sc_tables s) \<Longrightarrow> x \<in> set (tb_indexes t) \<Longrightarrow> fst x \<in> set (relation_names s)"
  by (auto simp: relation_names_def)

lemma index_undone: "undone_by [Create_index i n cs] [Drop_index i n]"
proof (rule undone_single)
  fix s s' assume ok: "schema_ok s" and a: "apply_ddl (Create_index i n cs) s = Some s'"
  then obtain t where t: "table_named n s = Some t" and i: "i \<notin> set (relation_names s)"
    and cs: "set cs \<subseteq> set (column_names t)" and s': "s' = on_table n (with_index i cs) s"
    by (auto split: option.splits if_splits)
  note tn = table_namedD [OF ok t]
  have "table_ok s (with_index i cs t)" using tn(4) cs by (simp add: table_ok_def with_index_def)
  then have "schema_ok s'"
    unfolding s' by (intro on_table_ok [OF ok t]) (simp_all add: with_index_def)
  moreover have "filter (\<lambda>x. fst x \<noteq> i) (tb_indexes t) = tb_indexes t"
    using named_relation(2) [OF tn(1)] i by (intro filter_True) metis
  then have "without_index i (with_index i cs t) = t" by (simp add: without_index_def with_index_def)
  then have "on_table n (without_index i) s' = s"
    unfolding s' using tn(2) by (intro on_table_back [OF ok t]) (simp_all add: with_index_def)
  ultimately show "schema_ok s' \<and> apply_ddl (Drop_index i n) s' = Some s"
    by (simp add: s' on_table_named [OF t, of "with_index i cs"] with_index_def)
qed

text \<open>Nothing refers to a column that is not there.\<close>

lemma ref_elsewhere:
  assumes "schema_ok s" and "table_named n s = Some t" and "c \<notin> set (column_names t)"
    and "ref_known (sc_tables s) (Some (n, x))"
  shows "x \<noteq> c"
  using assms(3,4) table_namedD(3) [OF assms(1,2)] by (auto simp: ref_known_def list_ex_iff)

lemma column_undone: "undone_by [Add_column n c] [Drop_column n (cl_name c)]"
proof (rule undone_single)
  fix s s' assume ok: "schema_ok s" and a: "apply_ddl (Add_column n c) s = Some s'"
  then obtain t where t: "table_named n s = Some t" and new: "cl_name c \<notin> set (column_names t)"
    and known: "type_known s (cl_type c)" "ref_known (sc_tables s) (cl_refs c)" and s': "s' = on_table n (with_column c) s"
    by (auto split: option.splits if_splits)
  note tn = table_namedD [OF ok t] and td = table_okD [OF table_namedD(4) [OF ok t]]
  have "table_ok s (with_column c t)"
    using tn(4) new known by (auto simp: table_ok_def with_column_def list_all_iff)
  then have ok': "schema_ok s'"
    unfolding s' by (intro on_table_ok [OF ok t]) (auto simp: with_column_def)
  have keys: "filter (\<lambda>x. cl_name c \<notin> set (snd x)) xs = xs"
    if "set xs \<subseteq> set (tb_unique t) \<union> set (tb_indexes t)" for xs
    using that new td(4) by (intro filter_True) fastforce
  have rows: "filter (\<lambda>v. fst v \<noteq> cl_name c) r = r" if "r \<in> set (tb_rows t)" for r
    using td(5) [OF that] new by (intro filter_True) (metis in_set_zip image_eqI list.set_map)
  have "filter (\<lambda>x. cl_name x \<noteq> cl_name c) (tb_columns t) = tb_columns t"
    using new by (intro filter_True) (metis image_eqI list.set_map)
  then have "without_column (cl_name c) (with_column c t) = t"
    using keys rows by (simp add: without_column_def with_column_def comp_def map_idI)
  then have "on_table n (without_column (cl_name c)) s' = s"
    unfolding s' using tn(2) by (intro on_table_back [OF ok t]) (simp_all add: with_column_def)
  moreover have "\<not> (\<exists>x. cl_refs k = Some (n, x) \<and> x = cl_name c)"
    if v: "v \<in> set (sc_tables s')" "k \<in> set (tb_columns v)" for v k
  proof -
    have "ref_known (sc_tables s) (cl_refs k)"
      using v known(2) by (auto simp: s' on_table_def in_update_where with_column_def
          dest: table_okD(3) [OF schema_okD(3) [OF ok]] split: if_splits)
    then show ?thesis using ref_elsewhere [OF ok t new] by metis
  qed
  then have "\<not> referred_to n (\<lambda>x. x = cl_name c) (sc_tables s')"
    by (fastforce simp: referred_to_def list_ex_iff split: option.splits)
  ultimately show "schema_ok s' \<and> apply_ddl (Drop_column n (cl_name c)) s' = Some s"
    using ok' by (simp add: s' on_table_named [OF t, of "with_column c"] with_column_def)
qed

section \<open>A table, its indexes and its first rows\<close>

fun local_to :: "string \<Rightarrow> ddl \<Rightarrow> bool" where
  "local_to n (Create_index i m cs) = (m = n)"
| "local_to n (Insert_into m rows) = (m = n)"
| "local_to n _ = False"

abbreviation others :: "string \<Rightarrow> schema \<Rightarrow> table_def list" where
  "others n s \<equiv> filter (\<lambda>t. tb_name t \<noteq> n) (sc_tables s)"

lemma others_kept: "(\<And>u. tb_name (f u) = tb_name u) \<Longrightarrow> others n (on_table n f s) = others n s"
  by (auto simp: on_table_def update_where_def filter_map comp_def cong: filter_cong intro!: map_idI)

lemma full_rows_ok: "table_ok s t \<Longrightarrow> table_ok s (with_rows rows t)"
  by (auto simp: table_ok_def with_rows_def full_row_def list_all_iff)

lemma local_kept:
  assumes "local_to n x" and "schema_ok s" and "apply_ddl x s = Some s'" and "table_named n s \<noteq> None"
  shows "schema_ok s' \<and> table_named n s' \<noteq> None \<and> others n s' = others n s \<and> sc_types s' = sc_types s"
proof -
  obtain t where t: "table_named n s = Some t" using assms(4) by blast
  have name: "tb_name (with_index i cs u) = tb_name u" "tb_name (with_rows rows u) = tb_name u" for i cs rows u
    by (simp_all add: with_index_def with_rows_def)
  show ?thesis
  proof (cases x)
    case (Create_index i m cs)
    have "schema_ok s'"
      using undone_byD [OF index_undone assms(2), of i m cs s'] assms(3) by (simp add: Create_index)
    moreover have "s' = on_table n (with_index i cs) s"
      using assms(1,3) t by (auto simp: Create_index split: if_splits)
    ultimately show ?thesis
      by (simp add: others_kept on_table_named [OF t] name) (simp add: on_table_def)
  next
    case (Insert_into m rows)
    have s': "s' = on_table n (with_rows rows) s"
      using assms(1,3) t by (auto simp: Insert_into split: if_splits)
    have "schema_ok s'"
      unfolding s' using full_rows_ok [OF table_namedD(4) [OF assms(2) t]]
      by (intro on_table_ok [OF assms(2) t]) (simp_all add: with_rows_def)
    then show ?thesis
      unfolding s' by (simp add: others_kept on_table_named [OF t] name) (simp add: on_table_def)
  qed (use assms(1) in simp_all)
qed

lemma locals_kept:
  "list_all (local_to n) xs \<Longrightarrow> schema_ok s \<Longrightarrow> run_ddl xs s = Some s' \<Longrightarrow> table_named n s \<noteq> None
   \<Longrightarrow> schema_ok s' \<and> table_named n s' \<noteq> None \<and> others n s' = others n s \<and> sc_types s' = sc_types s"
proof (induction xs arbitrary: s)
  case (Cons x xs)
  from Cons.prems(3) obtain s1 where s1: "apply_ddl x s = Some s1" "run_ddl xs s1 = Some s'"
    by (auto split: option.splits)
  have "local_to n x" using Cons.prems(1) by simp
  from local_kept [OF this Cons.prems(2) s1(1) Cons.prems(4)] Cons.IH [OF _ _ s1(2)] Cons.prems(1) show ?case by simp
qed simp

lemma created_ok:
  assumes "schema_ok s" and "apply_ddl (Create_table n cs us) s = Some s'"
  shows "schema_ok s' \<and> table_named n s' \<noteq> None \<and> others n s' = sc_tables s \<and> sc_types s' = sc_types s"
proof -
  let ?t = "\<lparr>tb_name = n, tb_columns = cs, tb_unique = us, tb_indexes = [], tb_rows = []\<rparr>"
  have s': "s' = s\<lparr>sc_tables := sc_tables s @ [?t]\<rparr>" and d: "distinct (relation_names s')" and t: "table_ok s' ?t"
    using assms(2) by (auto simp: Let_def split: if_splits)
  have "n \<notin> set (relation_names s)" using d by (simp add: s' relation_names_def)
  then have new: "\<forall>u\<in>set (sc_tables s). tb_name u \<noteq> n" using named_relation(1) by metis
  have "type_known s' ty = type_known s ty" for ty by (cases ty) (simp_all add: s')
  then have "table_ok s' u" if "u \<in> set (sc_tables s)" for u
    using schema_okD(3) [OF assms(1) that] ref_known_more by (auto simp: table_ok_def list_all_iff s')
  then have "schema_ok s'"
    using assms(1) t new by (auto simp: schema_ok_def list_all_iff s')
  moreover have "others n s' = sc_tables s" using new by (simp add: s' filter_id_conv)
  ultimately show ?thesis by (auto simp: s' table_named_def find_None_all)
qed

lemma table_undone:
  assumes "list_all (local_to n) xs"
  shows "undone_by (Create_table n cs us # xs) [Drop_table n]"
  unfolding undone_by_def
proof (intro allI impI)
  fix s s' assume ok: "schema_ok s" and r: "run_ddl (Create_table n cs us # xs) s = Some s'"
  then obtain s1 where s1: "apply_ddl (Create_table n cs us) s = Some s1" and xs: "run_ddl xs s1 = Some s'"
    by (auto simp del: apply_ddl.simps split: option.splits)
  note c = created_ok [OF ok s1]
  have k: "schema_ok s'" "table_named n s' \<noteq> None" "others n s' = sc_tables s" "sc_types s' = sc_types s"
    using locals_kept [OF assms _ xs] c by simp_all
  have "\<not> cl_refs col = Some (n, x)" if "u \<in> set (sc_tables s)" "col \<in> set (tb_columns u)" for u col x
  proof
    assume "cl_refs col = Some (n, x)"
    with table_okD(3) [OF schema_okD(3) [OF ok that(1)] that(2)]
    obtain v where "v \<in> set (sc_tables s)" "tb_name v = n" by (auto simp: ref_known_def list_ex_iff)
    then have "v \<in> set (others n s')" "tb_name v = n" using k(3) by simp_all
    then show False by simp
  qed
  then have "\<not> referred_to n (\<lambda>_. True) (sc_tables s)"
    by (fastforce simp: referred_to_def list_ex_iff split: option.splits)
  then show "schema_ok s' \<and> run_ddl [Drop_table n] s' = Some s" using k by simp
qed

section \<open>Deciding that a list is undone\<close>

fun undo_of :: "ddl \<Rightarrow> ddl option" where
  "undo_of (Create_type n vs) = Some (Drop_type n)"
| "undo_of (Create_table n cs us) = Some (Drop_table n)"
| "undo_of (Create_index i n cs) = Some (Drop_index i n)"
| "undo_of (Add_column n c) = Some (Drop_column n (cl_name c))"
| "undo_of _ = None"

definition created_table :: "ddl \<Rightarrow> string option" where
  "created_table x = (case x of Create_table n cs us \<Rightarrow> Some n | _ \<Rightarrow> None)"

text \<open>
  \<open>ys\<close> undoes \<open>xs\<close> in reverse, each operation by its inverse; dropping a table also undoes the
  indexes and rows it got right after its creation.
\<close>

function undoes :: "ddl list \<Rightarrow> ddl list \<Rightarrow> bool" where
  "undoes [] ys = (ys = [])"
| "undoes (x # xs) ys = (case ys of [] \<Rightarrow> False
     | y # ys' \<Rightarrow> undo_of x = Some y \<and> (undoes xs ys'
         \<or> (case created_table x of None \<Rightarrow> False | Some n \<Rightarrow> undoes (dropWhile (local_to n) xs) ys')))"
  by pat_completeness auto
termination
  by (relation "measure (\<lambda>(xs, ys). length xs)") (auto intro: le_imp_less_Suc length_dropWhile_le)

lemma undo_of_undone: "undo_of x = Some y \<Longrightarrow> undone_by [x] [y]"
  using type_undone index_undone column_undone table_undone [of _ "[]"]
  by (cases x) auto

lemma undoes_sound: "undoes xs ys \<Longrightarrow> undone_by xs (rev ys)"
proof (induction xs ys rule: undoes.induct)
  case (2 x xs ys)
  then obtain y ys' where ys: "ys = y # ys'" and inv: "undo_of x = Some y"
    and or: "undoes xs ys' \<or> (\<exists>n. created_table x = Some n \<and> undoes (dropWhile (local_to n) xs) ys')"
    by (auto split: list.splits option.splits)
  from or show ?case
  proof
    assume "undoes xs ys'"
    from undone_append [OF undo_of_undone [OF inv] "2.IH"(1) [OF ys this]] show ?thesis by (simp add: ys)
  next
    assume "\<exists>n. created_table x = Some n \<and> undoes (dropWhile (local_to n) xs) ys'"
    then obtain n cs us where n: "x = Create_table n cs us" "undoes (dropWhile (local_to n) xs) ys'"
      by (auto simp: created_table_def split: ddl.splits)
    let ?us = "takeWhile (local_to n) xs"
    have "list_all (local_to n) ?us" by (auto simp: list_all_iff dest: set_takeWhileD)
    from undone_append [OF table_undone [OF this] "2.IH"(2) [OF ys _ n(2)]] n(1) inv
    show ?thesis by (simp add: ys created_table_def)
  qed
qed simp

end
