(* ===== verification/Migrations.thy ===== *)
theory Migrations
  imports Schema SendLimits
begin

text \<open>
  The schema history, \<open>migrations/versions/*.py\<close>: the ten revisions as lists of operations, the
  transaction \<open>migrations/env.py\<close> runs them in, and the tables the classes of \<open>app/models/\<close> declare.
  The theorems say that the revisions undo each other, that they end in the tables the code
  declares, and that a freshly migrated installation is ready to quote.
\<close>

section \<open>The revisions\<close>

record revision =
  rv_id :: string
  rv_down :: "string option"
  rv_upgrade :: "ddl list"
  rv_downgrade :: "ddl list"

abbreviation stamp :: "string \<Rightarrow> column" where
  "stamp n \<equiv> defaulting n Timestamptz Now"

definition revision_0001 :: revision where
  "revision_0001 = \<lparr>rv_id = ''0001'', rv_down = None,
     rv_upgrade =
      [Create_type ''kycstatus'' [''not_submitted'', ''pending'', ''approved'', ''rejected''],
       Create_type ''kycsubmissionstatus'' [''pending'', ''approved'', ''rejected''],
       Create_table ''users''
        [primary_id, required ''email'' (Varchar 255), required ''mobile'' (Varchar 50),
         required ''full_name'' (Varchar 255), required ''password_hash'' (Varchar 255),
         defaulting ''is_admin'' Boolean_column (Boolean False), defaulting ''can_send'' Boolean_column (Boolean True),
         defaulting ''can_receive'' Boolean_column (Boolean False),
         defaulting ''kyc_status'' (Enum_column ''kycstatus'') (Str ''not_submitted''),
         stamp ''created_at'', stamp ''updated_at'']
        [(''uq_users_email'', [''email'']), (''uq_users_mobile'', [''mobile''])],
       Create_index ''ix_users_email'' ''users'' [''email''],
       Create_table ''kyc_submissions''
        [primary_id, referring ''users'' (required ''user_id'' Uuid_column), required ''full_name'' (Varchar 255),
         required ''date_of_birth'' Date_column, required ''nationality'' (Varchar 100),
         required ''id_number'' (Varchar 100), required ''residential_address'' Text_column,
         required ''mobile'' (Varchar 50), required ''email'' (Varchar 255), required ''source_of_funds'' Text_column,
         defaulting ''status'' (Enum_column ''kycsubmissionstatus'') (Str ''pending''),
         optional ''rejection_reason'' Text_column, referring ''users'' (optional ''reviewed_by'' Uuid_column),
         optional ''reviewed_at'' Timestamptz, stamp ''submitted_at'']
        [],
       Create_index ''ix_kyc_submissions_user_id'' ''kyc_submissions'' [''user_id''],
       Create_index ''ix_kyc_submissions_status'' ''kyc_submissions'' [''status'']],
     rv_downgrade =
      [Drop_table ''kyc_submissions'', Drop_table ''users'', Drop_type ''kycsubmissionstatus'', Drop_type ''kycstatus'']\<rparr>"

definition revision_0002 :: revision where
  "revision_0002 = \<lparr>rv_id = ''0002'', rv_down = Some ''0001'',
     rv_upgrade =
      [Create_type ''payoutcurrency'' [''USD'', ''ZAR''],
       Create_table ''beneficiaries''
        [primary_id, referring ''users'' (required ''sender_id'' Uuid_column),
         referring ''users'' (optional ''recipient_user_id'' Uuid_column), required ''full_name'' (Varchar 255),
         optional ''email'' (Varchar 255), optional ''mobile'' (Varchar 50), required ''country'' (Varchar 100),
         required ''payout_currency'' (Enum_column ''payoutcurrency''), required ''relationship'' (Varchar 100),
         defaulting ''is_active'' Boolean_column (Boolean True), stamp ''created_at'']
        [],
       Create_index ''ix_beneficiaries_sender_id'' ''beneficiaries'' [''sender_id''],
       Create_table ''limit_tiers''
        [primary_id, required ''tier_name'' (Varchar 50), required ''daily_limit_zar'' (Numeric 20 2),
         required ''monthly_limit_zar'' (Numeric 20 2)]
        [(''uq_limit_tiers_tier_name'', [''tier_name''])],
       Insert_into ''limit_tiers''
        [[(''id'', Generated 0), (''tier_name'', Str ''unverified''), (''daily_limit_zar'', Number 0),
          (''monthly_limit_zar'', Number 0)],
         [(''id'', Generated 1), (''tier_name'', Str ''standard''), (''daily_limit_zar'', Number 10000),
          (''monthly_limit_zar'', Number 50000)]]],
     rv_downgrade = [Drop_table ''limit_tiers'', Drop_table ''beneficiaries'', Drop_type ''payoutcurrency'']\<rparr>"

definition revision_0003 :: revision where
  "revision_0003 = \<lparr>rv_id = ''0003'', rv_down = Some ''0002'',
     rv_upgrade =
      [Create_table ''fee_config''
        [primary_id, required ''fixed_fee_zar'' (Numeric 20 2), required ''percentage_fee'' (Numeric 10 6),
         required ''fx_margin'' (Numeric 10 6), required ''cashout_fee_percentage'' (Numeric 10 6),
         required ''cashout_fee_min_usd'' (Numeric 20 6), required ''market_rate_zar_per_usd'' (Numeric 20 6),
         defaulting ''is_active'' Boolean_column (Boolean True), stamp ''created_at'']
        [],
       Insert_into ''fee_config''
        [[(''id'', Generated 2), (''fixed_fee_zar'', Number 25), (''percentage_fee'', Number 0.015),
          (''fx_margin'', Number 0.02), (''cashout_fee_percentage'', Number 0.01), (''cashout_fee_min_usd'', Number 1),
          (''market_rate_zar_per_usd'', Number 18.5), (''is_active'', Boolean True)]],
       Create_type ''cashinstatus'' [''pending'', ''received'', ''failed''],
       Create_type ''settlementstatus'' [''not_queued'', ''queued'', ''processing'', ''completed'', ''failed''],
       Create_table ''transactions''
        [primary_id, referring ''users'' (required ''sender_id'' Uuid_column),
         referring ''beneficiaries'' (required ''beneficiary_id'' Uuid_column), required ''zar_amount'' (Numeric 20 2),
         required ''transaction_fee'' (Numeric 20 2), required ''net_zar_converted'' (Numeric 20 2),
         required ''market_rate'' (Numeric 20 6), required ''exchange_rate'' (Numeric 20 6),
         required ''fx_margin'' (Numeric 10 6), required ''uctusd_amount'' (Numeric 20 6),
         required ''idempotency_key'' Uuid_column,
         defaulting ''cashin_status'' (Enum_column ''cashinstatus'') (Str ''pending''),
         defaulting ''settlement_status'' (Enum_column ''settlementstatus'') (Str ''not_queued''),
         optional ''xrpl_tx_hash'' (Varchar 64), stamp ''created_at'', stamp ''updated_at'']
        [(''uq_transactions_idempotency_key'', [''idempotency_key''])],
       Create_index ''ix_transactions_sender_id'' ''transactions'' [''sender_id''],
       Create_index ''ix_transactions_beneficiary_id'' ''transactions'' [''beneficiary_id''],
       Create_index ''ix_transactions_created_at'' ''transactions'' [''created_at'']],
     rv_downgrade =
      [Drop_table ''transactions'', Drop_type ''settlementstatus'', Drop_type ''cashinstatus'', Drop_table ''fee_config'']\<rparr>"

definition revision_0004 :: revision where
  "revision_0004 = \<lparr>rv_id = ''0004'', rv_down = Some ''0003'',
     rv_upgrade =
      [Create_table ''wallets''
        [primary_id, referring ''users'' (required ''user_id'' Uuid_column), required ''xrpl_address'' (Varchar 35),
         required ''encrypted_private_key'' Text_column, required ''key_encryption_key_id'' (Varchar 64),
         defaulting ''trust_set_complete'' Boolean_column (Boolean False),
         defaulting ''balance_uctusd'' (Numeric 20 6) (Number 0), stamp ''created_at'', stamp ''updated_at'']
        [(''uq_wallets_user_id'', [''user_id'']), (''uq_wallets_xrpl_address'', [''xrpl_address''])]],
     rv_downgrade = [Drop_table ''wallets'']\<rparr>"

definition revision_0005 :: revision where
  "revision_0005 = \<lparr>rv_id = ''0005'', rv_down = Some ''0004'',
     rv_upgrade =
      [Add_column ''transactions'' (referring ''users'' (optional ''recipient_user_id'' Uuid_column)),
       Create_index ''ix_transactions_recipient_user_id'' ''transactions'' [''recipient_user_id''],
       Add_column ''transactions'' (optional ''card_last4'' (Varchar 4)),
       Add_column ''transactions'' (optional ''cashin_updated_at'' Timestamptz),
       Add_column ''transactions'' (referring ''users'' (optional ''cashin_reviewed_by'' Uuid_column)),
       Add_column ''transactions'' (optional ''cashin_failure_reason'' Text_column),
       Add_column ''transactions'' (defaulting ''settlement_attempts'' Integer_column (Number 0)),
       Add_column ''transactions'' (optional ''xrpl_error_reason'' Text_column),
       Add_column ''transactions'' (optional ''settled_at'' Timestamptz)],
     rv_downgrade =
      [Drop_column ''transactions'' ''settled_at'', Drop_column ''transactions'' ''xrpl_error_reason'',
       Drop_column ''transactions'' ''settlement_attempts'', Drop_column ''transactions'' ''cashin_failure_reason'',
       Drop_column ''transactions'' ''cashin_reviewed_by'', Drop_column ''transactions'' ''cashin_updated_at'',
       Drop_column ''transactions'' ''card_last4'', Drop_index ''ix_transactions_recipient_user_id'' ''transactions'',
       Drop_column ''transactions'' ''recipient_user_id'']\<rparr>"

definition revision_0006 :: revision where
  "revision_0006 = \<lparr>rv_id = ''0006'', rv_down = Some ''0005'',
     rv_upgrade =
      [Create_type ''cashoutstatus'' [''requested'', ''approved'', ''completed'', ''failed''],
       Create_table ''cashout_requests''
        [primary_id, referring ''users'' (required ''recipient_user_id'' Uuid_column),
         referring ''wallets'' (required ''wallet_id'' Uuid_column), required ''uctusd_amount'' (Numeric 20 6),
         required ''target_currency'' (Enum_column ''payoutcurrency''), required ''market_rate'' (Numeric 20 6),
         required ''cashout_fee_percentage'' (Numeric 10 6), required ''cashout_fee_min_usd'' (Numeric 20 6),
         required ''cashout_fee_usd'' (Numeric 20 6), required ''net_payout'' (Numeric 20 6),
         defaulting ''status'' (Enum_column ''cashoutstatus'') (Str ''requested''),
         referring ''users'' (optional ''approved_by'' Uuid_column), optional ''approved_at'' Timestamptz,
         optional ''completed_at'' Timestamptz, optional ''failure_reason'' Text_column,
         required ''idempotency_key'' Uuid_column, optional ''xrpl_burn_tx_hash'' (Varchar 64),
         optional ''burn_last_ledger_sequence'' Integer_column, optional ''burn_submitted_ledger_index'' Integer_column,
         optional ''burn_started_at'' Timestamptz, defaulting ''burn_attempts'' Integer_column (Number 0),
         optional ''fiat_payout_reference'' (Varchar 64), optional ''fiat_paid_at'' Timestamptz,
         stamp ''created_at'', stamp ''updated_at'']
        [(''uq_cashout_requests_idempotency_key'', [''idempotency_key''])],
       Create_index ''ix_cashout_requests_recipient_user_id'' ''cashout_requests'' [''recipient_user_id''],
       Create_index ''ix_cashout_requests_created_at'' ''cashout_requests'' [''created_at'']],
     rv_downgrade =
      [Drop_index ''ix_cashout_requests_created_at'' ''cashout_requests'',
       Drop_index ''ix_cashout_requests_recipient_user_id'' ''cashout_requests'',
       Drop_table ''cashout_requests'', Drop_type ''cashoutstatus'']\<rparr>"

definition revision_0007 :: revision where
  "revision_0007 = \<lparr>rv_id = ''0007'', rv_down = Some ''0006'',
     rv_upgrade =
      [Add_column ''transactions'' (defaulting ''aml_flagged'' Boolean_column (Boolean False)),
       Create_index ''ix_transactions_aml_flagged'' ''transactions'' [''aml_flagged'']],
     rv_downgrade =
      [Drop_index ''ix_transactions_aml_flagged'' ''transactions'', Drop_column ''transactions'' ''aml_flagged'']\<rparr>"

definition revision_0008 :: revision where
  "revision_0008 = \<lparr>rv_id = ''0008'', rv_down = Some ''0007'',
     rv_upgrade = [Add_column ''fee_config'' (defaulting ''min_send_zar'' (Numeric 20 2) (Number 50))],
     rv_downgrade = [Drop_column ''fee_config'' ''min_send_zar'']\<rparr>"

definition revision_0009 :: revision where
  "revision_0009 = \<lparr>rv_id = ''0009'', rv_down = Some ''0008'',
     rv_upgrade =
      [Add_column ''transactions'' (optional ''settlement_last_ledger_sequence'' Integer_column),
       Add_column ''transactions'' (optional ''settlement_submitted_ledger_index'' Integer_column)],
     rv_downgrade =
      [Drop_column ''transactions'' ''settlement_submitted_ledger_index'',
       Drop_column ''transactions'' ''settlement_last_ledger_sequence'']\<rparr>"

definition revision_0010 :: revision where
  "revision_0010 = \<lparr>rv_id = ''0010'', rv_down = Some ''0009'',
     rv_upgrade = [Add_column ''transactions'' (defaulting ''settlement_previous_attempts'' Jsonb_column (Str ''[]''))],
     rv_downgrade = [Drop_column ''transactions'' ''settlement_previous_attempts'']\<rparr>"

definition revisions :: "revision list" where
  "revisions = [revision_0001, revision_0002, revision_0003, revision_0004, revision_0005, revision_0006,
     revision_0007, revision_0008, revision_0009, revision_0010]"

lemmas revision_defs = revision_0001_def revision_0002_def revision_0003_def revision_0004_def revision_0005_def
  revision_0006_def revision_0007_def revision_0008_def revision_0009_def revision_0010_def

text \<open>
  \<open>alembic upgrade\<close> and \<open>downgrade\<close>: one transaction over the revisions after the current one, in
  the order of their \<open>down_revision\<close>.
\<close>

definition upgrade :: "revision list \<Rightarrow> schema \<Rightarrow> schema option" where
  "upgrade rs s = run_ddl (concat (map rv_upgrade rs)) s"

definition downgrade :: "revision list \<Rightarrow> schema \<Rightarrow> schema option" where
  "downgrade rs s = run_ddl (concat (map rv_downgrade (rev rs))) s"

definition run_migrations :: "schema \<Rightarrow> schema" where
  "run_migrations s = (case upgrade revisions s of None \<Rightarrow> s | Some s' \<Rightarrow> s')"

fun chained :: "string option \<Rightarrow> revision list \<Rightarrow> bool" where
  "chained prev [] = True"
| "chained prev (r # rs) = (rv_down r = prev \<and> chained (Some (rv_id r)) rs)"

lemma revisions_chained: "chained None revisions" "distinct (map rv_id revisions)"
  by (simp_all add: revisions_def revision_defs)

section \<open>Every revision undoes itself\<close>

lemma revision_undone: "r \<in> set revisions \<Longrightarrow> undone_by (rv_upgrade r) (rv_downgrade r)"
proof -
  have "list_all (\<lambda>r. undoes (rv_upgrade r) (rev (rv_downgrade r))) revisions" by code_simp
  then show "r \<in> set revisions \<Longrightarrow> undone_by (rv_upgrade r) (rv_downgrade r)"
    using undoes_sound by (fastforce simp: list_all_iff)
qed

lemma upgrades_undone:
  "(\<And>r. r \<in> set rs \<Longrightarrow> undone_by (rv_upgrade r) (rv_downgrade r))
   \<Longrightarrow> undone_by (concat (map rv_upgrade rs)) (concat (map rv_downgrade (rev rs)))"
  by (induction rs) (auto intro: undone_append)


section \<open>The tables the code declares\<close>

text \<open>
  \<open>Base.metadata\<close> after importing \<open>app.models\<close>: the columns of each class with type, nullability,
  foreign key and primary key; \<open>unique=True\<close> and \<open>index=True\<close> as column lists (their names are
  generated). Python-side defaults are no part of the schema.
\<close>

definition declared :: "string \<Rightarrow> column list \<Rightarrow> string list \<Rightarrow> string list \<Rightarrow> table_def" where
  "declared n cs uniques indexes = \<lparr>tb_name = n, tb_columns = cs, tb_unique = map (\<lambda>c. ([], [c])) uniques,
     tb_indexes = map (\<lambda>c. ([], [c])) indexes, tb_rows = []\<rparr>"

definition users_table :: table_def where
  "users_table = declared ''users''
     [primary_id, required ''email'' (Varchar 255), required ''mobile'' (Varchar 50),
      required ''full_name'' (Varchar 255), required ''password_hash'' (Varchar 255),
      required ''is_admin'' Boolean_column, required ''can_send'' Boolean_column, required ''can_receive'' Boolean_column,
      required ''kyc_status'' (Enum_column ''kycstatus''), required ''created_at'' Timestamptz,
      required ''updated_at'' Timestamptz]
     [''email'', ''mobile''] [''email'']"

definition kyc_submissions_table :: table_def where
  "kyc_submissions_table = declared ''kyc_submissions''
     [primary_id, referring ''users'' (required ''user_id'' Uuid_column), required ''full_name'' (Varchar 255),
      required ''date_of_birth'' Date_column, required ''nationality'' (Varchar 100), required ''id_number'' (Varchar 100),
      required ''residential_address'' Text_column, required ''mobile'' (Varchar 50), required ''email'' (Varchar 255),
      required ''source_of_funds'' Text_column, required ''status'' (Enum_column ''kycsubmissionstatus''),
      optional ''rejection_reason'' Text_column, referring ''users'' (optional ''reviewed_by'' Uuid_column),
      optional ''reviewed_at'' Timestamptz, required ''submitted_at'' Timestamptz]
     [] [''user_id'', ''status'']"

definition beneficiaries_table :: table_def where
  "beneficiaries_table = declared ''beneficiaries''
     [primary_id, referring ''users'' (required ''sender_id'' Uuid_column),
      referring ''users'' (optional ''recipient_user_id'' Uuid_column), required ''full_name'' (Varchar 255),
      optional ''email'' (Varchar 255), optional ''mobile'' (Varchar 50), required ''country'' (Varchar 100),
      required ''payout_currency'' (Enum_column ''payoutcurrency''), required ''relationship'' (Varchar 100),
      required ''is_active'' Boolean_column, required ''created_at'' Timestamptz]
     [] [''sender_id'']"

definition limit_tiers_table :: table_def where
  "limit_tiers_table = declared ''limit_tiers''
     [primary_id, required ''tier_name'' (Varchar 50), required ''daily_limit_zar'' (Numeric 20 2),
      required ''monthly_limit_zar'' (Numeric 20 2)]
     [''tier_name''] []"

definition fee_config_table :: table_def where
  "fee_config_table = declared ''fee_config''
     [primary_id, required ''fixed_fee_zar'' (Numeric 20 2), required ''percentage_fee'' (Numeric 10 6),
      required ''fx_margin'' (Numeric 10 6), required ''cashout_fee_percentage'' (Numeric 10 6),
      required ''cashout_fee_min_usd'' (Numeric 20 6), required ''min_send_zar'' (Numeric 20 2),
      required ''market_rate_zar_per_usd'' (Numeric 20 6), required ''is_active'' Boolean_column,
      required ''created_at'' Timestamptz]
     [] []"

definition transactions_table :: table_def where
  "transactions_table = declared ''transactions''
     [primary_id, referring ''users'' (required ''sender_id'' Uuid_column),
      referring ''beneficiaries'' (required ''beneficiary_id'' Uuid_column),
      referring ''users'' (optional ''recipient_user_id'' Uuid_column), required ''zar_amount'' (Numeric 20 2),
      required ''transaction_fee'' (Numeric 20 2), required ''net_zar_converted'' (Numeric 20 2),
      required ''market_rate'' (Numeric 20 6), required ''exchange_rate'' (Numeric 20 6),
      required ''fx_margin'' (Numeric 10 6), required ''uctusd_amount'' (Numeric 20 6), required ''idempotency_key'' Uuid_column,
      required ''cashin_status'' (Enum_column ''cashinstatus''),
      required ''settlement_status'' (Enum_column ''settlementstatus''), optional ''card_last4'' (Varchar 4),
      optional ''cashin_updated_at'' Timestamptz, referring ''users'' (optional ''cashin_reviewed_by'' Uuid_column),
      optional ''cashin_failure_reason'' Text_column, optional ''xrpl_tx_hash'' (Varchar 64),
      optional ''settlement_last_ledger_sequence'' Integer_column,
      optional ''settlement_submitted_ledger_index'' Integer_column, required ''settlement_attempts'' Integer_column,
      required ''settlement_previous_attempts'' Jsonb_column, optional ''xrpl_error_reason'' Text_column,
      optional ''settled_at'' Timestamptz, required ''aml_flagged'' Boolean_column, required ''created_at'' Timestamptz,
      required ''updated_at'' Timestamptz]
     [''idempotency_key''] [''sender_id'', ''beneficiary_id'', ''recipient_user_id'', ''aml_flagged'', ''created_at'']"

definition wallets_table :: table_def where
  "wallets_table = declared ''wallets''
     [primary_id, referring ''users'' (required ''user_id'' Uuid_column), required ''xrpl_address'' (Varchar 35),
      required ''encrypted_private_key'' Text_column, required ''key_encryption_key_id'' (Varchar 64),
      required ''trust_set_complete'' Boolean_column, required ''balance_uctusd'' (Numeric 20 6),
      required ''created_at'' Timestamptz, required ''updated_at'' Timestamptz]
     [''user_id'', ''xrpl_address''] []"

definition cashout_requests_table :: table_def where
  "cashout_requests_table = declared ''cashout_requests''
     [primary_id, referring ''users'' (required ''recipient_user_id'' Uuid_column),
      referring ''wallets'' (required ''wallet_id'' Uuid_column), required ''uctusd_amount'' (Numeric 20 6),
      required ''target_currency'' (Enum_column ''payoutcurrency''), required ''market_rate'' (Numeric 20 6),
      required ''cashout_fee_percentage'' (Numeric 10 6), required ''cashout_fee_min_usd'' (Numeric 20 6),
      required ''cashout_fee_usd'' (Numeric 20 6), required ''net_payout'' (Numeric 20 6),
      required ''status'' (Enum_column ''cashoutstatus''), referring ''users'' (optional ''approved_by'' Uuid_column),
      optional ''approved_at'' Timestamptz, optional ''completed_at'' Timestamptz, optional ''failure_reason'' Text_column,
      required ''idempotency_key'' Uuid_column, optional ''xrpl_burn_tx_hash'' (Varchar 64),
      optional ''burn_last_ledger_sequence'' Integer_column, optional ''burn_submitted_ledger_index'' Integer_column,
      optional ''burn_started_at'' Timestamptz, required ''burn_attempts'' Integer_column,
      optional ''fiat_payout_reference'' (Varchar 64), optional ''fiat_paid_at'' Timestamptz,
      required ''created_at'' Timestamptz, required ''updated_at'' Timestamptz]
     [''idempotency_key''] [''recipient_user_id'', ''created_at'']"

definition declared_tables :: "table_def list" where
  "declared_tables = [users_table, kyc_submissions_table, beneficiaries_table, limit_tiers_table, fee_config_table,
     transactions_table, wallets_table, cashout_requests_table]"

text \<open>The members of the enumerations, by the names SQLAlchemy stores.\<close>

definition declared_types :: "(string \<times> string list) list" where
  "declared_types =
     [(''kycstatus'', [''not_submitted'', ''pending'', ''approved'', ''rejected'']),
      (''kycsubmissionstatus'', [''pending'', ''approved'', ''rejected'']), (''payoutcurrency'', [''USD'', ''ZAR'']),
      (''cashinstatus'', [''pending'', ''received'', ''failed'']),
      (''settlementstatus'', [''not_queued'', ''queued'', ''processing'', ''completed'', ''failed'']),
      (''cashoutstatus'', [''requested'', ''approved'', ''completed'', ''failed''])]"

definition same_shape :: "table_def \<Rightarrow> table_def \<Rightarrow> bool" where
  "same_shape t m \<longleftrightarrow> tb_name t = tb_name m
     \<and> set (map (\<lambda>c. c\<lparr>cl_default := None\<rparr>) (tb_columns t)) = set (tb_columns m)
     \<and> set (map snd (tb_unique t)) = set (map snd (tb_unique m))
     \<and> set (map snd (tb_indexes t)) = set (map snd (tb_indexes m))"

section \<open>A fresh installation\<close>

definition empty_schema :: schema where
  "empty_schema = \<lparr>sc_types = [], sc_tables = []\<rparr>"

definition head_schema :: schema where
  "head_schema = run_migrations empty_schema"

text \<open>Columns that later revisions added stand at the end of their table; \<open>p\<close> is their order.\<close>

definition shape_by :: "nat list \<Rightarrow> table_def \<Rightarrow> table_def \<Rightarrow> bool" where
  "shape_by p t m \<longleftrightarrow> tb_name t = tb_name m
     \<and> map (\<lambda>c. c\<lparr>cl_default := None\<rparr>) (tb_columns t) = map (\<lambda>i. tb_columns m ! i) p
     \<and> sort p = [0..<length (tb_columns m)]
     \<and> set (map snd (tb_unique t)) = set (map snd (tb_unique m))
     \<and> set (map snd (tb_indexes t)) = set (map snd (tb_indexes m))"

lemma shape_by_same: "shape_by p t m \<Longrightarrow> same_shape t m"
proof -
  assume s: "shape_by p t m"
  then have "set (sort p) = {0..<length (tb_columns m)}" unfolding shape_by_def by simp
  then have "(\<lambda>i. tb_columns m ! i) ` set p = set (tb_columns m)" by (simp add: nth_image)
  then have "set (map (\<lambda>c. c\<lparr>cl_default := None\<rparr>) (tb_columns t)) = set (tb_columns m)"
    using s unfolding shape_by_def by simp
  with s show ?thesis by (simp add: shape_by_def same_shape_def)
qed

definition column_order :: "nat list list" where
  "column_order = [[0..<11], [0..<15], [0..<11], [0..<4], [0, 1, 2, 3, 4, 5, 7, 8, 9, 6],
     [0, 1, 2, 4, 5, 6, 7, 8, 9, 10, 11, 12, 13, 18, 26, 27, 3, 14, 15, 16, 17, 21, 23, 24, 25, 19, 20, 22],
     [0..<9], [0..<25]]"

definition seeded_rows :: "(string \<times> (string \<times> sql_value) list list) list" where
  "seeded_rows =
     [(''limit_tiers'',
        [[(''id'', Generated 0), (''tier_name'', Str ''unverified''), (''daily_limit_zar'', Number 0),
          (''monthly_limit_zar'', Number 0)],
         [(''id'', Generated 1), (''tier_name'', Str ''standard''), (''daily_limit_zar'', Number 10000),
          (''monthly_limit_zar'', Number 50000)]]),
      (''fee_config'',
        [[(''id'', Generated 2), (''fixed_fee_zar'', Number 25), (''percentage_fee'', Number 0.015),
          (''fx_margin'', Number 0.02), (''cashout_fee_percentage'', Number 0.01), (''cashout_fee_min_usd'', Number 1),
          (''market_rate_zar_per_usd'', Number 18.5), (''is_active'', Boolean True), (''created_at'', Now),
          (''min_send_zar'', Number 50)]])]"

text \<open>The upgrade of an empty database, evaluated once.\<close>

lemma head_evaluated:
  "case upgrade revisions empty_schema of None \<Rightarrow> False
   | Some h \<Rightarrow> list_all2 (\<lambda>(p, t) m. shape_by p t m) (zip column_order (sc_tables h)) declared_tables
       \<and> length (sc_tables h) = 8 \<and> sc_types h = declared_types
       \<and> map (\<lambda>t. (tb_name t, tb_rows t)) (filter (\<lambda>t. tb_rows t \<noteq> []) (sc_tables h)) = seeded_rows"
  by code_simp

lemma head_facts:
  "upgrade revisions empty_schema = Some head_schema"
  "length (sc_tables head_schema) = 8" "sc_types head_schema = declared_types"
  "list_all2 (\<lambda>(p, t) m. shape_by p t m) (zip column_order (sc_tables head_schema)) declared_tables"
  "map (\<lambda>t. (tb_name t, tb_rows t)) (filter (\<lambda>t. tb_rows t \<noteq> []) (sc_tables head_schema)) = seeded_rows"
  using head_evaluated by (auto simp: head_schema_def run_migrations_def split: option.splits)



section \<open>The first rows\<close>

text \<open>The database the application sees right after the first migration: the inserted tiers and fees.\<close>

definition cell :: "(string \<times> sql_value) list \<Rightarrow> string \<Rightarrow> sql_value" where
  "cell r n = (case map_of r n of None \<Rightarrow> Null | Some v \<Rightarrow> v)"

fun as_number :: "sql_value \<Rightarrow> dec" where
  "as_number (Number x) = x"
| "as_number _ = 0"

fun as_uuid :: "(nat \<Rightarrow> uuid) \<Rightarrow> sql_value \<Rightarrow> uuid" where
  "as_uuid gen (Generated i) = gen i"
| "as_uuid gen _ = 0"

fun as_text :: "sql_value \<Rightarrow> string" where
  "as_text (Str x) = x"
| "as_text _ = []"

definition seeded_tier :: "(nat \<Rightarrow> uuid) \<Rightarrow> (string \<times> sql_value) list \<Rightarrow> limit_tier" where
  "seeded_tier gen r = \<lparr>l_id = as_uuid gen (cell r ''id''), l_tier_name = as_text (cell r ''tier_name''),
     l_daily_limit_zar = as_number (cell r ''daily_limit_zar''), l_monthly_limit_zar = as_number (cell r ''monthly_limit_zar'')\<rparr>"

definition seeded_fees :: "(nat \<Rightarrow> uuid) \<Rightarrow> instant \<Rightarrow> (string \<times> sql_value) list \<Rightarrow> fee_config" where
  "seeded_fees gen now r = \<lparr>f_id = as_uuid gen (cell r ''id''), f_fixed_fee_zar = as_number (cell r ''fixed_fee_zar''),
     f_percentage_fee = as_number (cell r ''percentage_fee''), f_fx_margin = as_number (cell r ''fx_margin''),
     f_cashout_fee_percentage = as_number (cell r ''cashout_fee_percentage''),
     f_cashout_fee_min_usd = as_number (cell r ''cashout_fee_min_usd''), f_min_send_zar = as_number (cell r ''min_send_zar''),
     f_market_rate_zar_per_usd = as_number (cell r ''market_rate_zar_per_usd''),
     f_is_active = (cell r ''is_active'' = Boolean True), f_created_at = now\<rparr>"

definition rows_of :: "string \<Rightarrow> schema \<Rightarrow> (string \<times> sql_value) list list" where
  "rows_of n s = concat (map tb_rows (filter (\<lambda>t. tb_name t = n) (sc_tables s)))"

definition fresh_db :: "(nat \<Rightarrow> uuid) \<Rightarrow> instant \<Rightarrow> db" where
  "fresh_db gen now = empty_db\<lparr>tiers := map (seeded_tier gen) (rows_of ''limit_tiers'' (run_migrations empty_schema)),
     fee_configs := map (seeded_fees gen now) (rows_of ''fee_config'' (run_migrations empty_schema))\<rparr>"

lemma rows_of_nonempty:
  "rows_of n s = concat (map snd (filter (\<lambda>x. fst x = n) (map (\<lambda>t. (tb_name t, tb_rows t)) (filter (\<lambda>t. tb_rows t \<noteq> []) (sc_tables s)))))"
proof -
  have "concat (map tb_rows (filter (\<lambda>t. tb_name t = n) ts))
    = concat (map snd (filter (\<lambda>x. fst x = n) (map (\<lambda>t. (tb_name t, tb_rows t)) (filter (\<lambda>t. tb_rows t \<noteq> []) ts))))" for ts
    by (induction ts) auto
  then show ?thesis by (simp add: rows_of_def)
qed

definition first_fees :: "(nat \<Rightarrow> uuid) \<Rightarrow> instant \<Rightarrow> fee_config" where
  "first_fees gen now = \<lparr>f_id = gen 2, f_fixed_fee_zar = 25, f_percentage_fee = 0.015, f_fx_margin = 0.02,
     f_cashout_fee_percentage = 0.01, f_cashout_fee_min_usd = 1, f_min_send_zar = 50,
     f_market_rate_zar_per_usd = 18.5, f_is_active = True, f_created_at = now\<rparr>"

lemma fresh_tables:
  "fee_configs (fresh_db gen now) = [first_fees gen now]" "transactions (fresh_db gen now) = []"
  "tiers (fresh_db gen now) =
    [\<lparr>l_id = gen 0, l_tier_name = ''unverified'', l_daily_limit_zar = 0, l_monthly_limit_zar = 0\<rparr>,
     \<lparr>l_id = gen 1, l_tier_name = ''standard'', l_daily_limit_zar = 10000, l_monthly_limit_zar = 50000\<rparr>]"
  by (simp_all add: fresh_db_def rows_of_nonempty head_facts(5) [unfolded head_schema_def] seeded_rows_def seeded_fees_def
      seeded_tier_def cell_def first_fees_def empty_db_def)

section \<open>A fresh installation quotes\<close>

text \<open>Between integers, both roundings stay between them.\<close>

lemma rounded_between:
  assumes "of_int a \<le> x" and "x \<le> of_int b" and "\<bar>a\<bar> < 10 ^ 28" and "\<bar>b\<bar> < 10 ^ 28"
  shows "of_int a \<le> ctx x" "ctx x \<le> of_int b" "of_int a \<le> to_grid k x" "to_grid k x \<le> of_int b"
proof -
  have c: "ctx (of_int n) = of_int n" if "\<bar>n\<bar> < 10 ^ 28" for n using ctx_exact_int [OF that, of 0] by simp
  show "of_int a \<le> ctx x" "ctx x \<le> of_int b"
    using ctx_mono [OF assms(1)] ctx_mono [OF assms(2)] unfolding c [OF assms(3)] c [OF assms(4)] .
  have "on_grid k (of_int n)" for n :: int using on_grid_of_int [of k "n * 10 ^ k"] by simp
  then show "of_int a \<le> to_grid k x" "to_grid k x \<le> of_int b"
    using grid.rnd_mono [OF assms(1), of k] grid.rnd_mono [OF assms(2), of k] by (simp_all add: to_grid_id)
qed

lemmas ctx_between = rounded_between(1,2)
lemmas grid_between = rounded_between(3,4)

lemma quantize_small:
  assumes "of_int a \<le> x" and "x \<le> of_int b" and "\<bar>a\<bar> < 10 ^ 20" and "\<bar>b\<bar> < 10 ^ 20" and "k \<le> 6"
  shows "quantize k x = Inr (to_grid k x)"
proof -
  have p: "(10 :: rat) ^ k \<le> 10 ^ 6" using assms(5) by (intro power_increasing) simp_all
  have "of_int a \<le> to_grid k x" "to_grid k x \<le> of_int b"
    using assms(3,4) by (intro rounded_between(3,4) [OF assms(1,2)]; simp)+
  moreover have "of_int (- (10 ^ 20)) < (of_int a :: rat)" "(of_int b :: rat) < of_int (10 ^ 20)"
    using assms(3,4) by (subst of_int_less_iff; linarith)+
  ultimately have "\<bar>to_grid k x\<bar> < 10 ^ 20" by simp
  also have "\<dots> \<le> 10 ^ 28 / 10 ^ k" using p by (simp add: pos_le_divide_eq)
  finally show ?thesis by (simp add: quantize_eq_Inr fits_def)
qed

text \<open>The fee of the seeded configuration, R25 and 1.5 per cent, leaves something of R50 and more.\<close>

lemma seeded_fee:
  assumes "on_grid 2 z" and "50 \<le> z" and "z \<le> 50000"
  shows "\<exists>fee. quantize 2 (dec_add 25 (dec_mul 0.015 z)) = Inr fee \<and> 0 \<le> fee \<and> fee + 24 \<le> z \<and> on_grid 2 fee"
proof -
  obtain n where n: "z = of_int n / 10 ^ 2" using assms(1) by (rule on_gridE)
  have g: "on_grid 5 (0.015 * z)" "on_grid 5 (25 :: rat)"
    using on_grid_of_int [of 5 "15 * n"] on_grid_of_int [of 5 2500000] by (simp_all add: n)
  have "dec_mul 0.015 z = 0.015 * z"
    unfolding dec_mul_def using assms by (intro ctx_on_grid [OF g(1)]) (simp add: fits_def)
  moreover have "dec_add 25 (0.015 * z) = 25 + 0.015 * z"
    using assms by (intro dec_add_exact [OF g(2,1)]) (simp add: fits_def)
  ultimately have x: "dec_add 25 (dec_mul 0.015 z) = 25 + 0.015 * z" by (rule subst [OF sym])
  have "to_grid 2 (25 + 0.015 * z) \<le> 25 + 0.015 * z + 1 / 10 ^ 2 / 2" by (rule grid.rnd_upper)
  then have "to_grid 2 (25 + 0.015 * z) + 24 \<le> z" using assms(2) by simp
  moreover have "0 \<le> to_grid 2 (25 + 0.015 * z)" using assms(2) by (intro grid.rnd_nonneg) simp
  moreover have "quantize 2 (25 + 0.015 * z) = Inr (to_grid 2 (25 + 0.015 * z))"
    using assms(2,3) by (intro quantize_small [of 0 _ 1000]) simp_all
  ultimately show ?thesis using x by simp
qed

text \<open>From R50 to R50 000, whatever the currency, every step of the quote succeeds.\<close>

lemma seeded_quote:
  assumes "on_grid 2 z" and "50 \<le> z" and "z \<le> 50000"
  shows "\<exists>q. calculate_quote (Fin z) 18.5 25 0.015 0.02 0.01 1 cur = Inr q"
proof -
  obtain fee where fee: "quantize 2 (dec_add 25 (dec_mul 0.015 z)) = Inr fee" "0 \<le> fee" "fee + 24 \<le> z" "on_grid 2 fee"
    using seeded_fee [OF assms] by blast
  have net: "dec_sub z fee = z - fee" "quantize 2 (z - fee) = Inr (z - fee)"
    using assms fee by (auto intro!: dec_sub_exact [of 2] quantize_id on_grid_diff simp: fits_def)
  have z: "quantize 2 z = Inr z" using assms by (intro quantize_id) (simp_all add: fits_def)
  define conv where "conv = ctx ((z - fee) / 18.87)"
  have q: "(z - fee) / 18.87 \<le> of_int 50000" "of_int 1 \<le> (z - fee) / 18.87" using fee assms by simp_all
  have c: "of_int 1 \<le> conv" "conv \<le> of_int 50000" unfolding conv_def by (rule ctx_between [OF q(2,1)]; simp)+
  define u where "u = to_grid 6 conv"
  have uq: "quantize 6 conv = Inr u" unfolding u_def by (rule quantize_small [OF c]) simp_all
  have u: "of_int 1 \<le> u" "u \<le> of_int 50000" unfolding u_def by (rule grid_between [OF c]; simp)+
  have p: "of_int 0 \<le> 0.01 * u" "0.01 * u \<le> of_int 50000" using u by simp_all
  have "of_int 0 \<le> dec_mul 0.01 u" "dec_mul 0.01 u \<le> of_int 50000" unfolding dec_mul_def by (rule ctx_between [OF p]; simp)+
  then have m: "of_int 0 \<le> max (dec_mul 0.01 u) 1" "max (dec_mul 0.01 u) 1 \<le> of_int 50000" by simp_all
  define f where "f = to_grid 6 (max (dec_mul 0.01 u) 1)"
  have fq: "cashout_fee_usd u 0.01 1 = Inr f"
    unfolding cashout_fee_usd_def f_def by (subst quantize_small [OF m]) simp_all
  have f: "of_int 0 \<le> f" "f \<le> of_int 50000" unfolding f_def by (rule grid_between [OF m]; simp)+
  have s: "of_int (- 50000) \<le> u - f" "u - f \<le> of_int 50000" using u f by simp_all
  have d: "of_int (- 50000) \<le> dec_sub u f" "dec_sub u f \<le> of_int 50000"
    unfolding dec_sub_def by (rule ctx_between [OF s]; simp)+
  then have r: "of_int (- 10000000) \<le> dec_sub u f * 18.5" "dec_sub u f * 18.5 \<le> of_int 10000000" by simp_all
  have e: "of_int (- 10000000) \<le> dec_mul (dec_sub u f) 18.5" "dec_mul (dec_sub u f) 18.5 \<le> of_int 10000000"
    unfolding dec_mul_def by (rule ctx_between [OF r]; simp)+
  obtain p where p: "cashout_payout u f 18.5 cur = Inr p"
    using quantize_small [OF d, of 6] quantize_small [OF e, of 2] by (cases cur) (simp_all add: cashout_payout_def)
  have "quantize 6 18.5 = Inr 18.5" "quantize 6 (dec_mul 18.5 (dec_add 1 0.02)) = Inr 18.87" "quantize 6 0.02 = Inr 0.02"
    by (code_simp, code_simp, code_simp)
  moreover have "dec_div (z - fee) 18.87 = Inr conv" by (simp add: dec_div_def conv_def)
  moreover have "raise_if (z - fee \<le> 0) (AmountTooSmall z) = Inr ()" "raise_if (u \<le> 0) (AmountTooSmall z) = Inr ()"
    using fee u by simp_all
  ultimately show ?thesis
    unfolding calculate_quote_def quantize_any.simps arith_simps z fee(1) net by (simp only: fee(1) net and_then_Inr arith_simps uq fq p) blast
qed

lemma fresh_config: "get_active_fee_config (fresh_db gen now) = Some (first_fees gen now)"
  by (simp add: get_active_fee_config_def fresh_tables first_fees_def newest_first_def first_row_def)

lemma fresh_tiers:
  "get_limit_tier (fresh_db gen now) u = (if u_kyc_status u = Kyc_approved
     then Some \<lparr>l_id = gen 1, l_tier_name = ''standard'', l_daily_limit_zar = 10000, l_monthly_limit_zar = 50000\<rparr>
     else Some \<lparr>l_id = gen 0, l_tier_name = ''unverified'', l_daily_limit_zar = 0, l_monthly_limit_zar = 0\<rparr>)"
  by (cases "u_kyc_status u") (simp_all add: get_limit_tier_def returning_def fresh_tables)

text \<open>
  A freshly migrated installation works as its comments say: with the market rate taken from the
  configuration, every amount from R50 to R10 000 in cents is quoted at a positive UCTUSD amount in
  either currency, an approved sender may send it on the first day, and anyone else is refused by the
  zero tier.
\<close>

theorem fresh_install_ready:
  assumes "lower (fx_rate_source s) = ''config''" and "on_grid 2 z" and "50 \<le> z" and "z \<le> 10000"
  shows "(\<exists>q. quote_for s (fresh_db gen now) (Fin z) cur = Inr q \<and> 0 < q_uctusd_amount q)
    \<and> allowed (check_limit s t (fresh_db gen now) u z) = (u_kyc_status u = Kyc_approved)
    \<and> (u_kyc_status u \<noteq> Kyc_approved \<longrightarrow> reason (check_limit s t (fresh_db gen now) u z) = Some Zero_tier)"
proof -
  obtain q where q: "calculate_quote (Fin z) 18.5 25 0.015 0.02 0.01 1 cur = Inr q"
    using seeded_quote [of z cur] assms by auto
  have "fx_rate_source s \<noteq> []" using assms(1) by (auto simp: lower_def)
  moreover have "quantize 6 18.5 = Inr 18.5" by code_simp
  ultimately have "get_market_rate s d (Some (first_fees gen now)) = Inr 18.5" for d
    using assms(1) by (simp add: get_market_rate_def first_fees_def)
  moreover have "quantize 2 50 = Inr 50" by code_simp
  moreover have z: "quantize 2 z = Inr z" using assms by (intro quantize_id) (simp_all add: fits_def)
  ultimately have "quote_for s (fresh_db gen now) (Fin z) cur = Inr q"
    using q assms(3) by (simp add: quote_for_def fresh_config) (simp add: first_fees_def raise_if_def)
  moreover have "ctx z = z" using assms by (intro ctx_on_grid [of 2]) (simp_all add: fits_def)
  then have "allowed (check_limit s t (fresh_db gen now) u z) = (u_kyc_status u = Kyc_approved)
    \<and> (u_kyc_status u \<noteq> Kyc_approved \<longrightarrow> reason (check_limit s t (fresh_db gen now) u z) = Some Zero_tier)"
    using assms(4) by (auto simp: check_limit_def fresh_tiers get_daily_usage_def get_monthly_usage_def sum_zar_since_def
        fresh_tables dec_add_def Let_def)
  ultimately show ?thesis using quote_positive(2) [OF q] by blast
qed

theorem fresh_install_ready_witness:
  "\<exists>q. quote_for example_settings (fresh_db int 0) (Fin 50) ZAR = Inr q \<and> 0 < q_uctusd_amount q"
proof -
  have "lower (fx_rate_source example_settings) = ''config''" "on_grid 2 50" by (code_simp, code_simp)
  from fresh_install_ready [OF this, of int 0 ZAR 0 undefined] show ?thesis by simp
qed

end
