(* ===== verification/PerfState.thy ===== *)
theory PerfState
  imports Migrations LoadTest Pages
begin

text \<open>
  The database every measurement of \<open>perf/run_all.py\<close> starts from: \<open>recreate_database\<close> and \<open>reset_state\<close>,
  composed of the migrations, the first administrator, the purge and the seed; the backlog that
  \<open>perf/backlog.py\<close> books on it; and the outcomes a sub-run reads back.
\<close>

section \<open>The state a measurement starts from\<close>

text \<open>\<open>recreate_database\<close>: a dropped and newly created database, migrated, with the administrator.\<close>

definition recreate_database ::
  "(string \<Rightarrow> string) \<Rightarrow> admin_settings \<Rightarrow> instant \<Rightarrow> uuid \<Rightarrow> (nat \<Rightarrow> uuid) \<Rightarrow> (exn + unit) \<times> db" where
  "recreate_database hash a now admin_id gen =
     (case seed_admin hash a now admin_id (fresh_db gen now) of (Inl e, d) \<Rightarrow> (Inl e, d) | (Inr _, d) \<Rightarrow> (Inr (), d))"

text \<open>\<open>reset_state\<close>: an empty queue (the jobs are no part of the database), then purged and seeded again.\<close>

definition reset_state ::
  "string \<Rightarrow> instant \<Rightarrow> (nat \<Rightarrow> uuid) \<Rightarrow> faker \<Rightarrow> nat \<Rightarrow> db \<Rightarrow> (exn + unit) \<times> db" where
  "reset_state hashed now ids fk pairs d =
     (case purge d of
        (Inl e, d) \<Rightarrow> (Inl e, d)
      | (Inr _, d) \<Rightarrow> (case seed hashed now ids fk pairs d of (Inl e, d) \<Rightarrow> (Inl e, d) | (Inr _, d) \<Rightarrow> (Inr (), d)))"

text \<open>The price of R100 under the seeded configuration.\<close>

definition backlog_quote :: "payout_currency \<Rightarrow> quote" where
  "backlog_quote cur = \<lparr>q_zar_amount = 100, q_transaction_fee = 26.5, q_net_zar_converted = 73.5, q_market_rate = 18.5,
     q_fx_margin = 0.02, q_exchange_rate = 18.87, q_uctusd_amount = 3.895072, q_cashout_fee_estimate = 1,
     q_payout_estimate = (case cur of USD \<Rightarrow> 2.895072 | ZAR \<Rightarrow> 53.56), q_payout_currency = cur\<rparr>"

lemma backlog_quoted: "calculate_quote (Fin 100) 18.5 25 0.015 0.02 0.01 1 cur = Inr (backlog_quote cur)"
proof -
  have steps: "quantize 2 100 = Inr 100" "quantize 6 18.5 = Inr 18.5"
    "quantize 2 (dec_add 25 (dec_mul 0.015 100)) = Inr 26.5" "quantize 6 (dec_mul 18.5 (dec_add 1 0.02)) = Inr 18.87"
    "quantize 2 (dec_sub 100 26.5) = Inr 73.5" "dec_div 73.5 18.87 = Inr (ctx (73.5 / 18.87))"
    "quantize 6 (ctx (73.5 / 18.87)) = Inr 3.895072" "cashout_fee_usd 3.895072 0.01 1 = Inr 1" "quantize 6 0.02 = Inr 0.02"
    by (code_simp, code_simp, code_simp, code_simp, code_simp, simp add: dec_div_def, code_simp, code_simp, code_simp)
  have "cashout_payout 3.895072 1 18.5 USD = Inr 2.895072" "cashout_payout 3.895072 1 18.5 ZAR = Inr 53.56"
    by (code_simp, code_simp)
  then have pay: "cashout_payout 3.895072 1 18.5 cur = Inr (case cur of USD \<Rightarrow> 2.895072 | ZAR \<Rightarrow> 53.56)" by (cases cur) simp_all
  show ?thesis
    unfolding calculate_quote_def quantize_any.simps arith_simps steps and_then_Inr backlog_quote_def pay
    by (simp add: raise_if_def)
qed

lemma backlog_quote_for:
  assumes "fee_configs d = [first_fees gen t]" and "lower (fx_rate_source s) = ''config''"
  shows "quote_for s d (Fin 100) cur = Inr (backlog_quote cur)"
proof -
  have "get_active_fee_config d = Some (first_fees gen t)"
    by (simp add: get_active_fee_config_def assms(1) first_fees_def newest_first_def first_row_def)
  moreover have "fx_rate_source s \<noteq> []" using assms(2) by (auto simp: lower_def)
  moreover have "quantize 6 18.5 = Inr 18.5" by code_simp
  ultimately have "get_market_rate s d (Some (first_fees gen t)) = Inr 18.5"
    using assms(2) by (simp add: get_market_rate_def first_fees_def)
  moreover have "quantize 2 50 = Inr 50" "quantize 2 100 = Inr 100" by (code_simp, code_simp)
  ultimately show ?thesis
    using backlog_quoted [of cur] \<open>get_active_fee_config d = _\<close>
    by (simp add: quote_for_def) (simp add: first_fees_def raise_if_def)
qed

lemma backlog_card_accepted:
  assumes "fst (local_date 0 now) < 2030"
  shows "validate_mock_card now backlog_card = Inr ''4242''"
proof -
  have "isdigit (card_digits backlog_card) \<and> length (card_digits backlog_card) = 16 \<and> luhn_ok (card_digits backlog_card)
    \<and> parse_expiry (card_expiry backlog_card) = Some (2030, 12) \<and> isdigit (card_cvv backlog_card)
    \<and> length (card_cvv backlog_card) = 3 \<and> strip (card_name backlog_card) \<noteq> []
    \<and> last_chars 4 (card_digits backlog_card) = ''4242''"
    by code_simp
  then show ?thesis
    using assms by (cases "local_date 0 now") (simp add: validate_mock_card_def Let_def)
qed

lemma backlog_stored: "\<exists>t. stored_quote (backlog_quote cur) t0 = Some t"
proof -
  have "column_value 20 2 100" "column_value 20 2 26.5" "column_value 20 2 73.5" "column_value 20 6 18.5"
    "column_value 20 6 18.87" "column_value 10 6 0.02" "column_value 20 6 3.895072"
    by (code_simp, code_simp, code_simp, code_simp, code_simp, code_simp, code_simp)
  from this [THEN store_numeric_id] have "stored_quote (backlog_quote cur) t0 \<noteq> None"
    by (simp add: stored_quote_def backlog_quote_def)
  then show ?thesis by blast
qed

lemma find_snoc: "\<forall>x\<in>set xs. \<not> P x \<Longrightarrow> P y \<Longrightarrow> find P (xs @ [y]) = Some y"
  by (induction xs) auto

text \<open>A column without duplicates has one row with a given value.\<close>

lemma scalar_one_key: "distinct (map f xs) \<Longrightarrow> x \<in> set xs \<Longrightarrow> scalar_one (filter (\<lambda>y. f y = f x) xs) = Inr x"
proof -
  assume d: "distinct (map f xs)" and x: "x \<in> set xs"
  then have "filter (\<lambda>y. f y = f x) xs = [x]"
  proof (induction xs)
    case (Cons z zs)
    then show ?case by (cases "z = x") (auto simp: filter_empty_conv image_iff)
  qed simp
  then show ?thesis by (simp add: scalar_one_def)
qed

definition bench_ready :: "user list \<Rightarrow> (nat \<Rightarrow> uuid) \<Rightarrow> faker \<Rightarrow> (nat \<Rightarrow> uuid) \<Rightarrow> instant \<Rightarrow> instant \<Rightarrow> nat \<Rightarrow> db \<Rightarrow> bool" where
  "bench_ready us ids fk gen t0 t1 pairs d \<longleftrightarrow> users d = us
     \<and> beneficiaries d = map (seed_beneficiary t1 ids fk) [0..<pairs]
     \<and> fee_configs d = [first_fees gen t0] \<and> tiers d = tiers (fresh_db gen t0)"

lemma standard_limit:
  assumes "tiers d = tiers (fresh_db gen t0)" and "u_kyc_status u = Kyc_approved"
    and "\<forall>t\<in>set (transactions d). t_sender_id t \<noteq> u_id u"
  shows "allowed (check_limit s now d u 100)"
proof -
  have "sum_zar_since d (u_id u) since = 0" for since
    using assms(3) by (simp add: sum_zar_since_def filter_none counts_since_def)
  moreover have "get_limit_tier d u
      = Some \<lparr>l_id = gen 1, l_tier_name = ''standard'', l_daily_limit_zar = 10000, l_monthly_limit_zar = 50000\<rparr>"
    using fresh_tiers [of gen t0 u] assms(1,2) by (simp add: get_limit_tier_def)
  moreover have "dec_add 0 100 = 100" by code_simp
  ultimately show ?thesis
    by (simp add: check_limit_def get_daily_usage_def get_monthly_usage_def Let_def)
qed

text \<open>The rows the loop looks up for the \<open>i\<close>-th pair.\<close>

lemma seeded_pair_found:
  assumes "bench_ready us ids fk gen t0 t1 pairs d" and "distinct (map u_email us)" and "inj ids" and "i < pairs"
    and "seed_sender hashed t1 ids fk i \<in> set us"
  defines "u \<equiv> seed_sender hashed t1 ids fk i" and "b \<equiv> seed_beneficiary t1 ids fk i"
  shows "scalar_one (filter (\<lambda>v. u_email v = seed_email ''sender'' i) (users d)) = Inr u"
    "scalar_one (filter (\<lambda>x. b_sender_id x = u_id u) (beneficiaries d)) = Inr b"
    "get_beneficiary d (b_id b) (u_id u) = Some b"
proof -
  have d: "users d = us" "beneficiaries d = map (seed_beneficiary t1 ids fk) [0..<pairs]"
    using assms(1) by (simp_all add: bench_ready_def)
  have b: "b \<in> set (beneficiaries d)" "b_sender_id b = u_id u" "b_is_active b"
    using assms(4) by (simp_all add: d u_def b_def seed_beneficiary_def seed_sender_def)
  have "inj_on (\<lambda>j. ids (4 * j)) A" for A by (auto intro!: inj_onI dest!: injD [OF assms(3)])
  then have keys: "distinct (map b_sender_id (beneficiaries d))"
    by (simp add: d distinct_map comp_def seed_beneficiary_def)
  have "u_email u = seed_email ''sender'' i" by (simp add: u_def seed_sender_def)
  then show "scalar_one (filter (\<lambda>v. u_email v = seed_email ''sender'' i) (users d)) = Inr u"
    using scalar_one_key [of u_email us u] assms(2,5) by (simp add: d u_def)
  show "scalar_one (filter (\<lambda>x. b_sender_id x = u_id u) (beneficiaries d)) = Inr b"
    using scalar_one_key [OF keys b(1)] by (simp add: b(2))
  have "find (\<lambda>x. b_id x = b_id b \<and> b_sender_id x = u_id u \<and> b_is_active x) (beneficiaries d) = Some b"
  proof (rule find_stronger)
    show "find (\<lambda>x. b_sender_id x = b_sender_id b) (beneficiaries d) = Some b"
      using by_key_unique [OF keys b(1)] by (simp add: by_key_def)
  qed (simp_all add: b)
  then show "get_beneficiary d (b_id b) (u_id u) = Some b" by (simp add: get_beneficiary_def returning_def)
qed

text \<open>Confirming the row just booked, when no other is waiting.\<close>

lemma confirm_last:
  assumes "\<forall>x\<in>set (transactions d). t_cashin_status x \<noteq> CashIn_pending" and "t_cashin_status t = CashIn_pending"
  shows "mark_cashin_received now (\<lambda>_ _. None) (\<lambda>d. d) (d\<lparr>transactions := transactions d @ [t]\<rparr>) t (Some admin)
    = (Inr (), d\<lparr>transactions := transactions d @ [received_values now (Some admin) t]\<rparr>)"
proof -
  have old: "\<forall>x\<in>set (transactions d). \<not> cashin_guard (t_id t) x" and new: "cashin_guard (t_id t) t"
    using assms by (simp_all add: cashin_guard_def)
  show ?thesis
    using old new update_where_none [OF old]
    by (simp add: mark_cashin_received_def publish_def returning_def find_snoc [OF old new] update_where_snoc)
qed

lemma book_one_succeeds:
  assumes "bench_ready us ids fk gen t0 t1 pairs d" and "distinct (map u_email us)" and "inj ids" and "i < pairs"
    and "seed_sender hashed t1 ids fk i \<in> set us" and "lower (fx_rate_source s) = ''config''" and "fst (local_date 0 now) < 2030"
    and "\<forall>t\<in>set (transactions d). t_cashin_status t \<noteq> CashIn_pending \<and> t_sender_id t \<noteq> ids (4 * i)"
  shows "\<exists>t. book_one s now (\<lambda>_ _. None) new_id key admin i d = (Inr (), d\<lparr>transactions := transactions d @ [t]\<rparr>)
    \<and> t_cashin_status t = CashIn_received \<and> t_settlement_status t = Settle_queued \<and> t_sender_id t = ids (4 * i)
    \<and> t_recipient_user_id t = Some (ids (4 * i + 1)) \<and> t_uctusd_amount t = 3.895072"
proof -
  let ?u = "seed_sender hashed t1 ids fk i" and ?b = "seed_beneficiary t1 ids fk i"
  let ?q = "backlog_quote (b_payout_currency ?b)"
  note pair = seeded_pair_found [OF assms(1-5)]
  have d: "fee_configs d = [first_fees gen t0]" "tiers d = tiers (fresh_db gen t0)"
    using assms(1) by (simp_all add: bench_ready_def)
  have u: "u_id ?u = ids (4 * i)" "u_can_send ?u" "u_kyc_status ?u = Kyc_approved" by (simp_all add: seed_sender_def)
  have b: "b_recipient_user_id ?b = Some (ids (4 * i + 1))" by (simp add: seed_beneficiary_def)
  have quoted: "quote_for s d (Fin 100) (b_payout_currency ?b) = Inr ?q" by (rule backlog_quote_for [OF d(1) assms(6)])
  have "allowed (check_limit s now d ?u 100)" using assms(8) by (intro standard_limit [OF d(2)]) (simp_all add: u)
  moreover have price: "pricing_matches ?q (price_of ?q) = Inr True" by (simp add: pricing_matches_True price_of_def)
  ultimately have checks: "remittance_checks s now d ?u ?b (Fin 100) backlog_card (price_of ?q) = Inr (?q, ''4242'')"
    unfolding remittance_checks_def quoted
    by (simp add: price backlog_card_accepted [OF assms(7)] raise_if_def) (simp add: backlog_quote_def)
  let ?t0 = "new_transaction now new_id key (u_id ?u) (b_id ?b) (ids (4 * i + 1)) ''4242''"
  obtain t where t: "stored_quote ?q ?t0 = Some t" using backlog_stored by blast
  note row = stored_quoteE [OF t]
  have plain: "card_digits backlog_card \<noteq> declined_test_card" by code_simp
  have made: "create_remittance s now new_id key d ?u (b_id ?b) (Fin 100) backlog_card (price_of ?q)
    = (Inr t, d\<lparr>transactions := transactions d @ [t]\<rparr>)"
    using t by (simp add: create_remittance_def u(2,3) pair(3) refresh_recipient_link_def b checks plain)
  have "t_cashin_status t = CashIn_pending" using row(10) by (simp add: new_transaction_def)
  from confirm_last [OF _ this, of d now admin] assms(8)
  have "book_one s now (\<lambda>_ _. None) new_id key admin i d
      = (Inr (), d\<lparr>transactions := transactions d @ [received_values now (Some admin) t]\<rparr>)"
    by (simp add: book_one_def pair(1,2) quoted made)
  moreover have "to_grid 6 3.895072 = 3.895072" by code_simp
  ultimately show ?thesis
    using row(5,7,9) by (intro exI [of _ "received_values now (Some admin) t"])
      (simp add: received_values_def new_transaction_def u backlog_quote_def)
qed

text \<open>The loop over the senders books one remittance for each.\<close>

lemma book_all_succeeds:
  assumes "distinct (map u_email us)" and "inj ids" and "\<forall>i<pairs. seed_sender hashed t1 ids fk i \<in> set us"
    and "lower (fx_rate_source s) = ''config''" and "fst (local_date 0 now) < 2030" and "n \<le> pairs"
  shows "bench_ready us ids fk gen t0 t1 pairs d \<Longrightarrow> m \<le> n \<Longrightarrow> transactions d = [] \<Longrightarrow>
     \<exists>ts. book_all s now (\<lambda>_ _. None) keys admin [0..<m] d = (Inr (), d\<lparr>transactions := ts\<rparr>)
       \<and> map t_sender_id ts = map (\<lambda>i. ids (4 * i)) [0..<m]
       \<and> map t_recipient_user_id ts = map (\<lambda>i. Some (ids (4 * i + 1))) [0..<m]
       \<and> (\<forall>t\<in>set ts. t_cashin_status t = CashIn_received \<and> t_settlement_status t = Settle_queued \<and> t_uctusd_amount t = 3.895072)"
proof (induction m)
  case (Suc m)
  from Suc obtain ts where ts: "book_all s now (\<lambda>_ _. None) keys admin [0..<m] d = (Inr (), d\<lparr>transactions := ts\<rparr>)"
    "map t_sender_id ts = map (\<lambda>i. ids (4 * i)) [0..<m]" "map t_recipient_user_id ts = map (\<lambda>i. Some (ids (4 * i + 1))) [0..<m]"
    "\<forall>t\<in>set ts. t_cashin_status t = CashIn_received \<and> t_settlement_status t = Settle_queued \<and> t_uctusd_amount t = 3.895072"
    by auto
  let ?d = "d\<lparr>transactions := ts\<rparr>"
  have "t_sender_id ` set ts = (\<lambda>i. ids (4 * i)) ` {0..<m}" using arg_cong [OF ts(2), of set] by simp
  moreover have "ids (4 * m) \<notin> (\<lambda>i. ids (4 * i)) ` {0..<m}" by (auto dest!: injD [OF assms(2)])
  ultimately have "\<forall>t\<in>set ts. t_sender_id t \<noteq> ids (4 * m)" by (metis image_eqI)
  moreover have "bench_ready us ids fk gen t0 t1 pairs ?d" using Suc.prems(1) by (simp add: bench_ready_def)
  moreover have "m < pairs" using Suc.prems(2) assms(6) by simp
  ultimately obtain t where t: "book_one s now (\<lambda>_ _. None) (keys (2 * m)) (keys (2 * m + 1)) admin m ?d
      = (Inr (), d\<lparr>transactions := ts @ [t]\<rparr>)" "t_cashin_status t = CashIn_received" "t_settlement_status t = Settle_queued"
      "t_sender_id t = ids (4 * m)" "t_recipient_user_id t = Some (ids (4 * m + 1))" "t_uctusd_amount t = 3.895072"
    using book_one_succeeds [OF _ assms(1,2) _ _ assms(4,5), of fk gen t0 t1 pairs ?d m hashed] assms(3) ts(4) by fastforce
  have "book_all s now q keys admin (is @ [m]) e = (case book_all s now q keys admin is e of
      (Inl x, e) \<Rightarrow> (Inl x, e) | (Inr _, e) \<Rightarrow> book_one s now q (keys (2 * m)) (keys (2 * m + 1)) admin m e)" for "is" q e
    by (induction "is" arbitrary: e) (auto split: sum.splits prod.splits)
  then show ?case using ts t by (intro exI [of _ "ts @ [t]"]) auto
qed auto

lemma recreated:
  assumes "recreate_database hash a t0 admin_id gen = (Inr (), d)"
  obtains admin where "d = (fresh_db gen t0)\<lparr>users := [admin]\<rparr>" "u_email admin = strip (lower (admin_email a))"
proof -
  have "users (fresh_db gen t0) = []" by (simp add: fresh_db_def empty_db_def)
  with assms that show thesis
    by (auto simp: recreate_database_def seed_admin_def returning_def commit_users_def Let_def split: if_splits)
qed

lemma reset_fresh:
  assumes "reset_state hashed t1 ids fk pairs d = (Inr (), d')" and "\<forall>u\<in>set (users d). \<not> is_seeded u"
  shows "unique_contacts (users d')" "users d' = users d @ map (seed_sender hashed t1 ids fk) [0..<pairs]
      @ map (seed_recipient hashed t1 ids fk) [0..<pairs]"
    "beneficiaries d' = beneficiaries d @ map (seed_beneficiary t1 ids fk) [0..<pairs]"
    "fee_configs d' = fee_configs d" "tiers d' = tiers d" "transactions d' = transactions d" "wallets d' = wallets d"
proof -
  have "filter is_seeded (users d) = []" using assms(2) by (simp add: filter_none)
  then show "unique_contacts (users d')" "users d' = users d @ map (seed_sender hashed t1 ids fk) [0..<pairs]
      @ map (seed_recipient hashed t1 ids fk) [0..<pairs]"
    "beneficiaries d' = beneficiaries d @ map (seed_beneficiary t1 ids fk) [0..<pairs]"
    "fee_configs d' = fee_configs d" "tiers d' = tiers d" "transactions d' = transactions d" "wallets d' = wallets d"
    using assms(1) by (auto simp: reset_state_def purge_def seed_def commit_users_def Let_def split: if_splits)
qed

text \<open>
  C38. A drain measurement starts from the backlog it names: on a newly migrated database with its
  administrator and freshly seeded pairs, booking \<open>n\<close> sends (at most one per pair, while the test
  card is valid and the queue accepts) goes through the real quote, limit, card and confirmation code
  without a single refusal, and leaves exactly \<open>n\<close> confirmed and queued remittances of 3.895072 UCTUSD,
  of \<open>n\<close> different senders to \<open>n\<close> different recipients, none of whom has a wallet yet.
\<close>

theorem backlog_booked:
  assumes "recreate_database hash a t0 admin_id gen = (Inr (), d0)" and "reset_state hashed t1 ids fk pairs d0 = (Inr (), d1)"
    and "\<not> sql_like seed_pattern (strip (lower (admin_email a)))" and "inj ids" and "n \<le> pairs"
    and "lower (fx_rate_source s) = ''config''" and "fst (local_date 0 now) < 2030"
  shows "\<exists>d. backlog s (admin_email a) now (\<lambda>_ _. None) keys n d1 = (Inr (), d)
    \<and> length (transactions d) = n \<and> distinct (map t_sender_id (transactions d)) \<and> distinct (map t_recipient_user_id (transactions d))
    \<and> list_all (\<lambda>t. t_cashin_status t = CashIn_received \<and> t_settlement_status t = Settle_queued \<and> t_uctusd_amount t = 3.895072)
        (transactions d)
    \<and> sample_db d Settle_queued = n \<and> wallets d = []"
proof -
  obtain admin where d0: "d0 = (fresh_db gen t0)\<lparr>users := [admin]\<rparr>" and adm: "u_email admin = strip (lower (admin_email a))"
    using recreated [OF assms(1)] .
  have "\<forall>u\<in>set (users d0). \<not> is_seeded u" using assms(3) by (simp add: d0 adm is_seeded_def)
  note d1 = reset_fresh [OF assms(2) this]
  have emails: "distinct (map u_email (users d1))" using d1(1) by (simp add: unique_contacts_def)
  have empty: "beneficiaries d0 = []" "wallets d0 = []" "transactions d0 = []" by (simp_all add: d0 fresh_db_def empty_db_def)
  have ready: "bench_ready (users d1) ids fk gen t0 t1 pairs d1"
    using d1 empty by (simp add: bench_ready_def) (simp add: d0 fresh_tables)
  have senders: "\<forall>i<pairs. seed_sender hashed t1 ids fk i \<in> set (users d1)" by (simp add: d1(2))
  obtain ts where ts: "book_all s now (\<lambda>_ _. None) keys admin [0..<n] d1 = (Inr (), d1\<lparr>transactions := ts\<rparr>)"
    "map t_sender_id ts = map (\<lambda>i. ids (4 * i)) [0..<n]" "map t_recipient_user_id ts = map (\<lambda>i. Some (ids (4 * i + 1))) [0..<n]"
    "\<forall>t\<in>set ts. t_cashin_status t = CashIn_received \<and> t_settlement_status t = Settle_queued \<and> t_uctusd_amount t = 3.895072"
    using book_all_succeeds [OF emails assms(4) senders assms(6,7,5) ready order.refl, where keys = keys and admin = admin] d1(6) empty(3)
    by auto
  have "scalar_one (filter (\<lambda>u. u_email u = strip (lower (admin_email a))) (users d1)) = Inr admin"
    using scalar_one_key [OF emails, of admin] d1(2) d0 adm by simp
  then have run: "backlog s (admin_email a) now (\<lambda>_ _. None) keys n d1 = (Inr (), d1\<lparr>transactions := ts\<rparr>)"
    using ts(1) by (simp add: backlog_def)
  have "distinct (map t_sender_id ts)" "distinct (map t_recipient_user_id ts)"
    unfolding ts(2,3) using assms(4) by (auto simp: distinct_map intro!: inj_onI dest!: injD)
  moreover have "length ts = n" using arg_cong [OF ts(2), of length] by simp
  moreover have "filter (\<lambda>t. t_settlement_status t = Settle_queued) ts = ts" using ts(4) by simp
  ultimately show ?thesis
    using run ts(4) d1(7) empty(2) by (intro exI [of _ "d1\<lparr>transactions := ts\<rparr>"]) (simp add: list_all_iff sample_db_def)
qed

definition perf_admin :: admin_settings where
  "perf_admin = \<lparr>admin_email = ''admin@example.com'', admin_password = ''pw'', admin_name = ''Admin'', admin_mobile = ''+27800000000''\<rparr>"

definition perf_admin_row :: user where
  "perf_admin_row = \<lparr>u_id = - 1, u_email = ''admin@example.com'', u_mobile = ''+27800000000'', u_full_name = ''Admin'',
     u_password_hash = ''h'', u_is_admin = True, u_can_send = False, u_can_receive = False, u_kyc_status = Kyc_approved,
     u_created_at = 0, u_updated_at = 0\<rparr>"

lemma perf_texts:
  "strip (lower ''admin@example.com'') = ''admin@example.com''" "strip ''+27800000000'' = ''+27800000000''"
  "\<not> sql_like seed_pattern ''admin@example.com''" "\<not> is_seeded perf_admin_row"
  "unique_contacts (perf_admin_row # map (seed_sender ''h'' 0 int plain_faker) [0..<2]
     @ map (seed_recipient ''h'' 0 int plain_faker) [0..<2])"
  "lower (fx_rate_source example_settings) = ''config''" "fst (local_date 0 0) < 2030"
  by (code_simp, code_simp, code_simp, code_simp, code_simp, code_simp, code_simp)

lemma perf_recreated:
  "recreate_database (\<lambda>_. ''h'') perf_admin 0 (- 1) int = (Inr (), (fresh_db int 0)\<lparr>users := [perf_admin_row]\<rparr>)"
proof -
  have "users (fresh_db int 0) = []" by (simp add: fresh_db_def empty_db_def)
  then show ?thesis
    by (simp add: recreate_database_def seed_admin_def perf_admin_def perf_texts returning_def commit_users_def
        unique_contacts_def Let_def perf_admin_row_def)
qed

theorem backlog_booked_witness:
  "\<exists>d1 d. reset_state ''h'' 0 int plain_faker 2 ((fresh_db int 0)\<lparr>users := [perf_admin_row]\<rparr>) = (Inr (), d1)
    \<and> backlog example_settings ''admin@example.com'' 0 (\<lambda>_ _. None) int 2 d1 = (Inr (), d) \<and> length (transactions d) = 2"
proof -
  obtain d1 where d1: "reset_state ''h'' 0 int plain_faker 2 ((fresh_db int 0)\<lparr>users := [perf_admin_row]\<rparr>) = (Inr (), d1)"
    using perf_texts(4,5) by (simp add: reset_state_def purge_def seed_def commit_users_def Let_def)
  have a: "\<not> sql_like seed_pattern (strip (lower (admin_email perf_admin)))" "inj int" "2 \<le> (2 :: nat)"
    by (simp_all only: perf_admin_def admin_settings.simps perf_texts) (simp_all add: inj_on_def)
  from backlog_booked [OF perf_recreated d1 a perf_texts(6,7), of int] d1 show ?thesis
    by (auto simp: perf_admin_def)
qed

section \<open>A fresh start for every sub-run\<close>

text \<open>What the purge leaves: no synthetic account, and still no row that points at a missing one.\<close>

lemma purge_leaves:
  assumes "purge d = (Inr n, d')" and "references_ok d" and "distinct (map u_id (users d))"
  shows "references_ok d'" "filter is_seeded (users d') = []" "set (users d') \<subseteq> set (users d)"
    "filter (\<lambda>u. \<not> is_seeded u) (users d') = filter (\<lambda>u. \<not> is_seeded u) (users d)"
proof -
  let ?ids = "set (map u_id (filter is_seeded (users d)))"
  have own: "\<not> is_seeded u \<longleftrightarrow> u_id u \<notin> ?ids" if "u \<in> set (users d)" for u
    using assms(3) that by (auto simp: distinct_map dest: inj_onD)
  from assms(1) consider "d' = d" "filter is_seeded (users d) = []" | "d' = without_users ?ids d" "references_ok d'"
    by (auto simp: purge_def Let_def split: if_splits)
  then have "references_ok d' \<and> users d' = filter (\<lambda>u. \<not> is_seeded u) (users d)"
  proof cases
    case 1
    then show ?thesis using assms(2) by (metis (mono_tags, lifting) filter_True filter_empty_conv)
  next
    case 2
    then have "users d' = filter (\<lambda>u. u_id u \<notin> ?ids) (users d)" by (simp add: without_users_def)
    with own 2(2) show ?thesis by (metis (mono_tags, lifting) filter_cong)
  qed
  then show "references_ok d'" "filter is_seeded (users d') = []" "set (users d') \<subseteq> set (users d)"
    "filter (\<lambda>u. \<not> is_seeded u) (users d') = filter (\<lambda>u. \<not> is_seeded u) (users d)"
    by (auto simp: filter_empty_conv)
qed

text \<open>
  No sub-run inherits anything from the one before (the promise of \<open>run_all.py\<close>): after the reset of
  any database that keeps its foreign keys, whatever the last load left in it, the synthetic accounts
  are exactly the new pairs, none of them has sent or received a payment, owns a wallet or a cash-out,
  and none has used any of its daily or monthly limit; everyone else is still there.
\<close>

theorem fresh_start:
  assumes "reset_state hashed t1 ids fk pairs d = (Inr (), d')" and "references_ok d"
    and "distinct (map u_id (users d))" and "\<forall>u\<in>set (users d). u_id u \<notin> range ids"
  shows "filter is_seeded (users d') = map (seed_sender hashed t1 ids fk) [0..<pairs] @ map (seed_recipient hashed t1 ids fk) [0..<pairs]
    \<and> list_all (\<lambda>u. (\<forall>t\<in>set (transactions d'). t_sender_id t \<noteq> u_id u \<and> t_recipient_user_id t \<noteq> Some (u_id u))
        \<and> get_wallet_for_user d' (u_id u) = None \<and> (\<forall>c\<in>set (cashouts d'). c_recipient_user_id c \<noteq> u_id u)
        \<and> get_daily_usage s now d' (u_id u) = 0 \<and> get_monthly_usage s now d' (u_id u) = 0) (filter is_seeded (users d'))
    \<and> filter (\<lambda>u. \<not> is_seeded u) (users d') = filter (\<lambda>u. \<not> is_seeded u) (users d)"
proof -
  from assms(1) obtain n d1 where p: "purge d = (Inr n, d1)"
    by (auto simp: reset_state_def split: sum.splits prod.splits)
  note l = purge_leaves [OF p assms(2,3)]
  let ?new = "map (seed_sender hashed t1 ids fk) [0..<pairs] @ map (seed_recipient hashed t1 ids fk) [0..<pairs]"
  have d': "users d' = users d1 @ ?new" "transactions d' = transactions d1" "wallets d' = wallets d1" "cashouts d' = cashouts d1"
    using assms(1) p l(2) by (auto simp: reset_state_def seed_def commit_users_def split: if_splits)
  have new: "filter is_seeded ?new = ?new" "filter (\<lambda>u. \<not> is_seeded u) ?new = []"
    by (auto intro!: filter_True filter_none simp: seed_is_seeded simp del: filter_append)
  have seeded: "filter is_seeded (users d') = ?new"
    using new(1) by (simp only: d'(1) filter_append l(2) append.simps)
  have fresh: "u_id u \<notin> u_id ` set (users d1)" if "u \<in> set ?new" for u
  proof -
    have "u_id u \<in> range ids" using that by (auto simp: seed_sender_def seed_recipient_def)
    then show ?thesis using assms(4) l(3) by (metis (no_types) imageE subset_iff)
  qed
  have paid: "t_sender_id t \<in> u_id ` set (users d1)" "opt_in (t_recipient_user_id t) (u_id ` set (users d1))"
    if "t \<in> set (transactions d1)" for t using l(1) that by (simp_all add: references_ok_def)
  have held: "\<forall>w\<in>set (wallets d1). w_user_id w \<in> u_id ` set (users d1)"
    "\<forall>c\<in>set (cashouts d1). c_recipient_user_id c \<in> u_id ` set (users d1)"
    using l(1) by (simp_all add: references_ok_def)
  have "(\<forall>t\<in>set (transactions d'). t_sender_id t \<noteq> u_id u \<and> t_recipient_user_id t \<noteq> Some (u_id u))
      \<and> get_wallet_for_user d' (u_id u) = None \<and> (\<forall>c\<in>set (cashouts d'). c_recipient_user_id c \<noteq> u_id u)
      \<and> get_daily_usage s now d' (u_id u) = 0 \<and> get_monthly_usage s now d' (u_id u) = 0" if "u \<in> set ?new" for u
  proof -
    have sent: "\<forall>t\<in>set (transactions d1). t_sender_id t \<noteq> u_id u \<and> t_recipient_user_id t \<noteq> Some (u_id u)"
      using paid fresh [OF that] by (metis option.simps(5) opt_in_def)
    moreover have "get_wallet_for_user d1 (u_id u) = None"
      using held(1) fresh [OF that] by (metis get_wallet_for_user_def by_key_None)
    moreover have "\<forall>c\<in>set (cashouts d1). c_recipient_user_id c \<noteq> u_id u"
      using held(2) fresh [OF that] by metis
    ultimately show ?thesis
      by (simp add: d' get_wallet_for_user_def get_daily_usage_def get_monthly_usage_def sum_zar_since_def counts_since_def filter_none)
  qed
  moreover have "filter (\<lambda>u. \<not> is_seeded u) (users d') = filter (\<lambda>u. \<not> is_seeded u) (users d)"
    using new(2) by (simp only: d'(1) filter_append l(4) append_Nil2)
  ultimately show ?thesis unfolding seeded by (simp only: list_all_iff) blast
qed

text \<open>A reset of a database where a synthetic sender, who has a wallet, is left over from an earlier load.\<close>

definition used_db :: db where
  "used_db = (fresh_db int 0)\<lparr>users := [perf_admin_row, seed_sender ''h'' 0 int plain_faker 0],
     wallets := [example_wallet\<lparr>w_user_id := 0\<rparr>]\<rparr>"

theorem fresh_start_witness:
  "\<exists>d. reset_state ''h'' 5 (\<lambda>i. int i + 100) plain_faker 2 used_db = (Inr (), d)
    \<and> filter is_seeded (users d) = map (seed_sender ''h'' 5 (\<lambda>i. int i + 100) plain_faker) [0..<2]
        @ map (seed_recipient ''h'' 5 (\<lambda>i. int i + 100) plain_faker) [0..<2]"
proof -
  have empty: "submissions used_db = []" "beneficiaries used_db = []" "transactions used_db = []" "cashouts used_db = []"
    by (simp_all add: used_db_def fresh_db_def empty_db_def)
  have ids: "u_id perf_admin_row = - 1" "u_id (seed_sender ''h'' 0 int plain_faker 0) = 0"
    by (simp_all add: perf_admin_row_def seed_sender_def)
  have "purge used_db = (Inr 1, (fresh_db int 0)\<lparr>users := [perf_admin_row]\<rparr>)"
    using empty by (simp add: purge_def without_users_def references_ok_def used_db_def perf_texts(4) seed_is_seeded ids)
      (simp add: fresh_db_def empty_db_def)
  moreover have "unique_contacts (perf_admin_row # map (seed_sender ''h'' 5 (\<lambda>i. int i + 100) plain_faker) [0..<2]
     @ map (seed_recipient ''h'' 5 (\<lambda>i. int i + 100) plain_faker) [0..<2])"
    by code_simp
  ultimately obtain d where d: "reset_state ''h'' 5 (\<lambda>i. int i + 100) plain_faker 2 used_db = (Inr (), d)"
    using perf_texts(4) by (simp add: reset_state_def seed_def commit_users_def Let_def)
  have ok: "references_ok used_db" "distinct (map u_id (users used_db))" "\<forall>u\<in>set (users used_db). u_id u \<notin> range (\<lambda>i. int i + 100)"
    using empty by (auto simp: references_ok_def used_db_def ids)
  from fresh_start [OF d ok] d show ?thesis by blast
qed

section \<open>Outcomes of a sub-run\<close>

text \<open>
  \<open>snapshot_outcomes\<close>: payments of synthetic senders by both states in the order of their texts, the
  retries of the received ones, and the cash-outs of synthetic recipients. The mean is left unrounded.
\<close>

definition by_seeded :: "db \<Rightarrow> uuid \<Rightarrow> bool" where
  "by_seeded d i \<longleftrightarrow> i \<in> set (map u_id (filter is_seeded (users d)))"

record outcomes =
  oc_cashin_by_settlement :: "((cashin_status \<times> settlement_status) \<times> nat) list"
  oc_completed_without_hash :: nat
  oc_attempts_max :: int
  oc_attempts_mean :: rat
  oc_cashout_by_status :: "(cashout_status \<times> nat) list"

definition group_counts :: "'k list \<Rightarrow> 'k list \<Rightarrow> ('k \<times> nat) list" where
  "group_counts order ks = filter (\<lambda>g. snd g \<noteq> 0) (map (\<lambda>k. (k, length (filter (\<lambda>x. x = k) ks))) order)"

definition payment_states :: "(cashin_status \<times> settlement_status) list" where
  "payment_states = [(c, s). c \<leftarrow> [CashIn_failed, CashIn_pending, CashIn_received],
     s \<leftarrow> [Settle_completed, Settle_failed, Settle_not_queued, Settle_processing, Settle_queued]]"

definition snapshot_outcomes :: "db \<Rightarrow> outcomes" where
  "snapshot_outcomes d =
     (let sent = filter (\<lambda>t. by_seeded d (t_sender_id t)) (transactions d);
          received = filter (\<lambda>t. t_cashin_status t = CashIn_received) sent;
          attempts = map t_settlement_attempts received
      in \<lparr>oc_cashin_by_settlement = group_counts payment_states (map (\<lambda>t. (t_cashin_status t, t_settlement_status t)) sent),
          oc_completed_without_hash = length (filter (\<lambda>t. t_settlement_status t = Settle_completed \<and> t_xrpl_tx_hash t = None) received),
          oc_attempts_max = (if attempts = [] then 0 else Max (set attempts)),
          oc_attempts_mean = (if attempts = [] then 0 else of_int (sum_list attempts) / of_nat (length attempts)),
          oc_cashout_by_status = group_counts [Out_approved, Out_completed, Out_failed, Out_requested]
             (map c_status (filter (\<lambda>c. by_seeded d (c_recipient_user_id c)) (cashouts d)))\<rparr>)"

text \<open>The count the drain waits for.\<close>

definition settled_or_failed :: "db \<Rightarrow> nat" where
  "settled_or_failed d = length (filter (\<lambda>t. t_settlement_status t \<in> {Settle_completed, Settle_failed} \<and> by_seeded d (t_sender_id t))
     (transactions d))"

lemma group_counts_total:
  assumes "distinct order" and "set ks \<subseteq> set order"
  shows "(\<Sum>(k, n)\<leftarrow>group_counts order ks. n) = length ks"
proof -
  have "sum_list (map snd (filter (\<lambda>g. snd g \<noteq> 0) gs)) = sum_list (map snd gs)" for gs :: "('a \<times> nat) list"
    by (induction gs) auto
  moreover have "(\<Sum>k\<leftarrow>order. length (filter (\<lambda>x. x = k) ks)) = length ks"
    using assms(2)
  proof (induction ks)
    case (Cons x xs)
    have "(\<Sum>k\<leftarrow>order. length (filter (\<lambda>y. y = k) (x # xs)))
        = (\<Sum>k\<leftarrow>order. (if x = k then 1 else 0) + length (filter (\<lambda>y. y = k) xs))"
      by (intro arg_cong [where f = sum_list] map_cong) auto
    also have "\<dots> = (\<Sum>k\<leftarrow>order. if x = k then 1 else 0) + length xs"
      using Cons by (simp add: sum_list_addf)
    also have "(\<Sum>k\<leftarrow>order. if x = k then 1 else 0) = (1 :: nat)"
      using Cons.prems assms(1) by (simp add: sum_list_map_eq_sum_count2 sum_list_distinct_conv_sum_set)
    finally show ?case by simp
  qed simp
  ultimately show ?thesis by (simp add: group_counts_def case_prod_unfold comp_def)
qed

text \<open>The tables of the report account for every payment and cash-out of a synthetic user.\<close>

lemma outcomes_complete:
  "(\<Sum>(k, n)\<leftarrow>oc_cashin_by_settlement (snapshot_outcomes d). n) = length (filter (\<lambda>t. by_seeded d (t_sender_id t)) (transactions d))"
  "(\<Sum>(k, n)\<leftarrow>oc_cashout_by_status (snapshot_outcomes d). n) = length (filter (\<lambda>c. by_seeded d (c_recipient_user_id c)) (cashouts d))"
proof -
  have "distinct payment_states" by code_simp
  moreover have "(c, s) \<in> set payment_states" for c s
    by (cases c; cases s) (simp_all add: payment_states_def)
  ultimately show "(\<Sum>(k, n)\<leftarrow>oc_cashin_by_settlement (snapshot_outcomes d). n)
      = length (filter (\<lambda>t. by_seeded d (t_sender_id t)) (transactions d))"
    using group_counts_total [of payment_states] by (auto simp: snapshot_outcomes_def Let_def subset_iff)
  have "set cs \<subseteq> set [Out_approved, Out_completed, Out_failed, Out_requested]" for cs
    using cashout_status.exhaust by auto
  then show "(\<Sum>(k, n)\<leftarrow>oc_cashout_by_status (snapshot_outcomes d). n)
      = length (filter (\<lambda>c. by_seeded d (c_recipient_user_id c)) (cashouts d))"
    using group_counts_total [of "[Out_approved, Out_completed, Out_failed, Out_requested]"]
    by (simp add: snapshot_outcomes_def Let_def)
qed

text \<open>A drain that saw its whole backlog leaves nothing of it waiting.\<close>

lemma drained_all_final:
  assumes "length (filter (\<lambda>t. by_seeded d (t_sender_id t)) (transactions d)) \<le> settled_or_failed d"
    and "t \<in> set (transactions d)" and "by_seeded d (t_sender_id t)"
  shows "t_settlement_status t \<in> {Settle_completed, Settle_failed}"
proof -
  have "length (filter Q xs) \<le> length (filter (\<lambda>x. P x \<and> Q x) xs) \<Longrightarrow> x \<in> set xs \<Longrightarrow> Q x \<Longrightarrow> P x" for P Q xs and x :: transaction
  proof (induction xs)
    case (Cons y ys)
    have "length (filter (\<lambda>x. P x \<and> Q x) ys) \<le> length (filter Q ys)" by (induction ys) auto
    with Cons show ?case by (auto split: if_splits)
  qed simp
  from this [OF assms(1) [unfolded settled_or_failed_def] assms(2,3)] show ?thesis .
qed

end
