(* ===== verification/Swarm.thy ===== *)
theory Swarm
  imports Checkout PerfState
begin

text \<open>
  The start of a simulated user of the load test (\<open>perf/locustfile.py\<close>): the account it claims, its login, the
  beneficiary a sender finds on the send page, and the quote task. On the state every sub-run starts from
  (theory PerfState) each sender finds its own beneficiary.
\<close>

definition load_password :: string where
  "load_password = ''PerfTest123!''"

text \<open>The login of a simulated user: its session, and whether Locust records a rejection (the answer stayed on the login page).\<close>

definition log_in :: "(string \<Rightarrow> string \<Rightarrow> bool) \<Rightarrow> db \<Rightarrow> string \<Rightarrow> string \<Rightarrow> string option \<times> bool" where
  "log_in verify d email password =
     (case login verify d None email password of
        (Redirect target _, ss) \<Rightarrow> (ss, starts_with ''/login'' target)
      | (_, ss) \<Rightarrow> (ss, True))"

text \<open>The first option of the send page that carries an identifier; no page or no option is a recorded failure.\<close>

definition load_beneficiary :: "db \<Rightarrow> user option \<Rightarrow> string option" where
  "load_beneficiary d u =
     (if send_start u \<noteq> Page ''sender/send_amount.html'' 200 then None
      else case list_beneficiaries d (u_id (the u)) of [] \<Rightarrow> None | b # _ \<Rightarrow> Some (uuid_text (b_id b)))"

text \<open>A sender's start: the account, the session, and the beneficiary for its tasks.\<close>

definition start_sender :: "(string \<Rightarrow> string \<Rightarrow> bool) \<Rightarrow> nat \<Rightarrow> nat \<Rightarrow> db \<Rightarrow> nat \<times> string option \<times> string option" where
  "start_sender verify pairs counter d =
     (case claim_account pairs counter of (i, counter') \<Rightarrow>
        (let ss = fst (log_in verify d (seed_email ''sender'' i) load_password)
         in (counter', ss, load_beneficiary d (get_current_user d ss))))"

definition start_recipient :: "(string \<Rightarrow> string \<Rightarrow> bool) \<Rightarrow> nat \<Rightarrow> nat \<Rightarrow> db \<Rightarrow> nat \<times> string option" where
  "start_recipient verify pairs counter d =
     (case claim_account pairs counter of (i, counter') \<Rightarrow>
        (counter', fst (log_in verify d (seed_email ''recipient'' i) load_password)))"

text \<open>The quote task: one of four amounts for the sender's beneficiary, when it has one.\<close>

definition quote_amounts :: "int list" where
  "quote_amounts = [100, 250, 500, 750]"

definition quote_task ::
  "settings \<Rightarrow> instant \<Rightarrow> db \<Rightarrow> user option \<Rightarrow> string option \<Rightarrow> nat \<Rightarrow> (response + quote_response) option" where
  "quote_task s now d u beneficiary choice =
     (case Option.bind beneficiary parse_uuid of
        None \<Rightarrow> None
      | Some bid \<Rightarrow> Some (get_quote s now d u bid (Fin (of_int (quote_amounts ! (choice mod 4))))))"

section \<open>Every sender starts with its own beneficiary\<close>

lemma lower_digits: "isdigit s \<Longrightarrow> lower s = s"
  by (auto simp: isdigit_def lower_def list_all_iff is_digit_def lower_char_def intro!: map_idI)

lemma role_texts: "lower ''sender'' = ''sender''" "lower ''recipient'' = ''recipient''" "lower ''perf.'' = ''perf.''"
  "lower ''@loadtest.local'' = ''@loadtest.local''"
  by code_simp+

lemma seed_email_typed: "role = ''sender'' \<or> role = ''recipient'' \<Longrightarrow> strip (lower (seed_email role i)) = seed_email role i"
proof -
  assume role: "role = ''sender'' \<or> role = ''recipient''"
  have "lower (x @ y) = lower x @ lower y" for x y by (simp add: lower_def)
  then have "lower (seed_email role i) = seed_email role i"
    using role role_texts lower_digits digits_of_int_value [of "int i"] by (auto simp only: seed_email_def)
  moreover have "strip (seed_email role i) = seed_email role i"
  proof -
    have ends: "seed_email role i \<noteq> []" "\<not> is_space (hd (seed_email role i))" "\<not> is_space (last (seed_email role i))"
      by (simp_all add: seed_email_def is_space_def code_def)
    then have "lstrip (seed_email role i) = seed_email role i" "lstrip (rev (seed_email role i)) = rev (seed_email role i)"
      by (intro lstrip_fix; simp add: hd_rev)+
    then show ?thesis by (simp add: strip_def)
  qed
  ultimately show ?thesis by simp
qed

text \<open>
  On the state a sub-run starts from, a simulated sender logs in as the account it claimed, is not
  sent back to the login page, and takes its own seeded beneficiary from the send page.
\<close>

lemma sender_starts:
  assumes "bench_ready us ids fk gen t0 t1 pairs d" and "distinct (map u_email us)" and "distinct (map u_id us)" and "inj ids"
    and "\<forall>k. 0 \<le> ids k \<and> ids k < 2 ^ 128" and "seed_sender hashed t1 ids fk i \<in> set us" and "i < pairs"
    and "claim_account pairs counter = (i, counter')" and "verify load_password hashed"
  shows "start_sender verify pairs counter d = (counter', Some (uuid_text (ids (4 * i))), Some (uuid_text (ids (4 * i + 3))))"
    and "\<not> snd (log_in verify d (seed_email ''sender'' i) load_password)"
proof -
  let ?u = "seed_sender hashed t1 ids fk i" and ?b = "seed_beneficiary t1 ids fk i"
  have d: "users d = us" "beneficiaries d = map (seed_beneficiary t1 ids fk) [0..<pairs]"
    using assms(1) by (simp_all add: bench_ready_def)
  have u: "u_email ?u = seed_email ''sender'' i" "u_id ?u = ids (4 * i)" "u_password_hash ?u = hashed" "\<not> u_is_admin ?u"
    "u_can_send ?u" "u_kyc_status ?u = Kyc_approved" by (simp_all add: seed_sender_def)
  have "find (\<lambda>v. u_email v = seed_email ''sender'' i) us = Some ?u"
    using find_unique [OF assms(2,6)] by (simp add: u(1))
  then have "get_user_by_email d (seed_email ''sender'' i) = Some ?u"
    by (simp add: get_user_by_email_def returning_def d(1) seed_email_typed)
  then have login: "login verify d None (seed_email ''sender'' i) load_password = (Redirect (home_of ?u) None, Some (uuid_text (ids (4 * i))))"
    using assms(9) by (simp add: login_def authenticate_user_def u(2,3))
  have home: "\<not> starts_with ''/login'' (home_of ?u)" using u(4) by (simp add: home_of_def starts_with_def)
  show "\<not> snd (log_in verify d (seed_email ''sender'' i) load_password)" by (simp add: log_in_def login home)
  have "truthy (Some (uuid_text (ids (4 * i))))" by (simp add: truthy_def uuid_text_def Let_def)
  then have "get_current_user d (Some (uuid_text (ids (4 * i)))) = Some ?u"
    using spec [OF assms(5), of "4 * i"] by_key_unique [OF assms(3,6)]
    by (simp add: get_current_user_def get_user_by_id_def d(1) u(2) parse_uuid_text)
  moreover have "list_beneficiaries d (ids (4 * i)) = [?b]"
  proof -
    have "filter (\<lambda>b. b_sender_id b = ids (4 * i) \<and> b_is_active b) (map (seed_beneficiary t1 ids fk) [0..<pairs]) = [?b]"
    proof -
      have "(\<lambda>b. b_sender_id b = ids (4 * i) \<and> b_is_active b) \<circ> seed_beneficiary t1 ids fk = (\<lambda>j. j = i)"
        by (auto simp: fun_eq_iff seed_beneficiary_def dest: injD [OF assms(4)])
      moreover have "filter (\<lambda>j. j = i) [0..<pairs] = [i]" using assms(7) by (induction pairs) (auto simp: less_Suc_eq)
      ultimately show ?thesis by (simp add: filter_map)
    qed
    then show ?thesis by (simp add: list_beneficiaries_def d(2) newest_first_def)
  qed
  moreover have "send_start (Some ?u) = Page ''sender/send_amount.html'' 200"
    using u by (simp add: send_start_def sender_redirect_def)
  ultimately show "start_sender verify pairs counter d = (counter', Some (uuid_text (ids (4 * i))), Some (uuid_text (ids (4 * i + 3))))"
    using assms(8) u(2) by (simp add: start_sender_def log_in_def login load_beneficiary_def seed_beneficiary_def)
qed

end
