(* ===== verification/PerfRun.thy ===== *)
theory PerfRun
  imports PerfState
begin

text \<open>
  The driver of the load test, \<open>perf/run_all.py\<close>: its parameters and the guard on its targets, the two
  kinds of sub-run with the processes they start and stop, the verdict on each, and the status a
  session ends with. Files, clocks and what a process answers are arguments.
\<close>

section \<open>Parameters\<close>

text \<open>\<open>re.findall\<close> of digits and an optional unit; anything else is skipped.\<close>

function duration_parts :: "string \<Rightarrow> (string \<times> string) list" where
  "duration_parts [] = []"
| "duration_parts (c # cs) =
     (if is_digit c then
        (case dropWhile is_digit cs of
           [] \<Rightarrow> [(takeWhile is_digit (c # cs), [])]
         | u # r \<Rightarrow> if u \<in> set ''hms'' then (takeWhile is_digit (c # cs), [u]) # duration_parts r
             else (takeWhile is_digit (c # cs), []) # duration_parts (u # r))
      else duration_parts cs)"
  by pat_completeness auto
termination
proof (relation "measure length")
  fix c cs u r
  assume "dropWhile is_digit cs = u # r"
  then have "length (u # r) \<le> length cs" by (metis length_dropWhile_le)
  then show "(r, c # cs) \<in> measure length" "(u # r, c # cs) \<in> measure length" by simp_all
qed simp_all

definition unit_seconds :: "string \<Rightarrow> int" where
  "unit_seconds u = (if u = ''h'' then 3600 else if u = ''m'' then 60 else 1)"

text \<open>\<open>None\<close> is the exit with a message.\<close>

definition duration_seconds :: "string \<Rightarrow> int option" where
  "duration_seconds text =
     (let parts = duration_parts text
      in if parts = [] \<or> concat (map (\<lambda>(n, u). n @ u) parts) \<noteq> text then None
         else Some (\<Sum>(n, u)\<leftarrow>parts. digits_value n * unit_seconds u))"

definition env_int :: "string option \<Rightarrow> int \<Rightarrow> int option" where
  "env_int raw fallback = (case raw of None \<Rightarrow> Some fallback | Some v \<Rightarrow> py_int v)"

fun all_or_none :: "'a option list \<Rightarrow> 'a list option" where
  "all_or_none [] = Some []"
| "all_or_none (x # xs) = (case (x, all_or_none xs) of (Some a, Some as) \<Rightarrow> Some (a # as) | _ \<Rightarrow> None)"

definition env_list :: "string option \<Rightarrow> string \<Rightarrow> int list option" where
  "env_list raw fallback =
     all_or_none (map py_int (filter (\<lambda>v. strip v \<noteq> []) (split_on CHR '','' (case raw of None \<Rightarrow> fallback | Some v \<Rightarrow> v))))"

text \<open>
  \<open>PARAMS\<close> and the check of the two durations; \<open>env\<close> is the environment, \<open>float_of\<close> Python's \<open>float\<close> with
  \<open>None\<close> where it raises. \<open>None\<close> is an exit before anything was touched. The two constant descriptions
  are left out.
\<close>

record parameters =
  pa_db_name :: string
  pa_redis_url :: string
  pa_port :: int
  pa_pairs :: int
  pa_spawn_rate :: int
  pa_ref_users :: int
  pa_ref_time :: string
  pa_tiers :: "int list"
  pa_tier_time :: string
  pa_backlog :: int
  pa_scale_workers :: "int list"
  pa_drain_timeout :: int
  pa_xrpl_latency :: rat
  pa_real_xrpl :: bool
  pa_xrpl_payments :: int

definition env_text :: "string option \<Rightarrow> string \<Rightarrow> string" where
  "env_text raw fallback = (case raw of None \<Rightarrow> fallback | Some v \<Rightarrow> v)"

definition read_parameters :: "(string \<Rightarrow> rat option) \<Rightarrow> (string \<Rightarrow> string option) \<Rightarrow> parameters option" where
  "read_parameters float_of env =
     Option.bind (env_int (env ''PERF_PORT'') 8765) (\<lambda>port.
     Option.bind (env_int (env ''PERF_PAIRS'') 200) (\<lambda>pairs.
     Option.bind (env_int (env ''PERF_SPAWN_RATE'') 5) (\<lambda>rate.
     Option.bind (env_int (env ''PERF_REF_USERS'') 50) (\<lambda>ref_users.
     Option.bind (env_list (env ''PERF_TIERS'') ''10,25,50,100'') (\<lambda>tier_sizes.
     Option.bind (env_int (env ''PERF_BACKLOG'') 30) (\<lambda>waiting.
     Option.bind (env_list (env ''PERF_SCALE_WORKERS'') ''1,4'') (\<lambda>workers.
     Option.bind (env_int (env ''PERF_DRAIN_TIMEOUT'') 900) (\<lambda>timeout.
     Option.bind (float_of (env_text (env ''PERF_XRPL_LATENCY'') ''4.0'')) (\<lambda>latency.
     Option.bind (env_int (env ''PERF_XRPL_PAYMENTS'') 3) (\<lambda>payments.
       (let ref_time = env_text (env ''PERF_REF_TIME'') ''3m''; tier_time = env_text (env ''PERF_TIER_TIME'') ''2m''
        in if duration_seconds ref_time = None \<or> duration_seconds tier_time = None then None
           else Some \<lparr>pa_db_name = env_text (env ''PERF_DB_NAME'') ''remittance_perf'',
              pa_redis_url = env_text (env ''PERF_REDIS_URL'') ''redis://localhost:6379/14'',
              pa_port = port, pa_pairs = pairs, pa_spawn_rate = rate, pa_ref_users = ref_users, pa_ref_time = ref_time,
              pa_tiers = tier_sizes, pa_tier_time = tier_time, pa_backlog = waiting, pa_scale_workers = workers,
              pa_drain_timeout = timeout, pa_xrpl_latency = latency,
              pa_real_xrpl = (env_text (env ''PERF_REAL_XRPL'') ''0'' = ''1''), pa_xrpl_payments = payments\<rparr>)))))))))))"

definition default_parameters :: parameters where
  "default_parameters = \<lparr>pa_db_name = ''remittance_perf'', pa_redis_url = ''redis://localhost:6379/14'', pa_port = 8765,
     pa_pairs = 200, pa_spawn_rate = 5, pa_ref_users = 50, pa_ref_time = ''3m'', pa_tiers = [10, 25, 50, 100], pa_tier_time = ''2m'',
     pa_backlog = 30, pa_scale_workers = [1, 4], pa_drain_timeout = 900, pa_xrpl_latency = 4, pa_real_xrpl = False,
     pa_xrpl_payments = 3\<rparr>"

lemma parameters_by_default: "read_parameters (\<lambda>_. Some 4) (\<lambda>_. None) = Some default_parameters"
  by code_simp

section \<open>The guard on the targets\<close>

text \<open>The database names and the Redis URL of the application's own configuration.\<close>

record app_targets =
  at_database :: string
  at_test_database :: string
  at_redis_url :: string

datatype target_refusal = Protected_database | Shared_redis | Xrpl_results_elsewhere | Port_in_use

definition rstrip_slash :: "string \<Rightarrow> string" where
  "rstrip_slash s = rev (dropWhile (\<lambda>c. c = CHR ''/'') (rev s))"

text \<open>What follows the last slash, or the whole text.\<close>

definition after_slash :: "string \<Rightarrow> string" where
  "after_slash s = rev (takeWhile (\<lambda>c. c \<noteq> CHR ''/'') (rev s))"

definition guard_targets :: "parameters \<Rightarrow> bool \<Rightarrow> bool \<Rightarrow> app_targets \<Rightarrow> target_refusal + unit" where
  "guard_targets p own_results port_taken a =
     and_then (raise_if (pa_db_name p \<in> {at_database a, at_test_database a, ''postgres''}) Protected_database) (\<lambda>_.
     and_then (let perf = rstrip_slash (pa_redis_url p); redis_db = after_slash perf
               in raise_if (perf = rstrip_slash (at_redis_url a) \<or> \<not> isdigit redis_db \<or> redis_db = ''0'') Shared_redis) (\<lambda>_.
     and_then (raise_if (pa_real_xrpl p \<and> own_results) Xrpl_results_elsewhere) (\<lambda>_.
     raise_if port_taken Port_in_use)))"

text \<open>
  The guard compares texts: a URL that spells the same Redis database otherwise passes, here
  number 0 written as 00, the database the guard names as forbidden and the application uses.
\<close>

lemma guard_compares_texts:
  "guard_targets (default_parameters\<lparr>pa_redis_url := ''redis://localhost:6379/00''\<rparr>) False False
     \<lparr>at_database = ''remittance'', at_test_database = ''remittance_test'', at_redis_url = ''redis://localhost:6379/0''\<rparr> = Inr ()
   \<and> py_int (after_slash ''redis://localhost:6379/00'') = py_int (after_slash ''redis://localhost:6379/0'')"
  by code_simp

section \<open>Child processes\<close>

text \<open>The children by the label of their log, each with whether it still runs.\<close>

type_synonym children = "(string \<times> bool) list"

definition start_child :: "string \<Rightarrow> children \<Rightarrow> children" where
  "start_child p cs = cs @ [(p, True)]"

definition start_children :: "string list \<Rightarrow> children \<Rightarrow> children" where
  "start_children ps cs = foldl (\<lambda>cs p. start_child p cs) cs ps"

definition crashed :: "string list \<Rightarrow> children \<Rightarrow> children" where
  "crashed ls cs = map (\<lambda>(p, alive). (p, alive \<and> p \<notin> set ls)) cs"

text \<open>\<open>stop\<close>: whether the child was still alive, and the children without it.\<close>

definition stop_child :: "string \<Rightarrow> children \<Rightarrow> bool \<times> children" where
  "stop_child p cs = (map_of cs p = Some True, filter (\<lambda>c. fst c \<noteq> p) cs)"

definition stop_workers :: "string list \<Rightarrow> children \<Rightarrow> bool \<times> children" where
  "stop_workers ws cs = foldl (\<lambda>(alive, cs) p. (alive \<and> fst (stop_child p cs), snd (stop_child p cs))) (True, cs) ws"

definition stop_all :: "children \<Rightarrow> children" where
  "stop_all cs = foldl (\<lambda>cs p. snd (stop_child p cs)) cs (map fst cs)"

lemma labels_left [simp]:
  "map fst (start_child p cs) = map fst cs @ [p]" "map fst (crashed ls cs) = map fst cs"
  "map fst (snd (stop_child p cs)) = filter (\<lambda>q. q \<noteq> p) (map fst cs)"
  by (simp_all add: start_child_def crashed_def stop_child_def filter_map case_prod_unfold comp_def)

lemma workers_left [simp]: "map fst (snd (stop_workers ws cs)) = filter (\<lambda>q. q \<notin> set ws) (map fst cs)"
proof -
  have "map fst (snd (foldl (\<lambda>(alive, cs) p. (alive \<and> fst (stop_child p cs), snd (stop_child p cs))) (alive, cs) ws))
    = filter (\<lambda>q. q \<notin> set ws) (map fst cs)" for alive
  proof (induction ws arbitrary: alive cs)
    case (Cons w ws)
    show ?case by (simp add: Cons.IH conj_commute)
  qed simp
  then show ?thesis by (simp add: stop_workers_def)
qed

lemma stop_all_none: "stop_all cs = []"
proof -
  have "set (map fst (foldl (\<lambda>cs p. snd (stop_child p cs)) cs ps)) = set (map fst cs) - set ps" for ps
  proof (induction ps arbitrary: cs)
    case (Cons p ps)
    show ?case by (simp only: foldl_Cons Cons.IH labels_left) auto
  qed simp
  from this [of "map fst cs"] show ?thesis by (simp add: stop_all_def)
qed

text \<open>
  What the poll for the server met until its deadline: the process exited, it answered with a status,
  or the connection failed.
\<close>

datatype server_poll = Server_exited | Answered int | No_answer

fun wait_for_server :: "server_poll list \<Rightarrow> string + unit" where
  "wait_for_server [] = Inl ''uvicorn did not answer /login within 60 s''"
| "wait_for_server (Server_exited # r) = Inl ''uvicorn exited''"
| "wait_for_server (Answered n # r) = (if n = 200 then Inr () else wait_for_server r)"
| "wait_for_server (No_answer # r) = wait_for_server r"

text \<open>The polls for the workers: how many are registered, and whether the time is up or one has exited.\<close>

fun registered :: "nat \<Rightarrow> (nat \<times> bool) list \<Rightarrow> bool" where
  "registered wanted [] = False"
| "registered wanted ((n, give_up) # r) = (wanted \<le> n \<or> (\<not> give_up \<and> registered wanted r))"

definition worker_labels :: "nat \<Rightarrow> string \<Rightarrow> string list" where
  "worker_labels n label = map (\<lambda>i. label @ ''_worker'' @ digits_of_int (int i + 1)) [0..<n]"

definition start_workers :: "nat \<Rightarrow> string \<Rightarrow> (nat \<times> bool) list \<Rightarrow> children \<Rightarrow> (string + string list) \<times> children" where
  "start_workers n label polls cs =
     (let ws = worker_labels n label
      in (if registered n polls then Inr ws else Inl ''worker(s) did not register'', start_children ws cs))"

lemma labels_started [simp]: "map fst (start_children ws cs) = map fst cs @ ws"
  unfolding start_children_def by (induction ws arbitrary: cs) simp_all

text \<open>Stopping what was started, in either sub-run's order, leaves nothing.\<close>

lemma stopped_again:
  "snd (stop_workers ws (snd (stop_child p (crashed ls (start_children ws (start_child p [])))))) = []" (is "?a = []")
  "snd (stop_child q (snd (stop_workers ws (snd (stop_child p (crashed ls (start_child p (start_children ws (start_child q [])))))))))
     = []" (is "?b = []")
proof -
  have "map fst ?a = []" "map fst ?b = []"
    unfolding labels_left workers_left labels_started by (auto simp: filter_empty_conv)
  then show "?a = []" "?b = []" by (simp_all only: map_is_Nil_conv)
qed

section \<open>The verdict on a sub-run\<close>

text \<open>
  What a sub-run left behind: the expected files that are missing, Locust's exit code, whether
  server and workers lived to the end, a time-out of the drain, exceptions Locust recorded, the
  tracebacks in the logs, and the outcomes in the database.
\<close>

record sub_run =
  sr_missing :: "string list"
  sr_locust_exit :: "int option"
  sr_server_alive :: "bool option"
  sr_workers_alive :: "bool option"
  sr_timed_out :: bool
  sr_exceptions :: bool
  sr_tracebacks :: "(string \<times> nat) list"
  sr_outcomes :: outcomes

datatype problem = Missing_file string | Locust_exit int | Server_died | Workers_died | Not_drained
  | Python_exceptions | Tracebacks string nat

definition check_sub_run :: "sub_run \<Rightarrow> problem list" where
  "check_sub_run r =
     map Missing_file (sr_missing r)
     @ (case sr_locust_exit r of None \<Rightarrow> [] | Some c \<Rightarrow> if c \<in> {0, 1} then [] else [Locust_exit c])
     @ (if sr_server_alive r = Some False then [Server_died] else [])
     @ (if sr_workers_alive r = Some False then [Workers_died] else [])
     @ (if sr_timed_out r then [Not_drained] else [])
     @ (if sr_exceptions r then [Python_exceptions] else [])
     @ map (\<lambda>(name, n). Tracebacks name n) (sr_tracebacks r)"

text \<open>The loop that waits for the backlog: the counts it reads, each with the time of the test after it.\<close>

fun drain_loop :: "int \<Rightarrow> int \<Rightarrow> (int \<times> int) list \<Rightarrow> (bool \<times> int) option" where
  "drain_loop wanted deadline [] = None"
| "drain_loop wanted deadline ((settled, t) # rest) =
     (if wanted \<le> settled then Some (False, settled)
      else if deadline < t then Some (True, settled)
      else drain_loop wanted deadline rest)"

lemma drain_complete: "drain_loop wanted deadline rs = Some (False, n) \<Longrightarrow> wanted \<le> n"
  by (induction rs) (auto split: if_splits)

lemma drain_ends: "(n, t) \<in> set rs \<Longrightarrow> deadline < t \<Longrightarrow> drain_loop wanted deadline rs \<noteq> None"
  by (induction rs) auto

text \<open>
  How one step of a session ends: a sub-run with its record, an exception, or the signal handler, which
  stops the children, records the abort and exits.
\<close>

datatype step_result = Finished string sub_run | Raised_error string | Signalled nat

section \<open>The two kinds of sub-run\<close>

text \<open>What \<open>reset_state\<close> and \<open>perf/backlog.py\<close> take besides the database.\<close>

record fresh_data =
  fd_password_hash :: string
  fd_now :: instant
  fd_ids :: "nat \<Rightarrow> uuid"
  fd_faker :: faker

definition reset_with :: "fresh_data \<Rightarrow> int \<Rightarrow> db \<Rightarrow> (exn + unit) \<times> db" where
  "reset_with f pairs d = reset_state (fd_password_hash f) (fd_now f) (fd_ids f) (fd_faker f) (nat pairs) d"

text \<open>
  What happens during a load run: the polls, the children that crash, what server and workers do to the
  database under the load, Locust's exit code (or the exception of its time-out), the files it left.
\<close>

record load_io =
  li_fresh :: fresh_data
  li_server :: "server_poll list"
  li_workers :: "(nat \<times> bool) list"
  li_crashed :: "string list"
  li_traffic :: "db \<Rightarrow> db"
  li_locust :: "string + int"
  li_files :: "string list"
  li_exceptions :: bool
  li_tracebacks :: "(string \<times> nat) list"

definition missing :: "string list \<Rightarrow> string list \<Rightarrow> string list" where
  "missing files expected = filter (\<lambda>n. n \<notin> set files) expected"

definition load_run :: "int \<Rightarrow> string \<Rightarrow> load_io \<Rightarrow> db \<Rightarrow> children \<Rightarrow> step_result \<times> db \<times> children" where
  "load_run pairs label io d cs =
     (case reset_with (li_fresh io) pairs d of
        (Inl e, d) \<Rightarrow> (Raised_error (label @ ''_seed exited 1''), d, cs)
      | (Inr _, d) \<Rightarrow>
          (let cs = start_child (label @ ''_server'') cs
           in case wait_for_server (li_server io) of
                Inl e \<Rightarrow> (Raised_error e, d, cs)
              | Inr _ \<Rightarrow>
                  (case start_workers 1 label (li_workers io) cs of
                     (Inl e, cs) \<Rightarrow> (Raised_error e, d, cs)
                   | (Inr ws, cs) \<Rightarrow>
                       (let cs = crashed (li_crashed io) (start_child (label @ ''_sampler'') cs);
                            d = li_traffic io d
                        in case li_locust io of
                             Inl e \<Rightarrow> (Raised_error e, d, cs)
                           | Inr exit_code \<Rightarrow>
                               (let cs = snd (stop_child (label @ ''_sampler'') cs);
                                    workers = stop_workers ws cs;
                                    server = stop_child (label @ ''_server'') (snd workers)
                                in (Finished label
                                      \<lparr>sr_missing = missing (li_files io) [label @ ''_stats.csv'', label @ ''_failures.csv'',
                                         label @ ''_exceptions.csv'', ''queue_'' @ label @ ''.csv''],
                                       sr_locust_exit = Some exit_code, sr_server_alive = Some (fst server),
                                       sr_workers_alive = Some (fst workers), sr_timed_out = False,
                                       sr_exceptions = li_exceptions io, sr_tracebacks = li_tracebacks io,
                                       sr_outcomes = snapshot_outcomes d\<rparr>, d, snd server))))))"

text \<open>
  What happens during a drain: the booking of the backlog, the polls for the workers, and the states
  of the database its loop reads, each with the time of the test that follows.
\<close>

record drain_io =
  di_fresh :: fresh_data
  di_book :: "nat \<Rightarrow> db \<Rightarrow> (exn + unit) \<times> db"
  di_workers :: "(nat \<times> bool) list"
  di_polls :: "(db \<times> int) list"
  di_final :: db
  di_crashed :: "string list"
  di_files :: "string list"
  di_exceptions :: bool
  di_tracebacks :: "(string \<times> nat) list"

text \<open>\<open>None\<close> while neither the backlog is settled nor the deadline is past in the polls given.\<close>

definition drain_run :: "parameters \<Rightarrow> int \<Rightarrow> int \<Rightarrow> drain_io \<Rightarrow> db \<Rightarrow> children \<Rightarrow> (step_result \<times> db \<times> children) option" where
  "drain_run p workers deadline io d cs =
     (let label = ''workers'' @ digits_of_int workers in
      case reset_with (di_fresh io) (pa_pairs p) d of
        (Inl e, d) \<Rightarrow> Some (Raised_error (label @ ''_seed exited 1''), d, cs)
      | (Inr _, d) \<Rightarrow>
          (case di_book io (nat (pa_backlog p)) d of
             (Inl e, d) \<Rightarrow> Some (Raised_error (label @ ''_backlog exited 1''), d, cs)
           | (Inr _, d) \<Rightarrow>
               (case start_workers (nat workers) label (di_workers io) (start_child (label @ ''_sampler'') cs) of
                  (Inl e, cs) \<Rightarrow> Some (Raised_error e, d, cs)
                | (Inr ws, cs) \<Rightarrow>
                    (case drain_loop (pa_backlog p) deadline (map (\<lambda>(d, t). (int (settled_or_failed d), t)) (di_polls io)) of
                       None \<Rightarrow> None
                     | Some (late, settled) \<Rightarrow>
                         (let d = di_final io;
                              cs = snd (stop_child (label @ ''_sampler'') (crashed (di_crashed io) cs));
                              stopped = stop_workers ws cs
                          in Some (Finished label
                                \<lparr>sr_missing = missing (di_files io) [''queue_'' @ label @ ''.csv''],
                                 sr_locust_exit = None, sr_server_alive = None, sr_workers_alive = Some (fst stopped),
                                 sr_timed_out = late, sr_exceptions = di_exceptions io, sr_tracebacks = di_tracebacks io,
                                 sr_outcomes = snapshot_outcomes d\<rparr>, d, snd stopped))))))"

text \<open>A sub-run that finishes has stopped every child it started.\<close>

lemma load_run_stops: "load_run pairs label io d [] = (Finished l r, d', cs) \<Longrightarrow> cs = [] \<and> l = label"
  by (auto simp: load_run_def start_workers_def Let_def stopped_again split: sum.splits prod.splits if_splits)

lemma drain_run_stops: "drain_run p n t io d [] = Some (Finished l r, d', cs) \<Longrightarrow> cs = [] \<and> l = ''workers'' @ digits_of_int n"
  by (auto simp: drain_run_def start_workers_def Let_def stopped_again
      split: sum.splits prod.splits if_splits option.splits)

section \<open>How a session ends\<close>

datatype meta_error = Sub_run_problem string problem | Raised_message string | Xrpl_exit int | Analyze_failed

datatype session_status = Running | Complete | Complete_with_errors | Session_failed | Aborted nat

record meta =
  me_status :: session_status
  me_errors :: "meta_error list"

definition new_meta :: meta where
  "new_meta = \<lparr>me_status = Running, me_errors = []\<rparr>"

definition with_errors :: "meta_error list \<Rightarrow> meta \<Rightarrow> meta" where
  "with_errors es m = m\<lparr>me_errors := me_errors m @ es\<rparr>"

definition failed_with :: "string \<Rightarrow> meta \<Rightarrow> meta" where
  "failed_with e m = with_errors [Raised_message e] m\<lparr>me_status := Session_failed\<rparr>"

fun run_steps :: "step_result list \<Rightarrow> meta \<Rightarrow> meta" where
  "run_steps [] m = m"
| "run_steps (Finished label r # rest) m = run_steps rest (with_errors (map (Sub_run_problem label) (check_sub_run r)) m)"
| "run_steps (Raised_error e # rest) m = failed_with e m"
| "run_steps (Signalled n # rest) m = m\<lparr>me_status := Aborted n\<rparr>"

text \<open>
  The rest of \<open>main\<close> when no step ended it: the exit code of the ledger measurement when it was asked
  for, the status, then the analysis, whose failure downgrades it; \<open>Inl\<close> is a call that raised.
\<close>

definition finish_session :: "(string + int) option \<Rightarrow> string + int \<Rightarrow> meta \<Rightarrow> meta" where
  "finish_session xrpl analyze m =
     (if me_status m \<noteq> Running then m
      else case xrpl of
        Some (Inl e) \<Rightarrow> failed_with e m
      | _ \<Rightarrow>
          (let m = (case xrpl of Some (Inr c) \<Rightarrow> if c = 0 then m else with_errors [Xrpl_exit c] m | _ \<Rightarrow> m);
               m = m\<lparr>me_status := if me_errors m = [] then Complete else Complete_with_errors\<rparr>
           in case analyze of
                Inl e \<Rightarrow> failed_with e m
              | Inr c \<Rightarrow> if c = 0 then m else with_errors [Analyze_failed] m\<lparr>me_status := Complete_with_errors\<rparr>))"

definition session :: "step_result list \<Rightarrow> (string + int) option \<Rightarrow> string + int \<Rightarrow> meta" where
  "session steps xrpl analyze = finish_session xrpl analyze (run_steps steps new_meta)"

text \<open>A sub-run that left nothing to complain about.\<close>

definition clean_run :: "sub_run \<Rightarrow> bool" where
  "clean_run r \<longleftrightarrow> sr_missing r = [] \<and> sr_locust_exit r \<in> {None, Some 0, Some 1} \<and> sr_server_alive r \<noteq> Some False
     \<and> sr_workers_alive r \<noteq> Some False \<and> \<not> sr_timed_out r \<and> \<not> sr_exceptions r \<and> sr_tracebacks r = []"

lemma check_clean: "check_sub_run r = [] \<longleftrightarrow> clean_run r"
  by (auto simp: check_sub_run_def clean_run_def split: option.splits)

definition step_clean :: "step_result \<Rightarrow> bool" where
  "step_clean x \<longleftrightarrow> (case x of Finished label r \<Rightarrow> clean_run r | _ \<Rightarrow> False)"

text \<open>Where the steps leave a running session, and with which errors.\<close>

lemma run_steps_outcome:
  "me_status m = Running \<Longrightarrow>
     (me_status (run_steps steps m) = Running
        \<and> (me_errors (run_steps steps m) = [] \<longleftrightarrow> me_errors m = [] \<and> list_all step_clean steps))
   \<or> (me_status (run_steps steps m) = Session_failed \<and> me_errors (run_steps steps m) \<noteq> [] \<and> \<not> list_all step_clean steps)
   \<or> ((\<exists>n. me_status (run_steps steps m) = Aborted n) \<and> \<not> list_all step_clean steps)"
  by (induction steps m rule: run_steps.induct) (auto simp: with_errors_def failed_with_def step_clean_def check_clean)

text \<open>
  A session reports itself complete exactly when nothing went wrong: every sub-run finished with
  its files, a Locust exit code of 0 or 1, living server and workers, no time-out, no recorded
  exception and no traceback, the ledger measurement (if asked for) and the analysis succeeded, and
  then no error is recorded; after anything else the status says otherwise and an error or the signal
  is on record.
\<close>

lemma session_complete:
  "(me_status (session steps xrpl analyze) = Complete
     \<longleftrightarrow> list_all step_clean steps \<and> xrpl \<in> {None, Some (Inr 0)} \<and> analyze = Inr 0)
   \<and> (me_status (session steps xrpl analyze) = Complete
       \<longleftrightarrow> me_errors (session steps xrpl analyze) = [] \<and> (\<forall>n. me_status (session steps xrpl analyze) \<noteq> Aborted n))"
  using run_steps_outcome [of new_meta steps]
  by (auto simp: session_def finish_session_def new_meta_def with_errors_def failed_with_def Let_def split: option.splits sum.splits)

section \<open>A whole session\<close>

datatype plan = Load string load_io | Drain int int drain_io

definition plan_label :: "plan \<Rightarrow> string" where
  "plan_label x = (case x of Load label _ \<Rightarrow> label | Drain n _ _ \<Rightarrow> ''workers'' @ digits_of_int n)"

text \<open>The order of \<open>main\<close>: the reference run, the tiers, the drains.\<close>

definition plans :: "parameters \<Rightarrow> (string \<Rightarrow> load_io) \<Rightarrow> (int \<Rightarrow> int \<times> drain_io) \<Rightarrow> plan list" where
  "plans p load drain =
     Load ''run'' (load ''run'')
     # map (\<lambda>n. let label = ''c'' @ digits_of_int n in Load label (load label)) (pa_tiers p)
     @ map (\<lambda>n. Drain n (fst (drain n)) (snd (drain n))) (pa_scale_workers p)"

definition perform :: "parameters \<Rightarrow> plan \<Rightarrow> db \<Rightarrow> children \<Rightarrow> (step_result \<times> db \<times> children) option" where
  "perform p x d cs = (case x of Load label io \<Rightarrow> Some (load_run (pa_pairs p) label io d cs) | Drain n t io \<Rightarrow> drain_run p n t io d cs)"

text \<open>The sub-runs one after the other, up to the first that raises.\<close>

fun perform_all :: "parameters \<Rightarrow> plan list \<Rightarrow> db \<Rightarrow> children \<Rightarrow> (step_result list \<times> db \<times> children) option" where
  "perform_all p [] d cs = Some ([], d, cs)"
| "perform_all p (x # xs) d cs =
     (case perform p x d cs of
        None \<Rightarrow> None
      | Some (Finished label r, d, cs) \<Rightarrow>
          map_option (\<lambda>(steps, rest). (Finished label r # steps, rest)) (perform_all p xs d cs)
      | Some (step, d, cs) \<Rightarrow> Some ([step], d, cs))"

text \<open>
  \<open>main\<close> after the guard, for the newly created database (or the exception): its metadata, the database
  and the children left. The \<open>finally\<close> block stops whatever still runs.
\<close>

definition main_run ::
  "parameters \<Rightarrow> (exn + unit) \<times> db \<Rightarrow> plan list \<Rightarrow> string + int \<Rightarrow> string + int \<Rightarrow> (meta \<times> db \<times> children) option" where
  "main_run p recreated xs xrpl analyze =
     (let asked = (if pa_real_xrpl p then Some xrpl else None) in
      case recreated of
        (Inl e, d) \<Rightarrow> Some (session [Raised_error ''setup exited 1''] asked analyze, d, stop_all [])
      | (Inr _, d) \<Rightarrow>
          map_option (\<lambda>(steps, d, cs). (session steps asked analyze, d, stop_all cs)) (perform_all p xs d []))"

lemma perform_stops: "perform p x d [] = Some (Finished label r, d', cs) \<Longrightarrow> cs = [] \<and> label = plan_label x"
  by (auto simp: perform_def plan_label_def split: plan.splits dest: load_run_stops drain_run_stops)

text \<open>When every step was clean, every sub-run of the plan was carried out.\<close>

lemma perform_all_clean:
  "perform_all p xs d [] = Some (steps, d', cs) \<Longrightarrow> list_all step_clean steps \<Longrightarrow>
     cs = [] \<and> (\<exists>rs. steps = map (\<lambda>(label, r). Finished label r) (zip (map plan_label xs) rs) \<and> length rs = length xs)"
proof (induction xs arbitrary: d steps)
  case (Cons x xs)
  obtain step d1 cs1 where x: "perform p x d [] = Some (step, d1, cs1)"
    using Cons.prems(1) by (cases "perform p x d []") auto
  show ?case
  proof (cases step)
    case (Finished label r)
    note own = perform_stops [OF x [unfolded Finished]]
    from Cons.prems x Finished own obtain rest where rest: "steps = Finished label r # rest" "perform_all p xs d1 [] = Some (rest, d', cs)"
      by auto
    with Cons.IH [OF rest(2)] Cons.prems(2) obtain rs where "cs = []" "length rs = length xs"
      "rest = map (\<lambda>(label, r). Finished label r) (zip (map plan_label xs) rs)" by auto
    with rest(1) own show ?thesis by (intro conjI exI [of _ "r # rs"]) simp_all
  qed (use Cons.prems x in \<open>auto simp: step_clean_def\<close>)
qed simp

text \<open>
  C40. A complete session measured everything it set out to: when \<open>main\<close> ends with the status
  complete, the database was recreated, the reference run, every tier and every drain of the parameters
  was carried out, in that order and under its label, each left nothing to complain about, and no child
  process is left. However it ends, no child process is left.
\<close>

theorem complete_session_measured:
  assumes "main_run p recreated (plans p load drain) xrpl analyze = Some (m, d, cs)"
  shows "cs = [] \<and> (me_status m = Complete \<longrightarrow> fst recreated = Inr ()
    \<and> (\<exists>rs. perform_all p (plans p load drain) (snd recreated) []
          = Some (map (\<lambda>(label, r). Finished label r) (zip (''run'' # map (\<lambda>n. ''c'' @ digits_of_int n) (pa_tiers p)
               @ map (\<lambda>n. ''workers'' @ digits_of_int n) (pa_scale_workers p)) rs), d, [])
        \<and> length rs = Suc (length (pa_tiers p) + length (pa_scale_workers p)) \<and> list_all clean_run rs))"
proof -
  let ?xs = "plans p load drain"
  have labels: "map plan_label ?xs = ''run'' # map (\<lambda>n. ''c'' @ digits_of_int n) (pa_tiers p)
      @ map (\<lambda>n. ''workers'' @ digits_of_int n) (pa_scale_workers p)"
    by (simp add: plans_def plan_label_def Let_def)
  have none: "cs = []" using assms by (auto simp: main_run_def Let_def stop_all_none split: prod.splits sum.splits)
  show ?thesis
  proof (cases "me_status m = Complete")
    case True
    from assms obtain d0 steps cs' where run: "recreated = (Inr (), d0)" "perform_all p ?xs d0 [] = Some (steps, d, cs')"
        and m: "m = session steps (if pa_real_xrpl p then Some xrpl else None) analyze"
      using True by (auto simp: main_run_def Let_def session_complete [THEN conjunct1] step_clean_def split: prod.splits sum.splits if_splits)
    have clean: "list_all step_clean steps" using True by (simp add: m session_complete [THEN conjunct1])
    with perform_all_clean [OF run(2)] obtain rs where rs: "cs' = []" "length rs = length ?xs"
      "steps = map (\<lambda>(label, r). Finished label r) (zip (map plan_label ?xs) rs)" by auto
    have "list_all clean_run (map snd (zip (map plan_label ?xs) rs))"
      using clean rs(3) by (auto simp: list_all_iff step_clean_def)
    then have "list_all clean_run rs" using rs(2) by (simp add: map_snd_zip)
    with run rs none show ?thesis by (auto simp: labels intro!: exI [of _ rs]) (simp_all add: plans_def)
  qed (simp add: none)
qed

text \<open>A session of one reference run on a new database.\<close>

definition small_parameters :: parameters where
  "small_parameters = default_parameters\<lparr>pa_pairs := 2, pa_tiers := [], pa_scale_workers := []\<rparr>"

definition quiet_load :: load_io where
  "quiet_load = \<lparr>li_fresh = \<lparr>fd_password_hash = ''h'', fd_now = 0, fd_ids = int, fd_faker = plain_faker\<rparr>,
     li_server = [No_answer, Answered 200], li_workers = [(0, False), (1, False)], li_crashed = [], li_traffic = (\<lambda>d. d),
     li_locust = Inr 0, li_files = [''run_stats.csv'', ''run_failures.csv'', ''run_exceptions.csv'', ''queue_run.csv''],
     li_exceptions = False, li_tracebacks = []\<rparr>"

theorem complete_session_measured_witness:
  "\<exists>m d. main_run small_parameters (recreate_database (\<lambda>_. ''h'') perf_admin 0 (- 1) int)
       (plans small_parameters (\<lambda>_. quiet_load) undefined) (Inr 0) (Inr 0) = Some (m, d, [])
     \<and> me_status m = Complete"
proof -
  let ?d0 = "(fresh_db int 0)\<lparr>users := [perf_admin_row]\<rparr>"
  obtain d1 where "reset_state ''h'' 0 int plain_faker 2 ?d0 = (Inr (), d1)"
    using perf_texts(4,5) by (simp add: reset_state_def purge_def seed_def commit_users_def Let_def)
  then have reset: "reset_with (li_fresh quiet_load) 2 ?d0 = (Inr (), d1)" by (simp add: reset_with_def quiet_load_def)
  have "\<exists>r. load_run 2 ''run'' quiet_load ?d0 [] = (Finished ''run'' r, d1, []) \<and> clean_run r"
    unfolding load_run_def reset
    by (simp add: quiet_load_def start_workers_def worker_labels_def Let_def)
       (simp add: start_children_def start_child_def crashed_def stop_child_def stop_workers_def missing_def clean_run_def)
  then obtain r where r: "load_run 2 ''run'' quiet_load ?d0 [] = (Finished ''run'' r, d1, [])" "clean_run r" by blast
  have "perform_all small_parameters (plans small_parameters (\<lambda>_. quiet_load) undefined) ?d0 [] = Some ([Finished ''run'' r], d1, [])"
    by (simp add: plans_def small_parameters_def default_parameters_def perform_def r)
  then have run: "main_run small_parameters (recreate_database (\<lambda>_. ''h'') perf_admin 0 (- 1) int)
      (plans small_parameters (\<lambda>_. quiet_load) undefined) (Inr 0) (Inr 0)
    = Some (session [Finished ''run'' r] None (Inr 0), d1, stop_all [])"
    unfolding perf_recreated by (simp add: main_run_def small_parameters_def default_parameters_def)
  moreover have "me_status (session [Finished ''run'' r] None (Inr 0)) = Complete"
    using r(2) by (simp add: session_complete [THEN conjunct1] step_clean_def)
  ultimately show ?thesis using complete_session_measured [OF run] by auto
qed

section \<open>Durations are read back\<close>

text \<open>Hours, minutes and seconds written out with their units.\<close>

definition duration_text :: "nat \<Rightarrow> nat \<Rightarrow> nat \<Rightarrow> string" where
  "duration_text h m s = digits_of_int (int h) @ ''h'' @ digits_of_int (int m) @ ''m'' @ digits_of_int (int s) @ ''s''"

lemma parts_step:
  assumes "isdigit ds" and "u \<in> set ''hms''"
  shows "duration_parts (ds @ u # r) = (ds, [u]) # duration_parts r"
proof -
  obtain c cs where ds: "ds = c # cs" using assms(1) by (cases ds) (auto simp: isdigit_def)
  have d: "\<forall>x\<in>set ds. is_digit x" using assms(1) by (simp add: isdigit_def list_all_iff)
  have u: "\<not> is_digit u" using assms(2) by (auto simp: is_digit_def code_def)
  have "dropWhile is_digit (cs @ u # r) = u # r" "takeWhile is_digit (ds @ u # r) = ds"
    using d u by (simp_all add: ds dropWhile_append3 takeWhile_append2)
  then show ?thesis using assms(2) d by (simp add: ds)
qed

text \<open>
  A duration that is written with hours, minutes and seconds is read as that many seconds,
  whatever the numbers.
\<close>

theorem duration_roundtrip: "duration_seconds (duration_text h m s) = Some (int h * 3600 + int m * 60 + int s)"
proof -
  have d: "isdigit (digits_of_int (int n))" "digits_value (digits_of_int (int n)) = int n" for n
    using digits_of_int_value [of "int n"] by simp_all
  have "duration_parts (duration_text h m s)
    = [(digits_of_int (int h), ''h''), (digits_of_int (int m), ''m''), (digits_of_int (int s), ''s'')]"
    unfolding duration_text_def append.simps by (simp add: parts_step d(1))
  then show ?thesis by (simp add: duration_seconds_def d(2) unit_seconds_def) (simp add: duration_text_def)
qed

end
