(* ===== verification/Display.thy ===== *)
theory Display
  imports Pages
begin

text \<open>
  What every page shares: local times and versioned asset links (\<open>app/templating.py\<close>), the flash
  message of the session (\<open>app/dependencies.py\<close>), the user an error page is rendered for
  (\<open>app/errors.py\<close>), and the sealing of wallet seeds (\<open>app/security/crypto.py\<close>), whose Fernet tokens
  and SHA-256 digests are arguments.
\<close>

section \<open>Local times\<close>

definition month_names :: "string list" where
  "month_names = [''January'', ''February'', ''March'', ''April'', ''May'', ''June'', ''July'', ''August'', ''September'',
     ''October'', ''November'', ''December'']"

definition month_name :: "int \<Rightarrow> string" where
  "month_name m = month_names ! nat (m - 1)"

text \<open>Seconds since local midnight.\<close>

definition local_seconds :: "duration \<Rightarrow> instant \<Rightarrow> int" where
  "local_seconds offset t = (t + offset) mod day_length div seconds 1"

text \<open>\<open>strftime\<close> for the directives the templates use; other characters stand for themselves.\<close>

fun strftime :: "date \<Rightarrow> int \<Rightarrow> string \<Rightarrow> string" where
  "strftime (y, m, d) sec [] = []"
| "strftime (y, m, d) sec [c] = [c]"
| "strftime (y, m, d) sec (c # x # r) =
     (if c \<noteq> CHR ''%'' then c # strftime (y, m, d) sec (x # r)
      else (if x = CHR ''d'' then fixed_digits 2 d
            else if x = CHR ''b'' then take 3 (month_name m)
            else if x = CHR ''B'' then month_name m
            else if x = CHR ''Y'' then digits_of_int y
            else if x = CHR ''H'' then fixed_digits 2 (sec div 3600)
            else if x = CHR ''M'' then fixed_digits 2 (sec div 60 mod 60)
            else [c, x]) @ strftime (y, m, d) sec r)"

definition default_format :: string where
  "default_format = ''%d %b %Y %H:%M''"

definition localtime :: "settings \<Rightarrow> instant option \<Rightarrow> string \<Rightarrow> string" where
  "localtime s value fmt = (case value of None \<Rightarrow> []
     | Some t \<Rightarrow> strftime (local_date (display_utc_offset s) t) (local_seconds (display_utc_offset s) t) fmt)"

text \<open>A day is told from its text.\<close>

lemma month_texts: "1 \<le> m \<Longrightarrow> m \<le> 12 \<Longrightarrow> 1 \<le> m' \<Longrightarrow> m' \<le> 12 \<Longrightarrow> take 3 (month_name m) = take 3 (month_name m') \<Longrightarrow> m = m'"
proof -
  have all: "list_all (\<lambda>i. list_all (\<lambda>j. take 3 (month_name i) = take 3 (month_name j) \<longrightarrow> i = j) [1..12]) [1..12]"
    and "list_all (\<lambda>i. length (take 3 (month_name i)) = 3) [1..12]"
    by (code_simp, code_simp)
  assume "1 \<le> m" "m \<le> 12" "1 \<le> m'" "m' \<le> 12" "take 3 (month_name m) = take 3 (month_name m')"
  then show "m = m'" using all by (auto simp: list_all_iff)
qed

lemma month_text_length: "1 \<le> m \<Longrightarrow> m \<le> 12 \<Longrightarrow> length (take 3 (month_name m)) = 3"
proof -
  have "list_all (\<lambda>i. length (take 3 (month_name i)) = 3) [1..12]" by code_simp
  then show "1 \<le> m \<Longrightarrow> m \<le> 12 \<Longrightarrow> length (take 3 (month_name m)) = 3" by (auto simp: list_all_iff)
qed

lemma day_text_inj:
  assumes "0 \<le> y" "1 \<le> m" "m \<le> 12" "1 \<le> d" "d \<le> 31" and "0 \<le> y'" "1 \<le> m'" "m' \<le> 12" "1 \<le> d'" "d' \<le> 31"
    and "strftime (y, m, d) sec ''%d %b %Y'' = strftime (y', m', d') sec' ''%d %b %Y''"
  shows "(y, m, d) = (y', m', d')"
proof -
  have written: "strftime (z, k, e) r ''%d %b %Y'' = fixed_digits 2 e @ '' '' @ take 3 (month_name k) @ '' '' @ digits_of_int z" for z k e r
    by simp
  have two: "length (fixed_digits 2 e) = 2" for e using fixed_digits_value [of 2 e] by simp
  have parts: "fixed_digits 2 d = fixed_digits 2 d'" "take 3 (month_name m) = take 3 (month_name m')"
      "digits_of_int y = digits_of_int y'"
    using assms(11) month_text_length [OF assms(2,3)] month_text_length [OF assms(7,8)]
    unfolding written by (simp_all add: append_eq_append_conv two)
  have "d mod 100 = d' mod 100" using parts(1) fixed_digits_value [of 2 d] fixed_digits_value [of 2 d'] by simp
  then have "d = d'" using assms by simp
  moreover have "y = y'" using parts(3) digits_of_int_value [OF assms(1)] digits_of_int_value [OF assms(6)] by metis
  ultimately show ?thesis using month_texts [OF assms(2,3,7,8) parts(2)] by simp
qed

lemma same_local_day:
  assumes "t \<le> now"
  shows "local_date z t = local_date z now \<longleftrightarrow> local_midnight z (local_date z now) \<le> t"
proof
  assume "local_date z t = local_date z now"
  then show "local_midnight z (local_date z now) \<le> t" using midnight_of_date(1) [of z t] by simp
next
  assume m: "local_midnight z (local_date z now) \<le> t"
  have "local_midnight z (local_date z now) = (now + z) div day_length * day_length - z"
    using ord_ymd_day by (simp add: local_midnight_def local_date_def)
  with m have "(now + z) div day_length * day_length \<le> t + z" by linarith
  then have "(now + z) div day_length \<le> (t + z) div day_length"
    using zdiv_mono1 [of "(now + z) div day_length * day_length" "t + z" day_length] by simp
  moreover have "(t + z) div day_length \<le> (now + z) div day_length" using assms by (intro zdiv_mono1) simp_all
  ultimately show "local_date z t = local_date z now" by (simp add: local_date_def)
qed

text \<open>
  The day a user reads is the day their allowance is counted against (the promise of
  \<open>templating.py\<close>): for a row created at or before now, the page shows the date of today exactly when the
  row counts in today's usage window.
\<close>

theorem displayed_day_counts:
  assumes "t \<le> now" and "0 \<le> t + display_utc_offset s"
  shows "localtime s (Some t) ''%d %b %Y'' = localtime s (Some now) ''%d %b %Y'' \<longleftrightarrow> day_window s now \<le> t"
proof -
  let ?z = "display_utc_offset s"
  obtain y m d where d1: "local_date ?z t = (y, m, d)" by (metis prod_cases3)
  obtain y' m' d' where d2: "local_date ?z now = (y', m', d')" by (metis prod_cases3)
  have "1 \<le> (t + ?z) div day_length + 1" "1 \<le> (now + ?z) div day_length + 1"
    using assms by (simp_all add: pos_imp_zdiv_nonneg_iff)
  note r1 = ord_ymd_range [OF this(1)] and r2 = ord_ymd_range [OF this(2)]
  note r = r1 [of y m d] r2 [of y' m' d']
  have "strftime (y, m, d) a ''%d %b %Y'' = strftime (y', m', d') b ''%d %b %Y'' \<longleftrightarrow> (y, m, d) = (y', m', d')" for a b
    using day_text_inj [of y m d y' m' d' a b] r d1 d2 unfolding local_date_def by auto
  then show ?thesis
    using same_local_day [OF assms(1), of ?z]
    by (simp add: localtime_def day_window_def day_start_utc_def display_today_def d1 d2)
qed

lemma displayed_day_counts_witness:
  "localtime example_settings (Some (hours 100)) ''%d %b %Y'' = localtime example_settings (Some (hours 101)) ''%d %b %Y''
     \<longleftrightarrow> day_window example_settings (hours 101) \<le> hours 100"
proof (rule displayed_day_counts)
  show "hours 100 \<le> hours 101" by code_simp
  show "0 \<le> hours 100 + display_utc_offset example_settings" by code_simp
qed

section \<open>Versioned asset links\<close>

text \<open>
  \<open>stat\<close> and \<open>read_bytes\<close> of the static directory at one moment: the modification time and the content of
  each path; \<open>None\<close> where the call raises \<open>OSError\<close>. The module's dictionary of versions is passed
  along. A file that cannot be read although \<open>stat\<close> found it raises.
\<close>

record assets =
  modified :: "string \<Rightarrow> int option"
  content :: "string \<Rightarrow> string option"

type_synonym versions = "string \<rightharpoonup> int \<times> string"

definition version_hash :: "(string \<Rightarrow> string) \<Rightarrow> string \<Rightarrow> string" where
  "version_hash sha256 bytes = take 10 (sha256 bytes)"

definition plain_url :: "string \<Rightarrow> string" where
  "plain_url path = ''/static/'' @ path"

definition versioned_url :: "string \<Rightarrow> string \<Rightarrow> string" where
  "versioned_url path v = ''/static/'' @ path @ ''?v='' @ v"

definition static_url :: "(string \<Rightarrow> string) \<Rightarrow> assets \<Rightarrow> versions \<Rightarrow> string \<Rightarrow> (exn + string) \<times> versions" where
  "static_url sha256 files vs path =
     (case modified files path of
        None \<Rightarrow> (Inr (plain_url path), vs)
      | Some mtime \<Rightarrow>
          (let cached = vs path
           in if cached = None \<or> fst (the cached) \<noteq> mtime
              then (case content files path of
                      None \<Rightarrow> (Inl (Raised ''OSError'' path), vs)
                    | Some bytes \<Rightarrow>
                        (let v = (mtime, version_hash sha256 bytes)
                         in (Inr (versioned_url path (snd v)), vs(path \<mapsto> v))))
              else (Inr (versioned_url path (snd (the cached))), vs)))"

text \<open>The links of successive page loads, each with the files as they are then.\<close>

fun rendered_links :: "(string \<Rightarrow> string) \<Rightarrow> versions \<Rightarrow> (assets \<times> string) list \<Rightarrow> (exn + string) list" where
  "rendered_links sha256 vs [] = []"
| "rendered_links sha256 vs ((files, path) # loads) =
     (case static_url sha256 files vs path of (link, vs') \<Rightarrow> link # rendered_links sha256 vs' loads)"

text \<open>Files whose content never changes without their modification time.\<close>

definition stamped :: "assets list \<Rightarrow> bool" where
  "stamped states \<longleftrightarrow> (\<forall>f\<in>set states. \<forall>g\<in>set states. \<forall>path. modified f path \<noteq> None \<longrightarrow> modified f path = modified g path
      \<longrightarrow> content f path = content g path)"

text \<open>The dictionary only holds what some state of the files had.\<close>

definition versions_ok :: "(string \<Rightarrow> string) \<Rightarrow> assets list \<Rightarrow> versions \<Rightarrow> bool" where
  "versions_ok sha256 states vs \<longleftrightarrow> (\<forall>path mtime v. vs path = Some (mtime, v) \<longrightarrow>
      (\<exists>f\<in>set states. \<exists>bytes. modified f path = Some mtime \<and> content f path = Some bytes \<and> v = version_hash sha256 bytes))"

definition current_link :: "(string \<Rightarrow> string) \<Rightarrow> assets \<Rightarrow> string \<Rightarrow> exn + string" where
  "current_link sha256 files path =
     (case modified files path of
        None \<Rightarrow> Inr (plain_url path)
      | Some _ \<Rightarrow> (case content files path of
            None \<Rightarrow> Inl (Raised ''OSError'' path)
          | Some bytes \<Rightarrow> Inr (versioned_url path (version_hash sha256 bytes))))"

lemma static_url_current:
  assumes "stamped states" "files \<in> set states" "versions_ok sha256 states vs"
  shows "fst (static_url sha256 files vs path) = current_link sha256 files path"
    and "versions_ok sha256 states (snd (static_url sha256 files vs path))"
proof -
  show "versions_ok sha256 states (snd (static_url sha256 files vs path))"
    using assms(2,3) by (fastforce simp: static_url_def versions_ok_def Let_def split: option.splits)
  have hit: "content files path = Some bytes \<Longrightarrow> v = version_hash sha256 bytes"
    and found: "\<exists>bytes. content files path = Some bytes"
    if "modified files path = Some mtime" "vs path = Some (mtime, v)" for mtime v bytes
    using assms that unfolding stamped_def versions_ok_def by (metis option.distinct(1) option.inject)+
  show "fst (static_url sha256 files vs path) = current_link sha256 files path"
  proof (cases "modified files path")
    case (Some mtime)
    show ?thesis
    proof (cases "\<exists>v. vs path = Some (mtime, v)")
      case True
      then show ?thesis using Some hit found by (fastforce simp: static_url_def current_link_def Let_def)
    next
      case False
      then have "vs path = None \<or> fst (the (vs path)) \<noteq> mtime" by (cases "vs path") auto
      then show ?thesis using Some by (auto simp: static_url_def current_link_def Let_def split: option.split)
    qed
  qed (simp add: static_url_def current_link_def)
qed

text \<open>
  A browser is always sent the link of the file's content as it is (the promise of \<open>templating.py\<close>):
  although the hash is computed again only when the modification time changed, each page load of any
  history has the link a fresh hash would give, as long as no file changes with its time kept.
\<close>

theorem asset_links_current:
  assumes "stamped (map fst loads)"
  shows "rendered_links sha256 (\<lambda>_. None) loads = map (\<lambda>(files, path). current_link sha256 files path) loads"
proof -
  have "rendered_links sha256 vs ls = map (\<lambda>(files, path). current_link sha256 files path) ls"
    if "set (map fst ls) \<subseteq> set (map fst loads)" "versions_ok sha256 (map fst loads) vs" for vs ls
    using that
  proof (induction ls arbitrary: vs)
    case (Cons l ls)
    obtain files path where l: "l = (files, path)" by (metis surj_pair)
    have "files \<in> set (map fst loads)" using Cons.prems(1) l by auto
    note s = static_url_current [OF assms this Cons.prems(2), of path]
    then show ?case using Cons.IH [OF _ s(2)] Cons.prems(1)
      by (simp add: l split: prod.split) (metis fst_conv snd_conv)
  qed simp
  then show ?thesis by (simp add: versions_ok_def)
qed

definition example_assets :: "int \<Rightarrow> string \<Rightarrow> assets" where
  "example_assets mtime bytes = \<lparr>modified = (\<lambda>p. if p = ''js/ui.js'' then Some mtime else None),
     content = (\<lambda>p. if p = ''js/ui.js'' then Some bytes else None)\<rparr>"

lemma asset_links_current_witness:
  "rendered_links (\<lambda>b. b) (\<lambda>_. None)
     [(example_assets 1 ''one'', ''js/ui.js''), (example_assets 1 ''one'', ''js/ui.js''), (example_assets 2 ''two'', ''js/ui.js''),
      (example_assets 2 ''two'', ''gone.css'')]
   = [Inr ''/static/js/ui.js?v=one'', Inr ''/static/js/ui.js?v=one'', Inr ''/static/js/ui.js?v=two'', Inr ''/static/gone.css'']"
proof -
  have "stamped (map fst [(example_assets 1 ''one'', ''js/ui.js''), (example_assets 1 ''one'', ''js/ui.js''),
      (example_assets 2 ''two'', ''js/ui.js''), (example_assets 2 ''two'', ''gone.css'')])"
    by (simp add: stamped_def example_assets_def)
  from asset_links_current [OF this, of "\<lambda>b. b"] show ?thesis
    by (simp add: current_link_def example_assets_def version_hash_def versioned_url_def plain_url_def)
qed

section \<open>Session and flash message\<close>

record session =
  ss_user_id :: "string option"
  ss_flash :: "(string \<times> string) option"

text \<open>The user of a request and the session afterwards: an id that is no UUID clears it.\<close>

definition request_user :: "db \<Rightarrow> session \<Rightarrow> user option \<times> session" where
  "request_user d ss =
     (if truthy (ss_user_id ss) \<and> parse_uuid (the (ss_user_id ss)) = None
      then (None, \<lparr>ss_user_id = None, ss_flash = None\<rparr>)
      else (get_current_user d (ss_user_id ss), ss))"

definition get_flash :: "session \<Rightarrow> (string \<times> string) option \<times> session" where
  "get_flash ss = (ss_flash ss, ss\<lparr>ss_flash := None\<rparr>)"

definition set_flash :: "string \<Rightarrow> string \<Rightarrow> session \<Rightarrow> session" where
  "set_flash message kind ss = ss\<lparr>ss_flash := Some (message, kind)\<rparr>"

lemma flash_shown_once:
  "get_flash (set_flash message kind ss) = (Some (message, kind), ss\<lparr>ss_flash := None\<rparr>)"
  "fst (get_flash (snd (get_flash ss))) = None"
  by (simp_all add: get_flash_def set_flash_def)

text \<open>
  Who is signed in, for an error page: the session factory and the query may raise, and every failure gives the
  signed-out page.
\<close>

definition signed_in_user :: "exn + db \<Rightarrow> session \<Rightarrow> user option" where
  "signed_in_user opened ss =
     (if \<not> truthy (ss_user_id ss) then None
      else case opened of Inl _ \<Rightarrow> None | Inr d \<Rightarrow> fst (request_user d ss))"

text \<open>The HTML error page with its home link; \<open>None\<close> where the framework answers.\<close>

definition html_http_exception_handler ::
  "exn + db \<Rightarrow> session \<Rightarrow> string \<Rightarrow> string \<Rightarrow> string \<Rightarrow> nat \<Rightarrow> response \<times> string option" where
  "html_http_exception_handler opened ss path http_method accept status =
     (let r = error_response path http_method accept status
      in (r, if r = Http_error status then None else Some (error_home (signed_in_user opened ss))))"

text \<open>An error page always renders, and its home link never leads a stranger into the console.\<close>

lemma error_page_home:
  assumes "html_http_exception_handler opened ss path http_method accept status = (r, Some home)"
  shows "r = Page ''errors/error.html'' status"
    and "home = ''/admin'' \<Longrightarrow> \<exists>d u. opened = Inr d \<and> u \<in> set (users d) \<and> u_is_admin u"
proof -
  show "r = Page ''errors/error.html'' status"
    using assms by (auto simp: html_http_exception_handler_def error_response_def Let_def split: if_splits)
  assume "home = ''/admin''"
  then obtain u where u: "signed_in_user opened ss = Some u" "u_is_admin u"
    using assms by (auto simp: html_http_exception_handler_def error_home_def home_of_def Let_def
      split: if_splits option.splits)
  then obtain d where "opened = Inr d" "get_current_user d (ss_user_id ss) = Some u"
    by (auto simp: signed_in_user_def request_user_def split: if_splits sum.splits)
  then show "\<exists>d u. opened = Inr d \<and> u \<in> set (users d) \<and> u_is_admin u"
    using u(2) by (auto simp: get_current_user_def get_user_by_id_def by_key_def dest!: find_Some_iff_mem split: if_splits option.splits)
qed

section \<open>Sealed wallet seeds\<close>

text \<open>
  A Fernet implementation: whether a text is a key, the token of a seed under a key with the randomness
  used, and the seed of a token, \<open>None\<close> where it raises \<open>InvalidToken\<close>.
\<close>

record fernet =
  is_key :: "string \<Rightarrow> bool"
  seal :: "string \<Rightarrow> nat \<Rightarrow> string \<Rightarrow> string"
  unseal :: "string \<Rightarrow> string \<Rightarrow> string option"

definition key_error :: exn where
  "key_error = Raised ''KeyConfigError'' []"

definition key_id :: "(string \<Rightarrow> string) \<Rightarrow> string \<Rightarrow> string" where
  "key_id sha256 key = take 16 (sha256 key)"

definition encrypt_seed :: "fernet \<Rightarrow> string \<Rightarrow> nat \<Rightarrow> string \<Rightarrow> exn + string" where
  "encrypt_seed f key r seed_text = (if is_key f key then Inr (seal f key r seed_text) else Inl key_error)"

definition decrypt_seed :: "fernet \<Rightarrow> string \<Rightarrow> string \<Rightarrow> exn + string" where
  "decrypt_seed f key token =
     (if is_key f key then (case unseal f key token of Some t \<Rightarrow> Inr t | None \<Rightarrow> Inl key_error) else Inl key_error)"

text \<open>The values of a wallet row for the account the faucet funded, in the order the code evaluates them.\<close>

definition sealed_account ::
  "fernet \<Rightarrow> (string \<Rightarrow> string) \<Rightarrow> string \<Rightarrow> nat \<Rightarrow> exn + (string \<times> string) \<Rightarrow> exn + (string \<times> string \<times> string)" where
  "sealed_account f sha256 key r faucet =
     and_then faucet (\<lambda>(address, seed_text).
     and_then (encrypt_seed f key r seed_text) (\<lambda>token.
     Inr (address, token, key_id sha256 key)))"

definition signer_seed :: "fernet \<Rightarrow> string \<Rightarrow> wallet \<Rightarrow> exn + string" where
  "signer_seed f key w = decrypt_seed f key (w_encrypted_private_key w)"

text \<open>
  A recipient's wallet can sign again: with the documented law of Fernet, that a key opens what it
  sealed, the seed a newly provisioned row holds is the one the faucet gave, whether or not the trust line
  was set; and the row names the key.
\<close>

theorem provisioned_wallet_signs:
  assumes "\<And>k n t. is_key f k \<Longrightarrow> unseal f k (seal f k n t) = Some t"
    and "get_wallet_for_user d (u_id u) = None"
    and "fst (provision_wallet now new_id (sealed_account f sha256 key r (Inr (address, seed_text))) run a b d u) = Inr w"
  shows "signer_seed f key w = Inr seed_text \<and> w_key_encryption_key_id w = key_id sha256 key \<and> w_xrpl_address w = address"
proof -
  have trust: "w' = w0 \<or> w' = set_trust now w0" if "fst (ensure_trust_line now run b d0 w0) = Inr (res, w')" for d0 w0 res w'
    using that by (auto simp: ensure_trust_line_def Let_def split: if_splits sum.splits prod.splits)
  let ?w0 = "new_wallet now new_id (u_id u) (address, seal f key r seed_text, key_id sha256 key)"
  have key: "is_key f key" and w: "w = ?w0 \<or> w = set_trust now ?w0"
    using assms(2,3) trust
    by (auto simp: provision_wallet_def sealed_account_def encrypt_seed_def Let_def split: if_splits sum.splits prod.splits)
       (metis fst_conv)+
  then show ?thesis
    using assms(1) by (auto simp: signer_seed_def decrypt_seed_def new_wallet_def set_trust_def)
qed

text \<open>A sample cipher: the key and the text, and a digest that is its input.\<close>

definition example_fernet :: fernet where
  "example_fernet = \<lparr>is_key = (\<lambda>k. k = ''k1''), seal = (\<lambda>k r t. k @ t),
     unseal = (\<lambda>k t. if take (length k) t = k then Some (drop (length k) t) else None)\<rparr>"

theorem provisioned_wallet_signs_witness:
  "\<exists>w. fst (provision_wallet 5 70 (sealed_account example_fernet (\<lambda>k. k) ''k1'' 0 (Inr (''rRudo'', ''sRudo''))) (g_trust paying_run)
        (\<lambda>d. d) (\<lambda>d. d) people_example example_recipient) = Inr w
     \<and> signer_seed example_fernet ''k1'' w = Inr ''sRudo''"
proof -
  have "\<And>k n t. is_key example_fernet k \<Longrightarrow> unseal example_fernet k (seal example_fernet k n t) = Some t"
    by (simp add: example_fernet_def)
  note law = provisioned_wallet_signs [where f = example_fernet, OF this]
  let ?run = "fst (provision_wallet 5 70 (sealed_account example_fernet (\<lambda>k. k) ''k1'' 0 (Inr (''rRudo'', ''sRudo'')))
      (g_trust paying_run) (\<lambda>d. d) (\<lambda>d. d) people_example example_recipient)"
  have run: "?run = Inr (set_trust 5 (new_wallet 5 70 11 (''rRudo'', ''k1sRudo'', ''k1'')))" by code_simp
  moreover have "get_wallet_for_user people_example (u_id example_recipient) = None" by code_simp
  ultimately show ?thesis using law by blast
qed

section \<open>The style guide\<close>

text \<open>
  The developer page renders literals only and exists only when debugging is on; otherwise its address is unknown.
\<close>

definition sample_hash :: string where
  "sample_hash = ''9C1B0E5D7A34F2C8B6E1D09A4F7C3E2B5A8D6F10C4E92B7A3D5F8E6C1B0A9D2E''"

definition sample_quote :: "(string \<times> dec) list" where
  "sample_quote =
     [(''zar_amount'', 1000), (''transaction_fee'', 25), (''net_zar_converted'', 975), (''market_rate'', 185 / 10),
      (''fx_margin'', 2 / 100), (''exchange_rate'', 1887 / 100), (''uctusd_amount'', 51669316 / 10 ^ 6),
      (''cashout_fee_estimate'', 1), (''payout_estimate'', 5067 / 100)]"

definition styleguide :: "bool \<Rightarrow> response" where
  "styleguide debug = (if debug then Page ''dev/styleguide.html'' 200 else Http_error 404)"

text \<open>The sample figures belong together: they are a quote of the fee engine, but for the payout, which is that of the quote to the cent.\<close>

definition shown_figures :: "quote \<Rightarrow> (string \<times> dec) list" where
  "shown_figures q =
     [(''zar_amount'', q_zar_amount q), (''transaction_fee'', q_transaction_fee q), (''net_zar_converted'', q_net_zar_converted q),
      (''market_rate'', q_market_rate q), (''fx_margin'', q_fx_margin q), (''exchange_rate'', q_exchange_rate q),
      (''uctusd_amount'', q_uctusd_amount q), (''cashout_fee_estimate'', q_cashout_fee_estimate q),
      (''payout_estimate'', q_payout_estimate q)]"

lemma sample_quote_real:
  "map_sum id shown_figures (calculate_quote (Fin 1000) 18.5 25 0 0.02 0.01 1 USD)
     = Inr (butlast sample_quote @ [(''payout_estimate'', 50.669316)])"
  "quantize 2 50.669316 = Inr (snd (last sample_quote))"
proof -
  have steps: "quantize 2 1000 = Inr 1000" "quantize 6 18.5 = Inr 18.5" "quantize 2 (dec_add 25 (dec_mul 0 1000)) = Inr 25"
    "quantize 6 (dec_mul 18.5 (dec_add 1 0.02)) = Inr 18.87" "quantize 2 (dec_sub 1000 25) = Inr 975"
    "dec_div 975 18.87 = Inr (ctx (975 / 18.87))" "quantize 6 (ctx (975 / 18.87)) = Inr 51.669316"
    "cashout_fee_usd 51.669316 0.01 1 = Inr 1" "cashout_payout 51.669316 1 18.5 USD = Inr 50.669316" "quantize 6 0.02 = Inr 0.02"
    by (code_simp, code_simp, code_simp, code_simp, code_simp, simp add: dec_div_def, code_simp, code_simp, code_simp, code_simp)
  show "map_sum id shown_figures (calculate_quote (Fin 1000) 18.5 25 0 0.02 0.01 1 USD)
     = Inr (butlast sample_quote @ [(''payout_estimate'', 50.669316)])"
    unfolding calculate_quote_def quantize_any.simps arith_simps steps and_then_Inr
    by (simp add: raise_if_def shown_figures_def sample_quote_def)
  show "quantize 2 50.669316 = Inr (snd (last sample_quote))"
    unfolding sample_quote_def by code_simp
qed

end
