(* ===== verification/PyFloat.thy ===== *)
theory PyFloat
  imports PyText
begin

text \<open>
  Python's \<open>float\<close> as the scripts use it: IEEE 754 binary64 with rounding half to even. A finite float
  is modelled by its value, a rational, and each operation by the exact result rounded to 53 bits. The
  coordinates, seconds and milliseconds at hand lie far inside the exponent range, so overflow to an
  infinity, subnormal numbers and the sign of zero are left out; a text that \<open>float\<close> reads as an infinity
  or a NaN has no value here.
\<close>

section \<open>Rounding to 53 bits\<close>

function nbits :: "int \<Rightarrow> nat" where
  "nbits n = (if n < 2 then 1 else Suc (nbits (n div 2)))"
  by pat_completeness auto
termination
  by (relation "measure nat") auto

declare nbits.simps [simp del]

text \<open>The exponent of the leading bit of a positive rational.\<close>

definition lead_bit :: "rat \<Rightarrow> int" where
  "lead_bit x =
     (case quotient_of x of (p, q) \<Rightarrow>
        let k = int (nbits p) - int (nbits q) in if 2 powi k \<le> x then k else k - 1)"

definition fl :: "rat \<Rightarrow> rat" where
  "fl x = (if x = 0 then 0
           else let u = 2 powi (lead_bit \<bar>x\<bar> - 52) in of_int (round_half_even (x / u)) * u)"

definition is_float :: "rat \<Rightarrow> bool" where
  "is_float x \<longleftrightarrow> fl x = x"

definition fadd :: "rat \<Rightarrow> rat \<Rightarrow> rat" where
  "fadd a b = fl (a + b)"

definition fsub :: "rat \<Rightarrow> rat \<Rightarrow> rat" where
  "fsub a b = fl (a - b)"

definition fmul :: "rat \<Rightarrow> rat \<Rightarrow> rat" where
  "fmul a b = fl (a * b)"

definition fdiv :: "rat \<Rightarrow> rat \<Rightarrow> arith_error + rat" where
  "fdiv a b = (if b = 0 then Inl DivisionByZero else Inr (fl (a / b)))"

text \<open>\<open>round(x, k)\<close> and \<open>round(x)\<close> of a float.\<close>

definition round_places :: "nat \<Rightarrow> rat \<Rightarrow> rat" where
  "round_places k x = fl (of_int (round_half_even (x * 10 ^ k)) / 10 ^ k)"

section \<open>Text\<close>

text \<open>
  \<open>float(s)\<close>: surrounding white space, a sign, underscores only between digits. \<open>None\<close> where it raises
  \<open>ValueError\<close>; \<open>Some None\<close> for the texts of infinities and NaNs.
\<close>

fun underscores_ok :: "bool \<Rightarrow> string \<Rightarrow> bool" where
  "underscores_ok after_digit [] = True"
| "underscores_ok after_digit (c # cs) =
     ((c \<noteq> CHR ''_'' \<or> (after_digit \<and> cs \<noteq> [] \<and> is_digit (hd cs))) \<and> underscores_ok (is_digit c) cs)"

definition py_float :: "string \<Rightarrow> rat option option" where
  "py_float raw =
     (let s = strip raw;
          neg = (s \<noteq> [] \<and> hd s = CHR ''-'');
          body = (if s \<noteq> [] \<and> (hd s = CHR ''-'' \<or> hd s = CHR ''+'') then tl s else s);
          w = lower body
      in if \<not> underscores_ok False body then None
         else case parse_unsigned (remove_char CHR ''_'' body) of
             Some x \<Rightarrow> Some (Some (fl (if neg then - x else x)))
           | None \<Rightarrow> if w \<in> {''inf'', ''infinity'', ''nan''} then Some None else None)"

text \<open>The format \<open>.kf\<close>: the exact value rounded half to even; and its variant with \<open>,\<close> every three digits.\<close>

fun grouped :: "string \<Rightarrow> string" where
  "grouped (a # b # c # d # r) = a # b # c # CHR '','' # grouped (d # r)"
| "grouped r = r"

definition with_commas :: "string \<Rightarrow> string" where
  "with_commas ds = rev (grouped (rev ds))"

definition int_commas :: "int \<Rightarrow> string" where
  "int_commas n = (if n < 0 then ''-'' else []) @ with_commas (digits_of_int \<bar>n\<bar>)"

definition float_fixed :: "(string \<Rightarrow> string) \<Rightarrow> nat \<Rightarrow> rat \<Rightarrow> string" where
  "float_fixed grouping k x =
     (let c = round_half_even (\<bar>x\<bar> * 10 ^ k)
      in (if x < 0 then ''-'' else []) @ grouping (digits_of_int (c div 10 ^ k))
         @ (if k = 0 then [] else CHR ''.'' # fixed_digits k (c mod 10 ^ k)))"

abbreviation plain_fixed :: "nat \<Rightarrow> rat \<Rightarrow> string" where
  "plain_fixed \<equiv> float_fixed (\<lambda>ds. ds)"

text \<open>
  \<open>repr\<close> of a positive float or zero: the fewest decimal digits that read back as the same float, and of the two
  neighbours with that many digits the nearer one; an exponent below -4 and from 16 on.
\<close>

definition neighbour :: "rat \<Rightarrow> nat \<Rightarrow> (int \<times> int) option" where
  "neighbour x n =
     (let e = lead_exp x - int n + 1;
          c = \<lfloor>x / 10 powi e\<rfloor>;
          good = filter (\<lambda>c. fl (of_int c * 10 powi e) = x) [c, c + 1]
      in case good of [] \<Rightarrow> None
         | [d] \<Rightarrow> Some (d, e)
         | d # d' # _ \<Rightarrow> Some (if x - of_int d * 10 powi e \<le> of_int d' * 10 powi e - x then d else d', e))"

fun shortest_from :: "rat \<Rightarrow> nat \<Rightarrow> nat \<Rightarrow> int \<times> int" where
  "shortest_from x n 0 = (0, 0)"
| "shortest_from x n (Suc k) = (case neighbour x n of Some s \<Rightarrow> s | None \<Rightarrow> shortest_from x (Suc n) k)"

text \<open>Seventeen digits suffice for every binary64 number, so the search ends before its fuel does.\<close>

definition shortest :: "rat \<Rightarrow> int \<times> int" where
  "shortest x = shortest_from x 1 17"

definition place_point :: "string \<Rightarrow> int \<Rightarrow> string" where
  "place_point ds point =
     (if point \<le> - 4 \<or> 16 < point then
        hd ds # (if tl ds = [] then [] else CHR ''.'' # tl ds)
        @ (if point \<le> 0 then ''e-'' else ''e+'') @ (if \<bar>point - 1\<bar> < 10 then ''0'' else []) @ digits_of_int \<bar>point - 1\<bar>
      else if point \<le> 0 then ''0.'' @ replicate (nat (- point)) CHR ''0'' @ ds
      else if int (length ds) \<le> point then ds @ replicate (nat point - length ds) CHR ''0'' @ ''.0''
      else take (nat point) ds @ CHR ''.'' # drop (nat point) ds)"

definition float_repr :: "rat \<Rightarrow> string" where
  "float_repr x =
     (if x = 0 then ''0.0''
      else case shortest \<bar>x\<bar> of (c, e) \<Rightarrow>
        (let ds = digits_of_int c
         in (if x < 0 then ''-'' else [])
            @ place_point (rev (dropWhile (\<lambda>d. d = CHR ''0'') (rev ds))) (e + int (length ds))))"

lemma repr_examples:
  "float_repr (fl 0.1) = ''0.1''" "float_repr 4 = ''4.0''" "float_repr (fl 6.6 / 2) = ''3.3''" "float_repr 1234567 = ''1234567.0''"
  by code_simp+

section \<open>The leading bit\<close>

lemma nbits_bounds: "0 < n \<Longrightarrow> 2 ^ (nbits n - 1) \<le> n \<and> n < 2 ^ nbits n \<and> 0 < nbits n"
proof (induction n rule: nbits.induct)
  case (1 n)
  show ?case
  proof (cases "n < 2")
    case True
    with 1 show ?thesis by (subst (1 2 3) nbits.simps) simp
  next
    case False
    with 1 have IH: "2 ^ (nbits (n div 2) - 1) \<le> n div 2" "n div 2 < 2 ^ nbits (n div 2)" "0 < nbits (n div 2)"
      by simp_all
    from IH(3) obtain j where j: "nbits (n div 2) = Suc j" using gr0_implies_Suc by blast
    then have "2 ^ Suc j \<le> n" "n < 2 ^ Suc (Suc j)" using IH(1,2) by simp_all
    with False j show ?thesis by (subst (1 2 3) nbits.simps) simp
  qed
qed

lemma powi_nat_diff: "(2::rat) powi (int a - int b) = 2 ^ a / 2 ^ b"
  by (simp add: power_int_diff)

lemma lead_bit_bounds:
  assumes "0 < x"
  shows "2 powi lead_bit x \<le> x" "x < 2 powi (lead_bit x + 1)"
proof -
  obtain p q where pq: "quotient_of x = (p, q)" by fastforce
  then have q: "0 < q" and x: "x = of_int p / of_int q"
    using quotient_of_denom_pos quotient_of_div by blast+
  with assms have p: "0 < p" by (simp add: zero_less_divide_iff)
  let ?k = "int (nbits p) - int (nbits q)"
  have "(of_int (2 ^ (nbits p - 1)) :: rat) \<le> of_int p" "(of_int p :: rat) < of_int (2 ^ nbits p)"
    "(of_int (2 ^ (nbits q - 1)) :: rat) \<le> of_int q" "(of_int q :: rat) < of_int (2 ^ nbits q)"
    using nbits_bounds [OF p] nbits_bounds [OF q] by (simp_all only: of_int_le_iff of_int_less_iff)
  then have b: "(2::rat) ^ (nbits p - 1) \<le> of_int p" "of_int p < (2::rat) ^ nbits p"
    "(2::rat) ^ (nbits q - 1) \<le> of_int q" "of_int q < (2::rat) ^ nbits q"
    by (simp_all only: of_int_power of_int_numeral)
  have np: "int (nbits p - 1) = int (nbits p) - 1" "int (nbits q - 1) = int (nbits q) - 1"
    using nbits_bounds [OF p] nbits_bounds [OF q] by simp_all
  have "2 ^ (nbits p - 1) / 2 ^ nbits q < x"
    unfolding x using b q by (intro frac_less2) simp_all
  moreover have "x < 2 ^ nbits p / 2 ^ (nbits q - 1)"
    unfolding x using b p q by (intro frac_less) simp_all
  moreover have "(2::rat) ^ (nbits p - 1) / 2 ^ nbits q = 2 powi (int (nbits p - 1) - int (nbits q))"
    "(2::rat) ^ nbits p / 2 ^ (nbits q - 1) = 2 powi (int (nbits p) - int (nbits q - 1))"
    by (simp_all only: powi_nat_diff)
  moreover have "int (nbits p - 1) - int (nbits q) = ?k - 1" "int (nbits p) - int (nbits q - 1) = ?k + 1"
    using np by simp_all
  ultimately have "2 powi (?k - 1) < x" "x < 2 powi (?k + 1)" by (simp_all only:)
  then show "2 powi lead_bit x \<le> x" "x < 2 powi (lead_bit x + 1)"
    by (auto simp: lead_bit_def pq Let_def)
qed

section \<open>Rounding: laws\<close>

interpretation binary64: digit_rounding 2 52 lead_bit fl
  by unfold_locales (simp_all add: lead_bit_bounds fl_def Let_def)

text \<open>Whole numbers of up to 53 bits, and such numbers of tenths of a power of two, are floats.\<close>

lemma fl_of_int: "\<bar>n\<bar> < 2 ^ 53 \<Longrightarrow> fl (of_int n) = of_int n"
  using binary64.rnd_exact [of n 0] by simp

lemma fl_numeral: "(numeral w :: int) < 2 ^ 53 \<Longrightarrow> fl (numeral w) = numeral w"
  using fl_of_int [of "numeral w"] by simp

lemma is_float_fl [simp]: "is_float (fl x)"
proof (cases "x = 0")
  case False
  let ?m = "round_half_even (x / 2 powi (lead_bit \<bar>x\<bar> - 52))"
  have x: "fl x = of_int ?m * 2 powi (lead_bit \<bar>x\<bar> - 52)" using False by (simp add: fl_def Let_def)
  have pos: "0 < \<bar>x\<bar>" using False by simp
  have abs_fl: "\<bar>fl x\<bar> = fl \<bar>x\<bar>"
    using binary64.rnd_minus [of x] binary64.rnd_nonneg [of x] binary64.rnd_nonpos [of x] by (cases "0 \<le> x") simp_all
  have "\<bar>fl x\<bar> \<le> 2 powi (lead_bit \<bar>x\<bar> + 1)"
    using binary64.rnd_pos_bounds(2) [OF pos] unfolding abs_fl by simp
  also have "(2::rat) powi (lead_bit \<bar>x\<bar> + 1) = of_int (2 ^ 53) * 2 powi (lead_bit \<bar>x\<bar> - 52)"
    using binary64.unit_split(2) [of "\<bar>x\<bar>"] by simp
  finally have "of_int \<bar>?m\<bar> * 2 powi (lead_bit \<bar>x\<bar> - 52) \<le> of_int (2 ^ 53) * (2::rat) powi (lead_bit \<bar>x\<bar> - 52)"
    by (simp add: x abs_mult)
  then have le: "\<bar>?m\<bar> \<le> 2 ^ 53" by (simp only: mult_le_cancel_right_pos zero_less_power_int zero_less_numeral of_int_le_iff)
  show ?thesis
  proof (cases "\<bar>?m\<bar> = 2 ^ 53")
    case True
    then obtain s :: int where s: "\<bar>s\<bar> = 1" "?m = s * 2 ^ 53" by (cases "0 \<le> ?m") (auto intro: that [of 1] that [of "- 1"])
    have "fl x = of_int s * 2 powi (lead_bit \<bar>x\<bar> + 1)"
      unfolding x s(2) using binary64.unit_split(2) [of "\<bar>x\<bar>"] by simp
    then show ?thesis using binary64.rnd_exact [of s "lead_bit \<bar>x\<bar> + 1"] s(1) by (simp add: is_float_def)
  next
    case False
    then have "\<bar>?m\<bar> < 2 ^ Suc 52" using le by simp
    from binary64.rnd_exact [OF this, of "lead_bit \<bar>x\<bar> - 52"] show ?thesis by (simp add: is_float_def x)
  qed
qed (simp add: is_float_def binary64.rnd_zero)

lemma is_float_0 [simp]: "is_float 0"
  by (simp add: is_float_def binary64.rnd_zero)

text \<open>Subtracting a float from itself, or adding nothing, is exact.\<close>

lemma fsub_self [simp]: "fsub x x = 0"
  by (simp add: fsub_def binary64.rnd_zero)

lemma fadd_zero [simp]: "is_float x \<Longrightarrow> fadd 0 x = x" "is_float x \<Longrightarrow> fadd x 0 = x"
  by (simp_all add: fadd_def is_float_def)

lemma fmul_zero [simp]: "fmul 0 x = 0" "fmul x 0 = 0"
  by (simp_all add: fmul_def binary64.rnd_zero)

text \<open>The error of one operation on values below a bound.\<close>

lemma fl_error: "\<bar>fl x - x\<bar> \<le> \<bar>x\<bar> / 2 ^ 53"
proof (cases "x = 0")
  case False
  then have "\<bar>fl \<bar>x\<bar> - \<bar>x\<bar>\<bar> \<le> \<bar>x\<bar> / (2 * 2 ^ 52)" using binary64.rnd_error [of "\<bar>x\<bar>"] by simp
  moreover have "\<bar>fl x - x\<bar> = \<bar>fl \<bar>x\<bar> - \<bar>x\<bar>\<bar>" using binary64.rnd_minus [of x] by (cases "0 \<le> x") simp_all
  ultimately show ?thesis by simp
qed (simp add: binary64.rnd_zero)

end
