(* ===== verification/LedgerScripts.thy ===== *)
theory LedgerScripts
  imports Display PyFloat "HOL-Library.AList"
begin

text \<open>
  The three scripts run by hand against the test network: \<open>scripts/check_currency.py\<close>, the smoke test
  \<open>scripts/xrpl_smoke.py\<close> and the timing of real payments, \<open>perf/measure_xrpl.py\<close>. The client library with the
  ledger behind it is an argument: a record of its calls over a state of the ledger, each with the
  exception it raises or its answer. Printing is left out; what is printed is part of the result.
\<close>

section \<open>The currency of the treasury's trust lines\<close>

record account_line =
  al_currency :: string
  al_issuer :: string
  al_balance :: string

text \<open>What is printed for a line: the code and its length, the issuer and whether it is the expected one, the balance.\<close>

record line_report =
  lr_currency :: string
  lr_length :: nat
  lr_issuer :: string
  lr_expected :: bool
  lr_balance :: string

datatype currency_check = Not_configured | No_lines | Line_reports "line_report list"

definition check_currency :: "settings \<Rightarrow> (string \<Rightarrow> exn + account_line list) \<Rightarrow> exn + currency_check" where
  "check_currency s account_lines =
     (let treasury = xrpl_platform_wallet_address s
      in if treasury = [] then Inr Not_configured
         else and_then (account_lines treasury) (\<lambda>lines.
           Inr (if lines = [] then No_lines
                else Line_reports (map (\<lambda>l. \<lparr>lr_currency = al_currency l, lr_length = length (al_currency l), lr_issuer = al_issuer l,
                  lr_expected = (al_issuer l = xrpl_issuer_address s), lr_balance = al_balance l\<rparr>) lines))))"

text \<open>
  What the script is for: when a line of the expected issuer with some balance is there, copying the code it
  prints into the settings makes the application read that balance, provided no earlier line has the same code.
\<close>

lemma discovered_currency_works:
  assumes "check_currency s account_lines = Inr (Line_reports rs)" and "r \<in> set rs"
    and "distinct (map lr_currency rs)" and "py_decimal (lr_balance r) = Some v"
  shows "\<exists>lines. account_lines (xrpl_platform_wallet_address s) = Inr lines
    \<and> get_uctusd_balance (s\<lparr>xrpl_currency_code := lr_currency r\<rparr>) (map (\<lambda>l. (al_currency l, al_balance l)) lines) = Inr (Some v)"
proof -
  obtain lines where lines: "account_lines (xrpl_platform_wallet_address s) = Inr lines"
    and rs: "rs = map (\<lambda>l. \<lparr>lr_currency = al_currency l, lr_length = length (al_currency l), lr_issuer = al_issuer l,
                  lr_expected = (al_issuer l = xrpl_issuer_address s), lr_balance = al_balance l\<rparr>) lines"
    using assms(1) by (auto simp: check_currency_def Let_def split: if_splits)
  from assms(2) rs obtain l where l: "l \<in> set lines" "lr_currency r = al_currency l" "lr_balance r = al_balance l" by auto
  have "distinct (map al_currency lines)" using assms(3) by (simp add: rs comp_def)
  then have "find (\<lambda>x. fst x = al_currency l) (map (\<lambda>l. (al_currency l, al_balance l)) lines) = Some (al_currency l, al_balance l)"
    using l(1) by (induction lines) auto
  then show ?thesis using lines l assms(4) by (simp add: get_uctusd_balance_def)
qed

section \<open>The client library over a ledger\<close>

text \<open>The transactions the smoke test builds; building one may raise, as may submitting it.\<close>

datatype ledger_tx =
  Trust_set string issued_amount
| Payment string string issued_amount

text \<open>
  \<open>ch_submit\<close> is building and \<open>submit_and_wait\<close>: the validated code and the hash, or an exception. \<open>ch_lines\<close>
  are the trust lines of an account with the issuer, \<open>ch_faucet\<close> a funded account with its seed, \<open>ch_xrp\<close>
  a balance in XRP, \<open>ch_reserves\<close> the base reserve and the increment.
\<close>

record 'w chain =
  ch_submit :: "ledger_tx \<Rightarrow> 'w \<Rightarrow> (exn + string \<times> string) \<times> 'w"
  ch_lines :: "string \<Rightarrow> string \<Rightarrow> 'w \<Rightarrow> exn + (string \<times> string) list"
  ch_faucet :: "'w \<Rightarrow> (exn + string \<times> string) \<times> 'w"
  ch_xrp :: "string \<Rightarrow> 'w \<Rightarrow> exn + dec"
  ch_reserves :: "'w \<Rightarrow> exn + dec \<times> dec"

section \<open>The smoke test\<close>

datatype smoke_error =
  Seed_mismatch
| Too_little_xrp
| Step_failed string string
| Unexpected_holding dec "decimal option"
| Seed_not_restored
| Seed_visible
| Library exn

text \<open>A step of the script: it stops with an error or goes on, and the ledger has changed either way.\<close>

type_synonym ('w, 'a) steps = "'w \<Rightarrow> (smoke_error + 'a) \<times> 'w"

definition go_on :: "('w, 'a) steps \<Rightarrow> ('a \<Rightarrow> ('w, 'b) steps) \<Rightarrow> ('w, 'b) steps" where
  "go_on m f w = (case m w of (Inl e, w) \<Rightarrow> (Inl e, w) | (Inr x, w) \<Rightarrow> f x w)"

definition give :: "'a \<Rightarrow> ('w, 'a) steps" where
  "give x w = (Inr x, w)"

definition assert_that :: "bool \<Rightarrow> smoke_error \<Rightarrow> ('w, unit) steps" where
  "assert_that c e w = (if c then Inr () else Inl e, w)"

definition ask :: "('w \<Rightarrow> exn + 'a) \<Rightarrow> ('w, 'a) steps" where
  "ask f w = (map_sum Library id (f w), w)"

definition carry_out :: "('w \<Rightarrow> (exn + 'a) \<times> 'w) \<Rightarrow> ('w, 'a) steps" where
  "carry_out f w = map_prod (map_sum Library id) id (f w)"

definition expect_success :: "'w chain \<Rightarrow> ledger_tx \<Rightarrow> string \<Rightarrow> ('w, string) steps" where
  "expect_success ch tx label =
     go_on (carry_out (ch_submit ch tx)) (\<lambda>(outcome, h).
     go_on (assert_that (outcome = tes_success) (Step_failed label outcome)) (\<lambda>_. give h))"

text \<open>The balance of the first line in the platform currency; its text is read as a Decimal.\<close>

definition uctusd_balance :: "'w chain \<Rightarrow> settings \<Rightarrow> string \<Rightarrow> 'w \<Rightarrow> exn + decimal option" where
  "uctusd_balance ch s address w = and_then (ch_lines ch address (xrpl_issuer_address s) w) (get_uctusd_balance s)"

definition raw_amount :: "settings \<Rightarrow> string \<Rightarrow> issued_amount" where
  "raw_amount s amount = \<lparr>i_currency = xrpl_currency_code s, i_issuer = xrpl_issuer_address s, i_value = amount\<rparr>"

text \<open>A transaction that should fail: its code, or the name and text of the exception.\<close>

definition record_failure :: "'w chain \<Rightarrow> string \<Rightarrow> ledger_tx \<Rightarrow> (string \<times> string) list \<Rightarrow> ('w, (string \<times> string) list) steps" where
  "record_failure ch label tx codes w =
     (case ch_submit ch tx w of
        (Inr (outcome, h), w) \<Rightarrow> (Inr (AList.update label outcome codes), w)
      | (Inl e, w) \<Rightarrow> (Inr (AList.update label (exn_name e @ '': '' @ exn_text e) codes), w))"

record smoke_report =
  sm_treasury :: string
  sm_recipient :: string
  sm_before :: "decimal option"
  sm_after :: "decimal option"
  sm_hashes :: "string list"
  sm_codes :: "(string \<times> string) list"

text \<open>Steps 2 to 7: a new account, its trust line, ten UCTUSD from the treasury, five of them burned.\<close>

definition smoke_transfers :: "'w chain \<Rightarrow> settings \<Rightarrow> string \<Rightarrow> ('w, (string \<times> string) \<times> string list) steps" where
  "smoke_transfers ch s treasury =
     go_on (carry_out (ch_faucet ch)) (\<lambda>(recip, recip_seed).
     go_on (ask (ch_reserves ch)) (\<lambda>(reserve_base, reserve_inc).
     go_on (ask (ch_xrp ch recip)) (\<lambda>xrp.
     go_on (assert_that (dec_add reserve_base reserve_inc \<le> xrp) Too_little_xrp) (\<lambda>_.
     go_on (expect_success ch (Trust_set recip (raw_amount s ''1000000'')) ''TrustSet'') (\<lambda>h1.
     go_on (expect_success ch (Payment treasury recip (raw_amount s ''10'')) ''Payment'') (\<lambda>h2.
     go_on (ask (uctusd_balance ch s recip)) (\<lambda>bal.
     go_on (assert_that (bal = Some (Fin 10)) (Unexpected_holding 10 bal)) (\<lambda>_.
     go_on (expect_success ch (Payment recip (xrpl_issuer_address s) (raw_amount s ''5'')) ''Burn'') (\<lambda>h3.
     go_on (ask (uctusd_balance ch s recip)) (\<lambda>bal.
     go_on (assert_that (bal = Some (Fin 5)) (Unexpected_holding 5 bal)) (\<lambda>_.
     give ((recip, recip_seed), [h1, h2, h3]))))))))))))"

text \<open>Step 8: the encryption key seals the seed of the new account and gives it back, and the token does not show it.\<close>

definition smoke_seal :: "fernet \<Rightarrow> string \<Rightarrow> nat \<Rightarrow> string \<Rightarrow> ('w, string) steps" where
  "smoke_seal f key r seed_text =
     go_on (assert_that (is_key f key) (Library (Raised ''ValueError'' []))) (\<lambda>_.
     (let token = seal f key r seed_text
      in go_on (ask (\<lambda>_. case unseal f key token of Some t \<Rightarrow> Inr t | None \<Rightarrow> Inl (Raised ''InvalidToken'' []))) (\<lambda>t.
         go_on (assert_that (t = seed_text) Seed_not_restored) (\<lambda>_.
         go_on (assert_that (\<not> contains seed_text token) Seed_visible) (\<lambda>_. give token)))))"

text \<open>Step 9: the three failures, the first to an account without a trust line.\<close>

definition smoke_failures :: "'w chain \<Rightarrow> settings \<Rightarrow> string \<Rightarrow> string \<Rightarrow> ('w, (string \<times> string) list) steps" where
  "smoke_failures ch s treasury recip =
     go_on (carry_out (ch_faucet ch)) (\<lambda>(no_line, _).
     go_on (record_failure ch ''payment to account with no trust line'' (Payment treasury no_line (raw_amount s ''1'')) []) (\<lambda>codes.
     go_on (record_failure ch ''payment exceeding balance (burn 1000, holds 5)''
        (Payment recip (xrpl_issuer_address s) (raw_amount s ''1000'')) codes) (\<lambda>codes.
     record_failure ch ''malformed currency code''
        (Payment recip (xrpl_issuer_address s)
          \<lparr>i_currency = ''UCTUSD'', i_issuer = xrpl_issuer_address s, i_value = ''1''\<rparr>) codes)))"

text \<open>\<open>derive\<close> is \<open>Wallet.from_seed\<close>: the classic address of a seed, or its exception.\<close>

definition smoke_main ::
  "(string \<Rightarrow> exn + string) \<Rightarrow> fernet \<Rightarrow> string \<Rightarrow> nat \<Rightarrow> settings \<Rightarrow> 'w chain \<Rightarrow> ('w, smoke_report) steps" where
  "smoke_main derive f key r s ch =
     go_on (ask (\<lambda>_. derive (xrpl_platform_wallet_seed s))) (\<lambda>treasury.
     go_on (assert_that (treasury = xrpl_platform_wallet_address s) Seed_mismatch) (\<lambda>_.
     go_on (ask (uctusd_balance ch s treasury)) (\<lambda>before_run.
     go_on (smoke_transfers ch s treasury) (\<lambda>((recip, recip_seed), hashes).
     go_on (smoke_seal f key r recip_seed) (\<lambda>_.
     go_on (smoke_failures ch s treasury recip) (\<lambda>codes.
     go_on (ask (uctusd_balance ch s treasury)) (\<lambda>after_run.
     give \<lparr>sm_treasury = treasury, sm_recipient = recip, sm_before = before_run, sm_after = after_run,
       sm_hashes = hashes, sm_codes = codes\<rparr>)))))))"

section \<open>What a passed smoke test shows\<close>

lemma go_on_Inr [simp]:
  "go_on m f w = (Inr y, w'') \<longleftrightarrow> (\<exists>x w'. m w = (Inr x, w') \<and> f x w' = (Inr y, w''))"
  by (auto simp: go_on_def split: prod.splits sum.splits)

lemma small_steps [simp]:
  "give x w = (Inr y, w') \<longleftrightarrow> y = x \<and> w' = w"
  "assert_that c e w = (Inr u, w') \<longleftrightarrow> c \<and> w' = w"
  "ask f w = (Inr y, w') \<longleftrightarrow> f w = Inr y \<and> w' = w"
  "carry_out g w = (Inr y, w') \<longleftrightarrow> g w = (Inr y, w')"
proof -
  show "ask f w = (Inr y, w') \<longleftrightarrow> f w = Inr y \<and> w' = w" by (cases "f w") (auto simp: ask_def)
  show "carry_out g w = (Inr y, w') \<longleftrightarrow> g w = (Inr y, w')"
    by (cases "g w"; cases "fst (g w)") (auto simp: carry_out_def)
qed (auto simp: give_def assert_that_def)

fun parties :: "ledger_tx \<Rightarrow> string set" where
  "parties (Trust_set a l) = {a}"
| "parties (Payment a b v) = {a, b}"

text \<open>
  What the ledger documents, as laws on the balances the library reports: a new account has no trust line and
  its creation moves nothing, a transaction touches the lines of its parties only, a validated
  payment from one account to another takes the amount from the sender, and an account without a line, the issuer apart, receives nothing.
\<close>

definition lawful :: "'w chain \<Rightarrow> settings \<Rightarrow> bool" where
  "lawful ch s \<longleftrightarrow>
     (\<forall>w r w'. ch_faucet ch w = (r, w') \<longrightarrow> (\<forall>a. uctusd_balance ch s a w' = uctusd_balance ch s a w)
        \<and> (\<forall>a sd. r = Inr (a, sd) \<longrightarrow> uctusd_balance ch s a w = Inr None \<and> a \<noteq> xrpl_issuer_address s))
     \<and> (\<forall>tx w r w' a. ch_submit ch tx w = (r, w') \<longrightarrow> a \<notin> parties tx \<longrightarrow> uctusd_balance ch s a w' = uctusd_balance ch s a w)
     \<and> (\<forall>a b v w h w' x y. ch_submit ch (Payment a b v) w = (Inr (tes_success, h), w') \<longrightarrow> a \<noteq> b
        \<longrightarrow> py_decimal (i_value v) = Some (Fin y) \<longrightarrow> uctusd_balance ch s a w = Inr (Some (Fin x))
        \<longrightarrow> uctusd_balance ch s a w' = Inr (Some (Fin (x - y))))
     \<and> (\<forall>a b v w r w'. ch_submit ch (Payment a b v) w = (r, w') \<longrightarrow> b \<noteq> xrpl_issuer_address s \<longrightarrow> uctusd_balance ch s b w = Inr None
        \<longrightarrow> uctusd_balance ch s a w' = uctusd_balance ch s a w)"

lemma lawful_faucet:
  assumes "lawful ch s" "ch_faucet ch w = (r, w')"
  shows "uctusd_balance ch s a w' = uctusd_balance ch s a w" "r = Inr (b, sd) \<Longrightarrow> uctusd_balance ch s b w = Inr None"
    "r = Inr (b, sd) \<Longrightarrow> b \<noteq> xrpl_issuer_address s"
proof -
  from assms have "(\<forall>a. uctusd_balance ch s a w' = uctusd_balance ch s a w)
    \<and> (\<forall>a sd. r = Inr (a, sd) \<longrightarrow> uctusd_balance ch s a w = Inr None \<and> a \<noteq> xrpl_issuer_address s)"
    unfolding lawful_def by (auto dest!: spec [of _ w])
  then show "uctusd_balance ch s a w' = uctusd_balance ch s a w" "r = Inr (b, sd) \<Longrightarrow> uctusd_balance ch s b w = Inr None"
    "r = Inr (b, sd) \<Longrightarrow> b \<noteq> xrpl_issuer_address s"
    by blast+
qed

lemma lawful_others:
  "lawful ch s \<Longrightarrow> ch_submit ch tx w = (r, w') \<Longrightarrow> a \<notin> parties tx \<Longrightarrow> uctusd_balance ch s a w' = uctusd_balance ch s a w"
  unfolding lawful_def by blast

lemma lawful_paid:
  assumes "lawful ch s" "ch_submit ch (Payment a b v) w = (Inr (tes_success, h), w')" "a \<noteq> b"
    "py_decimal (i_value v) = Some (Fin y)" "uctusd_balance ch s a w = Inr (Some (Fin x))"
  shows "uctusd_balance ch s a w' = Inr (Some (Fin (x - y)))"
  using assms unfolding lawful_def by blast

lemma lawful_no_line:
  assumes "lawful ch s" "ch_submit ch (Payment a b v) w = (r, w')" "b \<noteq> xrpl_issuer_address s"
    "uctusd_balance ch s b w = Inr None"
  shows "uctusd_balance ch s a w' = uctusd_balance ch s a w"
  using assms unfolding lawful_def by blast

lemma recorded:
  assumes "record_failure ch label tx codes w = (Inr codes', w')"
  obtains r where "ch_submit ch tx w = (r, w')" "fst ` set codes' = insert label (fst ` set codes)"
  using assms by (auto simp: record_failure_def dom_update intro: that split: prod.splits sum.splits)

text \<open>The transfers take ten UCTUSD from the treasury; what happens to the new account's own line does not matter.\<close>

lemma transfers_balance:
  assumes "lawful ch s" and "t \<noteq> xrpl_issuer_address s" and "uctusd_balance ch s t w = Inr (Some (Fin x))"
    and "smoke_transfers ch s t w = (Inr ((recip, sd), hs), w')"
  shows "uctusd_balance ch s t w' = Inr (Some (Fin (x - 10))) \<and> t \<noteq> recip \<and> length hs = 3"
proof -
  from assms(4) obtain w1 w2 w3 h1 h2 h3 where
    f: "ch_faucet ch w = (Inr (recip, sd), w1)"
    and trust: "ch_submit ch (Trust_set recip (raw_amount s ''1000000'')) w1 = (Inr (tes_success, h1), w2)"
    and pay: "ch_submit ch (Payment t recip (raw_amount s ''10'')) w2 = (Inr (tes_success, h2), w3)"
    and burn: "ch_submit ch (Payment recip (xrpl_issuer_address s) (raw_amount s ''5'')) w3 = (Inr (tes_success, h3), w')"
    and hs: "hs = [h1, h2, h3]"
    by (auto simp: smoke_transfers_def expect_success_def split: prod.splits)
  have new: "t \<noteq> recip" using lawful_faucet(2) [OF assms(1) f refl] assms(3) by auto
  have "uctusd_balance ch s t w1 = Inr (Some (Fin x))" using lawful_faucet(1) [OF assms(1) f] assms(3) by simp
  then have "uctusd_balance ch s t w2 = Inr (Some (Fin x))" using lawful_others [OF assms(1) trust] new by simp
  moreover have "py_decimal (i_value (raw_amount s ''10'')) = Some (Fin 10)" unfolding raw_amount_def issued_amount.simps by code_simp
  ultimately have "uctusd_balance ch s t w3 = Inr (Some (Fin (x - 10)))"
    using lawful_paid [OF assms(1) pay new] by blast
  then show ?thesis using lawful_others [OF assms(1) burn] new assms(2) hs by simp
qed

lemma failures_balance:
  assumes "lawful ch s" and "t \<noteq> recip" and "t \<noteq> xrpl_issuer_address s"
    and "smoke_failures ch s t recip w = (Inr codes, w')"
  shows "uctusd_balance ch s t w' = uctusd_balance ch s t w
    \<and> fst ` set codes = {''payment to account with no trust line'', ''payment exceeding balance (burn 1000, holds 5)'', ''malformed currency code''}"
proof -
  from assms(4) obtain w1 w2 w3 no_line sd c1 c2 where f: "ch_faucet ch w = (Inr (no_line, sd), w1)"
    and r1: "record_failure ch ''payment to account with no trust line'' (Payment t no_line (raw_amount s ''1'')) [] w1 = (Inr c1, w2)"
    and r2: "record_failure ch ''payment exceeding balance (burn 1000, holds 5)''
        (Payment recip (xrpl_issuer_address s) (raw_amount s ''1000'')) c1 w2 = (Inr c2, w3)"
    and r3: "record_failure ch ''malformed currency code'' (Payment recip (xrpl_issuer_address s)
          \<lparr>i_currency = ''UCTUSD'', i_issuer = xrpl_issuer_address s, i_value = ''1''\<rparr>) c2 w3 = (Inr codes, w')"
    by (auto simp: smoke_failures_def split: prod.splits)
  have "uctusd_balance ch s no_line w1 = Inr None" "no_line \<noteq> xrpl_issuer_address s"
    using lawful_faucet [OF assms(1) f] by simp_all
  with r1 have "uctusd_balance ch s t w2 = uctusd_balance ch s t w1" by (elim recorded) (rule lawful_no_line [OF assms(1)])
  moreover have "uctusd_balance ch s t w3 = uctusd_balance ch s t w2"
    using r2 assms(2,3) by (elim recorded) (auto intro: lawful_others [OF assms(1)])
  moreover have "uctusd_balance ch s t w' = uctusd_balance ch s t w3"
    using r3 assms(2,3) by (elim recorded) (auto intro: lawful_others [OF assms(1)])
  ultimately have "uctusd_balance ch s t w' = uctusd_balance ch s t w" using lawful_faucet(1) [OF assms(1) f] by simp
  moreover have "fst ` set codes = {''malformed currency code'', ''payment exceeding balance (burn 1000, holds 5)'',
     ''payment to account with no trust line''}"
    using r1 r2 r3 by (elim recorded) simp
  ultimately show ?thesis by blast
qed

text \<open>
  A smoke test that passes cost the treasury exactly the ten UCTUSD of its one payment: the expected failures, whatever
  they answered, took nothing from it; the wallet is the configured one, and every failure has its entry.
\<close>

theorem smoke_costs_ten:
  assumes "lawful ch s" and "xrpl_platform_wallet_address s \<noteq> xrpl_issuer_address s"
    and "smoke_main derive f key r s ch w = (Inr rep, w')" and "sm_before rep = Some (Fin x)"
  shows "sm_treasury rep = xrpl_platform_wallet_address s \<and> sm_after rep = Some (Fin (x - 10)) \<and> length (sm_hashes rep) = 3
    \<and> fst ` set (sm_codes rep) = {''payment to account with no trust line'', ''payment exceeding balance (burn 1000, holds 5)'', ''malformed currency code''}"
proof -
  let ?t = "xrpl_platform_wallet_address s"
  from assms(3,4) obtain recip sd hs w1 token w2 codes w3 after_run where
    start: "uctusd_balance ch s ?t w = Inr (Some (Fin x))"
    and transfers: "smoke_transfers ch s ?t w = (Inr ((recip, sd), hs), w1)"
    and sealing: "smoke_seal f key r sd w1 = (Inr token, w2)"
    and failures: "smoke_failures ch s ?t recip w2 = (Inr codes, w3)"
    and final: "uctusd_balance ch s ?t w3 = Inr after_run"
    and rep: "rep = \<lparr>sm_treasury = ?t, sm_recipient = recip, sm_before = Some (Fin x), sm_after = after_run, sm_hashes = hs, sm_codes = codes\<rparr>"
    by (auto simp: smoke_main_def split: prod.splits)
  have "w2 = w1" using sealing by (auto simp: smoke_seal_def Let_def)
  with transfers_balance [OF assms(1,2) start transfers] failures_balance [OF assms(1) _ assms(2) failures] final rep
  show ?thesis by simp
qed

text \<open>
  A small ledger on which the laws hold: each trust line with its balance in millionths. A new address is longer
  than all addresses in use.
\<close>

type_synonym small_ledger = "(string \<times> int) list"

definition held :: "small_ledger \<Rightarrow> string \<Rightarrow> int option" where
  "held w a = map_option (max 0) (map_of w a)"

definition small_pay :: "settings \<Rightarrow> string \<Rightarrow> string \<Rightarrow> issued_amount \<Rightarrow> small_ledger \<Rightarrow> (exn + string \<times> string) \<times> small_ledger" where
  "small_pay s a b v w =
     (case (held w a, py_decimal (i_value v)) of
        (Some x, Some (Fin y)) \<Rightarrow>
          (let m = \<lfloor>y * 10 ^ 6\<rfloor>
           in if i_currency v \<noteq> xrpl_currency_code s then (Inl (Raised ''XRPLModelException'' ''currency''), w)
              else if y \<le> 0 \<or> \<not> on_grid 6 y \<or> a = b then (Inr (''temBAD_AMOUNT'', ''P''), w)
              else if b = xrpl_issuer_address s \<and> m \<le> x then (Inr (tes_success, ''P''), (a, x - m) # w)
              else (case held w b of
                      None \<Rightarrow> (Inr (''tecPATH_DRY'', ''P''), w)
                    | Some z \<Rightarrow> if m \<le> x then (Inr (tes_success, ''P''), (a, x - m) # (b, z + m) # w)
                        else (Inr (''tecPATH_PARTIAL'', ''P''), w)))
      | _ \<Rightarrow> (Inr (''tecPATH_DRY'', ''P''), w))"

definition small_chain :: "settings \<Rightarrow> small_ledger chain" where
  "small_chain s = \<lparr>ch_submit = (\<lambda>tx w. case tx of
        Trust_set a v \<Rightarrow> (Inr (tes_success, ''T''), if map_of w a = None then (a, 0) # w else w)
      | Payment a b v \<Rightarrow> small_pay s a b v w),
     ch_lines = (\<lambda>a issuer w. Inr (case held w a of None \<Rightarrow> []
        | Some x \<Rightarrow> [(xrpl_currency_code s, fixed_text 6 (of_int x / 10 ^ 6))])),
     ch_faucet = (\<lambda>w. (Inr (CHR ''r'' # xrpl_issuer_address s @ concat (map fst w), ''sNew''), w)),
     ch_xrp = (\<lambda>a w. Inr 100), ch_reserves = (\<lambda>w. Inr (1, 0.2))\<rparr>"

lemma held_simps [simp]:
  "held ((b, x) # w) a = (if a = b then Some (max 0 x) else held w a)" "held w a = Some x \<Longrightarrow> max 0 x = x"
  by (auto simp: held_def)

lemma line_nonneg: "held w a = Some x \<Longrightarrow> 0 \<le> x"
  by (auto simp: held_def)

lemma small_balance:
  "uctusd_balance (small_chain s) s a w = Inr (map_option (\<lambda>x. Fin (of_int x / 10 ^ 6)) (held w a))"
proof (cases "held w a")
  case (Some x)
  have "py_decimal (fixed_text 6 (of_int x / 10 ^ 6)) = Some (Fin (of_int x / 10 ^ 6))"
    using line_nonneg [OF Some] on_grid_of_int [of 6 x] by (intro py_decimal_fixed_text(1)) (simp_all del: on_grid_of_int)
  then show ?thesis using Some by (simp add: uctusd_balance_def small_chain_def get_uctusd_balance_def)
qed (simp add: uctusd_balance_def small_chain_def get_uctusd_balance_def)

lemma small_payE:
  assumes "small_pay s a b v w = (r, w')"
  obtains (same) "w' = w" "\<And>h. r \<noteq> Inr (tes_success, h)"
  | (moved) x y w1 where "held w a = Some x" "py_decimal (i_value v) = Some (Fin y)" "on_grid 6 y" "a \<noteq> b"
      "\<lfloor>y * 10 ^ 6\<rfloor> \<le> x" "w' = (a, x - \<lfloor>y * 10 ^ 6\<rfloor>) # w1" "\<And>c. c \<noteq> b \<Longrightarrow> held w1 c = held w c"
      "b = xrpl_issuer_address s \<or> held w b \<noteq> None"
  using assms unfolding small_pay_def Let_def
  by (auto simp: tes_success_def split: option.splits decimal.splits if_splits)

lemma fresh_address:
  "map_of w (CHR ''r'' # xrpl_issuer_address s @ concat (map fst w)) = None"
  "CHR ''r'' # xrpl_issuer_address s @ concat (map fst w) \<noteq> xrpl_issuer_address s"
proof -
  have "length a \<le> length (concat (map fst w))" if "a \<in> fst ` set w" for a
    using that by (induction w) (auto intro: trans_le_add2 simp: rev_image_eqI)
  then have "length a \<le> length (xrpl_issuer_address s @ concat (map fst w))" if "a \<in> fst ` set w" for a
    using that by (simp add: trans_le_add2)
  then show "map_of w (CHR ''r'' # xrpl_issuer_address s @ concat (map fst w)) = None"
    unfolding map_of_eq_None_iff by (metis Suc_n_not_le_n length_Cons)
  show "CHR ''r'' # xrpl_issuer_address s @ concat (map fst w) \<noteq> xrpl_issuer_address s"
    by (metis Suc_n_not_le_n le_add1 length_Cons length_append)
qed

lemma small_paid:
  assumes "small_pay s a b v w = (Inr (tes_success, h), w')" and "py_decimal (i_value v) = Some (Fin y)"
    and "map_option (\<lambda>x. Fin (of_int x / 10 ^ 6)) (held w a) = Some (Fin z)"
  shows "map_option (\<lambda>x. Fin (of_int x / 10 ^ 6)) (held w' a) = Some (Fin (z - y))"
proof -
  from assms(3) obtain x where x: "held w a = Some x" "z = of_int x / 10 ^ 6"
    by (cases "held w a") (simp_all only: option.map option.inject decimal.inject option.distinct)
  have "held w' a = Some (x - \<lfloor>y * 10 ^ 6\<rfloor>) \<and> on_grid 6 y"
    using assms(1) by (rule small_payE) (use assms(2) x(1) in auto)
  moreover from this have "of_int \<lfloor>y * 10 ^ 6\<rfloor> = y * 10 ^ 6" by (simp only: on_grid_def)
  then have "of_int (x - \<lfloor>y * 10 ^ 6\<rfloor>) / 10 ^ 6 = z - y" by (simp only: x(2) of_int_diff diff_divide_distrib) simp
  ultimately show ?thesis by simp
qed

lemma small_chain_lawful: "lawful (small_chain s) s"
proof -
  have faucet: "ch_faucet (small_chain s) w = (r, w') \<Longrightarrow> w' = w \<and> (\<forall>a sd. r = Inr (a, sd) \<longrightarrow> held w a = None \<and> a \<noteq> xrpl_issuer_address s)"
    for w r w' by (auto simp: small_chain_def held_def fresh_address)
  have others: "ch_submit (small_chain s) tx w = (r, w') \<Longrightarrow> a \<notin> parties tx \<Longrightarrow> held w' a = held w a" for tx w r w' a
    by (cases tx) (auto simp: small_chain_def elim: small_payE)
  have pay: "ch_submit (small_chain s) (Payment a b v) w = small_pay s a b v w" for a b v w by (simp add: small_chain_def)
  have no_line: "held w' a = held w a" if "small_pay s a b v w = (r, w')" "b \<noteq> xrpl_issuer_address s" "held w b = None" for a b v w r w'
    using that(1) by (rule small_payE) (use that in auto)
  show ?thesis
    unfolding lawful_def small_balance pay sum.inject(2)
  proof (intro conjI allI impI, goal_cases)
    case (1 w r w' a)
    with faucet [of w r w'] show ?case by simp
  next
    case (2 w r w' a sd)
    with faucet [of w r w'] show ?case by simp
  next
    case (3 w r w' a sd)
    with faucet [of w r w'] show ?case by simp
  next
    case (4 tx w r w' a)
    then show ?case using others by simp
  next
    case (5 a b v w h w' x y)
    then show ?case using small_paid by blast
  next
    case (6 a b v w r w')
    then show ?case using no_line by simp
  qed
qed

lemma outcomeE:
  assumes "case r of (Inl e, w') \<Rightarrow> False | (Inr x, w') \<Rightarrow> P x"
  obtains x w' where "r = (Inr x, w')" "P x"
  using assms by (auto split: prod.splits sum.splits)

theorem smoke_costs_ten_witness:
  "\<exists>rep w'. smoke_main (\<lambda>sd. Inr ''rPlatform'') \<lparr>is_key = (\<lambda>k. True), seal = (\<lambda>k r t. rev t), unseal = (\<lambda>k t. Some (rev t))\<rparr> ''key'' 0
       example_settings (small_chain example_settings) [(''rPlatform'', 40000000)] = (Inr rep, w')
     \<and> sm_after rep = Some (Fin 30) \<and> length (sm_codes rep) = 3"
proof -
  let ?run = "smoke_main (\<lambda>sd. Inr ''rPlatform'') \<lparr>is_key = (\<lambda>k. True), seal = (\<lambda>k r t. rev t), unseal = (\<lambda>k t. Some (rev t))\<rparr> ''key'' 0
       example_settings (small_chain example_settings) [(''rPlatform'', 40000000)]"
  have "case ?run of (Inl e, w') \<Rightarrow> False | (Inr rep, w') \<Rightarrow> sm_before rep = Some (Fin 40) \<and> length (sm_codes rep) = 3" by code_simp
  then obtain rep w' where run: "?run = (Inr rep, w')" and rep: "sm_before rep = Some (Fin 40) \<and> length (sm_codes rep) = 3"
    by (rule outcomeE)
  have "xrpl_platform_wallet_address example_settings \<noteq> xrpl_issuer_address example_settings" by code_simp
  from smoke_costs_ten [OF small_chain_lawful this run conjunct1 [OF rep]]
  have "sm_after rep = Some (Fin (40 - 10))" by (elim conjE)
  then show ?thesis using run rep by (intro exI [of _ rep] exI [of _ w'] conjI) simp_all
qed

section \<open>Timing real payments\<close>

text \<open>
  The readings of the clock before and after each call are floats; the outcomes of the calls are those of
  the ledger surface (theory Xrpl). The wallet is built but never stored, and \<open>_NoDB\<close> ignores what would be.
\<close>

record timings =
  tm_faucet :: rat
  tm_trust :: rat
  tm_payments :: "rat list"

definition elapsed :: "rat \<times> rat \<Rightarrow> rat" where
  "elapsed c = fsub (snd c) (fst c)"

text \<open>The payments, until one fails: its time counts, and the loop stops.\<close>

fun time_payments ::
  "(string \<Rightarrow> string option) \<Rightarrow> settings \<Rightarrow> (payment_run \<times> (rat \<times> rat)) list \<Rightarrow> exn + rat list" where
  "time_payments derive s [] = Inr []"
| "time_payments derive s ((r, c) # rest) =
     (case send_from_treasury derive s r (1 / 2) None None () of
        (Inl e, _) \<Rightarrow> Inl e
      | (Inr res, _) \<Rightarrow>
          if x_success res then and_then (time_payments derive s rest) (\<lambda>ts. Inr (elapsed c # ts)) else Inr [elapsed c])"

text \<open>
  The three measurements; \<open>account\<close> is what the faucet returned, sealed as for a wallet row. The trust line's
  result is not looked at.
\<close>

definition measure_xrpl ::
  "(string \<Rightarrow> string option) \<Rightarrow> settings \<Rightarrow> exn + string \<times> string \<times> string \<Rightarrow> rat \<times> rat \<Rightarrow> payment_run \<Rightarrow> rat \<times> rat
     \<Rightarrow> (payment_run \<times> (rat \<times> rat)) list \<Rightarrow> exn + timings" where
  "measure_xrpl derive s account faucet_clock trust trust_clock payments =
     and_then account (\<lambda>acc.
     and_then (fst (ensure_trust_line 0 trust (\<lambda>d. d) empty_db (new_wallet 0 0 0 acc))) (\<lambda>_.
     and_then (time_payments derive s payments) (\<lambda>paid.
     Inr \<lparr>tm_faucet = elapsed faucet_clock, tm_trust = elapsed trust_clock, tm_payments = paid\<rparr>)))"

record step_summary =
  su_samples :: nat
  su_min_s :: rat
  su_mean_s :: rat
  su_max_s :: rat

text \<open>\<open>statistics.fmean\<close>: the correctly rounded sum, divided by the number of samples.\<close>

definition fmean :: "rat list \<Rightarrow> rat" where
  "fmean xs = fl (fl (sum_list xs) / of_nat (length xs))"

definition summarise :: "rat list \<Rightarrow> step_summary option" where
  "summarise xs =
     (case xs of [] \<Rightarrow> None
      | x # r \<Rightarrow> Some \<lparr>su_samples = length xs, su_min_s = round_places 2 (foldl min x r), su_mean_s = round_places 2 (fmean xs),
          su_max_s = round_places 2 (foldl max x r)\<rparr>)"

record xrpl_timings =
  xt_faucet_account :: "step_summary option"
  xt_trust_line :: "step_summary option"
  xt_payment :: "step_summary option"
  xt_first_transfer_total_s :: rat

definition timing_summary :: "timings \<Rightarrow> exn + xrpl_timings" where
  "timing_summary t =
     (case tm_payments t of
        [] \<Rightarrow> Inl (Raised ''IndexError'' ''list index out of range'')
      | p # _ \<Rightarrow> Inr \<lparr>xt_faucet_account = summarise [tm_faucet t], xt_trust_line = summarise [tm_trust t],
          xt_payment = summarise (tm_payments t),
          xt_first_transfer_total_s = round_places 2 (fadd (fadd (tm_faucet t) (tm_trust t)) p)\<rparr>)"

text \<open>
  With no payment asked for, the account is funded and its trust line set, and only then does the
  summary fail; with one or more, a run whose calls do not raise is summarised, with a sample for each
  payment up to the first that failed.
\<close>

lemma no_payments_fail: "measure_xrpl derive s account fc trust tc [] = Inr t \<Longrightarrow> timing_summary t = Inl (Raised ''IndexError'' ''list index out of range'')"
  by (auto simp: measure_xrpl_def timing_summary_def)

lemma payments_timed:
  "time_payments derive s ps = Inr ts \<Longrightarrow> length ts \<le> length ps \<and> ts = map (\<lambda>(r, c). elapsed c) (take (length ts) ps)
     \<and> (ps \<noteq> [] \<longrightarrow> ts \<noteq> [])"
  by (induction derive s ps arbitrary: ts rule: time_payments.induct) (auto split: sum.splits prod.splits if_splits)

lemma foldl_min_max: "foldl min (x :: rat) r \<le> foldl max y r" if "x \<le> y" for x y
  using that by (induction r arbitrary: x y) (auto simp: min_def max_def)

lemma round_places_mono: "x \<le> y \<Longrightarrow> round_places k x \<le> round_places k y"
  unfolding round_places_def by (intro binary64.rnd_le divide_right_mono) (simp_all add: round_half_even_mono mult_right_mono)

lemma payments_summarised:
  assumes "measure_xrpl derive s account fc trust tc ps = Inr t" and "ps \<noteq> []"
  shows "\<exists>r p. timing_summary t = Inr r \<and> xt_payment r = Some p \<and> su_min_s p \<le> su_max_s p
    \<and> 1 \<le> su_samples p \<and> su_samples p \<le> length ps"
proof -
  obtain ts where ts: "time_payments derive s ps = Inr ts" "tm_payments t = ts" using assms(1) by (auto simp: measure_xrpl_def)
  then obtain x r where "ts = x # r" "length ts \<le> length ps" using payments_timed [OF ts(1)] assms(2) by (cases ts) auto
  then show ?thesis
    using foldl_min_max [of x x r] ts(2) by (auto simp: timing_summary_def summarise_def intro: round_places_mono)
qed

end
