(* ===== verification/PerfReport.thy ===== *)
theory PerfReport
  imports PerfRun LedgerScripts AdminPages "HOL-Library.Monad_Syntax"
begin

text \<open>
  The report of a load-test session, \<open>perf/analyze.py\<close>: the figures computed from the files of a session, the
  series of its charts and the tables of \<open>summary.md\<close>. The files are arguments, with the columns Locust and
  the sampler write; \<open>None\<close> is a report that raises, or a cell that reads as an infinity or a NaN. The
  drawing of the charts and the prose between the tables are left out.
\<close>

section \<open>The files\<close>

text \<open>A row of \<open>_stats.csv\<close> and of \<open>_failures.csv\<close> (Locust), and of a \<open>queue_\<close> file (\<open>perf/sampler.py\<close>), as texts.\<close>

record stats_row =
  st_name :: string
  st_requests :: string
  st_failures :: string
  st_median :: string
  st_p95 :: string
  st_p99 :: string
  st_max :: string
  st_rate :: string

record failure_row =
  fr_name :: string
  fr_error :: string
  fr_occurrences :: string

record sample_row =
  sp_t :: string
  sp_epoch :: string
  sp_queue_depth :: string
  sp_jobs_running :: string
  sp_jobs_finished :: string
  sp_queued :: string
  sp_processing :: string
  sp_completed :: string
  sp_failed :: string

text \<open>What \<open>run_meta.json\<close> holds of a drain; the epochs are there once it ended.\<close>

record drain_record =
  dr_workers :: int
  dr_backlog :: int
  dr_workers_ready_epoch :: rat
  dr_drained_epoch :: "rat option"
  dr_settled_or_failed :: int
  dr_timed_out :: bool

definition num :: "string \<Rightarrow> rat option" where
  "num v = (case py_float v of None \<Rightarrow> Some 0 | Some r \<Rightarrow> r)"

definition row_of :: "stats_row list \<Rightarrow> string \<Rightarrow> stats_row option" where
  "row_of rows name = find (\<lambda>r. st_name r = name) rows"

text \<open>
  One round of the sampler's loop: the seconds since the start and the wall clock, the length of the queue and of the
  two registries, and the counts of the database at that moment.
\<close>

definition sampler_row :: "rat \<Rightarrow> rat \<Rightarrow> nat \<Rightarrow> nat \<Rightarrow> nat \<Rightarrow> db \<Rightarrow> sample_row" where
  "sampler_row since epoch depth running finished d =
     (let figure = (\<lambda>n. text_of_int (int n))
      in \<lparr>sp_t = float_repr (round_places 1 since), sp_epoch = float_repr (round_places 2 epoch), sp_queue_depth = figure depth,
          sp_jobs_running = figure running, sp_jobs_finished = figure finished, sp_queued = figure (sample_db d Settle_queued),
          sp_processing = figure (sample_db d Settle_processing), sp_completed = figure (sample_db d Settle_completed),
          sp_failed = figure (sample_db d Settle_failed)\<rparr>)"

section \<open>Measures\<close>

definition confirm_row :: string where
  "confirm_row = ''POST /admin/cashin/{id}/received''"

record load_figures =
  lf_span_s :: rat
  lf_settled :: int
  lf_per_min :: rat
  lf_confirmations :: int
  lf_depth_max :: int
  lf_depth_end :: int
  lf_failed_end :: int
  lf_received_db :: nat

text \<open>A quotient with \<open>or 0.0\<close> for a zero divisor, times a whole factor.\<close>

definition per_span :: "int \<Rightarrow> rat \<Rightarrow> rat \<Rightarrow> rat" where
  "per_span n secs factor = (if secs = 0 then 0 else fmul (fl (of_int n / secs)) factor)"

definition received_count :: "outcomes option \<Rightarrow> nat" where
  "received_count outcome =
     (case outcome of None \<Rightarrow> 0
      | Some oc \<Rightarrow> (\<Sum>((c, st), n)\<leftarrow>oc_cashin_by_settlement oc. if c = CashIn_received then n else 0))"

definition under_load :: "stats_row list \<Rightarrow> sample_row list \<Rightarrow> outcomes option \<Rightarrow> load_figures option option" where
  "under_load stats rows outcome =
     (if length rows < 2 then Some None
      else do {
        t1 \<leftarrow> num (sp_t (last rows));
        t0 \<leftarrow> num (sp_t (hd rows));
        c1 \<leftarrow> py_int (sp_completed (last rows));
        c0 \<leftarrow> py_int (sp_completed (hd rows));
        confirmations \<leftarrow> (case row_of stats confirm_row of None \<Rightarrow> Some 0 | Some r \<Rightarrow> py_int (st_requests r));
        depths \<leftarrow> those (map (\<lambda>r. py_int (sp_queue_depth r)) rows);
        failed \<leftarrow> py_int (sp_failed (last rows));
        let secs = fsub t1 t0;
        Some (Some \<lparr>lf_span_s = secs, lf_settled = c1 - c0, lf_per_min = per_span (c1 - c0) secs 60,
          lf_confirmations = confirmations, lf_depth_max = foldl max (hd depths) (tl depths), lf_depth_end = last depths,
          lf_failed_end = failed, lf_received_db = received_count outcome\<rparr>)
      })"

record drain_figures =
  df_workers :: int
  df_backlog :: int
  df_drain_s :: rat
  df_completed :: nat
  df_per_min :: rat
  df_timed_out :: bool

definition completed_count :: "outcomes option \<Rightarrow> nat" where
  "completed_count outcome =
     (case outcome of None \<Rightarrow> 0
      | Some oc \<Rightarrow> (\<Sum>((c, st), n)\<leftarrow>oc_cashin_by_settlement oc. if st = Settle_completed then n else 0))"

definition drain :: "drain_record \<Rightarrow> rat \<Rightarrow> outcomes option \<Rightarrow> drain_figures" where
  "drain r drained outcome =
     (let secs = fsub drained (dr_workers_ready_epoch r)
      in \<lparr>df_workers = dr_workers r, df_backlog = dr_backlog r, df_drain_s = secs, df_completed = completed_count outcome,
          df_per_min = per_span (dr_settled_or_failed r) secs 60, df_timed_out = dr_timed_out r\<rparr>)"

text \<open>\<open>main\<close> reports the drains that ended.\<close>

definition report_drains :: "(drain_record \<times> outcomes option) list \<Rightarrow> drain_figures list" where
  "report_drains rs = List.map_filter (\<lambda>(r, oc). map_option (\<lambda>t. drain r t oc) (dr_drained_epoch r)) rs"

section \<open>The series of the charts\<close>

definition at_least_one :: "string \<Rightarrow> rat option" where
  "at_least_one v = map_option (max 1) (num v)"

text \<open>Endpoints with twenty requests or more, slowest last: the shortened name, the median and the 95th percentile.\<close>

definition response_series :: "stats_row list \<Rightarrow> (string \<times> rat \<times> rat) list option" where
  "response_series rows = do {
     counted \<leftarrow> those (map (\<lambda>r. map_option (\<lambda>n. (r, n)) (py_int (st_requests r))) (filter (\<lambda>r. st_name r \<noteq> ''Aggregated'') rows));
     keyed \<leftarrow> those (map (\<lambda>(r, n). map_option (\<lambda>k. (r, k)) (num (st_p95 r))) (filter (\<lambda>(r, n). 20 \<le> n) counted));
     those (map (\<lambda>(r, k). do { m \<leftarrow> at_least_one (st_median r); p \<leftarrow> at_least_one (st_p95 r);
         Some (remove_text ''POST '' (remove_text ''GET '' (st_name r)), m, p) }) (sort_key snd keyed))
   }"

definition pick :: "(stats_row \<Rightarrow> string) \<Rightarrow> string \<Rightarrow> stats_row list \<Rightarrow> rat option option" where
  "pick col name rows = (case row_of rows name of None \<Rightarrow> Some None | Some r \<Rightarrow> map_option Some (at_least_one (col r)))"

text \<open>One point per tier for each line of the two panels; a tier without the row has a gap.\<close>

definition concurrency_series :: "stats_row list list \<Rightarrow> rat option list list option" where
  "concurrency_series tier_stats =
     those (map (\<lambda>(name, col). those (map (pick col name) tier_stats))
       [(''Aggregated'', st_median), (''Aggregated'', st_p95), (''POST /login'', st_median), (''GET /wallet'', st_p95),
        (''POST /remittances'', st_median)])"

definition queue_series :: "sample_row list \<Rightarrow> (rat \<times> int \<times> int) list option option" where
  "queue_series rows =
     (if length rows < 2 then Some None
      else do {
        c0 \<leftarrow> py_int (sp_completed (hd rows));
        points \<leftarrow> those (map (\<lambda>r. do { t \<leftarrow> num (sp_t r); q \<leftarrow> py_int (sp_queue_depth r); c \<leftarrow> py_int (sp_completed r);
            Some (t, q, c - c0) }) rows);
        Some (Some points)
      })"

text \<open>The bars of the throughput chart; the last one is derived from the real ledger, if it was measured.\<close>

datatype bar_label = Simulated int | Real_ledger

definition real_ceiling :: "rat \<Rightarrow> rat option" where
  "real_ceiling mean_s = (if mean_s = 0 then None else Some (fl (60 / mean_s)))"

definition throughput_bars :: "drain_figures list \<Rightarrow> xrpl_timings option \<Rightarrow> (bar_label \<times> rat) list option" where
  "throughput_bars drains xrpl =
     (if drains = [] then Some []
      else let simulated = map (\<lambda>d. (Simulated (df_workers d), df_per_min d)) drains
           in case Option.bind xrpl xt_payment of
                None \<Rightarrow> Some simulated
              | Some p \<Rightarrow> map_option (\<lambda>v. simulated @ [(Real_ledger, v)]) (real_ceiling (su_mean_s p)))"

section \<open>Table rows\<close>

fun join_cells :: "string list \<Rightarrow> string" where
  "join_cells [] = []"
| "join_cells [c] = c"
| "join_cells (c # cs) = c @ '' | '' @ join_cells cs"

definition table_row :: "string list \<Rightarrow> string" where
  "table_row cells = ''| '' @ join_cells cells @ '' |''"

text \<open>The dash and the multiplication sign of the tables, in UTF-8.\<close>

definition em_dash :: string where
  "em_dash = [CHR 0xE2, CHR 0x80, CHR 0x94]"

definition times_sign :: string where
  "times_sign = [CHR 0xC3, CHR 0x97]"

definition ms :: "string \<Rightarrow> string option" where
  "ms v = map_option (float_fixed with_commas 0) (num v)"

definition percent :: "int \<Rightarrow> int \<Rightarrow> string" where
  "percent part whole =
     (if whole = 0 then em_dash else plain_fixed 1 (fmul (fl (of_int part / of_int whole)) 100) @ '' %'')"

definition rate_text :: "string \<Rightarrow> string option" where
  "rate_text v = map_option (plain_fixed 1) (num v)"

text \<open>All endpoints of the reference run: the sum first, then by requests.\<close>

definition by_requests :: "stats_row list \<Rightarrow> (stats_row \<times> int) list option" where
  "by_requests rows = do {
     counted \<leftarrow> those (map (\<lambda>r. map_option (\<lambda>n. (r, n)) (py_int (st_requests r))) rows);
     Some (sort_key (\<lambda>(r, n). - n) (filter (\<lambda>(r, n). st_name r = ''Aggregated'') counted)
       @ sort_key (\<lambda>(r, n). - n) (filter (\<lambda>(r, n). st_name r \<noteq> ''Aggregated'') counted))
   }"

definition endpoint_rows :: "stats_row list \<Rightarrow> string list option" where
  "endpoint_rows stats = do {
     rows \<leftarrow> by_requests stats;
     those (map (\<lambda>(r, n). do { m \<leftarrow> ms (st_median r); p95 \<leftarrow> ms (st_p95 r); p99 \<leftarrow> ms (st_p99 r); mx \<leftarrow> ms (st_max r);
         rate \<leftarrow> rate_text (st_rate r);
         Some (table_row [if st_name r = ''Aggregated'' then ''**All requests**'' else st_name r, int_commas n, st_failures r,
           m, p95, p99, mx, rate]) }) rows)
   }"

definition optional_int :: "int option \<Rightarrow> string" where
  "optional_int n = (case n of None \<Rightarrow> ''None'' | Some n \<Rightarrow> text_of_int n)"

definition tier_rows :: "(string \<times> int option \<times> stats_row list) list \<Rightarrow> string list option" where
  "tier_rows runs = map_option concat (those (map (\<lambda>(label, user_count, rows).
     case row_of rows ''Aggregated'' of
       None \<Rightarrow> Some []
     | Some r \<Rightarrow> do { n \<leftarrow> py_int (st_requests r); f \<leftarrow> py_int (st_failures r); m \<leftarrow> ms (st_median r); p95 \<leftarrow> ms (st_p95 r);
         mx \<leftarrow> ms (st_max r); rate \<leftarrow> rate_text (st_rate r);
         Some [table_row [label, optional_int user_count, int_commas n, int_commas f, percent f n, m, p95, mx, rate]] }) runs))"

definition spotlight :: "string list" where
  "spotlight = [''POST /login'', ''POST /remittances'', ''POST /remittances (declined)'', ''GET /wallet'', ''GET /send'']"

definition key_endpoint_rows :: "(string \<times> int option \<times> stats_row list) list \<Rightarrow> string list option" where
  "key_endpoint_rows runs = map_option concat (those (concat (map (\<lambda>(label, user_count, rows).
     map (\<lambda>name. case row_of rows name of
         None \<Rightarrow> Some []
       | Some r \<Rightarrow> do { n \<leftarrow> py_int (st_requests r); m \<leftarrow> ms (st_median r); p95 \<leftarrow> ms (st_p95 r); mx \<leftarrow> ms (st_max r);
           Some [table_row [label, optional_int user_count, name, int_commas n, m, p95, mx]] }) spotlight) runs)))"

definition failure_rows :: "(string \<times> failure_row list) list \<Rightarrow> string list" where
  "failure_rows runs =
     (let rows = concat (map (\<lambda>(label, fs). map (\<lambda>f. table_row [label, fr_name f, fr_error f, fr_occurrences f]) fs) runs)
      in if rows = [] then [table_row [em_dash, em_dash, ''none recorded'', ''0'']] else rows)"

definition queue_rows :: "(string \<times> int \<times> load_figures option) list \<Rightarrow> string list" where
  "queue_rows loads = concat (map (\<lambda>(label, user_count, q).
     case q of None \<Rightarrow> []
     | Some q \<Rightarrow> [table_row [label, text_of_int user_count, plain_fixed 0 (lf_span_s q), int_commas (lf_confirmations q),
         int_commas (int (lf_received_db q)), text_of_int (lf_settled q), plain_fixed 1 (lf_per_min q), int_commas (lf_depth_max q),
         int_commas (lf_depth_end q)]]) loads)"

text \<open>The last column compares with the first drain of the session; when that settled nothing, each row is an empty line.\<close>

definition scaling_rows :: "drain_figures list \<Rightarrow> string list" where
  "scaling_rows drains =
     (let base_rate = (case drains of [] \<Rightarrow> 0 | d # _ \<Rightarrow> df_per_min d)
      in map (\<lambda>d. if base_rate = 0 then []
           else table_row [text_of_int (df_workers d), text_of_int (df_backlog d),
             plain_fixed 1 (df_drain_s d) @ (if df_timed_out d then '' (timed out)'' else []), text_of_int (int (df_completed d)),
             plain_fixed 1 (df_per_min d), plain_fixed 2 (fl (df_per_min d / base_rate)) @ times_sign]) drains)"

definition xrpl_rows :: "xrpl_timings \<Rightarrow> string list" where
  "xrpl_rows x =
     concat (map (\<lambda>(label, p). case p of None \<Rightarrow> []
         | Some p \<Rightarrow> [table_row [label, text_of_int (int (su_samples p)), float_repr (su_min_s p), float_repr (su_mean_s p),
             float_repr (su_max_s p)]])
       [(''Create recipient account (faucet)'', xt_faucet_account x), (''TrustSet to issuer'', xt_trust_line x),
        (''Treasury '' @ [CHR 0xE2, CHR 0x86, CHR 0x92] @ '' recipient payment'', xt_payment x)])
     @ [table_row [''**First transfer to a new recipient**'', ''1'', em_dash, float_repr (xt_first_transfer_total_s x), em_dash]]"

fun cashout_value :: "cashout_status \<Rightarrow> string" where
  "cashout_value Out_requested = ''requested''"
| "cashout_value Out_approved = ''approved''"
| "cashout_value Out_completed = ''completed''"
| "cashout_value Out_failed = ''failed''"

definition payments_of :: "outcomes \<Rightarrow> nat" where
  "payments_of oc = (\<Sum>(k, n)\<leftarrow>oc_cashin_by_settlement oc. n)"

definition outcome_rows :: "(string \<times> outcomes option) list \<Rightarrow> string list" where
  "outcome_rows runs = concat (map (\<lambda>(label, oc). case oc of None \<Rightarrow> []
     | Some oc \<Rightarrow> map (\<lambda>((c, st), n). table_row [label, cashin_value c, settlement_value st, int_commas (int n),
         percent (int n) (int (payments_of oc))]) (oc_cashin_by_settlement oc)) runs)"

text \<open>The mean number of attempts was rounded to three places when the outcomes were written.\<close>

fun comma_list :: "string list \<Rightarrow> string" where
  "comma_list [] = []"
| "comma_list [x] = x"
| "comma_list (x # xs) = x @ '', '' @ comma_list xs"

definition attempts_rows :: "(string \<times> outcomes option) list \<Rightarrow> string list" where
  "attempts_rows runs = concat (map (\<lambda>(label, oc). case oc of None \<Rightarrow> []
     | Some oc \<Rightarrow>
         [table_row [label, text_of_int (int (oc_completed_without_hash oc)), text_of_int (oc_attempts_max oc),
            float_repr (round_places 3 (fl (oc_attempts_mean oc))),
            (if oc_cashout_by_status oc = [] then ''none''
             else comma_list (map (\<lambda>(s, n). cashout_value s @ '' '' @ text_of_int (int n)) (oc_cashout_by_status oc)))]]) runs)"

text \<open>The sub-runs of the session; a drain has workers and a backlog in place of users and a duration.\<close>

record sub_run_record =
  sb_label :: string
  sb_kind :: string
  sb_users :: "int option"
  sb_workers :: "int option"
  sb_duration :: "string option"
  sb_backlog :: "int option"
  sb_started_at :: string
  sb_problems :: "string list"

fun semicolon_list :: "string list \<Rightarrow> string" where
  "semicolon_list [] = []"
| "semicolon_list [x] = x"
| "semicolon_list (x # xs) = x @ ''; '' @ semicolon_list xs"

definition sub_run_rows :: "sub_run_record list \<Rightarrow> string list" where
  "sub_run_rows runs = map (\<lambda>r. table_row [sb_label r, sb_kind r,
     optional_int (case sb_users r of Some n \<Rightarrow> Some n | None \<Rightarrow> sb_workers r),
     (if truthy (sb_duration r) then the (sb_duration r) else optional_int (sb_backlog r) @ '' settlements''), sb_started_at r,
     (if sb_problems r = [] then ''none'' else semicolon_list (sb_problems r))]) runs"

text \<open>The derived ceilings per minute, for one worker and for any number, of a simulated latency.\<close>

definition simulated_ceilings :: "rat \<Rightarrow> (string \<times> string) option" where
  "simulated_ceilings latency =
     (let one_worker = fmul latency 1.5
      in if one_worker = 0 \<or> latency = 0 then None
         else Some (plain_fixed 1 (fl (60 / one_worker)), plain_fixed 1 (fl (60 / latency))))"

section \<open>The whole report\<close>

text \<open>
  The files of a session by the label of their sub-run; a file that is missing reads as no rows, or as \<open>None\<close>.
\<close>

record session_files =
  sf_runs :: "sub_run_record list"
  sf_stats :: "string \<Rightarrow> stats_row list"
  sf_failures :: "string \<Rightarrow> failure_row list"
  sf_samples :: "string \<Rightarrow> sample_row list"
  sf_outcomes :: "string \<Rightarrow> outcomes option"
  sf_drain :: "string \<Rightarrow> drain_record"
  sf_xrpl :: "xrpl_timings option"
  sf_latency :: rat

definition load_labels :: "session_files \<Rightarrow> (string \<times> int) list option" where
  "load_labels f =
     those (map (\<lambda>r. map_option (\<lambda>n. (sb_label r, n)) (sb_users r)) (filter (\<lambda>r. sb_kind r = ''load'') (sf_runs f)))"

definition tiers_of :: "session_files \<Rightarrow> (string \<times> int) list \<Rightarrow> (string \<times> int option \<times> stats_row list) list" where
  "tiers_of f labels = map (\<lambda>(l, n). (l, Some n, sf_stats f l)) (filter (\<lambda>(l, n). l \<noteq> ''run'') labels)"

definition loads_of :: "session_files \<Rightarrow> (string \<times> int) list \<Rightarrow> (string \<times> int \<times> load_figures option) list option" where
  "loads_of f labels =
     those (map (\<lambda>(l, n). map_option (\<lambda>q. (l, n, q)) (under_load (sf_stats f l) (sf_samples f l) (sf_outcomes f l))) labels)"

definition drains_of :: "session_files \<Rightarrow> drain_figures list" where
  "drains_of f = report_drains (map (\<lambda>r. (sf_drain f (sb_label r), sf_outcomes f (sb_label r))) (filter (\<lambda>r. sb_kind r = ''drain'') (sf_runs f)))"

text \<open>The series of the four charts are computed before the tables, so a file they cannot read stops the report.\<close>

definition charts :: "session_files \<Rightarrow> (string \<times> int option \<times> stats_row list) list \<Rightarrow> drain_figures list
    \<Rightarrow> ((string \<times> rat \<times> rat) list \<times> (rat \<times> int \<times> int) list option \<times> (bar_label \<times> rat) list \<times> rat option list list) option" where
  "charts f tier_files drains = do {
     responses \<leftarrow> response_series (sf_stats f ''run'');
     queue \<leftarrow> queue_series (sf_samples f ''run'');
     bars \<leftarrow> throughput_bars drains (sf_xrpl f);
     scaling \<leftarrow> (if tier_files = [] then Some [] else concurrency_series (map (\<lambda>(l, n, rows). rows) tier_files));
     Some (responses, queue, bars, scaling)
   }"

definition report_tables :: "session_files \<Rightarrow> string list list option" where
  "report_tables f = do {
     labels \<leftarrow> load_labels f;
     loads \<leftarrow> loads_of f labels;
     let tier_files = tiers_of f labels;
     let ended = drains_of f;
     _ \<leftarrow> charts f tier_files ended;
     let reference = (''run'', Option.bind (find (\<lambda>r. sb_label r = ''run'') (sf_runs f)) sb_users, sf_stats f ''run'');
     let outcome_files = map (\<lambda>r. (sb_label r, sf_outcomes f (sb_label r))) (sf_runs f);
     endpoints \<leftarrow> endpoint_rows (sf_stats f ''run'');
     tier_table \<leftarrow> tier_rows (reference # tier_files);
     key_table \<leftarrow> key_endpoint_rows (reference # tier_files);
     _ \<leftarrow> simulated_ceilings (sf_latency f);
     _ \<leftarrow> (case Option.bind (sf_xrpl f) xt_payment of None \<Rightarrow> Some 0 | Some p \<Rightarrow> real_ceiling (su_mean_s p));
     Some [sub_run_rows (sf_runs f), endpoints, tier_table, key_table,
       failure_rows (map (\<lambda>l. (l, sf_failures f l)) (''run'' # map fst tier_files)), queue_rows loads, scaling_rows ended,
       (case sf_xrpl f of None \<Rightarrow> [] | Some x \<Rightarrow> xrpl_rows x), outcome_rows outcome_files, attempts_rows outcome_files]
   }"

section \<open>What the figures are\<close>

lemma counted_by:
  assumes "distinct order" and "set ks \<subseteq> set order"
  shows "(\<Sum>(k, n)\<leftarrow>group_counts order ks. if P k then n else 0) = length (filter P ks)"
proof -
  have "(\<Sum>(k, n)\<leftarrow>group_counts order ks. if P k then n else 0) = (\<Sum>(k, n)\<leftarrow>group_counts order (filter P ks). n)"
  proof -
    have "(\<Sum>(k, n)\<leftarrow>filter (\<lambda>g. snd g \<noteq> 0) gs. if P k then n else 0) = (\<Sum>(k, n)\<leftarrow>gs. if P k then n else (0 :: nat))" for gs
      by (induction gs) auto
    moreover have "(\<Sum>(k, n)\<leftarrow>filter (\<lambda>g. snd g \<noteq> 0) gs. n) = (\<Sum>(k, n)\<leftarrow>gs. n :: nat)" for gs :: "('a \<times> nat) list"
      by (induction gs) auto
    moreover have "length (filter (\<lambda>x. x = k) (filter P ks)) = (if P k then length (filter (\<lambda>x. x = k) ks) else 0)" for k
      by (induction ks) auto
    ultimately show ?thesis by (simp add: group_counts_def comp_def)
  qed
  also have "\<dots> = length (filter P ks)" using assms by (intro group_counts_total) auto
  finally show ?thesis .
qed

lemma states_complete: "distinct payment_states" "x \<in> set payment_states"
proof -
  show "distinct payment_states" by code_simp
  show "x \<in> set payment_states"
    by (cases x; cases "fst x"; cases "snd x") (simp_all add: payment_states_def)
qed

lemma counts_of_snapshot:
  "received_count (Some (snapshot_outcomes d))
     = length (filter (\<lambda>t. by_seeded d (t_sender_id t) \<and> t_cashin_status t = CashIn_received) (transactions d))"
  "completed_count (Some (snapshot_outcomes d))
     = length (filter (\<lambda>t. by_seeded d (t_sender_id t) \<and> t_settlement_status t = Settle_completed) (transactions d))"
  "payments_of (snapshot_outcomes d) = length (filter (\<lambda>t. by_seeded d (t_sender_id t)) (transactions d))"
proof -
  let ?ks = "map (\<lambda>t. (t_cashin_status t, t_settlement_status t)) (filter (\<lambda>t. by_seeded d (t_sender_id t)) (transactions d))"
  have all: "set ?ks \<subseteq> set payment_states" using states_complete(2) by blast
  note count_rows = counted_by [OF states_complete(1) all]
  have s: "(\<lambda>((c, st), n). if c = CashIn_received then n else 0) = (\<lambda>(k, n). if fst k = CashIn_received then n else (0 :: nat))"
    "(\<lambda>((c, st), n). if st = Settle_completed then n else 0) = (\<lambda>(k, n). if snd k = Settle_completed then n else (0 :: nat))"
    by (auto simp: fun_eq_iff)
  show "received_count (Some (snapshot_outcomes d))
     = length (filter (\<lambda>t. by_seeded d (t_sender_id t) \<and> t_cashin_status t = CashIn_received) (transactions d))"
    unfolding received_count_def option.case s snapshot_outcomes_def Let_def outcomes.simps count_rows
    by (simp add: filter_map comp_def conj_commute)
  show "completed_count (Some (snapshot_outcomes d))
     = length (filter (\<lambda>t. by_seeded d (t_sender_id t) \<and> t_settlement_status t = Settle_completed) (transactions d))"
    unfolding completed_count_def option.case s snapshot_outcomes_def Let_def outcomes.simps count_rows
    by (simp add: filter_map comp_def conj_commute)
  show "payments_of (snapshot_outcomes d) = length (filter (\<lambda>t. by_seeded d (t_sender_id t)) (transactions d))"
    using group_counts_total [OF states_complete(1) all] by (simp add: payments_of_def snapshot_outcomes_def Let_def)
qed

lemma py_int_count [simp]: "py_int (text_of_int (int n)) = Some (int n)"
  using digits_ok [of "int n"] by (simp add: text_of_int_def)

lemma those_Some [simp]: "those (map (\<lambda>x. Some (f x)) xs) = Some (map f xs)"
  by (induction xs) simp_all

lemma foldl_max: "foldl max (x :: int) xs = Max (set (x # xs))"
  unfolding Max.set_eq_fold foldl_conv_fold by (intro arg_cong2 [where f = "\<lambda>f z. fold f xs z"]) (auto simp: fun_eq_iff max.commute)

text \<open>One round: seconds, clock, queue, the registries, and the database the round reads.\<close>

type_synonym sampler_round = "rat \<times> rat \<times> nat \<times> nat \<times> nat \<times> db"

definition sampled :: "sampler_round \<Rightarrow> sample_row" where
  "sampled r = (case r of (since, epoch, depth, running, finished, d) \<Rightarrow> sampler_row since epoch depth running finished d)"

fun round_db :: "sampler_round \<Rightarrow> db" where
  "round_db (_, _, _, _, _, d) = d"

fun round_depth :: "sampler_round \<Rightarrow> nat" where
  "round_depth (_, _, q, _, _, _) = q"

lemma sampled_counts [simp]:
  "py_int (sp_queue_depth (sampled r)) = Some (int (round_depth r))"
  "py_int (sp_completed (sampled r)) = Some (int (sample_db (round_db r) Settle_completed))"
  "py_int (sp_failed (sampled r)) = Some (int (sample_db (round_db r) Settle_failed))"
  by (cases r; simp add: sampled_def sampler_row_def)+

text \<open>
  C39. The figures of a load run say what the database went through: from the file the sampler wrote
  and the outcomes of the sub-run, the report's settled count is the difference of the completed rows
  between the first and the last sample, the greatest and the last depth are those of the queue, the failed
  count is that of the last sample, and the received count, which the report sets beside Locust's
  confirmations, is the number of received payments of synthetic senders at the end; of all such
  payments the outcome table accounts for each.
\<close>

theorem load_figures_sound:
  assumes "2 \<le> length rounds"
    and "num (sp_t (sampled (hd rounds))) = Some t0" and "num (sp_t (sampled (last rounds))) = Some t1"
    and "row_of stats confirm_row = Some r" and "py_int (st_requests r) = Some n"
  shows "\<exists>q. under_load stats (map sampled rounds) (Some (snapshot_outcomes d)) = Some (Some q)
    \<and> lf_settled q = int (sample_db (round_db (last rounds)) Settle_completed) - int (sample_db (round_db (hd rounds)) Settle_completed)
    \<and> lf_depth_max q = Max ((int \<circ> round_depth) ` set rounds) \<and> lf_depth_end q = int (round_depth (last rounds))
    \<and> lf_failed_end q = int (sample_db (round_db (last rounds)) Settle_failed) \<and> lf_confirmations q = n
    \<and> lf_received_db q = length (filter (\<lambda>t. by_seeded d (t_sender_id t) \<and> t_cashin_status t = CashIn_received) (transactions d))
    \<and> payments_of (snapshot_outcomes d) = length (filter (\<lambda>t. by_seeded d (t_sender_id t)) (transactions d))"
proof -
  have ne: "rounds \<noteq> []" and two: "\<not> length (map sampled rounds) < 2" using assms(1) by auto
  have depths: "those (map (\<lambda>r. py_int (sp_queue_depth r)) (map sampled rounds)) = Some (map (int \<circ> round_depth) rounds)"
    by (simp add: comp_def)
  have "foldl max (hd (map (int \<circ> round_depth) rounds)) (tl (map (int \<circ> round_depth) rounds)) = Max ((int \<circ> round_depth) ` set rounds)"
    using ne by (cases rounds) (simp_all add: foldl_max)
  then show ?thesis
    using assms(2-5) ne counts_of_snapshot [of d]
    unfolding under_load_def if_not_P [OF two] depths by (simp add: hd_map last_map Let_def)
qed

definition two_rounds :: "sampler_round list" where
  "two_rounds = [(fl 0.1, 1000, 3, 1, 0, empty_db), (60, 1060, 1, 1, 2, empty_db)]"

definition confirm_stats :: "stats_row list" where
  "confirm_stats = [\<lparr>st_name = confirm_row, st_requests = ''7'', st_failures = ''0'', st_median = ''12'', st_p95 = ''20'',
     st_p99 = ''30'', st_max = ''31'', st_rate = ''0.5''\<rparr>]"

theorem load_figures_sound_witness:
  "\<exists>q. under_load confirm_stats (map sampled two_rounds) (Some (snapshot_outcomes empty_db)) = Some (Some q)
     \<and> lf_depth_max q = 3 \<and> lf_depth_end q = 1 \<and> lf_confirmations q = 7 \<and> lf_received_db q = 0"
proof -
  have t: "num (sp_t (sampled (hd two_rounds))) = Some (fl 0.1)" "num (sp_t (sampled (last two_rounds))) = Some 60" by code_simp+
  have n: "row_of confirm_stats confirm_row = Some (hd confirm_stats)" "py_int (st_requests (hd confirm_stats)) = Some 7" by code_simp+
  have "2 \<le> length two_rounds" by (simp add: two_rounds_def)
  from load_figures_sound [OF this t n, of empty_db] show ?thesis
    by (auto simp: two_rounds_def empty_db_def)
qed

section \<open>A report is produced\<close>

text \<open>What Locust and the sampler write: whole numbers where counts are expected, and no infinities.\<close>

definition readable_stats :: "stats_row \<Rightarrow> bool" where
  "readable_stats r \<longleftrightarrow> py_int (st_requests r) \<noteq> None \<and> py_int (st_failures r) \<noteq> None \<and> num (st_median r) \<noteq> None
     \<and> num (st_p95 r) \<noteq> None \<and> num (st_p99 r) \<noteq> None \<and> num (st_max r) \<noteq> None \<and> num (st_rate r) \<noteq> None"

definition readable_sample :: "sample_row \<Rightarrow> bool" where
  "readable_sample r \<longleftrightarrow> num (sp_t r) \<noteq> None \<and> py_int (sp_queue_depth r) \<noteq> None \<and> py_int (sp_completed r) \<noteq> None
     \<and> py_int (sp_failed r) \<noteq> None"

definition readable_session :: "session_files \<Rightarrow> bool" where
  "readable_session f \<longleftrightarrow>
     (\<forall>r\<in>set (sf_runs f). sb_kind r = ''load'' \<longrightarrow> sb_users r \<noteq> None)
     \<and> (\<forall>l. list_all readable_stats (sf_stats f l)) \<and> (\<forall>l. list_all readable_sample (sf_samples f l))
     \<and> (case Option.bind (sf_xrpl f) xt_payment of None \<Rightarrow> True | Some p \<Rightarrow> su_mean_s p \<noteq> 0) \<and> 0 < sf_latency f"

lemma those_ex: "(\<And>x. x \<in> set xs \<Longrightarrow> \<exists>y. f x = Some y) \<Longrightarrow> \<exists>ys. those (map f xs) = Some ys"
proof (induction xs)
  case (Cons x xs)
  then obtain y ys where "f x = Some y" "those (map f xs) = Some ys" by (metis list.set_intros)
  then show ?case by simp
qed simp

lemma those_all: "\<forall>x\<in>set xs. \<exists>y. x = Some y \<Longrightarrow> \<exists>ys. those xs = Some ys"
  using those_ex [of xs "\<lambda>x. x"] by simp

lemma those_mem: "those (map f xs) = Some ys \<Longrightarrow> y \<in> set ys \<Longrightarrow> \<exists>x\<in>set xs. f x = Some y"
  by (induction xs arbitrary: ys) (auto split: option.splits)

lemma readable_cells:
  assumes "readable_stats r"
  obtains n f m p95 p99 mx rate where "py_int (st_requests r) = Some n" "py_int (st_failures r) = Some f" "num (st_median r) = Some m"
    "num (st_p95 r) = Some p95" "num (st_p99 r) = Some p99" "num (st_max r) = Some mx" "num (st_rate r) = Some rate"
  using assms by (auto simp: readable_stats_def)

lemma row_of_readable: "list_all readable_stats rows \<Longrightarrow> row_of rows name = Some r \<Longrightarrow> readable_stats r"
  by (auto simp: row_of_def list_all_iff dest!: find_Some_iff_mem)

lemma counted_rows:
  assumes "list_all readable_stats rows"
  obtains cs where "those (map (\<lambda>r. map_option (\<lambda>n. (r, n)) (py_int (st_requests r))) rows) = Some cs"
    "\<And>x. x \<in> set cs \<Longrightarrow> fst x \<in> set rows \<and> readable_stats (fst x)"
proof -
  have "\<exists>cs. those (map (\<lambda>r. map_option (\<lambda>n. (r, n)) (py_int (st_requests r))) rows) = Some cs"
    by (rule those_ex) (use assms in \<open>auto simp: list_all_iff readable_stats_def\<close>)
  then obtain cs where cs: "those (map (\<lambda>r. map_option (\<lambda>n. (r, n)) (py_int (st_requests r))) rows) = Some cs" ..
  show thesis by (rule that [OF cs]) (use assms in \<open>auto simp: list_all_iff dest!: those_mem [OF cs]\<close>)
qed

lemma endpoint_rows_produced:
  assumes "list_all readable_stats rows"
  shows "\<exists>t. endpoint_rows rows = Some t"
proof -
  obtain cs where cs: "those (map (\<lambda>r. map_option (\<lambda>n. (r, n)) (py_int (st_requests r))) rows) = Some cs"
    and ok: "\<And>x. x \<in> set cs \<Longrightarrow> fst x \<in> set rows \<and> readable_stats (fst x)" using assms by (rule counted_rows) blast
  show ?thesis
    unfolding endpoint_rows_def by_requests_def cs Option.bind.simps
  proof (rule those_ex)
    fix x
    assume "x \<in> set (sort_key (\<lambda>(r, n). - n) (filter (\<lambda>(r, n). st_name r = ''Aggregated'') cs)
       @ sort_key (\<lambda>(r, n). - n) (filter (\<lambda>(r, n). st_name r \<noteq> ''Aggregated'') cs))"
    then have "readable_stats (fst x)" using ok by auto
    then show "\<exists>y. (case x of (r, n) \<Rightarrow> do { m \<leftarrow> ms (st_median r); p95 \<leftarrow> ms (st_p95 r); p99 \<leftarrow> ms (st_p99 r); mx \<leftarrow> ms (st_max r);
         rate \<leftarrow> rate_text (st_rate r);
         Some (table_row [if st_name r = ''Aggregated'' then ''**All requests**'' else st_name r, int_commas n, st_failures r,
           m, p95, p99, mx, rate]) }) = Some y"
      by (cases x) (auto simp: ms_def rate_text_def elim: readable_cells)
  qed
qed

lemma response_series_produced:
  assumes "list_all readable_stats rows"
  shows "\<exists>t. response_series rows = Some t"
proof -
  have "list_all readable_stats (filter (\<lambda>r. st_name r \<noteq> ''Aggregated'') rows)" using assms by (simp add: list_all_iff)
  then obtain cs where cs: "those (map (\<lambda>r. map_option (\<lambda>n. (r, n)) (py_int (st_requests r))) (filter (\<lambda>r. st_name r \<noteq> ''Aggregated'') rows)) = Some cs"
    and ok: "\<And>x. x \<in> set cs \<Longrightarrow> readable_stats (fst x)" by (rule counted_rows) blast
  have "\<exists>ks. those (map (\<lambda>(r, n). map_option (\<lambda>k. (r, k)) (num (st_p95 r))) (filter (\<lambda>(r, n). 20 \<le> n) cs)) = Some ks"
    by (rule those_ex) (use ok in \<open>fastforce elim!: readable_cells\<close>)
  then obtain ks where ks: "those (map (\<lambda>(r, n). map_option (\<lambda>k. (r, k)) (num (st_p95 r))) (filter (\<lambda>(r, n). 20 \<le> n) cs)) = Some ks" ..
  have ok': "readable_stats (fst x)" if "x \<in> set ks" for x using those_mem [OF ks that] ok by fastforce
  show ?thesis
    unfolding response_series_def cs ks Option.bind.simps
    by (rule those_ex) (use ok' in \<open>fastforce simp: at_least_one_def elim!: readable_cells\<close>)
qed

lemma concurrency_series_produced:
  assumes "\<forall>rows\<in>set tier_stats. list_all readable_stats rows"
  shows "\<exists>t. concurrency_series tier_stats = Some t"
proof -
  have "\<exists>p. pick col name rows = Some p" if "col = st_median \<or> col = st_p95" "rows \<in> set tier_stats" for col name rows
  proof (cases "row_of rows name")
    case (Some r)
    with assms that(2) have "readable_stats r" using row_of_readable by blast
    with Some that(1) show ?thesis by (auto simp: pick_def at_least_one_def elim: readable_cells)
  qed (simp add: pick_def)
  then have "\<exists>ps. those (map (pick col name) tier_stats) = Some ps" if "col = st_median \<or> col = st_p95" for col name
    using that by (intro those_ex) blast
  then show ?thesis unfolding concurrency_series_def by (intro those_ex) auto
qed

lemma tier_tables_produced:
  assumes "\<forall>(l, n, rows)\<in>set runs. list_all readable_stats rows"
  shows "\<exists>t. tier_rows runs = Some t" "\<exists>t. key_endpoint_rows runs = Some t"
proof -
  have ok: "readable_stats r" if "x \<in> set runs" "row_of (snd (snd x)) name = Some r" for x name r
    using assms that row_of_readable by (cases x) fastforce
  have "\<exists>ts. those (map (\<lambda>(label, user_count, rows).
     case row_of rows ''Aggregated'' of
       None \<Rightarrow> Some []
     | Some r \<Rightarrow> do { n \<leftarrow> py_int (st_requests r); f \<leftarrow> py_int (st_failures r); m \<leftarrow> ms (st_median r); p95 \<leftarrow> ms (st_p95 r);
         mx \<leftarrow> ms (st_max r); rate \<leftarrow> rate_text (st_rate r);
         Some [table_row [label, optional_int user_count, int_commas n, int_commas f, percent f n, m, p95, mx, rate]] }) runs) = Some ts"
    by (rule those_ex) (use ok in \<open>fastforce simp: ms_def rate_text_def split: option.splits elim!: readable_cells\<close>)
  then show "\<exists>t. tier_rows runs = Some t" unfolding tier_rows_def by auto
  have "\<exists>y. (case row_of rows name of
         None \<Rightarrow> Some []
       | Some r \<Rightarrow> do { n \<leftarrow> py_int (st_requests r); m \<leftarrow> ms (st_median r); p95 \<leftarrow> ms (st_p95 r); mx \<leftarrow> ms (st_max r);
           Some [table_row [label, optional_int user_count, name, int_commas n, m, p95, mx]] }) = Some y"
    if "(label, user_count, rows) \<in> set runs" for label user_count rows name
    using ok [OF that, of name] by (auto simp: ms_def split: option.splits elim!: readable_cells)
  then have "\<forall>x\<in>set (concat (map (\<lambda>(label, user_count, rows). map (\<lambda>name. case row_of rows name of
         None \<Rightarrow> Some []
       | Some r \<Rightarrow> do { n \<leftarrow> py_int (st_requests r); m \<leftarrow> ms (st_median r); p95 \<leftarrow> ms (st_p95 r); mx \<leftarrow> ms (st_max r);
           Some [table_row [label, optional_int user_count, name, int_commas n, m, p95, mx]] }) spotlight) runs)). \<exists>y. x = Some y" (is "\<forall>x\<in>set ?rows. _")
    by fastforce
  then have "\<exists>ts. those ?rows = Some ts" by (rule those_all)
  then show "\<exists>t. key_endpoint_rows runs = Some t"
    unfolding key_endpoint_rows_def by (elim exE) (simp only: option.map, rule exI, rule refl)
qed

lemma queue_figures_produced:
  assumes "list_all readable_sample rows" "list_all readable_stats stats"
  shows "\<exists>t. queue_series rows = Some t" "\<exists>t. under_load stats rows oc = Some t"
proof -
  have ok: "\<exists>t q c x. num (sp_t r) = Some t \<and> py_int (sp_queue_depth r) = Some q \<and> py_int (sp_completed r) = Some c
     \<and> py_int (sp_failed r) = Some x" if "r \<in> set rows" for r
    using assms(1) that by (auto simp: list_all_iff readable_sample_def)
  have ends: "hd rows \<in> set rows" "last rows \<in> set rows" if "\<not> length rows < 2" using that by (cases rows; simp)+
  obtain c0 where c0: "\<not> length rows < 2 \<Longrightarrow> py_int (sp_completed (hd rows)) = Some c0" using ok ends(1) by blast
  have "\<exists>ps. those (map (\<lambda>r. do { t \<leftarrow> num (sp_t r); q \<leftarrow> py_int (sp_queue_depth r); c \<leftarrow> py_int (sp_completed r);
            Some (t, q, c - c0) }) rows) = Some ps"
    by (rule those_ex) (use ok in fastforce)
  then show "\<exists>t. queue_series rows = Some t" using c0 unfolding queue_series_def by (cases "length rows < 2") auto
  obtain ds where "those (map (\<lambda>r. py_int (sp_queue_depth r)) rows) = Some ds"
    using those_ex [of rows "\<lambda>r. py_int (sp_queue_depth r)"] ok by blast
  moreover obtain n where "(case row_of stats confirm_row of None \<Rightarrow> Some 0 | Some r \<Rightarrow> py_int (st_requests r)) = Some n"
    using row_of_readable [OF assms(2), of confirm_row] by (cases "row_of stats confirm_row") (auto elim: readable_cells)
  ultimately show "\<exists>t. under_load stats rows oc = Some t"
    using ok [OF ends(1)] ok [OF ends(2)] by (cases "length rows < 2") (auto simp: under_load_def Let_def)
qed

lemma fl_positive: "0 < x \<Longrightarrow> fl x \<noteq> 0"
  using binary64.rnd_pos [of x] by simp

text \<open>
  The report never stops half-way on what the harness writes: with load runs that name their users, whole counts,
  finite figures, a positive latency and, if the real ledger was measured, a mean that is not zero, every chart has
  its series and every table its rows, whatever sub-runs there are and whichever files are missing.
\<close>

theorem report_produced:
  assumes "readable_session f"
  shows "\<exists>tables. report_tables f = Some tables \<and> length (hd tables) = length (sf_runs f)"
proof -
  have stats: "list_all readable_stats (sf_stats f l)" and samples: "list_all readable_sample (sf_samples f l)" for l
    using assms by (simp_all add: readable_session_def)
  have ceiling: "\<exists>v. (case Option.bind (sf_xrpl f) xt_payment of None \<Rightarrow> Some 0 | Some p \<Rightarrow> real_ceiling (su_mean_s p)) = Some v"
    "\<exists>b. throughput_bars drains (sf_xrpl f) = Some b" for drains
    using assms by (auto simp: readable_session_def real_ceiling_def throughput_bars_def Let_def split: option.splits)
  obtain labels where labels: "load_labels f = Some labels"
    using those_ex [of "filter (\<lambda>r. sb_kind r = ''load'') (sf_runs f)" "\<lambda>r. map_option (\<lambda>n. (sb_label r, n)) (sb_users r)"] assms
    by (auto simp: load_labels_def readable_session_def)
  have "\<exists>loads. loads_of f labels = Some loads"
    unfolding loads_of_def by (rule those_ex) (use queue_figures_produced(2) [OF samples stats] in \<open>fastforce simp: split_beta\<close>)
  then obtain loads where loads: "loads_of f labels = Some loads" ..
  let ?tiers = "tiers_of f labels" and ?ref = "(''run'', Option.bind (find (\<lambda>r. sb_label r = ''run'') (sf_runs f)) sb_users, sf_stats f ''run'')"
  have tiers: "\<forall>(l, n, rows)\<in>set (?ref # ?tiers). list_all readable_stats rows" using stats by (auto simp: tiers_of_def)
  then have "\<forall>rows\<in>set (map (\<lambda>(l, n, rows). rows) ?tiers). list_all readable_stats rows" by auto
  then obtain series where "(if ?tiers = [] then Some [] else concurrency_series (map (\<lambda>(l, n, rows). rows) ?tiers)) = Some series"
    using concurrency_series_produced [of "map (\<lambda>(l, n, rows). rows) ?tiers"] by (cases "?tiers = []") auto
  moreover obtain bars where "throughput_bars (drains_of f) (sf_xrpl f) = Some bars" using ceiling(2) by blast
  ultimately obtain c where charts: "charts f ?tiers (drains_of f) = Some c"
    using response_series_produced [OF stats, of "''run''"] queue_figures_produced(1) [OF samples stats, of "''run''"] by (auto simp: charts_def)
  obtain e t k where tables: "endpoint_rows (sf_stats f ''run'') = Some e" "tier_rows (?ref # ?tiers) = Some t" "key_endpoint_rows (?ref # ?tiers) = Some k"
    using endpoint_rows_produced [OF stats] tier_tables_produced [OF tiers] by blast
  have "0 < sf_latency f" using assms by (simp add: readable_session_def)
  then obtain lat where lat: "simulated_ceilings (sf_latency f) = Some lat"
    by (auto simp: simulated_ceilings_def fmul_def Let_def fl_positive)
  obtain v where v: "(case Option.bind (sf_xrpl f) xt_payment of None \<Rightarrow> Some 0 | Some p \<Rightarrow> real_ceiling (su_mean_s p)) = Some v"
    using ceiling(1) by blast
  show ?thesis
    unfolding report_tables_def labels loads charts tables lat v Let_def Option.bind.simps by (simp add: sub_run_rows_def)
qed

definition one_load :: session_files where
  "one_load = \<lparr>sf_runs = [\<lparr>sb_label = ''run'', sb_kind = ''load'', sb_users = Some 50, sb_workers = None, sb_duration = Some ''3m'',
       sb_backlog = None, sb_started_at = ''2026-01-01'', sb_problems = []\<rparr>],
     sf_stats = (\<lambda>l. confirm_stats), sf_failures = (\<lambda>l. []), sf_samples = (\<lambda>l. map sampled two_rounds),
     sf_outcomes = (\<lambda>l. Some (snapshot_outcomes empty_db)),
     sf_drain = (\<lambda>l. \<lparr>dr_workers = 1, dr_backlog = 30, dr_workers_ready_epoch = 0, dr_drained_epoch = None, dr_settled_or_failed = 0,
        dr_timed_out = False\<rparr>),
     sf_xrpl = None, sf_latency = 4\<rparr>"

theorem report_produced_witness: "\<exists>tables. report_tables one_load = Some tables \<and> length (hd tables) = 1"
proof -
  have "list_all readable_stats confirm_stats" "list_all readable_sample (map sampled two_rounds)" by code_simp+
  then have "readable_session one_load" by (simp add: readable_session_def one_load_def)
  from report_produced [OF this] show ?thesis by (simp add: one_load_def)
qed

section \<open>The tables\<close>

text \<open>The endpoint table holds every row once, the sum first and the rest by falling number of requests.\<close>

lemma endpoints_ordered:
  assumes "by_requests rows = Some xs"
  shows "image_mset fst (mset xs) = mset rows"
    and "xs = filter (\<lambda>(r, n). st_name r = ''Aggregated'') xs @ filter (\<lambda>(r, n). st_name r \<noteq> ''Aggregated'') xs"
    and "sorted_wrt (\<lambda>(r, n) (r', n'). n' \<le> n) (filter (\<lambda>(r, n). st_name r \<noteq> ''Aggregated'') xs)"
proof -
  obtain cs where cs: "those (map (\<lambda>r. map_option (\<lambda>n. (r, n)) (py_int (st_requests r))) rows) = Some cs"
    and xs: "xs = sort_key (\<lambda>(r, n). - n) (filter (\<lambda>(r, n). st_name r = ''Aggregated'') cs)
       @ sort_key (\<lambda>(r, n). - n) (filter (\<lambda>(r, n). st_name r \<noteq> ''Aggregated'') cs)" (is "_ = ?a @ ?b")
    using assms by (auto simp: by_requests_def bind_eq_Some_conv)
  have "map fst cs = rows" using cs by (induction rows arbitrary: cs) (auto split: option.splits)
  moreover have "mset ?a + mset ?b = mset cs" by (simp add: mset_filter case_prod_unfold)
  ultimately show "image_mset fst (mset xs) = mset rows" unfolding xs mset_append by (metis mset_map)
  have parts: "filter (\<lambda>(r, n). st_name r = ''Aggregated'') ?a = ?a" "filter (\<lambda>(r, n). st_name r \<noteq> ''Aggregated'') ?a = []"
    "filter (\<lambda>(r, n). st_name r = ''Aggregated'') ?b = []" "filter (\<lambda>(r, n). st_name r \<noteq> ''Aggregated'') ?b = ?b"
    by (auto simp: filter_id_conv filter_empty_conv)
  then show "xs = filter (\<lambda>(r, n). st_name r = ''Aggregated'') xs @ filter (\<lambda>(r, n). st_name r \<noteq> ''Aggregated'') xs"
    unfolding xs filter_append by simp
  have "sorted (map (\<lambda>(r, n). - n) ?b)" by simp
  then show "sorted_wrt (\<lambda>(r, n) (r', n'). n' \<le> n) (filter (\<lambda>(r, n). st_name r \<noteq> ''Aggregated'') xs)"
    unfolding xs filter_append parts by (simp add: sorted_map case_prod_unfold)
qed

text \<open>
  The column headed \<open>vs 1 worker\<close> divides by the first drain, whatever its number of workers: with the
  worker counts 4 and 1, four workers are reported as 1.00 times one worker. And a first drain that settled
  nothing leaves a table of empty lines, the others' figures included.
\<close>

definition two_drains :: "drain_figures list" where
  "two_drains = [\<lparr>df_workers = 4, df_backlog = 30, df_drain_s = 30, df_completed = 30, df_per_min = 60, df_timed_out = False\<rparr>,
     \<lparr>df_workers = 1, df_backlog = 30, df_drain_s = 120, df_completed = 30, df_per_min = 15, df_timed_out = False\<rparr>]"

lemma scaling_base_is_first:
  "scaling_rows two_drains = [''| 4 | 30 | 30.0 | 30 | 60.0 | 1.00'' @ times_sign @ '' |'', ''| 1 | 30 | 120.0 | 30 | 15.0 | 0.25'' @ times_sign @ '' |'']"
  by code_simp

lemma scaling_blank: "df_per_min (hd drains) = 0 \<Longrightarrow> set (scaling_rows drains) \<subseteq> {[]}"
  by (cases drains) (auto simp: scaling_rows_def)

end
