(* ===== verification/PerfFiles.thy ===== *)
theory PerfFiles
  imports PerfReport "HOL-Library.Char_ord" "HOL-Library.List_Lexorder"
begin

text \<open>
  The files of a load-test session (\<open>perf/run_all.py\<close>): the checks before anything starts, clearing the results of
  the last session, the tracebacks found in the logs, where the ledger timings come from, the manifest of what the
  session left, and the final rewrite of Locust's statistics (\<open>perf/locustfile.py\<close>). A file of the results
  directory is its path in parts, its text, its size and the time of its last change.
\<close>

record result_file =
  rf_path :: "string list"
  rf_text :: string
  rf_bytes :: nat
  rf_modified :: string

section \<open>Before a session\<close>

text \<open>
  What the interpreter finds: its virtual environment, whether this process runs in it, the modules it
  can import and the tools beside it.
\<close>

record installation =
  in_python :: bool
  in_own_prefix :: bool
  in_modules :: "string list"
  in_tools :: "string list"

datatype preflight_refusal = No_virtualenv | Wrong_interpreter | Missing_modules "string list" | Missing_tool string

definition needed_modules :: "string list" where
  "needed_modules = [''locust'', ''faker'', ''matplotlib'', ''uvicorn'', ''rq'', ''alembic'']"

definition needed_tools :: "string list" where
  "needed_tools = [''locust'', ''uvicorn'', ''alembic'']"

definition preflight :: "installation \<Rightarrow> preflight_refusal + unit" where
  "preflight i =
     (let absent = filter (\<lambda>m. m \<notin> set (in_modules i)) needed_modules
      in and_then (raise_if (\<not> in_python i) No_virtualenv) (\<lambda>_.
         and_then (raise_if (\<not> in_own_prefix i) Wrong_interpreter) (\<lambda>_.
         and_then (raise_if (absent \<noteq> []) (Missing_modules absent)) (\<lambda>_.
         (case find (\<lambda>t. t \<notin> set (in_tools i)) needed_tools of None \<Rightarrow> Inr () | Some t \<Rightarrow> Inl (Missing_tool t))))))"

lemma preflight_passes: "preflight i = Inr () \<longleftrightarrow>
   in_python i \<and> in_own_prefix i \<and> set needed_modules \<subseteq> set (in_modules i) \<and> set needed_tools \<subseteq> set (in_tools i)"
  by (auto simp: preflight_def Let_def filter_empty_conv find_None_iff dest!: find_Some_iff_mem split: option.splits)

text \<open>Everything goes but the timings of an earlier session, when this one does not measure them itself.\<close>

definition timings_path :: "string list" where
  "timings_path = [''xrpl_timings.json'']"

definition clean_results :: "bool \<Rightarrow> result_file list \<Rightarrow> result_file list" where
  "clean_results real_xrpl fs = filter (\<lambda>f. take 1 (rf_path f) = timings_path \<and> \<not> real_xrpl) fs"

text \<open>The exit code of a command that must succeed.\<close>

definition run_checked :: "int \<Rightarrow> string \<Rightarrow> string + unit" where
  "run_checked exit_code label = raise_if (exit_code \<noteq> 0) (label @ '' exited '' @ text_of_int exit_code)"

section \<open>After a sub-run\<close>

text \<open>\<open>str.count\<close> of a non-empty text, without overlaps.\<close>

function occurrences :: "string \<Rightarrow> string \<Rightarrow> nat" where
  "occurrences pat s =
     (if pat \<noteq> [] \<and> starts_with pat s \<and> s \<noteq> [] then Suc (occurrences pat (drop (length pat) s))
      else case s of [] \<Rightarrow> 0 | c # cs \<Rightarrow> occurrences pat cs)"
  by pat_completeness auto
termination
  by (relation "measure (\<lambda>(pat, s). length s)") auto

declare occurrences.simps [simp del]

definition traceback_text :: string where
  "traceback_text = ''Traceback (most recent call last)''"

text \<open>\<open>LOGS.glob(label_*.log)\<close>: the part between the underscore and the extension may be anything.\<close>

definition log_of :: "string \<Rightarrow> result_file \<Rightarrow> bool" where
  "log_of label f \<longleftrightarrow>
     (case rf_path f of
        [d, name] \<Rightarrow> d = ''logs'' \<and> take (length label + 1) name = label @ ''_''
          \<and> length label + 5 \<le> length name \<and> drop (length name - 4) name = ''.log''
      | _ \<Rightarrow> False)"

definition log_errors :: "string \<Rightarrow> result_file list \<Rightarrow> (string \<times> nat) list" where
  "log_errors label fs =
     filter (\<lambda>(name, n). n \<noteq> 0) (map (\<lambda>f. (last (rf_path f), occurrences traceback_text (rf_text f))) (filter (log_of label) fs))"

text \<open>A log without a traceback never counts, and one with a traceback anywhere does.\<close>

lemma occurrences_iff: "pat \<noteq> [] \<Longrightarrow> occurrences pat s = 0 \<longleftrightarrow> \<not> contains pat s"
proof (induction pat s rule: occurrences.induct)
  case (1 pat s)
  show ?case
  proof (cases "starts_with pat s \<and> s \<noteq> []")
    case True
    then have "contains pat s" by (cases s) simp_all
    moreover have "occurrences pat s \<noteq> 0" using True 1 by (subst occurrences.simps) simp
    ultimately show ?thesis by simp
  next
    case False
    show ?thesis
    proof (cases s)
      case Nil
      then show ?thesis using 1 by (subst occurrences.simps) simp
    next
      case (Cons c cs)
      then show ?thesis using 1 False by (subst occurrences.simps) simp
    qed
  qed
qed

lemma traceback_found:
  assumes "f \<in> set fs" "log_of label f" "contains traceback_text (rf_text f)"
  shows "\<exists>n. (last (rf_path f), n) \<in> set (log_errors label fs) \<and> 0 < n"
proof -
  have "occurrences traceback_text (rf_text f) \<noteq> 0"
    using assms(3) occurrences_iff [of traceback_text] by (simp add: traceback_text_def)
  then show ?thesis using assms(1,2) by (intro exI [of _ "occurrences traceback_text (rf_text f)"]) (auto simp: log_errors_def)
qed

section \<open>The ledger timings of a session\<close>

text \<open>
  Where \<open>run_meta.json\<close> says the timings come from: this session with the exit code of the measurement, an earlier
  session with the file's time and last commit, or nowhere.
\<close>

datatype timings_source = Measured_now int | Carried_over string "string option" | No_timings

definition timings_meta :: "bool \<Rightarrow> int \<Rightarrow> string \<Rightarrow> result_file list \<Rightarrow> timings_source" where
  "timings_meta real_xrpl exit_code git_log fs =
     (if real_xrpl then Measured_now exit_code
      else case find (\<lambda>f. rf_path f = timings_path) fs of
             None \<Rightarrow> No_timings
           | Some f \<Rightarrow> Carried_over (rf_modified f) (if git_log = [] then None else Some git_log))"

text \<open>
  The session never passes off old timings as its own. What it cleared first and then wrote (\<open>written\<close>, other files)
  leaves the timings of an earlier session only when it says so, unchanged; a session that measures starts
  without any, so a failed measurement leaves none.
\<close>

lemma timings_honest:
  assumes "\<And>f. f \<in> set written \<Longrightarrow> rf_path f \<noteq> timings_path"
    and "f \<in> set (clean_results real_xrpl fs @ written)" "rf_path f = timings_path"
  shows "\<not> real_xrpl \<and> f \<in> set fs
    \<and> (\<exists>g\<in>set fs. rf_path g = timings_path
         \<and> timings_meta real_xrpl exit_code commit_line (clean_results real_xrpl fs @ written)
             = Carried_over (rf_modified g) (if commit_line = [] then None else Some commit_line))"
proof -
  from assms have f: "f \<in> set fs" "\<not> real_xrpl" by (auto simp: clean_results_def)
  have "find (\<lambda>f. rf_path f = timings_path) (clean_results real_xrpl fs @ written) \<noteq> None"
    using assms(2,3) unfolding find_None_iff by blast
  then obtain g where g: "find (\<lambda>f. rf_path f = timings_path) (clean_results real_xrpl fs @ written) = Some g" by blast
  then have "g \<in> set (clean_results real_xrpl fs @ written)" "rf_path g = timings_path" using find_Some_iff_mem by fastforce+
  then have "g \<in> set fs" using assms(1) by (auto simp: clean_results_def)
  then show ?thesis using f g \<open>rf_path g = timings_path\<close> by (auto simp: timings_meta_def)
qed

section \<open>The manifest\<close>

definition meta_path :: "string list" where
  "meta_path = [''run_meta.json'']"

definition posix :: "string list \<Rightarrow> string" where
  "posix parts = (case parts of [] \<Rightarrow> ''.'' | p # ps \<Rightarrow> p @ concat (map (\<lambda>q. ''/'' @ q) ps))"

record manifest_entry =
  mf_file :: string
  mf_bytes :: nat
  mf_modified :: string

text \<open>Paths are sorted by their parts.\<close>

definition manifest :: "result_file list \<Rightarrow> manifest_entry list" where
  "manifest fs =
     map (\<lambda>f. \<lparr>mf_file = posix (rf_path f), mf_bytes = rf_bytes f, mf_modified = rf_modified f\<rparr>)
       (filter (\<lambda>f. rf_path f \<noteq> meta_path) (sort_key rf_path fs))"

lemma posix_Cons: "posix (p # ps) = p @ (if ps = [] then [] else CHR ''/'' # posix ps)"
  by (cases ps) (simp_all add: posix_def)

lemma first_part:
  assumes "CHR ''/'' \<notin> set p"
  shows "takeWhile (\<lambda>c. c \<noteq> CHR ''/'') (posix (p # ps)) = p"
proof -
  have all: "\<forall>c\<in>set p. c \<noteq> CHR ''/''" using assms by blast
  then have "takeWhile (\<lambda>c. c \<noteq> CHR ''/'') (p @ r) = p @ takeWhile (\<lambda>c. c \<noteq> CHR ''/'') r" for r
    by (intro takeWhile_append2) auto
  then show ?thesis by (simp add: posix_Cons)
qed

lemma posix_inj:
  assumes "posix ps = posix qs" "ps \<noteq> []" "qs \<noteq> []" "\<forall>p\<in>set (ps @ qs). CHR ''/'' \<notin> set p"
  shows "ps = qs"
  using assms
proof (induction ps arbitrary: qs)
  case (Cons p ps)
  obtain q qs' where qs: "qs = q # qs'" using Cons.prems(3) by (cases qs) auto
  have "p = q" using first_part [of p ps] first_part [of q qs'] Cons.prems(1,4) qs by simp
  then have rest: "(if ps = [] then [] else CHR ''/'' # posix ps) = (if qs' = [] then [] else CHR ''/'' # posix qs')"
    using Cons.prems(1) qs by (simp only: posix_Cons same_append_eq)
  show ?case
  proof (cases "ps = []")
    case True
    then show ?thesis using rest \<open>p = q\<close> qs by (cases "qs' = []") simp_all
  next
    case False
    then have "qs' \<noteq> []" "posix ps = posix qs'" using rest by (cases "qs' = []"; simp)+
    then show ?thesis using Cons.IH [of qs'] False Cons.prems(4) \<open>p = q\<close> qs by simp
  qed
qed simp

text \<open>Every file of the session but its metadata has one entry, under a name of its own, in the order of the paths.\<close>

lemma manifest_complete:
  assumes "distinct (map rf_path fs)" and "\<forall>f\<in>set fs. rf_path f \<noteq> [] \<and> (\<forall>p\<in>set (rf_path f). CHR ''/'' \<notin> set p)"
  shows "distinct (map mf_file (manifest fs))"
    and "set (map mf_file (manifest fs)) = posix ` (rf_path ` set fs - {meta_path})"
    and "sorted (map rf_path (filter (\<lambda>f. rf_path f \<noteq> meta_path) (sort_key rf_path fs)))"
proof -
  let ?fs = "filter (\<lambda>f. rf_path f \<noteq> meta_path) (sort_key rf_path fs)"
  have "distinct (map rf_path (sort_key rf_path fs))"
    using assms(1) by (metis distinct_map distinct_sort distinct_map set_sort)
  then have "distinct (map rf_path ?fs)" by (rule distinct_map_filter)
  moreover have "inj_on posix (set (map rf_path ?fs))"
  proof (rule inj_onI)
    fix ps qs
    assume "ps \<in> set (map rf_path ?fs)" "qs \<in> set (map rf_path ?fs)" "posix ps = posix qs"
    then show "ps = qs" using assms(2) by (intro posix_inj) auto
  qed
  ultimately have "distinct (map posix (map rf_path ?fs))" by (simp only: distinct_map)
  then show "distinct (map mf_file (manifest fs))" by (simp add: manifest_def comp_def)
  show "set (map mf_file (manifest fs)) = posix ` (rf_path ` set fs - {meta_path})" by (auto simp: manifest_def)
  show "sorted (map rf_path ?fs)" by (rule sorted_filter) simp
qed

section \<open>Environment\<close>

text \<open>The memory in the environment: an unreadable answer is left as such. \<open>2 ** 30\<close> bytes to the gigabyte.\<close>

definition memory_gb :: "string \<Rightarrow> rat option" where
  "memory_gb answer = (if isdigit answer then Some (round_places 1 (fl (of_int (digits_value answer) / 2 ^ 30))) else None)"

lemma memory_example: "map_option float_repr (memory_gb ''17179869184'') = Some ''16.0''"
  by code_simp

section \<open>Locust's own files\<close>

text \<open>
  \<open>_final_csv\<close>: with a prefix for the files given, the three are written again from the final
  statistics (\<open>render\<close>), replacing what Locust's own writer left a second earlier.
\<close>

definition final_csv :: "string option \<Rightarrow> (string \<Rightarrow> string) \<Rightarrow> (string \<rightharpoonup> string) \<Rightarrow> (string \<rightharpoonup> string)" where
  "final_csv prefix render files =
     (if truthy prefix
      then foldl (\<lambda>m suffix. m(the prefix @ ''_'' @ suffix @ ''.csv'' \<mapsto> render suffix)) files [''stats'', ''failures'', ''exceptions'']
      else files)"

lemma final_csv_current:
  assumes "truthy prefix" and "suffix \<in> {''stats'', ''failures'', ''exceptions''}"
  shows "final_csv prefix render files (the prefix @ ''_'' @ suffix @ ''.csv'') = Some (render suffix)"
  using assms by (auto simp: final_csv_def)

end
