(* ===== verification/GlobeLand.thy ===== *)
theory GlobeLand
  imports PyFloat "HOL-Library.While_Combinator"
begin

text \<open>
  \<open>scripts/build_globe_land.py\<close>, which samples the dots of the landing page's globe: the arcs of a
  TopoJSON file decoded and joined to rings, longitudes made continuous across the date line, ray casting
  against the rings and their holes, and the grid of samples. Coordinates are floats (theory PyFloat);
  the cosine of the platform's mathematics library is an argument, and reading the file, the download and
  writing the script file are left out.
\<close>

section \<open>The topology\<close>

type_synonym point = "rat \<times> rat"

datatype geometry = Polygon "int list list" | MultiPolygon "int list list list"

record topology =
  tp_scale :: point
  tp_translate :: point
  tp_arcs :: "(int \<times> int) list list"
  tp_land :: "geometry list"

fun decode_arc :: "topology \<Rightarrow> int \<Rightarrow> int \<Rightarrow> (int \<times> int) list \<Rightarrow> point list" where
  "decode_arc topo x y [] = []"
| "decode_arc topo x y ((dx, dy) # r) =
     (fadd (fmul (fl (of_int (x + dx))) (fst (tp_scale topo))) (fst (tp_translate topo)),
      fadd (fmul (fl (of_int (y + dy))) (snd (tp_scale topo))) (snd (tp_translate topo)))
     # decode_arc topo (x + dx) (y + dy) r"

definition decode_arcs :: "topology \<Rightarrow> point list list" where
  "decode_arcs topo = map (decode_arc topo 0 0) (tp_arcs topo)"

text \<open>A negative index is the complement of the arc's number and means the arc reversed; \<open>None\<close> is IndexError.\<close>

definition arc_at :: "point list list \<Rightarrow> int \<Rightarrow> point list option" where
  "arc_at arcs index =
     (if 0 \<le> index then (if nat index < length arcs then Some (arcs ! nat index) else None)
      else if nat (- index - 1) < length arcs then Some (rev (arcs ! nat (- index - 1))) else None)"

fun join_arcs :: "point list list \<Rightarrow> point list \<Rightarrow> int list \<Rightarrow> point list option" where
  "join_arcs arcs points [] = Some points"
| "join_arcs arcs points (index # r) =
     (case arc_at arcs index of None \<Rightarrow> None
      | Some arc \<Rightarrow> join_arcs arcs (points @ (if points = [] then arc else tl arc)) r)"

definition ring_points :: "int list \<Rightarrow> point list list \<Rightarrow> point list option" where
  "ring_points ring arcs = join_arcs arcs [] ring"

section \<open>Continuous longitudes\<close>

definition turn_west :: "rat \<Rightarrow> rat" where
  "turn_west x = fsub x 360"

definition turn_east :: "rat \<Rightarrow> rat" where
  "turn_east x = fadd x 360"

text \<open>The two loops for one longitude; on floats of any size they need not end, so the result is an option.\<close>

definition next_longitude :: "rat \<Rightarrow> rat \<Rightarrow> rat option" where
  "next_longitude prev x =
     Option.bind (while_option (\<lambda>x. 180 < fsub x prev) turn_west x)
       (while_option (\<lambda>x. fsub x prev < - 180) turn_east)"

fun unwrap_from :: "rat \<Rightarrow> point list \<Rightarrow> point list option" where
  "unwrap_from prev [] = Some []"
| "unwrap_from prev ((x, y) # r) =
     Option.bind (next_longitude prev x) (\<lambda>x. map_option ((#) (x, y)) (unwrap_from x r))"

definition unwrap :: "point list \<Rightarrow> point list option" where
  "unwrap ring = (case ring of [] \<Rightarrow> None | p # r \<Rightarrow> map_option ((#) p) (unwrap_from (fst p) r))"

section \<open>Polygons with their bounding boxes\<close>

type_synonym polygon = "point list list \<times> (rat \<times> rat \<times> rat \<times> rat)"

definition bounding_box :: "point list \<Rightarrow> rat \<times> rat \<times> rat \<times> rat" where
  "bounding_box ring =
     (let xs = map fst ring; ys = map snd ring
      in (foldl min (hd xs) (tl xs), foldl min (hd ys) (tl ys), foldl max (hd xs) (tl xs), foldl max (hd ys) (tl ys)))"

definition polygon_of :: "point list list \<Rightarrow> int list list \<Rightarrow> polygon option" where
  "polygon_of arcs part =
     Option.bind (those (map (\<lambda>ring. Option.bind (ring_points ring arcs) unwrap) part)) (\<lambda>rings.
       if rings = [] then None else Some (rings, bounding_box (hd rings)))"

fun geometry_parts :: "geometry \<Rightarrow> int list list list" where
  "geometry_parts (MultiPolygon parts) = parts"
| "geometry_parts (Polygon rings) = [rings]"

definition polygons :: "topology \<Rightarrow> polygon list option" where
  "polygons topo = those (map (polygon_of (decode_arcs topo)) (concat (map geometry_parts (tp_land topo))))"

section \<open>Point in polygon\<close>

text \<open>The test of one edge. Its division is by a difference of two distinct ordinates, which is not zero.\<close>

definition crosses :: "point \<Rightarrow> point \<Rightarrow> rat \<Rightarrow> rat \<Rightarrow> bool" where
  "crosses p q x y =
     (case (p, q) of ((xi, yi), (xj, yj)) \<Rightarrow>
        (y < yi) \<noteq> (y < yj) \<and> x < fadd (fl (fmul (fsub xj xi) (fsub y yi) / fsub yj yi)) xi)"

fun cast_ray :: "point \<Rightarrow> point list \<Rightarrow> rat \<Rightarrow> rat \<Rightarrow> bool \<Rightarrow> bool" where
  "cast_ray q [] x y hit = hit"
| "cast_ray q (p # r) x y hit = cast_ray p r x y (if crosses p q x y then \<not> hit else hit)"

definition inside :: "point list \<Rightarrow> rat \<Rightarrow> rat \<Rightarrow> bool" where
  "inside ring x y = (ring \<noteq> [] \<and> cast_ray (last ring) ring x y False)"

definition in_polygon :: "polygon \<Rightarrow> rat \<Rightarrow> rat \<Rightarrow> bool" where
  "in_polygon poly x y =
     (case poly of (rings, x0, y0, x1, y1) \<Rightarrow>
        x0 \<le> x \<and> x \<le> x1 \<and> y0 \<le> y \<and> y \<le> y1 \<and> inside (hd rings) x y \<and> \<not> list_ex (\<lambda>hole. inside hole x y) (tl rings))"

definition on_land :: "polygon list \<Rightarrow> rat \<Rightarrow> rat \<Rightarrow> bool" where
  "on_land polys x y = list_ex (\<lambda>poly. list_ex (\<lambda>xs. in_polygon poly xs y) [x, turn_west x, turn_east x]) polys"

section \<open>The grid\<close>

definition grid_step :: rat where
  "grid_step = fl 2.2"

definition min_lat :: rat where
  "min_lat = - 58"

text \<open>\<open>cos\<close> is \<open>math.cos(math.radians(lat))\<close>.\<close>

definition dots_in_row :: "(rat \<Rightarrow> rat) \<Rightarrow> rat \<Rightarrow> int" where
  "dots_in_row cos_of lat = max 1 (round_half_even (fmul (fl (360 / grid_step)) (cos_of lat)))"

definition dot_longitude :: "int \<Rightarrow> nat \<Rightarrow> rat" where
  "dot_longitude n k = fadd (- 180) (fl (fmul (of_nat k + 1 / 2) 360 / of_int n))"

definition row_dots :: "(rat \<Rightarrow> rat) \<Rightarrow> polygon list \<Rightarrow> rat \<Rightarrow> point list" where
  "row_dots cos_of polys lat =
     (if min_lat \<le> lat then
        (let n = dots_in_row cos_of lat
         in map (\<lambda>lon. (round_places 1 lon, round_places 1 lat))
              (filter (\<lambda>lon. on_land polys lon lat) (map (dot_longitude n) [0..<nat n])))
      else [])"

definition globe_dots :: "(rat \<Rightarrow> rat) \<Rightarrow> polygon list \<Rightarrow> point list option" where
  "globe_dots cos_of polys =
     map_option snd (while_option (\<lambda>(lat, flat). lat < 90) (\<lambda>(lat, flat). (fadd lat grid_step, flat @ row_dots cos_of polys lat))
       (fadd (- 90) (fl (grid_step / 2)), []))"

definition build_globe :: "(rat \<Rightarrow> rat) \<Rightarrow> topology \<Rightarrow> point list option" where
  "build_globe cos_of topo =
     Option.bind (polygons topo) (\<lambda>polys. globe_dots cos_of (filter (\<lambda>(rings, x0, y0, x1, y1). min_lat < y1) polys))"

section \<open>The loops for a longitude end\<close>

lemma fl_below: "fl x < c \<Longrightarrow> is_float c \<Longrightarrow> x < c"
  using binary64.rnd_le [of c x] by (auto simp: is_float_def not_less [symmetric])

lemma fl_above: "c < fl x \<Longrightarrow> is_float c \<Longrightarrow> c < x"
  using binary64.rnd_le [of x c] by (auto simp: is_float_def not_less [symmetric])

lemma float_whole [simp]: "\<bar>n\<bar> < 2 ^ 53 \<Longrightarrow> is_float (of_int n)"
  by (simp add: is_float_def fl_of_int)

lemma turns_float: "is_float 180" "is_float (- 180)" "is_float 181" "is_float (- 181)"
  using float_whole [of 180] float_whole [of "- 180"] float_whole [of 181] float_whole [of "- 181"] by simp_all

lemma fl_near:
  assumes "\<bar>x\<bar> \<le> 2 ^ 43"
  shows "x - 1 \<le> fl x" "fl x \<le> x + 1"
proof -
  have "\<bar>x\<bar> / 2 ^ 53 \<le> 1" using assms by simp
  with fl_error [of x] show "x - 1 \<le> fl x" "fl x \<le> x + 1" by linarith+
qed

lemma west_ends:
  assumes "\<bar>prev\<bar> \<le> 2 ^ 41" "\<bar>x\<bar> \<le> 2 ^ 42"
  obtains x' m where "while_option (\<lambda>x. 180 < fsub x prev) turn_west x = Some x'" "x' = (turn_west ^^ m) x"
    "x' < prev + 181" "\<bar>x'\<bar> \<le> 2 ^ 42"
proof -
  have step: "\<bar>turn_west s\<bar> \<le> 2 ^ 42 \<and> nat \<lceil>turn_west s - prev\<rceil> < nat \<lceil>s - prev\<rceil>"
    if "\<bar>s\<bar> \<le> 2 ^ 42" "180 < fsub s prev" for s
  proof -
    have far: "180 < s - prev" using that(2) turns_float(1) unfolding fsub_def by (rule fl_above)
    have "\<bar>s - 360\<bar> \<le> 2 ^ 43" using that(1) by simp
    from fl_near [OF this] have near: "s - 361 \<le> turn_west s" "turn_west s \<le> s - 359"
      unfolding turn_west_def fsub_def by linarith+
    then have "\<lceil>turn_west s - prev\<rceil> < \<lceil>s - prev\<rceil>" "0 < \<lceil>s - prev\<rceil>" using far by linarith+
    moreover have "\<bar>turn_west s\<bar> \<le> 2 ^ 42" using near far that(1) assms(1) by simp
    ultimately show ?thesis by simp
  qed
  from measure_while_option_Some [where P = "\<lambda>s. \<bar>s\<bar> \<le> 2 ^ 42" and b = "\<lambda>x. 180 < fsub x prev" and c = turn_west
      and f = "\<lambda>s. nat \<lceil>s - prev\<rceil>" and s = x, OF step assms(2)]
  obtain x' where x': "while_option (\<lambda>x. 180 < fsub x prev) turn_west x = Some x'" by auto
  moreover obtain m where "x' = (turn_west ^^ m) x" using while_option_stop2 [OF x'] by auto
  moreover have "x' < prev + 181"
    using while_option_stop [OF x'] binary64.rnd_le [of 181 "x' - prev"] turns_float(3)
    unfolding fsub_def is_float_def by linarith
  moreover have "\<bar>x'\<bar> \<le> 2 ^ 42"
    using while_option_rule [where P = "\<lambda>s. \<bar>s\<bar> \<le> 2 ^ 42", OF _ x' assms(2)] step by blast
  ultimately show thesis by (rule that)
qed

lemma east_ends:
  assumes "\<bar>prev\<bar> \<le> 2 ^ 41" "\<bar>x\<bar> \<le> 2 ^ 42" "x < prev + 181"
  obtains x' n where "while_option (\<lambda>x. fsub x prev < - 180) turn_east x = Some x'" "x' = (turn_east ^^ n) x"
    "\<bar>x' - prev\<bar> < 181"
proof -
  have step: "(\<bar>turn_east s\<bar> \<le> 2 ^ 42 \<and> turn_east s < prev + 181) \<and> nat \<lceil>prev - turn_east s\<rceil> < nat \<lceil>prev - s\<rceil>"
    if "\<bar>s\<bar> \<le> 2 ^ 42 \<and> s < prev + 181" "fsub s prev < - 180" for s
  proof -
    have far: "s - prev < - 180" using that(2) turns_float(2) unfolding fsub_def by (rule fl_below)
    have "\<bar>s + 360\<bar> \<le> 2 ^ 43" using conjunct1 [OF that(1)] by simp
    from fl_near [OF this] have near: "s + 359 \<le> turn_east s" "turn_east s \<le> s + 361"
      unfolding turn_east_def fadd_def by linarith+
    then have "\<lceil>prev - turn_east s\<rceil> < \<lceil>prev - s\<rceil>" "0 < \<lceil>prev - s\<rceil>" using far by linarith+
    moreover have "\<bar>turn_east s\<bar> \<le> 2 ^ 42" "turn_east s < prev + 181"
      using near far that(1) assms(1) by simp_all
    ultimately show ?thesis by simp
  qed
  from measure_while_option_Some [where P = "\<lambda>s. \<bar>s\<bar> \<le> 2 ^ 42 \<and> s < prev + 181" and b = "\<lambda>x. fsub x prev < - 180"
      and c = turn_east and f = "\<lambda>s. nat \<lceil>prev - s\<rceil>" and s = x, OF step] assms(2,3)
  obtain x' where x': "while_option (\<lambda>x. fsub x prev < - 180) turn_east x = Some x'" by auto
  moreover obtain n where "x' = (turn_east ^^ n) x" using while_option_stop2 [OF x'] by auto
  moreover have "prev - 181 < x'"
    using while_option_stop [OF x'] binary64.rnd_le [of "x' - prev" "- 181"] turns_float(4)
    unfolding fsub_def is_float_def by linarith
  moreover have "x' < prev + 181"
    using while_option_rule [where P = "\<lambda>s. \<bar>s\<bar> \<le> 2 ^ 42 \<and> s < prev + 181", OF _ x'] step assms(2,3) by blast
  ultimately show thesis by (intro that) (auto simp: abs_less_iff)
qed

text \<open>A longitude turned west and then east some number of times.\<close>

definition turned :: "rat \<Rightarrow> rat \<Rightarrow> bool" where
  "turned x x' \<longleftrightarrow> (\<exists>m n. x' = (turn_east ^^ n) ((turn_west ^^ m) x))"

lemma next_longitude_near:
  assumes "\<bar>prev\<bar> \<le> 2 ^ 41" "\<bar>x\<bar> \<le> 2 ^ 41"
  obtains x' where "next_longitude prev x = Some x'" "\<bar>x' - prev\<bar> < 181" "turned x x'"
proof -
  have "\<bar>x\<bar> \<le> 2 ^ 42" using assms(2) by simp
  with assms(1) obtain w m where w: "while_option (\<lambda>x. 180 < fsub x prev) turn_west x = Some w"
    "w = (turn_west ^^ m) x" "w < prev + 181" "\<bar>w\<bar> \<le> 2 ^ 42" by (rule west_ends)
  from east_ends [OF assms(1) w(4,3)] obtain x' n where e: "while_option (\<lambda>x. fsub x prev < - 180) turn_east w = Some x'"
    "x' = (turn_east ^^ n) w" "\<bar>x' - prev\<bar> < 181" .
  show thesis
    by (rule that [of x']) (use w e in \<open>auto simp: next_longitude_def turned_def\<close>)
qed

lemma unwrap_from_near:
  "\<bar>prev\<bar> + 181 * of_nat (length r) \<le> 2 ^ 41 \<Longrightarrow> \<forall>p\<in>set r. \<bar>fst p\<bar> \<le> 2 ^ 41
   \<Longrightarrow> \<exists>out. unwrap_from prev r = Some out \<and> list_all2 (\<lambda>p p'. snd p' = snd p \<and> turned (fst p) (fst p')) r out
        \<and> successively (\<lambda>p q. \<bar>fst q - fst p\<bar> < 181) ((prev, y) # out)"
proof (induction r arbitrary: prev y)
  case (Cons p r)
  obtain x z where p: "p = (x, z)" by fastforce
  have "\<bar>prev\<bar> \<le> 2 ^ 41" "\<bar>x\<bar> \<le> 2 ^ 41" using Cons.prems p by simp_all
  then obtain x' where x': "next_longitude prev x = Some x'" "\<bar>x' - prev\<bar> < 181" "turned x x'"
    by (rule next_longitude_near)
  have "\<bar>x'\<bar> + 181 * of_nat (length r) \<le> 2 ^ 41" using Cons.prems(1) x'(2) by (simp add: algebra_simps)
  with Cons.IH [of x' z] Cons.prems(2) obtain out where "unwrap_from x' r = Some out"
    "list_all2 (\<lambda>p p'. snd p' = snd p \<and> turned (fst p) (fst p')) r out"
    "successively (\<lambda>p q. \<bar>fst q - fst p\<bar> < 181) ((x', z) # out)" by auto
  with x' show ?case by (intro exI [of _ "(x', z) # out"]) (simp add: p)
qed simp

lemma turned_not: "turned x x"
  unfolding turned_def by (rule exI [of _ 0], rule exI [of _ 0]) simp

text \<open>
  C34. Unwrapping a ring ends: for any ring of up to 2^30 points with longitudes up to 2^40 degrees, in binary64 arithmetic
  with all its rounding, both loops stop at every point. The result starts where the ring does, keeps every
  latitude, moves longitudes by whole turns only (as the floats add them), and has no jump of 181 degrees or
  more left: a ring that crosses the date line is not read as a band around the globe.
\<close>

theorem unwrap_near:
  assumes "ring \<noteq> []" "\<forall>p\<in>set ring. \<bar>fst p\<bar> \<le> 2 ^ 40" "length ring \<le> 2 ^ 30"
  shows "\<exists>out. unwrap ring = Some out \<and> hd out = hd ring
           \<and> list_all2 (\<lambda>p p'. snd p' = snd p \<and> turned (fst p) (fst p')) ring out
           \<and> successively (\<lambda>p q. \<bar>fst q - fst p\<bar> < 181) out"
proof -
  obtain x y r where ring: "ring = (x, y) # r" using assms(1) by (cases ring) auto
  have "length r \<le> 2 ^ 30" using assms(3) ring by simp
  then have "of_nat (length r) \<le> (of_nat (2 ^ 30) :: rat)" by (simp only: of_nat_le_iff)
  then have "\<bar>x\<bar> + 181 * of_nat (length r) \<le> 2 ^ 41" using assms(2) ring by simp
  moreover have "\<forall>p\<in>set r. \<bar>fst p\<bar> \<le> 2 ^ 41" using assms(2) ring by fastforce
  ultimately obtain out where "unwrap_from x r = Some out"
    "list_all2 (\<lambda>p p'. snd p' = snd p \<and> turned (fst p) (fst p')) r out"
    "successively (\<lambda>p q. \<bar>fst q - fst p\<bar> < 181) ((x, y) # out)" using unwrap_from_near [of x r y] by blast
  then show ?thesis by (simp add: ring unwrap_def turned_not)
qed

theorem unwrap_near_witness:
  "\<exists>out. unwrap [(179, 10), (- 179, 10), (178, 12)] = Some out \<and> hd out = (179, 10)
     \<and> successively (\<lambda>p q. \<bar>fst q - fst p\<bar> < 181) out"
  using unwrap_near [of "[(179, 10), (- 179, 10), (178, 12)]"] by auto

text \<open>A ring without a jump is kept as it is.\<close>

lemma next_longitude_same: "\<bar>fsub x prev\<bar> \<le> 180 \<Longrightarrow> next_longitude prev x = Some x"
proof -
  assume "\<bar>fsub x prev\<bar> \<le> 180"
  then have near: "\<not> 180 < fsub x prev" "\<not> fsub x prev < - 180" by linarith+
  have "while_option (\<lambda>x. 180 < fsub x prev) turn_west x = Some x"
    using near by (subst while_option_unfold) simp
  moreover have "while_option (\<lambda>x. fsub x prev < - 180) turn_east x = Some x"
    using near by (subst while_option_unfold) simp
  ultimately show ?thesis by (simp add: next_longitude_def)
qed

lemma unwrap_same:
  assumes "ring \<noteq> []" "successively (\<lambda>p q. \<bar>fsub (fst q) (fst p)\<bar> \<le> 180) ring"
  shows "unwrap ring = Some ring"
proof -
  have "successively (\<lambda>p q. \<bar>fsub (fst q) (fst p)\<bar> \<le> 180) ((prev, y) # r) \<Longrightarrow> unwrap_from prev r = Some r" for prev y r
  proof (induction r arbitrary: prev y)
    case (Cons p r)
    obtain x z where "p = (x, z)" by fastforce
    with Cons.IH [of x z] Cons.prems show ?case by (simp add: next_longitude_same)
  qed simp
  with assms show ?thesis by (cases ring) (auto simp: unwrap_def)
qed

text \<open>The date line: a step from 179 degrees east to 179 west becomes one of two degrees.\<close>

lemma date_line: "unwrap [(179, 10), (- 179, 10), (178, 12)] = Some [(179, 10), (181, 10), (178, 12)]"
  by code_simp

section \<open>Ray casting\<close>

lemma fl_eq_zero [simp]: "fl x = 0 \<longleftrightarrow> x = 0"
proof
  assume z: "fl x = 0"
  show "x = 0"
  proof (rule ccontr)
    assume "x \<noteq> 0"
    then consider "0 < x" | "0 < - x" by linarith
    then show False by cases (use z binary64.rnd_pos [of x] binary64.rnd_pos [of "- x"] in \<open>simp_all add: binary64.rnd_minus\<close>)
  qed
qed (simp add: binary64.rnd_zero)

lemma no_zero_division: "(y < yi) \<noteq> (y < yj) \<Longrightarrow> fsub yj yi \<noteq> 0"
  by (auto simp: fsub_def)

lemma cast_ray_append: "cast_ray q (xs @ ys) x y h = cast_ray (last (q # xs)) ys x y (cast_ray q xs x y h)"
  by (induction xs arbitrary: q h) auto

lemma cast_ray_not [simp]: "cast_ray q r x y (\<not> h) = (\<not> cast_ray q r x y h)"
  by (induction r arbitrary: q h) auto

lemma cast_ray_True [simp]: "cast_ray q r x y True = (\<not> cast_ray q r x y False)"
  using cast_ray_not [of q r x y False] by simp

text \<open>The answer does not depend on the corner at which the ring starts.\<close>

lemma inside_rotate: "inside (rotate1 ring) = inside ring"
proof (cases ring)
  case (Cons p r)
  then show ?thesis by (intro ext) (auto simp: inside_def cast_ray_append)
qed simp

text \<open>A rectangle holds its western and southern sides but not the other two, without any rounding error.\<close>

lemma inside_rectangle:
  assumes "is_float x0" "is_float x1" "x0 < x1" "y0 < y1"
  shows "inside [(x0, y0), (x1, y0), (x1, y1), (x0, y1)] x y \<longleftrightarrow> x0 \<le> x \<and> x < x1 \<and> y0 \<le> y \<and> y < y1"
  using assms by (auto simp: inside_def crosses_def binary64.rnd_zero)

text \<open>No ring holds a point north or south of all its corners.\<close>

lemma outside_band:
  assumes "(\<forall>p\<in>set ring. y < snd p) \<or> (\<forall>p\<in>set ring. snd p \<le> y)"
  shows "\<not> inside ring x y"
proof -
  have "cast_ray q r x y h = h" if "set (q # r) \<subseteq> set ring" for q r h
    using that assms by (induction r arbitrary: q h) (auto simp: crosses_def not_less)
  from this [of "last ring" ring False] show ?thesis by (auto simp: inside_def)
qed

section \<open>The dots\<close>

definition lat_loop :: "(rat \<times> rat list) option" where
  "lat_loop = while_option (\<lambda>(lat, ls). lat < 90) (\<lambda>(lat, ls). (fadd lat grid_step, ls @ [lat])) (fadd (- 90) (fl (grid_step / 2)), [])"

lemma dots_by_row: "globe_dots cos_of polys = map_option (\<lambda>(lat, ls). concat (map (row_dots cos_of polys) ls)) lat_loop"
proof -
  have "map_option (\<lambda>(lat, ls). (lat, concat (map (row_dots cos_of polys) ls))) lat_loop
    = while_option (\<lambda>(lat, flat). lat < 90) (\<lambda>(lat, flat). (fadd lat grid_step, flat @ row_dots cos_of polys lat))
       ((\<lambda>(lat, ls). (lat, concat (map (row_dots cos_of polys) ls))) (fadd (- 90) (fl (grid_step / 2)), []))"
    unfolding lat_loop_def by (rule while_option_commute) auto
  then have "globe_dots cos_of polys = map_option snd (map_option (\<lambda>(lat, ls). (lat, concat (map (row_dots cos_of polys) ls))) lat_loop)"
    by (simp only: globe_dots_def case_prod_conv list.map concat.simps)
  then show ?thesis by (simp only: option.map_comp) (simp add: comp_def case_prod_unfold)
qed

text \<open>The latitudes stay within a thousandth of a degree of the exact ones, so none is the excluded bound itself.\<close>

lemma row_bounds:
  fixes c l :: rat
  shows "(22 / 10 * c - 889 / 10) \<le> l + 1 / 1000 \<Longrightarrow> 0 \<le> c \<Longrightarrow> - 90 < l"
    "(22 / 10 * c - 889 / 10) \<le> l + 1 / 1000 \<Longrightarrow> 15 \<le> c \<Longrightarrow> l \<noteq> - 58"
    "l \<le> (22 / 10 * c - 889 / 10) + 1 / 1000 \<Longrightarrow> c \<le> 14 \<Longrightarrow> l \<noteq> - 58"
    "(22 / 10 * c - 889 / 10) \<le> l + (1 / 1000000 + c / 1000000) \<Longrightarrow> l < 90 \<Longrightarrow> c < 82"
    "(22 / 10 * c - 889 / 10) \<le> l + (1 / 1000000 + c / 1000000) \<Longrightarrow> 0 \<le> c \<Longrightarrow> - 90 < l"
  by linarith+

lemma abs_near: "\<bar>a - b\<bar> \<le> c \<Longrightarrow> a \<le> b + c" "\<bar>a - b\<bar> \<le> c \<Longrightarrow> b \<le> a + (c :: rat)"
  by linarith+

definition near_row :: "rat \<Rightarrow> bool" where
  "near_row l \<longleftrightarrow> (\<exists>k. k < 82 \<and> \<bar>l - (22 / 10 * of_nat k - 889 / 10)\<bar> \<le> 1 / 1000)"

lemma near_rowD: "near_row l \<Longrightarrow> - 90 < l \<and> l \<noteq> - 58"
proof -
  assume "near_row l"
  then obtain k :: nat where "\<bar>l - (22 / 10 * of_nat k - 889 / 10)\<bar> \<le> 1 / 1000" by (auto simp: near_row_def)
  note k = abs_near [OF this]
  have "- 90 < l" using k(2) by (rule row_bounds(1)) simp
  moreover have "l \<noteq> - 58"
  proof (cases "k \<le> 14")
    case True
    then have "(of_nat k :: rat) \<le> 14" by (metis of_nat_le_iff of_nat_numeral)
    with k(1) show ?thesis by (rule row_bounds(3))
  next
    case False
    then have "(15 :: rat) \<le> of_nat k" by (metis not_less_eq_eq of_nat_le_iff of_nat_numeral Suc_numeral semiring_norm(2,5,8))
    with k(2) show ?thesis by (rule row_bounds(2))
  qed
  ultimately show ?thesis by simp
qed

definition on_schedule :: "rat \<times> rat list \<Rightarrow> bool" where
  "on_schedule s \<longleftrightarrow> (case s of (lat, ls) \<Rightarrow>
     \<bar>lat - (22 / 10 * of_nat (length ls) - 889 / 10)\<bar> \<le> (1 / 1000000 + of_nat (length ls) / 1000000)
     \<and> length ls \<le> 82 \<and> list_all (\<lambda>l. near_row l \<and> l < 90) ls)"

lemma step_near: "\<bar>grid_step - 22 / 10\<bar> \<le> 1 / 10000000"
  by code_simp

lemma schedule_step:
  assumes "on_schedule (lat, ls)" "lat < 90"
  shows "on_schedule (fadd lat grid_step, ls @ [lat]) \<and> lat + 1 \<le> fadd lat grid_step"
proof -
  let ?k = "of_nat (length ls) :: rat"
  have lat: "\<bar>lat - (22 / 10 * ?k - 889 / 10)\<bar> \<le> (1 / 1000000 + ?k / 1000000)" and ls: "list_all (\<lambda>l. near_row l \<and> l < 90) ls"
    "length ls \<le> 82" using assms(1) by (simp_all add: on_schedule_def)
  note near = abs_near [OF lat] abs_near [OF step_near]
  have "?k < 82" using near(2) assms(2) by (rule row_bounds(4))
  then have k: "length ls < 82" by (metis of_nat_less_iff of_nat_numeral)
  have "near_row lat" unfolding near_row_def using lat \<open>?k < 82\<close> k by (intro exI [of _ "length ls"]) simp
  have "\<bar>lat + grid_step\<bar> \<le> 100" using row_bounds(5) [OF near(2) of_nat_0_le_iff] near(3,4) assms(2) by linarith
  then have "\<bar>lat + grid_step\<bar> / 2 ^ 53 \<le> 1 / 10000000" by simp
  then have "\<bar>fadd lat grid_step - (lat + grid_step)\<bar> \<le> 1 / 10000000"
    using fl_error [of "lat + grid_step"] unfolding fadd_def by linarith
  then have "\<bar>fadd lat grid_step - (22 / 10 + 22 / 10 * ?k - 889 / 10)\<bar> \<le> (2 / 1000000 + ?k / 1000000)" "lat + 1 \<le> fadd lat grid_step"
    using near by linarith+
  then show ?thesis using k ls \<open>near_row lat\<close> assms(2) by (simp add: on_schedule_def distrib_left add_divide_distrib)
qed

lemma first_latitude: "on_schedule (fadd (- 90) (fl (grid_step / 2)), [])"
proof -
  have "\<bar>fadd (- 90) (fl (grid_step / 2)) - (22 / 10 * 0 - 889 / 10)\<bar> \<le> (1 / 1000000 + 0 / 1000000)" by code_simp
  then show ?thesis by (simp add: on_schedule_def)
qed

lemma lat_loop_ends:
  obtains lat ls where "lat_loop = Some (lat, ls)" "list_all (\<lambda>l. near_row l \<and> l < 90) ls" "length ls \<le> 82"
proof -
  have "\<exists>t. lat_loop = Some t"
    unfolding lat_loop_def
  proof (rule measure_while_option_Some [where P = on_schedule and f = "\<lambda>(lat, ls). nat \<lceil>90 - lat\<rceil>"], goal_cases)
    case (1 s)
    obtain lat ls where s: "s = (lat, ls)" by fastforce
    with 1 have *: "on_schedule (fadd lat grid_step, ls @ [lat])" "lat + 1 \<le> fadd lat grid_step" "lat < 90"
      using schedule_step [of lat ls] by auto
    then have "\<lceil>90 - fadd lat grid_step\<rceil> < \<lceil>90 - lat\<rceil>" "0 < \<lceil>90 - lat\<rceil>" by linarith+
    with *(1) show ?case by (simp add: s)
  qed (rule first_latitude)
  then obtain t where t: "lat_loop = Some t" ..
  have "on_schedule t"
  proof (rule while_option_rule [where P = on_schedule, OF _ t [unfolded lat_loop_def] first_latitude])
    show "on_schedule (case s of (lat, ls) \<Rightarrow> (fadd lat grid_step, ls @ [lat]))"
      if "on_schedule s" "case s of (lat, ls) \<Rightarrow> lat < 90" for s
      using that schedule_step by (cases s) auto
  qed
  with t show thesis by (intro that [of "fst t" "snd t"]) (auto simp: on_schedule_def)
qed

text \<open>The grid has no effect on polygons south of the bound: leaving Antarctica out only saves time.\<close>

definition reaches_north :: "polygon \<Rightarrow> bool" where
  "reaches_north poly = (case poly of (rings, x0, y0, x1, y1) \<Rightarrow> min_lat < y1)"

lemma on_land_north: "min_lat < y \<Longrightarrow> on_land (filter reaches_north polys) x y = on_land polys x y"
  by (induction polys) (auto simp: on_land_def in_polygon_def reaches_north_def)

lemma row_dots_north: "lat \<noteq> - 58 \<Longrightarrow> row_dots cos_of (filter reaches_north polys) lat = row_dots cos_of polys lat"
  by (auto simp: row_dots_def min_lat_def Let_def on_land_north intro!: map_cong filter_cong)

lemma antarctica_skipped: "build_globe cos_of topo = Option.bind (polygons topo) (globe_dots cos_of)"
proof -
  obtain lat ls where l: "lat_loop = Some (lat, ls)" "list_all (\<lambda>l. near_row l \<and> l < 90) ls" by (rule lat_loop_ends)
  then have "globe_dots cos_of (filter reaches_north polys) = globe_dots cos_of polys" for polys
    unfolding dots_by_row l(1) by (auto simp: list_all_iff dest!: near_rowD intro!: arg_cong [where f = concat] map_cong row_dots_north)
  then show ?thesis unfolding build_globe_def reaches_north_def [abs_def, symmetric] by (cases "polygons topo") simp_all
qed

lemma fl_le_int: "x \<le> of_int m \<Longrightarrow> \<bar>m\<bar> < 2 ^ 53 \<Longrightarrow> fl x \<le> of_int m"
  using binary64.rnd_le [of x "of_int m"] by (simp add: fl_of_int)

lemma fl_ge_int: "of_int m \<le> x \<Longrightarrow> \<bar>m\<bar> < 2 ^ 53 \<Longrightarrow> of_int m \<le> fl x"
  using binary64.rnd_le [of "of_int m" x] by (simp add: fl_of_int)

lemma round_places_between:
  assumes "of_int a \<le> x" "x \<le> of_int b" "\<bar>a\<bar> < 2 ^ 53" "\<bar>b\<bar> < 2 ^ 53"
  shows "of_int a \<le> round_places k x" "round_places k x \<le> of_int b"
proof -
  have "round_half_even (of_int (a * 10 ^ k)) \<le> round_half_even (x * 10 ^ k)"
    "round_half_even (x * 10 ^ k) \<le> round_half_even (of_int (b * 10 ^ k))"
    using assms(1,2) by (auto intro!: round_half_even_mono)
  then have "a * 10 ^ k \<le> round_half_even (x * 10 ^ k)" "round_half_even (x * 10 ^ k) \<le> b * 10 ^ k"
    by (simp_all only: round_half_even_of_int)
  then have "(of_int (a * 10 ^ k) :: rat) \<le> of_int (round_half_even (x * 10 ^ k))"
    "(of_int (round_half_even (x * 10 ^ k)) :: rat) \<le> of_int (b * 10 ^ k)" by (simp_all only: of_int_le_iff)
  then have "of_int a \<le> (of_int (round_half_even (x * 10 ^ k)) / 10 ^ k :: rat)"
    "(of_int (round_half_even (x * 10 ^ k)) / 10 ^ k :: rat) \<le> of_int b" by (simp_all add: field_simps)
  then show "of_int a \<le> round_places k x" "round_places k x \<le> of_int b"
    unfolding round_places_def using assms(3,4) by (simp_all add: fl_le_int fl_ge_int)
qed

lemma dots_in_row_bounds:
  assumes "cos_of lat \<le> 1"
  shows "1 \<le> dots_in_row cos_of lat" "dots_in_row cos_of lat \<le> 164"
proof -
  have s: "0 \<le> fl (360 / grid_step)" "fl (360 / grid_step) \<le> 164" by code_simp+
  have "fl (360 / grid_step) * cos_of lat \<le> of_int 164"
    using mult_left_mono [OF assms s(1)] s(2) by simp
  then have "fmul (fl (360 / grid_step)) (cos_of lat) \<le> of_int 164" unfolding fmul_def by (rule fl_le_int) simp
  then have "round_half_even (fmul (fl (360 / grid_step)) (cos_of lat)) \<le> round_half_even (of_int 164)"
    by (rule round_half_even_mono)
  then show "1 \<le> dots_in_row cos_of lat" "dots_in_row cos_of lat \<le> 164"
    unfolding round_half_even_of_int dots_in_row_def by simp_all
qed

lemma dot_longitude_bounds:
  assumes "1 \<le> n" "n \<le> 164" "k < nat n"
  shows "- 180 \<le> dot_longitude n k" "dot_longitude n k \<le> 180"
proof -
  have "int k + 1 \<le> n" using assms by linarith
  then have "(of_int (int k + 1) :: rat) \<le> of_int n" by (simp only: of_int_le_iff)
  then have k: "(of_nat k + 1 / 2) * 360 \<le> (of_int (n * 360) :: rat)" by (simp add: field_simps)
  have p: "fmul (of_nat k + 1 / 2) 360 \<le> of_int (n * 360)" "of_int 0 \<le> fmul (of_nat k + 1 / 2) 360"
    unfolding fmul_def using assms(1,2) k by (intro fl_le_int fl_ge_int; simp)+
  then have "fmul (of_nat k + 1 / 2) 360 / of_int n \<le> of_int 360" "of_int 0 \<le> fmul (of_nat k + 1 / 2) 360 / of_int n"
    using assms(1) by (simp_all add: divide_le_eq)
  then have "fl (fmul (of_nat k + 1 / 2) 360 / of_int n) \<le> of_int 360" "of_int 0 \<le> fl (fmul (of_nat k + 1 / 2) 360 / of_int n)"
    by (intro fl_le_int fl_ge_int; simp)+
  then have "- 180 + fl (fmul (of_nat k + 1 / 2) 360 / of_int n) \<le> of_int 180"
    "of_int (- 180) \<le> - 180 + fl (fmul (of_nat k + 1 / 2) 360 / of_int n)" by simp_all
  then have "fadd (- 180) (fl (fmul (of_nat k + 1 / 2) 360 / of_int n)) \<le> of_int 180"
    "of_int (- 180) \<le> fadd (- 180) (fl (fmul (of_nat k + 1 / 2) 360 / of_int n))"
    unfolding fadd_def by (intro fl_le_int fl_ge_int; simp)+
  then show "- 180 \<le> dot_longitude n k" "dot_longitude n k \<le> 180" by (simp_all add: dot_longitude_def)
qed

text \<open>What a dot is: the rounding of a sample on land, within the map.\<close>

definition land_dot :: "polygon list \<Rightarrow> point \<Rightarrow> bool" where
  "land_dot polys d \<longleftrightarrow> (\<exists>x y. on_land polys x y \<and> d = (round_places 1 x, round_places 1 y))
     \<and> - 180 \<le> fst d \<and> fst d \<le> 180 \<and> - 58 \<le> snd d \<and> snd d \<le> 90"

lemma row_dots_land:
  assumes "cos_of lat \<le> 1" "lat < 90" "d \<in> set (row_dots cos_of polys lat)"
  shows "land_dot polys d"
proof -
  let ?n = "dots_in_row cos_of lat"
  obtain k where k: "k < nat ?n" "on_land polys (dot_longitude ?n k) lat" "min_lat \<le> lat"
    "d = (round_places 1 (dot_longitude ?n k), round_places 1 lat)"
    using assms(3) by (auto simp: row_dots_def Let_def split: if_splits)
  note lon = dot_longitude_bounds [OF dots_in_row_bounds [of cos_of lat, OF assms(1)] k(1)]
  have "of_int (- 180) \<le> dot_longitude ?n k" "dot_longitude ?n k \<le> of_int 180" "of_int (- 58) \<le> lat" "lat \<le> of_int 90"
    using lon k(3) assms(2) by (simp_all add: min_lat_def)
  note b = round_places_between [OF this(1,2), of 1] round_places_between [OF this(3,4), of 1]
  show ?thesis using k(2,4) b by (auto simp: land_dot_def)
qed

lemma globe_dots_on_land:
  assumes "\<forall>l. cos_of l \<le> 1" "polygons topo = Some polys"
  shows "\<exists>dots. build_globe cos_of topo = Some dots \<and> list_all (land_dot polys) dots"
proof -
  obtain lat ls where l: "lat_loop = Some (lat, ls)" "list_all (\<lambda>l. near_row l \<and> l < 90) ls" by (rule lat_loop_ends)
  have "build_globe cos_of topo = Some (concat (map (row_dots cos_of polys) ls))"
    by (simp add: antarctica_skipped assms(2) dots_by_row l(1))
  moreover have "list_all (land_dot polys) (concat (map (row_dots cos_of polys) ls))"
    using l(2) assms(1) row_dots_land by (fastforce simp: list_all_iff)
  ultimately show ?thesis by blast
qed

end
