(* ===== verification/Spec2Isabelle.thy ===== *)
theory Spec2Isabelle
  imports Progress Locks Swarm PerfFiles GlobeLand
begin

text \<open>
  Verification library of the XRPL-based remittance platform (the web application and workers under
  \<open>src/app/\<close>). A sender in South Africa books a remittance in ZAR; an admin confirms the mock
  cash-in; a worker pays UCTUSD tokens from the treasury to the recipient's XRPL wallet and credits
  the wallet row; the recipient requests a cash-out, an admin approves it, which reserves the
  balance, and a second worker burns the tokens, or restores the reserve when they provably did not
  move.

  HOW THE MODEL READS. The database is one record \<open>db\<close> of tables, each a list of rows; a table's
  row is a record with the columns of its class in \<open>app/models/\<close>. An operation takes the current
  time, fresh identifiers and the database, and returns \<open>exn + result\<close> with the database it
  committed; a rollback returns the database unchanged. SQLAlchemy keeps the instances a session has
  loaded, so an operation that uses an earlier load takes that row (or the earlier database, \<open>seen\<close>)
  as an argument beside the current database: a lock that does not refresh the instance is
  \<open>for_update\<close>. What is outside the repository is an argument: password hashing, the XRPL client
  (each call is the outcome it had: signed, raised, submitted, a reply), seed encryption, the key
  generator, the queue's acceptance of a message, the clock. A worker may stop at any commit; the
  argument naming the point of interruption ranges over all of them.

  THEORIES, in the order they build on one another.

  Prelude: results and their sequencing, value types, list lemmas, the three \<open>named_theorems\<close>
  collections. PyDecimal: Python's decimal arithmetic (context of 28 digits, half-even; \<open>quantize\<close>
  half-up with its InvalidOperation; NaN and infinities; \<open>Numeric(p, s)\<close> columns). Its locale
  \<open>rounding\<close> and the extension \<open>unit_rounding\<close> carry the order and error facts, interpreted for the
  context and for each grid; \<open>digit_rounding\<close> is rounding to a number of digits in any base, interpreted for the
  28 decimal digits and, in PyFloat, for the 53 bits of a float. PyFloat: binary64 arithmetic, \<open>float()\<close>,
  \<open>round()\<close>, the formats and the shortest decimal of a float, as the scripts and the report use them. PyText: \<open>strip\<close>, \<open>lower\<close>, \<open>int()\<close>, \<open>Decimal()\<close> parsing and printing on
  8-bit strings. Tables: conditional UPDATE with RETURNING, lookup, ordering; the locales
  \<open>row_change\<close> and \<open>guarded_change\<close> state the contract of an UPDATE (keys kept, at most one row,
  a second run finds nothing), interpreted for every transition of every component. Calendar:
  \<open>datetime\<close> dates as day numbers, both directions, and the day of an instant in the display zone.

  Models: \<open>app/models/*.py\<close>, the exceptions, the display labels. Fx: \<open>services/fx_service.py\<close>.
  SendLimits: \<open>services/limit_service.py\<close>. Kyc: \<open>services/kyc_service.py\<close> and the submit route of
  \<open>routers/kyc.py\<close>. Auth: \<open>services/auth_service.py\<close>, \<open>require_admin\<close>, registration. Beneficiaries:
  \<open>services/beneficiary_service.py\<close>. Xrpl: \<open>services/xrpl_service.py\<close>, result classification, amounts,
  ledger ranges, wallets. Settlement: \<open>workers/settlement_worker.py\<close>. Burn:
  \<open>workers/cashout_worker.py\<close>. CashIn with Retry: \<open>services/cashin_service.py\<close>, Retry holding what its
  transitions promise. CashOut with Reserve: \<open>services/cashout_service.py\<close>, Reserve holding the
  money lemmas. Ledger: the abstract ledger behind the evidence both services ask for. Jobs:
  \<open>services/queue_service.py\<close>, the entry points of the workers, the sweeps of \<open>main.py\<close>.

  Pages, Flows, Tracking, AdminPages: every route of \<open>app/routers/\<close> as a function from the signed-in
  user, the form and the database to a response and the database: redirect target, template and
  status, HTTP error, or the exception that escapes as a 500. Pages: \<open>auth.py\<close>, \<open>sender.py\<close>,
  \<open>kyc.py\<close>, \<open>beneficiaries.py\<close>, \<open>public.py\<close>, with \<open>errors.py\<close>, \<open>dependencies.py\<close> and
  \<open>scripts/seed_admin.py\<close>. Flows: \<open>transactions.py\<close>. Tracking: \<open>cashout.py\<close>, \<open>wallet.py\<close>,
  \<open>status.py\<close>. AdminPages: \<open>admin.py\<close>.

  Book: the abstract specification, an account book of entries, orders and accounts whose only
  movements are those of \<open>book_step\<close>, and its conservation law. Commits: the step relation \<open>commit\<close>,
  one rule per database transaction of the services and workers above, and the refinement of the
  book. Runs: a whole settlement or burn job is a run of commits. Progress: with a ledger and a
  database that answer, a confirmed remittance and an approved cash-out are carried to their end.
  Locks: workers, clock, leases and job time-outs around the treasury lock as a step relation. This
  theory: reachable states and what holds in all of them.

  Display: the style guide of \<open>routers/dev.py\<close> and what the pages share besides the routes: \<open>templating.py\<close> (local times, versioned asset
  links), the session and its flash message, the user of an error page, and \<open>security/crypto.py\<close> over a
  Fernet implementation given as an argument.

  Checkout: from the page to the post: the hidden price fields of the pay page and of the cash-out
  review, what becomes of them when they are sent back, and the simulated users of
  \<open>perf/locustfile.py\<close>, who read them off the page.

  Schema, Migrations: a model of the DDL that \<open>migrations/versions/*.py\<close> and \<open>app/models/\<close> use, with
  what PostgreSQL refuses; every revision as its list of statements; the tables the models declare;
  the database a new installation starts with. Schema also has a checker, proved sound, for a list of
  statements being undone by another.

  LoadTest, PerfState, PerfRun: the load-test harness \<open>perf/\<close>. LoadTest: \<open>seed_data.py\<close>, the two
  replacements of \<open>perf_worker.py\<close>, \<open>backlog.py\<close>, the counts of \<open>sampler.py\<close>, the accounts
  \<open>locustfile.py\<close> hands out. PerfState: the database each measurement starts from and the outcomes it
  ends with. PerfRun: the parameters, the guard on the targets, the sub-runs with their child
  processes, and the session of \<open>run_all.py\<close>. Swarm: how a simulated user of \<open>locustfile.py\<close> claims an account,
  logs in and finds its beneficiary. PerfReport: a row of \<open>sampler.py\<close>, and \<open>analyze.py\<close>: the figures, the
  series of the charts, the tables and the report as a whole. PerfFiles: the files of a session: preflight, clearing
  old results, tracebacks in the logs, the origin of the ledger timings, the manifest, Locust's last rewrite.

  LedgerScripts: \<open>check_currency.py\<close>, \<open>xrpl_smoke.py\<close> and \<open>measure_xrpl.py\<close>, over a record of the client library's
  calls and the laws the ledger documents, with a small ledger that has them. GlobeLand: \<open>build_globe_land.py\<close>, from
  arcs to dots, in float arithmetic.

  WHAT THE LEMMAS SHOW. Per operation: what it writes on each branch, and the frame (the tables it
  leaves alone). Per component: its invariant and that every operation keeps it. Across components:
  conservation of money, the refinement of the book, forward-only states, at most one payment and
  one burn per row, evidence before any resend or restore, the price lock between what a page showed
  and what is stored, in both directions, delivery when nothing fails, one worker at a time under the treasury lock. Of the
  schema: every revision is undone by its downgrade, the head is what the models declare, a new
  installation can price and limit. Of the load test: it starts fresh, replaces only the ledger, and
  reports itself complete only when everything it set out to measure was measured; its report is produced for
  whatever the harness writes, and its figures are those of the database. Of the scripts: a smoke test that passes
  cost exactly its one payment; the loops of the globe end, and its dots are on land. Some lemmas state
  defects exactly, with a concrete state that has them: stale reads at two locks, a publish failure
  that restores a signed burn, a late validation that the reconcile takes for dead, unhandled
  exceptions in two forms, a purge the foreign keys refuse, a guard that compares spellings, a column that
  divides by the wrong row, a table lost with its first row, and timings lost when no payment is asked for.

  BOUNDS AND FUEL. Every definition is total, by structural recursion or a proved measure, with two exceptions.
  The loops over floats of GlobeLand are \<open>while_option\<close>, and \<open>unwrap_near\<close> and \<open>globe_dots_on_land\<close> prove that
  they return, the first for longitudes up to 2^40 and rings up to 2^30 points, far above the 360 degrees and the few
  thousand points of the data. The search for the shortest decimal of a float tries up to 17 digits, which
  always suffice for 53 bits. Floats have unbounded exponents, so overflow and subnormal numbers are not modelled;
  an infinity or NaN read from a file is \<open>None\<close>. Identifiers are the 128-bit numbers behind UUIDs, instants are microseconds.
  Amounts are exact rationals; each place where Python rounds is a call of the rounding function.

  ASSUMPTIONS. The display zone is a fixed offset from UTC, as the configured one is. Strings are
  8-bit characters, so the case mapping and digit tests of other alphabets are not modelled. An
  UPDATE and a commit are atomic; rows in SQL have no order except where the code asks for one.

  NOT MODELLED. Template rendering and message texts of the pages (the frontend); the engine and
  session factory (\<open>database.py\<close>); \<open>security/hashing.py\<close>, which passes on to bcrypt and is a function argument;
  response schemas without behaviour; what the scripts print, download and write; of the load test, the drawing
  of the charts, the prose and the metadata table of the report, the plain page views, the pacing and the printed summary of
  \<open>locustfile.py\<close>, the signal handler, and the environment recorded with a session except its memory; the tests.
  Row locks are modelled by what a locked read returns, not by blocking. In the settlement worker the Redis lock around the treasury is the argument saying whether it was
  acquired; theory Locks has its lease and its clock.
\<close>

section \<open>States the platform can reach\<close>

text \<open>
  An installation starts with accounts, tiers and fees but without payments, wallets or cash-outs;
  from there every commit of any request, job or sweep is a step.
\<close>

inductive reachable :: "settings \<Rightarrow> db \<Rightarrow> bool" for s where
  installed: "transactions d = [] \<Longrightarrow> wallets d = [] \<Longrightarrow> cashouts d = [] \<Longrightarrow> reachable s d"
| committed: "reachable s d \<Longrightarrow> commit s d d' \<Longrightarrow> reachable s d'"

definition settled_to :: "db \<Rightarrow> uuid \<Rightarrow> dec" where
  "settled_to d uid = (\<Sum>t\<leftarrow>transactions d.
     if t_settlement_status t = Settle_completed \<and> t_recipient_user_id t = Some uid then t_uctusd_amount t else 0)"

definition cashed_out :: "db \<Rightarrow> uuid \<Rightarrow> dec" where
  "cashed_out d uid = (\<Sum>c\<leftarrow>cashouts d.
     if c_status c \<in> {Out_approved, Out_completed} \<and> c_recipient_user_id c = uid then c_uctusd_amount c else 0)"

lemma sums_of_book: "credits (book_of d) uid = settled_to d uid" "debits (book_of d) uid = cashed_out d uid"
  by (simp_all add: credits_def debits_def credited_def taken_out_def settled_to_def cashed_out_def book_of_def
      entry_of_def order_of_def comp_def cong: if_cong)

lemma installed_sound:
  "transactions d = [] \<Longrightarrow> wallets d = [] \<Longrightarrow> cashouts d = [] \<Longrightarrow> sound d \<and> paid_first d"
  by (simp add: sound_def well_typed_def balances_ok_def unique_wallets_def shaped_def balanced_def paid_first_def
      book_of_def credits_def debits_def pending_def holdings_def)

lemma reachable_sound: "reachable s d \<Longrightarrow> sound d \<and> paid_first d"
proof (induction rule: reachable.induct)
  case (installed d)
  then show ?case by (rule installed_sound)
next
  case (committed d d')
  then show ?case using commit_sound commit_paid_first by blast
qed

lemma reachable_run: "run s d d' \<Longrightarrow> reachable s d \<Longrightarrow> reachable s d'"
  by (induction rule: rtranclp_induct) (auto intro: reachable.committed)

text \<open>What a run of commits keeps of the orders and the entries of the book.\<close>

lemma run_keeps:
  assumes "run s d d'" and "reachable s d"
  shows "forward (orders (book_of d)) (orders (book_of d'))" "remembered (entries (book_of d)) (entries (book_of d'))"
proof -
  have "forward (orders (book_of d)) (orders (book_of d')) \<and> remembered (entries (book_of d)) (entries (book_of d'))"
    using assms(1)
  proof (induction rule: rtranclp_induct)
    case (step d1 d2)
    have s1: "sound d1" "paid_first d1" using reachable_sound [OF reachable_run [OF step.hyps(1) assms(2)]] by simp_all
    then have "shaped (book_of d1)" by (simp add: sound_def)
    then have "forward (orders (book_of d1)) (orders (book_of d2)) \<and> remembered (entries (book_of d1)) (entries (book_of d2))"
      using commit_tracks [OF step.hyps(2) s1] forward_step remembered_step forward_refl remembered_refl
      by (auto simp: tracks_def)
    with step.IH show ?case using forward_trans remembered_trans by blast
  qed (simp add: forward_refl remembered_refl)
  then show "forward (orders (book_of d)) (orders (book_of d'))" "remembered (entries (book_of d)) (entries (book_of d'))"
    by simp_all
qed

section \<open>Properties of the platform\<close>





section \<open>A day on the platform\<close>

lemma shop_reachable: "reachable s shop_db"
  by (rule reachable.installed) (simp_all add: shop_db_def people_example_def limits_example_def empty_db_def)

text \<open>The example send is booked: a reachable state with a payment.\<close>

lemma booked_reachable:
  "\<exists>t d'. create_remittance example_settings 0 100 101 shop_db example_sender 40 (Fin 1000) shop_card shop_price = (Inr t, d')
     \<and> commit example_settings shop_db d' \<and> reachable example_settings d'"
proof -
  obtain t d' where r: "create_remittance example_settings 0 100 101 shop_db example_sender 40 (Fin 1000) shop_card shop_price
    = (Inr t, d')" using shop_booked by blast
  have "transactions shop_db = []" by (simp add: shop_db_def people_example_def limits_example_def empty_db_def)
  then have "commit example_settings shop_db d'" by (intro commit.Booked [OF r]) simp
  with r reachable.committed [OF shop_reachable] show ?thesis by blast
qed





end
